(* ===== verification/Prelude.thy ===== *)
theory Prelude
  imports Main "HOL-Library.Monad_Syntax"
begin

section \<open>Strings, integers and effects shared by every component\<close>

text \<open>
  The vocabulary of the development.

  \<^item> A Rust \<open>char\<close> is its Unicode scalar value, a \<open>nat\<close>; a Rust \<open>str\<close> is the list of its
    scalar values.  \<open>u ''..''\<close> writes an ASCII literal; other literals are lists of code
    points with a transliteration beside them.  \<open>utf8_len\<close> and \<open>utf16_len\<close> are the units
    \<open>str::len\<close> and \<open>encode_utf16().count()\<close> count.
  \<^item> \<open>i32\<close> and \<open>i64\<close> values are \<open>int\<close>s; where the code does arithmetic on them the model
    writes \<open>wrap_i32\<close> or \<open>wrap_i64\<close> (the release profile wraps), or \<open>in_i32\<close> for checked
    parsing and database arithmetic.
  \<^item> An \<open>async\<close> operation on a repository or a queue is a function from the state of the
    world to a result and the new state; \<open>bind_eff\<close> is the \<open>?\<close> operator: an error stops the
    computation and keeps the effects already made.
\<close>

named_theorems eff_simps \<open>unfolding the effect combinators\<close>
named_theorems str_simps \<open>evaluating string operations\<close>

subsection \<open>Characters and strings\<close>

type_synonym rchar = nat
type_synonym rstr = "rchar list"
type_synonym params = "(rstr \<times> rstr) list"

definition u :: "string \<Rightarrow> rstr" where
  "u s = map of_char s"

lemma u_simps [simp]: "u [] = []" "u (c # s) = of_char c # u s"
  by (simp_all add: u_def)

lemma u_append: "u (s @ t) = u s @ u t"
  by (simp add: u_def)

definition is_whitespace :: "rchar \<Rightarrow> bool" where
  "is_whitespace c \<longleftrightarrow> (9 \<le> c \<and> c \<le> 13) \<or> c = 32 \<or> c = 133 \<or> c = 160 \<or> c = 5760
     \<or> (8192 \<le> c \<and> c \<le> 8202) \<or> c = 8232 \<or> c = 8233 \<or> c = 8239 \<or> c = 8287 \<or> c = 12288"

definition is_control :: "rchar \<Rightarrow> bool" where
  "is_control c \<longleftrightarrow> c \<le> 31 \<or> (127 \<le> c \<and> c \<le> 159)"

definition is_ascii_digit :: "rchar \<Rightarrow> bool" where
  "is_ascii_digit c \<longleftrightarrow> 48 \<le> c \<and> c \<le> 57"

definition is_ascii_alphanumeric :: "rchar \<Rightarrow> bool" where
  "is_ascii_alphanumeric c \<longleftrightarrow> is_ascii_digit c \<or> (65 \<le> c \<and> c \<le> 90) \<or> (97 \<le> c \<and> c \<le> 122)"

definition ascii_lower :: "rchar \<Rightarrow> rchar" where
  "ascii_lower c = (if 65 \<le> c \<and> c \<le> 90 then c + 32 else c)"

definition to_ascii_lowercase :: "rstr \<Rightarrow> rstr" where
  "to_ascii_lowercase s = map ascii_lower s"

definition eq_ignore_ascii_case :: "rstr \<Rightarrow> rstr \<Rightarrow> bool" where
  "eq_ignore_ascii_case s t \<longleftrightarrow> to_ascii_lowercase s = to_ascii_lowercase t"

definition utf16_len :: "rstr \<Rightarrow> nat" where
  "utf16_len s = sum_list (map (\<lambda>c. if c < 65536 then 1 else 2) s)"

definition utf8_width :: "rchar \<Rightarrow> nat" where
  "utf8_width c = (if c < 128 then 1 else if c < 2048 then 2 else if c < 65536 then 3 else 4)"

definition utf8_len :: "rstr \<Rightarrow> nat" where
  "utf8_len s = sum_list (map utf8_width s)"

lemma utf16_len_simps [simp]:
  "utf16_len [] = 0" "utf16_len (c # s) = (if c < 65536 then 1 else 2) + utf16_len s"
  "utf16_len (s @ t) = utf16_len s + utf16_len t"
  by (simp_all add: utf16_len_def)

lemma utf8_len_simps [simp]:
  "utf8_len [] = 0" "utf8_len (c # s) = utf8_width c + utf8_len s"
  "utf8_len (s @ t) = utf8_len s + utf8_len t"
  by (simp_all add: utf8_len_def)

lemma length_le_utf16: "length s \<le> utf16_len s"
  by (induction s) auto

lemma utf16_le_twice: "utf16_len s \<le> 2 * length s"
  by (induction s) auto

lemma utf16_le_utf8: "utf16_len s \<le> utf8_len s"
  by (induction s) (auto simp: utf8_width_def)

text \<open>Rust's \<open>trim\<close>, \<open>trim_matches\<close>, \<open>split\<close>, \<open>contains\<close> and \<open>replace\<close> on scalar lists.\<close>

definition trim_by :: "(rchar \<Rightarrow> bool) \<Rightarrow> rstr \<Rightarrow> rstr" where
  "trim_by p s = rev (dropWhile p (rev (dropWhile p s)))"

definition trim :: "rstr \<Rightarrow> rstr" where
  "trim s = trim_by is_whitespace s"

fun split_on :: "rchar \<Rightarrow> rstr \<Rightarrow> rstr list" where
  "split_on d [] = [[]]"
| "split_on d (c # s) =
     (if c = d then [] # split_on d s
      else (case split_on d s of [] \<Rightarrow> [[c]] | p # ps \<Rightarrow> (c # p) # ps))"

fun join_with :: "rstr \<Rightarrow> rstr list \<Rightarrow> rstr" where
  "join_with d [] = []"
| "join_with d [s] = s"
| "join_with d (s # t # ts) = s @ d @ join_with d (t # ts)"

definition starts_with :: "rstr \<Rightarrow> rstr \<Rightarrow> bool" where
  "starts_with p s \<longleftrightarrow> take (length p) s = p"

definition ends_with :: "rstr \<Rightarrow> rstr \<Rightarrow> bool" where
  "ends_with p s \<longleftrightarrow> starts_with (rev p) (rev s)"

fun contains_str :: "rstr \<Rightarrow> rstr \<Rightarrow> bool" where
  "contains_str p [] \<longleftrightarrow> p = []"
| "contains_str p (c # s) \<longleftrightarrow> starts_with p (c # s) \<or> contains_str p s"

function replace_str :: "rstr \<Rightarrow> rstr \<Rightarrow> rstr \<Rightarrow> rstr" where
  "replace_str p r s =
     (case s of [] \<Rightarrow> []
      | c # t \<Rightarrow> (if p \<noteq> [] \<and> starts_with p s then r @ replace_str p r (drop (length p) s)
                 else c # replace_str p r t))"
  by pat_completeness auto
termination
  by (relation "measure (\<lambda>(p, r, s). length s)") auto

declare replace_str.simps [simp del]

lemma replace_str_simps [simp]:
  "replace_str p r [] = []"
  "replace_str p r (c # t) =
     (if p \<noteq> [] \<and> starts_with p (c # t) then r @ replace_str p r (drop (length p) (c # t))
      else c # replace_str p r t)"
  by (subst replace_str.simps, simp)+

lemma starts_with_simps [simp]:
  "starts_with [] s" "starts_with (c # p) [] = False"
  "starts_with (c # p) (d # s) = (c = d \<and> starts_with p s)"
  by (auto simp: starts_with_def)

lemma starts_with_append: "starts_with p (p @ s)"
  by (simp add: starts_with_def)

lemma split_on_nonempty [simp]: "split_on d s \<noteq> []"
  by (induction s) (auto split: list.splits)

lemma split_on_no_delim: "d \<notin> set s \<Longrightarrow> split_on d s = [s]"
  by (induction s) auto

lemma split_on_append_delim:
  "d \<notin> set p \<Longrightarrow> split_on d (p @ d # s) = p # split_on d s"
  by (induction p) auto

lemma split_on_pieces: "p \<in> set (split_on d s) \<Longrightarrow> d \<notin> set p"
proof (induction s arbitrary: p)
  case (Cons c s)
  then show ?case
    by (auto split: if_splits list.splits)
qed simp

lemma split_on_join:
  "ps \<noteq> [] \<Longrightarrow> \<forall>p\<in>set ps. d \<notin> set p \<Longrightarrow> split_on d (join_with [d] ps) = ps"
proof (induction ps rule: induct_list012)
  case (3 p q ps)
  then show ?case by (simp add: split_on_append_delim)
qed (auto simp: split_on_no_delim)

lemma trim_by_id: "(s = [] \<or> \<not> p (hd s) \<and> \<not> p (last s)) \<Longrightarrow> trim_by p s = s"
proof (cases s rule: rev_cases)
  case (snoc t c)
  assume "s = [] \<or> \<not> p (hd s) \<and> \<not> p (last s)"
  with snoc have "\<not> p (hd s)" "\<not> p c" by auto
  then have "dropWhile p s = s" by (cases s) auto
  moreover have "dropWhile p (rev s) = rev s" using snoc \<open>\<not> p c\<close> by simp
  ultimately show ?thesis by (simp add: trim_by_def)
qed (simp add: trim_by_def)

lemma trim_by_ends:
  assumes "trim_by p s \<noteq> []"
  shows "\<not> p (hd (trim_by p s))" "\<not> p (last (trim_by p s))"
proof -
  let ?t = "dropWhile p s"
  have ne: "dropWhile p (rev ?t) \<noteq> []" using assms by (simp add: trim_by_def)
  then show "\<not> p (last (trim_by p s))" by (simp add: trim_by_def last_rev hd_dropWhile)
  have "?t = trim_by p s @ rev (takeWhile p (rev ?t))"
    unfolding trim_by_def by (metis rev_append rev_rev_ident takeWhile_dropWhile_id)
  then have "hd ?t = hd (trim_by p s)" using assms by (metis hd_append2)
  moreover have "?t \<noteq> []" using ne by (metis dropWhile.simps(1) rev.simps(1))
  ultimately show "\<not> p (hd (trim_by p s))" using hd_dropWhile [of p s] by simp
qed

lemma trim_by_idem [simp]: "trim_by p (trim_by p s) = trim_by p s"
  using trim_by_ends by (intro trim_by_id) blast

lemma set_dropWhile: "set (dropWhile p s) \<subseteq> set s"
  using set_dropWhileD by fastforce

lemma set_trim_by: "set (trim_by p s) \<subseteq> set s"
  unfolding trim_by_def
  using set_dropWhile [of p s] set_dropWhile [of p "rev (dropWhile p s)"] by auto

lemma set_replace_str: "set (replace_str p r s) \<subseteq> set r \<union> set s"
proof (induction s rule: length_induct)
  case (1 s)
  show ?case
  proof (cases s)
    case (Cons c t)
    have "set (replace_str p r t) \<subseteq> set r \<union> set t" using 1 Cons by simp
    moreover have "p \<noteq> [] \<Longrightarrow> set (replace_str p r (drop (length p) s)) \<subseteq> set r \<union> set (drop (length p) s)"
      using 1 Cons by simp
    moreover have "set (drop (length p) s) \<subseteq> set s" by (rule set_drop_subset)
    ultimately show ?thesis using Cons by auto
  qed simp
qed

lemma replace_char_notin: "c \<notin> set r \<Longrightarrow> c \<notin> set (replace_str [c] r s)"
  by (induction s) auto

lemma replace_char_flat: "replace_str [c] r s = concat (map (\<lambda>x. if x = c then r else [x]) s)"
  by (induction s) auto

lemma set_replace_char:
  "set (replace_str [c] r s) = (set s - {c}) \<union> (if c \<in> set s then set r else {})"
  by (auto simp: replace_char_flat split: if_splits)

subsection \<open>Fixed-width integers\<close>

definition in_i32 :: "int \<Rightarrow> bool" where
  "in_i32 x \<longleftrightarrow> - (2 ^ 31) \<le> x \<and> x < 2 ^ 31"

definition in_i64 :: "int \<Rightarrow> bool" where
  "in_i64 x \<longleftrightarrow> - (2 ^ 63) \<le> x \<and> x < 2 ^ 63"

definition wrap_i32 :: "int \<Rightarrow> int" where
  "wrap_i32 x = signed_take_bit 31 x"

definition wrap_i64 :: "int \<Rightarrow> int" where
  "wrap_i64 x = signed_take_bit 63 x"

lemma in_i32_wrap: "in_i32 (wrap_i32 x)"
  using signed_take_bit_int_greater_eq_minus_exp [of 31 x] signed_take_bit_int_less_exp [of 31 x]
  by (simp add: in_i32_def wrap_i32_def)

lemma in_i64_wrap: "in_i64 (wrap_i64 x)"
  using signed_take_bit_int_greater_eq_minus_exp [of 63 x] signed_take_bit_int_less_exp [of 63 x]
  by (simp add: in_i64_def wrap_i64_def)

lemma wrap_i32_id [simp]: "in_i32 x \<Longrightarrow> wrap_i32 x = x"
  by (simp add: in_i32_def wrap_i32_def signed_take_bit_int_eq_self)

lemma wrap_i64_id [simp]: "in_i64 x \<Longrightarrow> wrap_i64 x = x"
  by (simp add: in_i64_def wrap_i64_def signed_take_bit_int_eq_self)

text \<open>Decimal rendering (\<open>Display\<close> of the integer types) and \<open>str::parse::<i32>\<close>.\<close>

fun show_nat :: "nat \<Rightarrow> rstr" where
  "show_nat n = (if n < 10 then [48 + n] else show_nat (n div 10) @ [48 + n mod 10])"

declare show_nat.simps [simp del]

definition show_int :: "int \<Rightarrow> rstr" where
  "show_int x = (if x < 0 then 45 # show_nat (nat (- x)) else show_nat (nat x))"

fun digits_value :: "nat \<Rightarrow> rstr \<Rightarrow> nat option" where
  "digits_value acc [] = Some acc"
| "digits_value acc (c # s) =
     (if is_ascii_digit c then digits_value (10 * acc + (c - 48)) s else None)"

definition parse_signed :: "(int \<Rightarrow> bool) \<Rightarrow> rstr \<Rightarrow> int option" where
  "parse_signed ok s =
     (let (neg, body) = (case s of [] \<Rightarrow> (False, [])
        | c # t \<Rightarrow> (if c = 43 then (False, t) else if c = 45 then (True, t) else (False, s)))
      in if body = [] then None
         else (case digits_value 0 body of None \<Rightarrow> None
           | Some n \<Rightarrow> (let v = (if neg then - int n else int n)
                       in if ok v then Some v else None)))"

definition parse_i32 :: "rstr \<Rightarrow> int option" where
  "parse_i32 s = parse_signed in_i32 s"

definition parse_i64 :: "rstr \<Rightarrow> int option" where
  "parse_i64 s = parse_signed in_i64 s"

lemma digits_value_append:
  "digits_value acc (s @ t) = (case digits_value acc s of None \<Rightarrow> None | Some n \<Rightarrow> digits_value n t)"
  by (induction s arbitrary: acc) auto

lemma show_nat_nonempty [simp]: "show_nat n \<noteq> []"
  by (subst show_nat.simps) simp

lemma show_nat_digits: "c \<in> set (show_nat n) \<Longrightarrow> is_ascii_digit c"
proof (induction n rule: show_nat.induct)
  case (1 n)
  then show ?case
    by (subst (asm) show_nat.simps) (auto simp: is_ascii_digit_def split: if_splits)
qed

lemma digits_value_show_nat: "digits_value 0 (show_nat n) = Some n"
proof (induction n rule: show_nat.induct)
  case (1 n)
  show ?case
  proof (cases "n < 10")
    case True
    then show ?thesis by (subst show_nat.simps) (simp add: is_ascii_digit_def)
  next
    case False
    then have "digits_value 0 (show_nat (n div 10)) = Some (n div 10)" by (rule 1)
    with False show ?thesis
      by (subst show_nat.simps) (simp add: digits_value_append is_ascii_digit_def)
  qed
qed

lemma show_nat_hd: "hd (show_nat n) \<noteq> 43" "hd (show_nat n) \<noteq> 45"
  using show_nat_digits [of "hd (show_nat n)" n] by (auto simp: is_ascii_digit_def)

lemma parse_signed_show: "ok x \<Longrightarrow> parse_signed ok (show_int x) = Some x"
proof (cases "x < 0")
  case True
  moreover assume "ok x"
  ultimately show ?thesis
    by (simp add: parse_signed_def show_int_def digits_value_show_nat)
next
  case False
  obtain c t where ct: "show_nat (nat x) = c # t"
    by (cases "show_nat (nat x)") auto
  then have "c \<noteq> 43" "c \<noteq> 45" using show_nat_hd [of "nat x"] by auto
  moreover assume "ok x"
  ultimately show ?thesis
    using False ct digits_value_show_nat [of "nat x"]
    by (simp add: parse_signed_def show_int_def)
qed

lemma parse_signed_ok: "parse_signed ok s = Some x \<Longrightarrow> ok x"
  by (auto simp: parse_signed_def Let_def split: list.splits option.splits if_splits)

lemma parse_i32_show: "in_i32 x \<Longrightarrow> parse_i32 (show_int x) = Some x"
  by (simp add: parse_i32_def parse_signed_show)

lemma parse_i64_show: "in_i64 x \<Longrightarrow> parse_i64 (show_int x) = Some x"
  by (simp add: parse_i64_def parse_signed_show)

lemma parse_i32_range: "parse_i32 s = Some x \<Longrightarrow> in_i32 x"
  by (simp add: parse_i32_def parse_signed_ok)

lemma show_int_nonempty [simp]: "show_int x \<noteq> []"
  by (simp add: show_int_def)

lemma show_int_chars: "c \<in> set (show_int x) \<Longrightarrow> c = 45 \<or> is_ascii_digit c"
  by (auto simp: show_int_def dest: show_nat_digits split: if_splits)

lemma is_ascii_digit_not_whitespace: "is_ascii_digit c \<Longrightarrow> \<not> is_whitespace c"
  by (auto simp: is_ascii_digit_def is_whitespace_def)

lemma trim_show_int [simp]: "trim (show_int x) = show_int x"
proof -
  have "\<not> is_whitespace c" if "c \<in> set (show_int x)" for c
    using show_int_chars [OF that] is_ascii_digit_not_whitespace by (auto simp: is_whitespace_def)
  moreover have "hd (show_int x) \<in> set (show_int x)" "last (show_int x) \<in> set (show_int x)"
    by simp_all
  ultimately show ?thesis
    unfolding trim_def by (intro trim_by_id) blast
qed

lemma inj_show_int: "show_int x = show_int y \<Longrightarrow> x = y"
proof -
  assume "show_int x = show_int y"
  then have "parse_signed (\<lambda>_. True) (show_int x) = parse_signed (\<lambda>_. True) (show_int y)"
    by (rule arg_cong)
  then show "x = y" by (simp add: parse_signed_show)
qed

subsection \<open>Results and effects\<close>

type_synonym ('w, 'e, 'a) eff = "'w \<Rightarrow> ('e + 'a) \<times> 'w"

definition ret_eff :: "'a \<Rightarrow> ('w, 'e, 'a) eff" where
  "ret_eff a = (\<lambda>w. (Inr a, w))"

definition fail_eff :: "'e \<Rightarrow> ('w, 'e, 'a) eff" where
  "fail_eff e = (\<lambda>w. (Inl e, w))"

definition bind_eff :: "('w, 'e, 'a) eff \<Rightarrow> ('a \<Rightarrow> ('w, 'e, 'b) eff) \<Rightarrow> ('w, 'e, 'b) eff" where
  "bind_eff m f = (\<lambda>w. case m w of (Inl e, w') \<Rightarrow> (Inl e, w') | (Inr a, w') \<Rightarrow> f a w')"

definition map_err :: "('e \<Rightarrow> 'f) \<Rightarrow> ('w, 'e, 'a) eff \<Rightarrow> ('w, 'f, 'a) eff" where
  "map_err g m = (\<lambda>w. case m w of (Inl e, w') \<Rightarrow> (Inl (g e), w') | (Inr a, w') \<Rightarrow> (Inr a, w'))"

definition of_result :: "('e + 'a) \<Rightarrow> ('w, 'e, 'a) eff" where
  "of_result r = (\<lambda>w. (r, w))"

definition ok_or :: "'e \<Rightarrow> 'a option \<Rightarrow> 'e + 'a" where
  "ok_or e x = (case x of None \<Rightarrow> Inl e | Some a \<Rightarrow> Inr a)"

text \<open>The \<open>?\<close> operator on plain results.\<close>

definition and_then :: "('e + 'a) \<Rightarrow> ('a \<Rightarrow> 'e + 'b) \<Rightarrow> 'e + 'b" where
  "and_then r f = (case r of Inl e \<Rightarrow> Inl e | Inr a \<Rightarrow> f a)"

lemmas eff_defs = ret_eff_def fail_eff_def bind_eff_def map_err_def of_result_def

lemma eff_apply [simp]:
  "ret_eff a w = (Inr a, w)" "fail_eff e w = (Inl e, w)" "of_result r w = (r, w)"
  by (simp_all add: eff_defs)

lemma bind_eff_Pair [simp]:
  "m w = (Inl e, w') \<Longrightarrow> bind_eff m f w = (Inl e, w')"
  "m w = (Inr a, w') \<Longrightarrow> bind_eff m f w = f a w'"
  by (simp_all add: bind_eff_def)

lemma map_err_Pair [simp]:
  "m w = (Inl e, w') \<Longrightarrow> map_err g m w = (Inl (g e), w')"
  "m w = (Inr a, w') \<Longrightarrow> map_err g m w = (Inr a, w')"
  by (simp_all add: map_err_def)

lemma bind_eff_Inr_iff [eff_simps]:
  "bind_eff m f w = (Inr b, w') \<longleftrightarrow> (\<exists>a w1. m w = (Inr a, w1) \<and> f a w1 = (Inr b, w'))"
  by (auto simp: bind_eff_def split: prod.splits sum.splits)

lemma bind_eff_Inl_iff [eff_simps]:
  "bind_eff m f w = (Inl e, w') \<longleftrightarrow>
     m w = (Inl e, w') \<or> (\<exists>a w1. m w = (Inr a, w1) \<and> f a w1 = (Inl e, w'))"
  by (auto simp: bind_eff_def split: prod.splits sum.splits)

lemma map_err_Inr_iff [eff_simps]: "map_err g m w = (Inr a, w') \<longleftrightarrow> m w = (Inr a, w')"
  by (auto simp: map_err_def split: prod.splits sum.splits)

lemma map_err_Inl_iff [eff_simps]:
  "map_err g m w = (Inl f, w') \<longleftrightarrow> (\<exists>e. m w = (Inl e, w') \<and> f = g e)"
  by (auto simp: map_err_def split: prod.splits sum.splits)

lemma ok_or_simps [simp]: "ok_or e None = Inl e" "ok_or e (Some a) = Inr a"
  by (simp_all add: ok_or_def)

lemma ok_or_iff: "ok_or e x = Inr a \<longleftrightarrow> x = Some a" "ok_or e x = Inl f \<longleftrightarrow> x = None \<and> f = e"
  by (auto simp: ok_or_def split: option.splits)

lemma and_then_simps [simp]: "and_then (Inl e) f = Inl e" "and_then (Inr a) f = f a"
  by (simp_all add: and_then_def)

lemma and_then_Inr_iff: "and_then r f = Inr b \<longleftrightarrow> (\<exists>a. r = Inr a \<and> f a = Inr b)"
  by (cases r) auto

text \<open>\<open>Option::or_else\<close>: the first reason wins.\<close>

definition or_else :: "'a option \<Rightarrow> 'a option \<Rightarrow> 'a option" where
  "or_else x y = (case x of None \<Rightarrow> y | Some a \<Rightarrow> Some a)"

lemma or_else_None_iff [simp]: "or_else x y = None \<longleftrightarrow> x = None \<and> y = None"
  by (auto simp: or_else_def split: option.splits)

lemma or_else_Some [simp]: "or_else (Some a) y = Some a" "or_else None y = y"
  by (simp_all add: or_else_def)

definition then_some :: "bool \<Rightarrow> 'a \<Rightarrow> 'a option" where
  "then_some b a = (if b then Some a else None)"

lemma then_some_iff [simp]:
  "then_some b a = None \<longleftrightarrow> \<not> b" "then_some b a = Some c \<longleftrightarrow> b \<and> c = a"
  by (auto simp: then_some_def)

subsection \<open>Time\<close>

text \<open>An instant is the number of microseconds since the epoch; durations are constants.\<close>

type_synonym time = int

definition seconds :: "int \<Rightarrow> time" where "seconds n = n * 1000000"
definition minutes :: "int \<Rightarrow> time" where "minutes n = seconds (n * 60)"
definition hours :: "int \<Rightarrow> time" where "hours n = minutes (n * 60)"
definition days :: "int \<Rightarrow> time" where "days n = hours (n * 24)"

lemmas duration_defs = seconds_def minutes_def hours_def days_def

end
