(* ===== verification/Title.thy ===== *)
theory Title
  imports Prelude
begin

section \<open>Titles: storage escaping and the typographic pipeline (src/domain/title.rs)\<close>

text \<open>
  The escaping Java applied before a title reaches the database (\<open>sEscapeForStorage\<close> and its
  two copies in the moderation domain and the RSS renderer), and \<open>sMakeTitleForLegacyView\<close>,
  which turns straight quotes into nested typographic ones.  Two things the code takes from
  elsewhere are parameters: \<open>decode\<close> is \<open>html_escape::decode_html_entities\<close>, \<open>alnum\<close> is the
  Unicode table behind \<open>char::is_alphanumeric\<close>.
\<close>

subsection \<open>Escaping\<close>

definition esc_char :: "rchar \<Rightarrow> rstr" where
  "esc_char c =
     (if c = 38 then (u ''&amp;'')
      else if c = 34 then (u ''&quot;'')
      else if c = 39 then (u ''&#39;'')
      else if c = 60 then (u ''&lt;'')
      else if c = 62 then (u ''&gt;'')
      else [c])"

fun sEscapeForStorage :: "rstr \<Rightarrow> rstr" where
  "sEscapeForStorage [] = []"
| "sEscapeForStorage (c # s) = esc_char c @ sEscapeForStorage s"

text \<open>The copy of the moderation domain, with its own order of the arms.\<close>

fun sEscapeHtmlLikeJava :: "rstr \<Rightarrow> rstr" where
  "sEscapeHtmlLikeJava [] = []"
| "sEscapeHtmlLikeJava (c # s) =
     (if c = 34 then (u ''&quot;'')
      else if c = 39 then (u ''&#39;'')
      else if c = 38 then (u ''&amp;'')
      else if c = 60 then (u ''&lt;'')
      else if c = 62 then (u ''&gt;'')
      else [c]) @ sEscapeHtmlLikeJava s"

text \<open>The copy of the RSS renderer.\<close>

fun sEscapeHtmlLikeGuava :: "rstr \<Rightarrow> rstr" where
  "sEscapeHtmlLikeGuava [] = []"
| "sEscapeHtmlLikeGuava (c # s) =
     (if c = 38 then (u ''&amp;'')
      else if c = 60 then (u ''&lt;'')
      else if c = 62 then (u ''&gt;'')
      else if c = 34 then (u ''&quot;'')
      else if c = 39 then (u ''&#39;'')
      else [c]) @ sEscapeHtmlLikeGuava s"

lemma esc_char_cases:
  obtains (plain) "esc_char c = [c]" "c \<notin> {34, 38, 39, 60, 62}"
  | (special) "c \<in> {34, 38, 39, 60, 62}" "hd (esc_char c) = 38"
  by (cases "c \<in> {34, 38, 39, 60, 62}") (auto simp: esc_char_def)

lemma esc_char_nonempty [simp]: "esc_char c \<noteq> []"
  by (simp add: esc_char_def)

lemma esc_char_hd: "hd (esc_char c) = (if c \<in> {34, 38, 39, 60, 62} then 38 else c)"
  by (auto simp: esc_char_def)

lemma esc_char_prefix_free:
  assumes "esc_char c @ s = esc_char d @ t"
  shows "c = d \<and> s = t"
proof -
  have "hd (esc_char c) = hd (esc_char d)"
    using assms by (metis esc_char_nonempty hd_append2)
  then have "c = d \<or> (c \<in> {34, 38, 39, 60, 62} \<and> d \<in> {34, 38, 39, 60, 62})"
    by (auto simp: esc_char_hd split: if_splits)
  then have "c = d"
    using assms by (auto simp: esc_char_def)
  with assms show ?thesis by simp
qed

text \<open>The three copies of the HTML escaper (title storage, moderation
  move notice, RSS renderer) compute the same string on every input.\<close>

theorem escapers_agree:
  "sEscapeHtmlLikeJava s = sEscapeForStorage s \<and> sEscapeHtmlLikeGuava s = sEscapeForStorage s"
  by (induction s) (auto simp: esc_char_def)

text \<open>Escaping a title for storage loses nothing: it is injective, so two
  titles that differ stay different in the database; and the stored form holds no
  angle bracket and no quote, so it can stand in element text and in a quoted attribute.\<close>

theorem escape_injective_and_safe:
  "inj sEscapeForStorage \<and> (\<forall>s. set (sEscapeForStorage s) \<inter> {34, 39, 60, 62} = {})"
proof
  show "inj sEscapeForStorage"
  proof (rule injI)
    fix s t
    assume "sEscapeForStorage s = sEscapeForStorage t"
    then show "s = t"
    proof (induction s arbitrary: t)
      case Nil
      then show ?case by (cases t) auto
    next
      case (Cons c s)
      then obtain d t' where t: "t = d # t'" by (cases t) auto
      with Cons.prems have "c = d \<and> sEscapeForStorage s = sEscapeForStorage t'"
        by (intro esc_char_prefix_free) simp
      with Cons.IH t show ?case by simp
    qed
  qed
  have "set (esc_char c) \<inter> {34, 39, 60, 62} = {}" for c
    by (simp add: esc_char_def)
  then show "\<forall>s. set (sEscapeForStorage s) \<inter> {34, 39, 60, 62} = {}"
    by (intro allI, induct_tac s) (auto simp: Int_Un_distrib2)
qed

subsection \<open>Decoding for the edit form and the display pipelines\<close>

definition sUnescapeFromStorage :: "(rstr \<Rightarrow> rstr) \<Rightarrow> rstr \<Rightarrow> rstr" where
  "sUnescapeFromStorage decode s = decode s"

definition sPlainForDisplay :: "(rstr \<Rightarrow> rstr) \<Rightarrow> rstr \<Rightarrow> rstr" where
  "sPlainForDisplay decode s = sUnescapeFromStorage decode s"

definition sJavaTrim :: "rstr \<Rightarrow> rstr" where
  "sJavaTrim s = trim_by (\<lambda>c. c \<le> 32) s"

definition sProcessTitleForLegacyView :: "rstr \<Rightarrow> rstr" where
  "sProcessTitleForLegacyView s = replace_str (u '' -- '') (u ''&nbsp;&mdash; '') (sJavaTrim s)"

subsection \<open>Typographic quotes\<close>

definition bQuote :: "rchar \<Rightarrow> bool" where
  "bQuote c \<longleftrightarrow> c \<in> {34, 171, 187, 8222, 8220}"

definition bPunctuation :: "rchar \<Rightarrow> bool" where
  "bPunctuation c \<longleftrightarrow> c \<in> {46, 44, 58, 59, 45, 33, 63, 40, 41}"

definition optPreviousNonQuote :: "rchar list \<Rightarrow> nat \<Rightarrow> rchar option" where
  "optPreviousNonQuote v i = find (\<lambda>c. \<not> bQuote c) (rev (take i v))"

definition optNextNonQuote :: "rchar list \<Rightarrow> nat \<Rightarrow> rchar option" where
  "optNextNonQuote v i = find (\<lambda>c. \<not> bQuote c) (drop (i + 1) v)"

text \<open>Both are called with a position inside \<open>v\<close>, so \<open>v ! 0\<close> and the last element exist.\<close>

definition bOpeningQuote :: "(rchar \<Rightarrow> bool) \<Rightarrow> rchar list \<Rightarrow> nat \<Rightarrow> bool" where
  "bOpeningQuote alnum v i =
     (if i + 1 = length v then False
      else let cBefore = (if i = 0 then 0
                          else case optPreviousNonQuote v i of Some c \<Rightarrow> c | None \<Rightarrow> v ! 0);
               cAfter = (case optNextNonQuote v i of Some c \<Rightarrow> c | None \<Rightarrow> v ! (length v - 1))
           in \<not> is_whitespace cAfter \<and> \<not> bPunctuation cAfter \<and> \<not> alnum cBefore)"

definition bClosingQuote :: "(rchar \<Rightarrow> bool) \<Rightarrow> rchar list \<Rightarrow> nat \<Rightarrow> bool" where
  "bClosingQuote alnum v i =
     (if i = 0 then False
      else if i + 1 = length v then True
      else let cBefore = (case optPreviousNonQuote v i of Some c \<Rightarrow> c | None \<Rightarrow> v ! 0);
               cAfter = (case optNextNonQuote v i of Some c \<Rightarrow> c | None \<Rightarrow> v ! (length v - 1))
           in \<not> bQuote cBefore \<and> \<not> alnum cAfter)"

text \<open>One turn of the scan: the vector is rewritten in place, so later turns see the quotes
  already chosen.\<close>

definition quote_step :: "(rchar \<Rightarrow> bool) \<Rightarrow> nat \<Rightarrow> rchar list \<times> nat \<Rightarrow> rchar list \<times> nat" where
  "quote_step alnum i st =
     (let (v, d) = st in
      if v ! i \<noteq> 34 then (v, d)
      else if bClosingQuote alnum v i \<and> d > 0
        then (v[i := (if d = 1 then 187 else 8220)], d - 1)
      else if bOpeningQuote alnum v i
        then (v[i := (if d = 0 then 171 else 8222)], d + 1)
      else (v, d))"

definition quote_scan :: "(rchar \<Rightarrow> bool) \<Rightarrow> rchar list \<Rightarrow> rchar list \<times> nat" where
  "quote_scan alnum v = fold (quote_step alnum) [0..<length v] (v, 0)"

definition sMakeTitleForLegacyView :: "(rchar \<Rightarrow> bool) \<Rightarrow> rstr \<Rightarrow> rstr" where
  "sMakeTitleForLegacyView alnum s =
     (if sJavaTrim s = [] then ([1041, 1077, 1079, 32, 1079, 1072, 1075, 1083, 1072, 1074, 1080, 1103] :: rstr) \<comment> \<open>Bez zaglaviya\<close>
      else let v = fst (quote_scan alnum (replace_str (u ''&quot;'') ([34] :: rstr) \<comment> \<open>(quote)\<close> s))
           in replace_str [187] (u ''&#187;'')
               (replace_str [171] (u ''&#171;'')
               (replace_str [8220] (u ''&#8220;'')
               (replace_str [8222] (u ''&#8222;'')
               (replace_str [34] (u ''&quot;'')
               (replace_str ([39, 39] :: rstr) \<comment> \<open>(apostrophe)(apostrophe)\<close> (u ''&quot;'') v))))))"

definition sProcessTitlePlainForDisplay :: "(rstr \<Rightarrow> rstr) \<Rightarrow> rstr \<Rightarrow> rstr" where
  "sProcessTitlePlainForDisplay decode s =
     sUnescapeFromStorage decode (sProcessTitleForLegacyView s)"

definition sMakeTitlePlainForDisplay :: "(rchar \<Rightarrow> bool) \<Rightarrow> (rstr \<Rightarrow> rstr) \<Rightarrow> rstr \<Rightarrow> rstr" where
  "sMakeTitlePlainForDisplay alnum decode s =
     sUnescapeFromStorage decode (sMakeTitleForLegacyView alnum s)"

definition sTopicTitlePlainForDisplay :: "(rchar \<Rightarrow> bool) \<Rightarrow> (rstr \<Rightarrow> rstr) \<Rightarrow> rstr \<Rightarrow> rstr" where
  "sTopicTitlePlainForDisplay alnum decode s =
     sUnescapeFromStorage decode
       (sProcessTitleForLegacyView (sMakeTitleForLegacyView alnum s))"

definition optCommentTitlePlainForDisplay :: "(rstr \<Rightarrow> rstr) \<Rightarrow> rstr \<Rightarrow> rstr option" where
  "optCommentTitlePlainForDisplay decode s =
     (let t = sJavaTrim s in
      if t \<noteq> [] then Some (sProcessTitlePlainForDisplay decode t) else None)"

definition iJavaStringLength :: "rstr \<Rightarrow> nat" where
  "iJavaStringLength s = utf16_len s"

text \<open>The scan keeps the length, and after \<open>n\<close> turns the quotes it wrote in the prefix are
  nested: the depth is what is open, and no prefix closes more than it opened.\<close>

definition opens :: "rchar list \<Rightarrow> nat" where
  "opens v = length (filter (\<lambda>c. c = 171 \<or> c = 8222) v)"

definition closes :: "rchar list \<Rightarrow> nat" where
  "closes v = length (filter (\<lambda>c. c = 187 \<or> c = 8220) v)"

lemma opens_closes_simps [simp]:
  "opens [] = 0" "closes [] = 0"
  "opens (xs @ ys) = opens xs + opens ys" "closes (xs @ ys) = closes xs + closes ys"
  "opens [c] = (if c = 171 \<or> c = 8222 then 1 else 0)"
  "closes [c] = (if c = 187 \<or> c = 8220 then 1 else 0)"
  by (auto simp: opens_def closes_def)

definition scan_inv :: "rchar list \<Rightarrow> nat \<Rightarrow> rchar list \<times> nat \<Rightarrow> bool" where
  "scan_inv v0 n st \<longleftrightarrow> (let (v, d) = st in
     length v = length v0 \<and> drop n v = drop n v0 \<and>
     opens (take n v) = closes (take n v) + d \<and>
     (\<forall>k\<le>n. closes (take k v) \<le> opens (take k v)))"

lemma scan_inv_step:
  assumes inv: "scan_inv v0 n st" and n: "n < length v0"
    and plain: "set v0 \<inter> {171, 187, 8220, 8222} = {}"
  shows "scan_inv v0 (Suc n) (quote_step alnum n st)"
proof -
  obtain v d where st: "st = (v, d)" by (cases st)
  from inv st have len: "length v = length v0" and dr: "drop n v = drop n v0"
    and bal: "opens (take n v) = closes (take n v) + d"
    and pre: "\<forall>k\<le>n. closes (take k v) \<le> opens (take k v)"
    by (simp_all add: scan_inv_def)
  have "v ! n = v0 ! n" using dr n len by (metis hd_drop_conv_nth)
  then have vn: "v ! n \<notin> {171, 187, 8220, 8222}"
    using plain nth_mem [OF n] by (metis disjoint_iff)
  have gen: "scan_inv v0 (Suc n) (v[n := c], d')"
    if "opens (take n v) + (if c = 171 \<or> c = 8222 then 1 else 0)
          = closes (take n v) + (if c = 187 \<or> c = 8220 then 1 else 0) + d'" for c d'
  proof -
    have tk: "take (Suc n) (v[n := c]) = take n v @ [c]"
      using n len by (simp add: take_Suc_conv_app_nth)
    have dr': "drop (Suc n) (v[n := c]) = drop (Suc n) v0"
      using dr by (simp add: drop_update_cancel) (metis drop_drop plus_1_eq_Suc)
    have "closes (take k (v[n := c])) \<le> opens (take k (v[n := c]))" if "k \<le> Suc n" for k
    proof (cases "k \<le> n")
      case True
      then show ?thesis using pre by (simp add: take_update_cancel)
    next
      case False
      with that have "k = Suc n" by simp
      then show ?thesis
        using tk \<open>opens (take n v) + _ = _\<close> by (simp split: if_splits)
    qed
    then show ?thesis
      using tk dr' len \<open>opens (take n v) + _ = _\<close> by (simp add: scan_inv_def)
  qed
  have same: "v[n := v ! n] = v" by simp
  show ?thesis
    using gen [of "v ! n" d] gen [of 187 "d - 1"] gen [of 8220 "d - 1"]
      gen [of 171 "d + 1"] gen [of 8222 "d + 1"] bal vn
    unfolding st quote_step_def Let_def by (auto simp: same)
qed

lemma scan_inv_fold:
  assumes "set v \<inter> {171, 187, 8220, 8222} = {}" and "n \<le> length v"
  shows "scan_inv v n (fold (quote_step alnum) [0..<n] (v, 0))"
  using assms(2)
proof (induction n)
  case 0
  then show ?case by (simp add: scan_inv_def)
next
  case (Suc n)
  then show ?case using scan_inv_step [OF _ _ assms(1)] by simp
qed

text \<open>The typographic scan rewrites the title in place and nests what it writes:
  on a title that holds no typographic quote the result has the same length, no prefix of
  it closes more quotes than it opened, and the final depth is the number left open.\<close>

theorem quote_scan_nested:
  assumes "set v \<inter> {171, 187, 8220, 8222} = {}"
  shows "length (fst (quote_scan alnum v)) = length v
    \<and> (\<forall>k. closes (take k (fst (quote_scan alnum v))) \<le> opens (take k (fst (quote_scan alnum v))))
    \<and> opens (fst (quote_scan alnum v)) = closes (fst (quote_scan alnum v)) + snd (quote_scan alnum v)"
proof -
  obtain w d where wd: "quote_scan alnum v = (w, d)" by (cases "quote_scan alnum v")
  have inv: "scan_inv v (length v) (w, d)"
    using scan_inv_fold [OF assms order_refl, of alnum] wd by (simp add: quote_scan_def)
  then have len: "length w = length v" by (simp add: scan_inv_def)
  have "closes (take k w) \<le> opens (take k w)" for k
    using inv len by (cases "k \<le> length v") (auto simp: scan_inv_def)
  with inv len wd show ?thesis by (simp add: scan_inv_def)
qed

theorem quote_scan_nested_witness:
  "length (fst (quote_scan is_ascii_alphanumeric ([34, 98, 34] :: rstr) \<comment> \<open>(quote)b(quote)\<close>)) = 3
   \<and> fst (quote_scan is_ascii_alphanumeric ([34, 98, 34] :: rstr) \<comment> \<open>(quote)b(quote)\<close>) = [171, 98, 187]"
proof -
  have h: "set ([34, 98, 34] :: rstr) \<comment> \<open>(quote)b(quote)\<close> \<inter> {171, 187, 8220, 8222} = {}" by simp
  have "fst (quote_scan is_ascii_alphanumeric ([34, 98, 34] :: rstr) \<comment> \<open>(quote)b(quote)\<close>) = [171, 98, 187]"
    by (simp add: quote_scan_def quote_step_def bClosingQuote_def bOpeningQuote_def
        optNextNonQuote_def optPreviousNonQuote_def bQuote_def bPunctuation_def
        is_whitespace_def is_ascii_alphanumeric_def is_ascii_digit_def upt_rec)
  then show ?thesis using quote_scan_nested [OF h, of is_ascii_alphanumeric] by simp
qed

text \<open>A title that left the pipeline holds no straight and no typographic quote
  character: every one has become an entity.\<close>

theorem make_title_no_raw_quotes:
  "set (sMakeTitleForLegacyView alnum s) \<inter> {34, 171, 187, 8220, 8222} = {}"
  unfolding sMakeTitleForLegacyView_def Let_def
  by (auto simp: set_replace_char split: if_splits)

subsection \<open>The edit form shows what the author typed\<close>

text \<open>Given a decoder that turns each of the five entities the escaper writes,
  and any other character, back into one character and goes on with the rest, the edit form
  shows exactly the title that was stored.\<close>

theorem edit_form_roundtrip:
  assumes decode_nil: "decode [] = []"
    and decode_entity: "\<And>c s. decode (esc_char c @ s) = c # decode s"
  shows "sPlainForDisplay decode (sEscapeForStorage s) = s"
  by (induction s)
    (simp_all add: sPlainForDisplay_def sUnescapeFromStorage_def assms)

text \<open>A decoder for exactly the five entities, for the witness.\<close>

function decode_five :: "rstr \<Rightarrow> rstr" where
  "decode_five s =
     (case s of [] \<Rightarrow> []
      | c # t \<Rightarrow>
         (if starts_with (u ''&amp;'') s then 38 # decode_five (drop 4 t)
          else if starts_with (u ''&quot;'') s then 34 # decode_five (drop 5 t)
          else if starts_with (u ''&#39;'') s then 39 # decode_five (drop 4 t)
          else if starts_with (u ''&lt;'') s then 60 # decode_five (drop 3 t)
          else if starts_with (u ''&gt;'') s then 62 # decode_five (drop 3 t)
          else c # decode_five t))"
  by pat_completeness auto
termination
  by (relation "measure length") auto

declare decode_five.simps [simp del]

lemma decode_five_esc: "decode_five (esc_char c @ s) = c # decode_five s"
  by (subst decode_five.simps) (auto simp: esc_char_def)

theorem edit_form_roundtrip_witness:
  "sPlainForDisplay decode_five (sEscapeForStorage ([60, 98, 62, 32, 38, 32, 34] :: rstr) \<comment> \<open>(lt)b(gt) & (quote)\<close>)
     = ([60, 98, 62, 32, 38, 32, 34] :: rstr) \<comment> \<open>(lt)b(gt) & (quote)\<close>"
  by (rule edit_form_roundtrip [OF _ decode_five_esc]) (simp add: decode_five.simps)

end
