(* ===== verification/Errors.thy ===== *)
theory Errors
  imports Prelude
begin

section \<open>Application errors and their HTTP rendering (src/error.rs)\<close>

text \<open>
  \<open>app_error\<close> is the error type of every repository and service.  \<open>into_response\<close> is the
  handler that turns one into a status, a page and, for internal failures, a report for the
  exception mailer.  The payloads of foreign errors (\<open>sqlx\<close>, \<open>io\<close>, \<open>askama\<close>, \<open>anyhow\<close>) are
  opaque texts; the templates are named by the struct the code renders.
\<close>

datatype sqlx_error = RowNotFound | SqlxFailure rstr

datatype app_error =
    NotFound
  | Forbidden
  | BadRequest rstr
  | UserError rstr rstr
  | ScriptError rstr rstr
  | RequestRejected
  | BadParameter rstr
  | TooManyRequests rstr
  | SmtpAddressRejected nat rstr
  | Sqlx sqlx_error
  | Io rstr
  | Template rstr
  | Anyhow rstr

definition stUserError :: "rstr \<Rightarrow> app_error" where
  "stUserError s = UserError s (u ''ru.org.linux.user.UserErrorException'')"

definition stBadInput :: "rstr \<Rightarrow> app_error" where
  "stBadInput s = UserError s (u ''ru.org.linux.site.BadInputException'')"

definition stScriptErrorAs :: "rstr \<Rightarrow> rstr \<Rightarrow> app_error" where
  "stScriptErrorAs s cls = ScriptError s cls"

fun sInternalType :: "app_error \<Rightarrow> rstr" where
  "sInternalType (UserError _ cls) = cls"
| "sInternalType (ScriptError _ cls) = cls"
| "sInternalType (Sqlx _) = (u ''sqlx::Error'')"
| "sInternalType (Io _) = (u ''std::io::Error'')"
| "sInternalType (Template _) = (u ''askama::Error'')"
| "sInternalType (Anyhow _) = (u ''anyhow::Error'')"
| "sInternalType (SmtpAddressRejected _ _) = (u ''SMTPAddressFailedException'')"
| "sInternalType _ = (u ''AppError'')"

fun response_parts :: "app_error \<Rightarrow> nat \<times> rstr \<times> rstr" where
  "response_parts NotFound = (404, ([1053, 1077, 32, 1085, 1072, 1081, 1076, 1077, 1085, 1086] :: rstr) \<comment> \<open>Ne najdeno\<close>, ([1047, 1072, 1087, 1088, 1086, 1096, 1077, 1085, 1085, 1072, 1103, 32, 1089, 1090, 1088, 1072, 1085, 1080, 1094, 1072, 32, 1085, 1077, 32, 1085, 1072, 1081, 1076, 1077, 1085, 1072] :: rstr) \<comment> \<open>Zaproshennaya stranitsa ne najdena\<close>)"
| "response_parts (Sqlx RowNotFound) = (404, ([1053, 1077, 32, 1085, 1072, 1081, 1076, 1077, 1085, 1086] :: rstr) \<comment> \<open>Ne najdeno\<close>, ([1047, 1072, 1087, 1088, 1086, 1096, 1077, 1085, 1085, 1072, 1103, 32, 1089, 1090, 1088, 1072, 1085, 1080, 1094, 1072, 32, 1085, 1077, 32, 1085, 1072, 1081, 1076, 1077, 1085, 1072] :: rstr) \<comment> \<open>Zaproshennaya stranitsa ne najdena\<close>)"
| "response_parts Forbidden = (403, ([1044, 1086, 1089, 1090, 1091, 1087, 32, 1079, 1072, 1087, 1088, 1077, 1097, 1105, 1085] :: rstr) \<comment> \<open>Dostup zapreshchyon\<close>, ([1044, 1086, 1089, 1090, 1091, 1087, 32, 1079, 1072, 1087, 1088, 1077, 1097, 1105, 1085] :: rstr) \<comment> \<open>Dostup zapreshchyon\<close>)"
| "response_parts (BadRequest message) = (400, ([1053, 1077, 1082, 1086, 1088, 1088, 1077, 1082, 1090, 1085, 1099, 1081, 32, 1079, 1072, 1087, 1088, 1086, 1089] :: rstr) \<comment> \<open>Nekorrektnyj zapros\<close>, message)"
| "response_parts (UserError sMessage sClass) = (500, sClass, sMessage)"
| "response_parts (ScriptError sMessage sClass) = (500, sClass, sMessage)"
| "response_parts RequestRejected = (400, ([1053, 1077, 1082, 1086, 1088, 1088, 1077, 1082, 1090, 1085, 1099, 1081, 32, 1079, 1072, 1087, 1088, 1086, 1089] :: rstr) \<comment> \<open>Nekorrektnyj zapros\<close>, [])"
| "response_parts (BadParameter message) = (404, ([1053, 1077, 1082, 1086, 1088, 1088, 1077, 1082, 1090, 1085, 1099, 1077, 32, 1087, 1072, 1088, 1072, 1084, 1077, 1090, 1088, 1099] :: rstr) \<comment> \<open>Nekorrektnye parametry\<close>, message)"
| "response_parts (TooManyRequests message) = (429, ([1055, 1086, 1087, 1088, 1086, 1073, 1091, 1081, 1090, 1077, 32, 1087, 1086, 1079, 1078, 1077] :: rstr) \<comment> \<open>Poprobujte pozzhe\<close>, message)"
| "response_parts _ = (500, ([1054, 1096, 1080, 1073, 1082, 1072] :: rstr) \<comment> \<open>Oshibka\<close>, ([1042, 1085, 1091, 1090, 1088, 1077, 1085, 1085, 1103, 1103, 32, 1086, 1096, 1080, 1073, 1082, 1072, 32, 1089, 1077, 1088, 1074, 1077, 1088, 1072] :: rstr) \<comment> \<open>Vnutrennyaya oshibka servera\<close>)"

text \<open>The page: the empty body of a rejected request, the two fixed templates, or
  \<open>StCommonErrorTemplate\<close> with its four fields.\<close>

datatype error_page =
    EmptyBody
  | ForbiddenErrorTemplate
  | NotFoundErrorTemplate
  | CommonErrorTemplate (title: rstr) (message: rstr) (bBadParameter: bool) (bInternal: bool)

record error_response =
  er_status :: nat
  er_page :: error_page
  er_report :: "rstr option"

definition into_response :: "app_error \<Rightarrow> error_response" where
  "into_response e =
     (if e = RequestRejected then \<lparr>er_status = 400, er_page = EmptyBody, er_report = None\<rparr>
      else
        let bBad = (case e of BadParameter _ \<Rightarrow> True | _ \<Rightarrow> False);
            bUser = (case e of UserError _ _ \<Rightarrow> True | _ \<Rightarrow> False);
            bScript = (case e of ScriptError _ _ \<Rightarrow> True | _ \<Rightarrow> False);
            (status, ttl, msg) = response_parts e;
            bReportable = (status = 500 \<and> \<not> bUser \<and> \<not> bScript);
            report = (if bReportable then Some (sInternalType e) else None);
            page = (if bBad then CommonErrorTemplate ttl msg True False
                    else if status = 404 then NotFoundErrorTemplate
                    else if status = 403 then ForbiddenErrorTemplate
                    else CommonErrorTemplate ttl msg bScript bReportable)
        in \<lparr>er_status = status, er_page = page, er_report = report\<rparr>)"

definition foreign_error :: "app_error \<Rightarrow> bool" where
  "foreign_error e \<longleftrightarrow>
     (case e of Sqlx (SqlxFailure _) \<Rightarrow> True | Io _ \<Rightarrow> True | Template _ \<Rightarrow> True | Anyhow _ \<Rightarrow> True
      | SmtpAddressRejected _ _ \<Rightarrow> True | _ \<Rightarrow> False)"

text \<open>C39: Internal details never reach the client: an error is reported to the exception
  mailer exactly when it comes from the database driver, the file system, a template, SMTP
  or anyhow, and every such error is answered with one and the same page and status 500,
  whatever text it carries; all other errors are answered without a report.\<close>

theorem internal_errors_opaque:
  "(er_report (into_response e) \<noteq> None \<longleftrightarrow> foreign_error e)
   \<and> (foreign_error e \<longrightarrow>
       er_status (into_response e) = 500 \<and>
       er_page (into_response e) = CommonErrorTemplate ([1054, 1096, 1080, 1073, 1082, 1072] :: rstr) \<comment> \<open>Oshibka\<close> ([1042, 1085, 1091, 1090, 1088, 1077, 1085, 1085, 1103, 1103, 32, 1086, 1096, 1080, 1073, 1082, 1072, 32, 1089, 1077, 1088, 1074, 1077, 1088, 1072] :: rstr) \<comment> \<open>Vnutrennyaya oshibka servera\<close> False True)"
proof (cases e)
  case (Sqlx x)
  then show ?thesis
    by (cases x) (simp_all add: into_response_def foreign_error_def)
qed (simp_all add: into_response_def foreign_error_def)

theorem internal_errors_opaque_witness:
  "er_report (into_response (Io (u ''disk full''))) \<noteq> None \<and> er_status (into_response (Io (u ''disk full''))) = 500"
  using internal_errors_opaque [of "Io (u ''disk full'')"] by (simp add: foreign_error_def)


end
