(* ===== verification/Topic_Posting.thy ===== *)
theory Topic_Posting
  imports Errors
begin

section \<open>Who may post a topic, how many and how fast\<close>

text \<open>
  The restriction chain of \<open>src/domain/topic/posting.rs\<close> and the services of
  \<open>src/application/topic/posting.rs\<close>: permission to post in a group, the daily limit and the
  per-address flood cache; with them the comment flood cache of
  \<open>src/application/auth/mod.rs\<close>, which keeps the same contract (the locale \<open>flood_gate\<close>).
\<close>

subsection \<open>The policy (src/domain/topic/posting.rs)\<close>

definition POSTSCORE_UNRESTRICTED :: int where "POSTSCORE_UNRESTRICTED = - 9999"
definition POSTSCORE_REGISTERED_ONLY :: int where "POSTSCORE_REGISTERED_ONLY = - 50"
definition POSTSCORE_MOD_AUTHOR :: int where "POSTSCORE_MOD_AUTHOR = 9999"
definition POSTSCORE_MODERATORS_ONLY :: int where "POSTSCORE_MODERATORS_ONLY = 10000"
definition POSTSCORE_NO_COMMENTS :: int where "POSTSCORE_NO_COMMENTS = 10001"
definition POSTSCORE_HIDE_COMMENTS :: int where "POSTSCORE_HIDE_COMMENTS = 10002"
definition USER_ANONYMOUS_LEVEL_SCORE :: int where "USER_ANONYMOUS_LEVEL_SCORE = 50"

lemmas postscore_defs = POSTSCORE_UNRESTRICTED_def POSTSCORE_REGISTERED_ONLY_def
  POSTSCORE_MOD_AUTHOR_def POSTSCORE_MODERATORS_ONLY_def POSTSCORE_NO_COMMENTS_def
  POSTSCORE_HIDE_COMMENTS_def USER_ANONYMOUS_LEVEL_SCORE_def

record StAddTopicActor =
  aa_optUserId :: "int option"
  aa_bAnonymous :: bool
  aa_bModerator :: bool
  aa_bCorrector :: bool
  aa_bBlocked :: bool
  aa_iScore :: int

record StIpBlockInfo =
  ip_bBlocked :: bool
  ip_bAllowRegisteredPosting :: bool

definition StIpBlockInfo_default :: StIpBlockInfo where
  "StIpBlockInfo_default = \<lparr>ip_bBlocked = False, ip_bAllowRegisteredPosting = True\<rparr>"

text \<open>\<open>StAddTopicPermission\<close> holds just the reason.\<close>

type_synonym StAddTopicPermission = "rstr option"

definition bPermitted :: "StAddTopicPermission \<Rightarrow> bool" where
  "bPermitted p \<longleftrightarrow> p = None"

record StTopicLimitInfo =
  tl_iLimit :: int
  tl_iCurrentCount :: int
  tl_bReached :: bool
  tl_bExempt :: bool

record StSlowModeInfo =
  sm_bCurrentlyFrozen :: bool
  sm_bFrozenWithinThreeDays :: bool
  sm_iRecentScoreLoss :: int

definition StSlowModeInfo_default :: StSlowModeInfo where
  "StSlowModeInfo_default =
     \<lparr>sm_bCurrentlyFrozen = False, sm_bFrozenWithinThreeDays = False, sm_iRecentScoreLoss = 0\<rparr>"

definition optFrozenReason :: "StAddTopicActor \<Rightarrow> bool \<Rightarrow> rstr option" where
  "optFrozenReason stActor bFrozen =
     (if aa_bAnonymous stActor \<and> bFrozen then Some ([1090, 1086, 1083, 1100, 1082, 1086, 32, 1076, 1083, 1103, 32, 1079, 1072, 1088, 1077, 1075, 1080, 1089, 1090, 1088, 1080, 1088, 1086, 1074, 1072, 1085, 1085, 1099, 1093] :: rstr) \<comment> \<open>tolko dlya zaregistrirovannykh\<close>
      else if bFrozen then Some ([1091, 1089, 1090, 1072, 1085, 1086, 1074, 1083, 1077, 1085, 32, 1088, 1077, 1078, 1080, 1084, 32, 1090, 1086, 1083, 1100, 1082, 1086, 32, 1076, 1083, 1103, 32, 1095, 1090, 1077, 1085, 1080, 1103] :: rstr) \<comment> \<open>ustanovlen rezhim tolko dlya chteniya\<close>
      else None)"

definition stars :: "nat \<Rightarrow> rstr" where
  "stars n = replicate n 9733"

text \<open>The arms of the \<open>match\<close>, guards included, in the order of the source.\<close>

definition optPostScoreReason :: "StAddTopicActor \<Rightarrow> int \<Rightarrow> rstr option" where
  "optPostScoreReason stActor iRestriction =
     (let below = (aa_bAnonymous stActor \<or> aa_iScore stActor < iRestriction) in
      if iRestriction = POSTSCORE_UNRESTRICTED then None
      else if iRestriction = POSTSCORE_MODERATORS_ONLY \<and> \<not> aa_bModerator stActor
        then Some ([1090, 1086, 1083, 1100, 1082, 1086, 32, 1076, 1083, 1103, 32, 1084, 1086, 1076, 1077, 1088, 1072, 1090, 1086, 1088, 1086, 1074] :: rstr) \<comment> \<open>tolko dlya moderatorov\<close>
      else if iRestriction = POSTSCORE_MODERATORS_ONLY then None
      else if iRestriction = POSTSCORE_REGISTERED_ONLY \<and> aa_bAnonymous stActor
        then Some ([1090, 1086, 1083, 1100, 1082, 1086, 32, 1076, 1083, 1103, 32, 1079, 1072, 1088, 1077, 1075, 1080, 1089, 1090, 1088, 1080, 1088, 1086, 1074, 1072, 1085, 1085, 1099, 1093] :: rstr) \<comment> \<open>tolko dlya zaregistrirovannykh\<close>
      else if iRestriction = POSTSCORE_REGISTERED_ONLY then None
      else if iRestriction = POSTSCORE_NO_COMMENTS \<or> iRestriction = POSTSCORE_HIDE_COMMENTS
        then Some ([1087, 1086, 1089, 1090, 1080, 1085, 1075, 32, 1079, 1072, 1087, 1088, 1077, 1097, 1077, 1085] :: rstr) \<comment> \<open>posting zapreshchen\<close>
      else if iRestriction \<in> {100, 200, 300, 400} \<and> below
        then Some (([1090, 1086, 1083, 1100, 1082, 1086, 32, 1076, 1083, 1103, 32, 1079, 1072, 1088, 1077, 1075, 1080, 1089, 1090, 1088, 1080, 1088, 1086, 1074, 1072, 1085, 1085, 1099, 1093, 44, 32, 1084, 1080, 1085, 1080, 1084, 1091, 1084, 32] :: rstr) \<comment> \<open>tolko dlya zaregistrirovannykh, minimum \<close> @ stars (nat (iRestriction div 100)))
      else if iRestriction = 500 \<and> below
        then Some (([1090, 1086, 1083, 1100, 1082, 1086, 32, 1076, 1083, 1103, 32, 1079, 1072, 1088, 1077, 1075, 1080, 1089, 1090, 1088, 1080, 1088, 1086, 1074, 1072, 1085, 1085, 1099, 1093, 44, 32] :: rstr) \<comment> \<open>tolko dlya zaregistrirovannykh, \<close> @ stars 5)
      else if below
        then Some (([1090, 1086, 1083, 1100, 1082, 1086, 32, 1076, 1083, 1103, 32, 1079, 1072, 1088, 1077, 1075, 1080, 1089, 1090, 1088, 1080, 1088, 1086, 1074, 1072, 1085, 1085, 1099, 1093, 44, 32, 115, 99, 111, 114, 101, 62, 61] :: rstr) \<comment> \<open>tolko dlya zaregistrirovannykh, score(gt)=\<close> @ show_int iRestriction)
      else None)"

definition optIpBlockReason :: "StAddTopicActor \<Rightarrow> StIpBlockInfo \<Rightarrow> rstr option" where
  "optIpBlockReason stActor stIpBlock =
     (if ip_bBlocked stIpBlock \<and> aa_bAnonymous stActor
        then Some ([1072, 1085, 1086, 1085, 1080, 1084, 1085, 1099, 1081, 32, 1087, 1086, 1089, 1090, 1080, 1085, 1075, 32, 1089, 32, 1101, 1090, 1086, 1075, 1086, 32, 73, 80, 32, 1072, 1076, 1088, 1077, 1089, 1072, 32, 1079, 1072, 1073, 1083, 1086, 1082, 1080, 1088, 1086, 1074, 1072, 1085] :: rstr) \<comment> \<open>anonimnyj posting s etogo IP adresa zablokirovan\<close>
      else if ip_bBlocked stIpBlock \<and>
          (aa_bAnonymous stActor \<or> aa_bBlocked stActor \<or> aa_iScore stActor < USER_ANONYMOUS_LEVEL_SCORE)
        then Some (([1087, 1086, 1089, 1090, 1080, 1085, 1075, 32, 1089, 32, 1101, 1090, 1086, 1075, 1086, 32, 73, 80, 32, 1072, 1076, 1088, 1077, 1089, 1072, 32, 1086, 1075, 1088, 1072, 1085, 1080, 1095, 1077, 1085, 32, 1076, 1083, 1103, 32, 1087, 1086, 1083, 1100, 1079, 1086, 1074, 1072, 1090, 1077, 1083, 1077, 1081, 32, 1089, 32, 115, 99, 111, 114, 101, 32, 60, 32] :: rstr) \<comment> \<open>posting s etogo IP adresa ogranichen dlya polzovatelej s score (lt) \<close>
                   @ show_int USER_ANONYMOUS_LEVEL_SCORE)
      else if ip_bBlocked stIpBlock \<and> \<not> aa_bAnonymous stActor \<and> \<not> ip_bAllowRegisteredPosting stIpBlock
        then Some ([1087, 1086, 1089, 1090, 1080, 1085, 1075, 32, 1089, 32, 1101, 1090, 1086, 1075, 1086, 32, 73, 80, 32, 1072, 1076, 1088, 1077, 1089, 1072, 32, 1079, 1072, 1073, 1083, 1086, 1082, 1080, 1088, 1086, 1074, 1072, 1085] :: rstr) \<comment> \<open>posting s etogo IP adresa zablokirovan\<close>
      else None)"

definition stCheckAddTopic :: "StAddTopicActor \<Rightarrow> bool \<Rightarrow> StIpBlockInfo \<Rightarrow> int \<Rightarrow> StAddTopicPermission" where
  "stCheckAddTopic stActor bFrozen stIpBlock iRestriction =
     or_else (or_else (optFrozenReason stActor bFrozen) (optPostScoreReason stActor iRestriction))
       (optIpBlockReason stActor stIpBlock)"

definition iTopicDailyLimit :: "int \<Rightarrow> int" where
  "iTopicDailyLimit iScore = max ((max 0 (min iScore 599)) div 100) 2"

definition bSlowModeRestricted :: "StAddTopicActor \<Rightarrow> StSlowModeInfo \<Rightarrow> bool" where
  "bSlowModeRestricted stActor stInfo \<longleftrightarrow>
     (if aa_bAnonymous stActor \<or> aa_bBlocked stActor \<or> sm_bCurrentlyFrozen stInfo then False
      else aa_iScore stActor < 35 \<or> sm_bFrozenWithinThreeDays stInfo \<or> sm_iRecentScoreLoss stInfo \<ge> 30)"

definition stCheckTopicPublish :: "StAddTopicPermission \<Rightarrow> StTopicLimitInfo \<Rightarrow> StAddTopicPermission" where
  "stCheckTopicPublish stAddPermission stLimitInfo =
     (if \<not> bPermitted stAddPermission then stAddPermission
      else if \<not> tl_bExempt stLimitInfo \<and> tl_bReached stLimitInfo
        then Some ([1087, 1088, 1077, 1074, 1099, 1096, 1077, 1085, 32, 1083, 1080, 1084, 1080, 1090, 32, 1095, 1080, 1089, 1083, 1072, 32, 1090, 1086, 1087, 1080, 1082, 1086, 1074, 32, 1074, 32, 1089, 1091, 1090, 1082, 1080] :: rstr) \<comment> \<open>prevyshen limit chisla topikov v sutki\<close>
      else None)"

lemmas posting_defs = stCheckAddTopic_def optFrozenReason_def optPostScoreReason_def
  optIpBlockReason_def bPermitted_def

text \<open>The contract of the chain, said once as a condition.\<close>

definition may_post_level :: "StAddTopicActor \<Rightarrow> int \<Rightarrow> bool" where
  "may_post_level a r \<longleftrightarrow>
     r = - 9999
     \<or> (r = 10000 \<and> aa_bModerator a)
     \<or> (r = - 50 \<and> \<not> aa_bAnonymous a)
     \<or> (r \<notin> {- 9999, 10000, - 50, 10001, 10002} \<and> \<not> aa_bAnonymous a \<and> r \<le> aa_iScore a)"

definition ip_allows :: "StAddTopicActor \<Rightarrow> StIpBlockInfo \<Rightarrow> bool" where
  "ip_allows a b \<longleftrightarrow> \<not> ip_bBlocked b
     \<or> (\<not> aa_bAnonymous a \<and> \<not> aa_bBlocked a \<and> 50 \<le> aa_iScore a \<and> ip_bAllowRegisteredPosting b)"

lemma optPostScoreReason_None: "optPostScoreReason a r = None \<longleftrightarrow> may_post_level a r"
  by (auto simp: optPostScoreReason_def may_post_level_def postscore_defs Let_def)

lemma optIpBlockReason_None: "optIpBlockReason a b = None \<longleftrightarrow> ip_allows a b"
  by (auto simp: optIpBlockReason_def ip_allows_def postscore_defs)

lemma optFrozenReason_None: "optFrozenReason a f = None \<longleftrightarrow> \<not> f"
  by (simp add: optFrozenReason_def)

lemma check_permits_iff:
  "bPermitted (stCheckAddTopic a bFrozen b r) \<longleftrightarrow> \<not> bFrozen \<and> may_post_level a r \<and> ip_allows a b"
  by (simp add: bPermitted_def stCheckAddTopic_def optPostScoreReason_None optIpBlockReason_None
      optFrozenReason_None)

text \<open>The restriction chain decides as specified: posting is permitted exactly when the
  user is not frozen, the group level admits the actor (unrestricted; moderators for 10000;
  registered users for -50; nobody for 10001 and 10002; otherwise a registered user with at
  least that score) and the address is not blocked for that actor.\<close>

theorem check_add_topic_permits_iff:
  "bPermitted (stCheckAddTopic a bFrozen b r) \<longleftrightarrow> \<not> bFrozen \<and> may_post_level a r \<and> ip_allows a b"
  by (simp add: bPermitted_def stCheckAddTopic_def optPostScoreReason_None optIpBlockReason_None
      optFrozenReason_None)

text \<open>Permission is monotone: whoever may post keeps the permission when the score rises,
  moderator rights are gained or the address block is lifted.\<close>

theorem check_add_topic_monotone:
  assumes "bPermitted (stCheckAddTopic a f b r)"
    and "aa_iScore a \<le> aa_iScore a'" and "aa_bAnonymous a' = aa_bAnonymous a"
    and "aa_bBlocked a' \<longrightarrow> aa_bBlocked a" and "aa_bModerator a \<longrightarrow> aa_bModerator a'"
    and "ip_bBlocked b' \<longrightarrow> ip_bBlocked b \<and> ip_bAllowRegisteredPosting b' = ip_bAllowRegisteredPosting b"
  shows "bPermitted (stCheckAddTopic a' f b' r)"
  using assms
  unfolding bPermitted_def stCheckAddTopic_def or_else_None_iff optPostScoreReason_None
    optIpBlockReason_None optFrozenReason_None may_post_level_def ip_allows_def
  by auto

definition ex_actor :: StAddTopicActor where
  "ex_actor = \<lparr>aa_optUserId = Some 7, aa_bAnonymous = False, aa_bModerator = False,
     aa_bCorrector = False, aa_bBlocked = False, aa_iScore = 120\<rparr>"

theorem check_add_topic_monotone_witness:
  "bPermitted (stCheckAddTopic (ex_actor\<lparr>aa_iScore := 300\<rparr>) False StIpBlockInfo_default 100)"
proof (rule check_add_topic_monotone [where a = ex_actor and b = StIpBlockInfo_default])
  show "bPermitted (stCheckAddTopic ex_actor False StIpBlockInfo_default 100)"
    by (simp add: posting_defs postscore_defs ex_actor_def StIpBlockInfo_default_def)
qed (simp_all add: ex_actor_def)

text \<open>The daily topic limit is between two and five, never falls when the score rises and
  is exactly the number of full hundreds from 200 to 599.\<close>

theorem daily_limit_bounds:
  "2 \<le> iTopicDailyLimit s \<and> iTopicDailyLimit s \<le> 5
   \<and> (s \<le> t \<longrightarrow> iTopicDailyLimit s \<le> iTopicDailyLimit t)
   \<and> (200 \<le> s \<and> s \<le> 599 \<longrightarrow> iTopicDailyLimit s = s div 100)"
proof -
  have "(max 0 (min s 599)) div 100 \<le> (599::int) div 100"
    by (rule zdiv_mono1) auto
  moreover have "s \<le> t \<Longrightarrow> (max 0 (min s 599)) div 100 \<le> (max 0 (min t 599)) div 100"
    by (rule zdiv_mono1) auto
  moreover have "200 \<le> s \<Longrightarrow> 2 \<le> s div 100"
    using zdiv_mono1 [of 200 s 100] by simp
  ultimately show ?thesis by (auto simp: iTopicDailyLimit_def max_def min_def)
qed

theorem daily_limit_bounds_witness: "iTopicDailyLimit 250 = 2 \<and> iTopicDailyLimit 250 \<le> iTopicDailyLimit 400"
  using daily_limit_bounds [of 250 400] by simp


subsection \<open>Flood caches\<close>

type_synonym flood_map = "rstr \<rightharpoonup> time"

text \<open>\<open>retain\<close> keeps an action whose age is defined (not in the future) and below 30 minutes.\<close>

definition flood_retain :: "time \<Rightarrow> flood_map \<Rightarrow> flood_map" where
  "flood_retain tmNow m =
     (\<lambda>k. case m k of None \<Rightarrow> None
        | Some t \<Rightarrow> (if t \<le> tmNow \<and> tmNow - t < minutes 30 then Some t else None))"

definition flood_message :: "nat \<Rightarrow> rstr" where
  "flood_message n = ([1057, 1083, 1077, 1076, 1091, 1102, 1097, 1077, 1077, 32, 1089, 1086, 1086, 1073, 1097, 1077, 1085, 1080, 1077, 32, 1084, 1086, 1078, 1077, 1090, 32, 1073, 1099, 1090, 1100, 32, 1079, 1072, 1087, 1080, 1089, 1072, 1085, 1086, 32, 1085, 1077, 32, 1084, 1077, 1085, 1077, 1077, 32, 1095, 1077, 1084, 32, 1095, 1077, 1088, 1077, 1079, 32] :: rstr) \<comment> \<open>Sleduyushchee soobshchenie mozhet byt zapisano ne menee chem cherez \<close>
     @ show_nat n @ ([32, 1089, 1077, 1082, 1091, 1085, 1076, 32, 1087, 1086, 1089, 1083, 1077, 32, 1087, 1088, 1077, 1076, 1099, 1076, 1091, 1097, 1077, 1075, 1086] :: rstr) \<comment> \<open> sekund posle predydushchego\<close>"

definition optRecordAddTopicAt ::
    "flood_map \<Rightarrow> rstr \<Rightarrow> nat \<Rightarrow> time \<Rightarrow> rstr option \<times> flood_map" where
  "optRecordAddTopicAt mapActions sRemoteIp iThresholdSeconds tmNow =
     (let m = flood_retain tmNow mapActions;
          sKey = (u ''AddTopic:'') @ sRemoteIp
      in if (case m sKey of None \<Rightarrow> False | Some t \<Rightarrow> t + seconds (int iThresholdSeconds) > tmNow)
         then (Some (flood_message iThresholdSeconds), m)
         else (None, m(sKey \<mapsto> tmNow)))"

text \<open>\<open>CCommentFloodCache\<close>: the flag of the constructor and the check.\<close>

record CCommentFloodCache =
  cf_bEnabled :: bool
  cf_mapPerformed :: flood_map

text \<open>\<open>url_host\<close> stands for \<open>reqwest::Url::parse\<close> followed by \<open>host_str\<close>.\<close>

definition CCommentFloodCache_new :: "(rstr \<Rightarrow> rstr option) \<Rightarrow> rstr \<Rightarrow> CCommentFloodCache" where
  "CCommentFloodCache_new url_host sPublicUrl =
     \<lparr>cf_bEnabled = (url_host sPublicUrl \<noteq> Some (u ''127.0.0.1'')), cf_mapPerformed = Map.empty\<rparr>"

definition optCheckCommentAt ::
    "flood_map \<Rightarrow> rstr \<Rightarrow> nat \<Rightarrow> time \<Rightarrow> rstr option \<times> flood_map" where
  "optCheckCommentAt mapPerformed sRemoteIp iThresholdSeconds dtNow =
     (let m = flood_retain dtNow mapPerformed;
          sKey = (u ''AddComment:'') @ sRemoteIp
      in if (case m sKey of None \<Rightarrow> False | Some t \<Rightarrow> t + seconds (int iThresholdSeconds) > dtNow)
         then (Some (flood_message iThresholdSeconds), m)
         else (None, m(sKey \<mapsto> dtNow)))"

definition optCheckComment ::
    "CCommentFloodCache \<Rightarrow> rstr \<Rightarrow> nat \<Rightarrow> time \<Rightarrow> rstr option \<times> CCommentFloodCache" where
  "optCheckComment c sRemoteIp iThresholdSeconds dtNow =
     (if \<not> cf_bEnabled c then (None, c)
      else let (r, m) = optCheckCommentAt (cf_mapPerformed c) sRemoteIp iThresholdSeconds dtNow
           in (r, c\<lparr>cf_mapPerformed := m\<rparr>))"

text \<open>
  The contract both caches keep.  A request is (address, threshold in seconds, time);
  \<open>flood_run\<close> feeds a sequence of them to a cache and collects the accepted ones.
\<close>

fun flood_run :: "(flood_map \<Rightarrow> rstr \<Rightarrow> nat \<Rightarrow> time \<Rightarrow> rstr option \<times> flood_map)
    \<Rightarrow> flood_map \<Rightarrow> (rstr \<times> nat \<times> time) list \<Rightarrow> (rstr \<times> nat \<times> time) list" where
  "flood_run check m [] = []"
| "flood_run check m ((ip, n, t) # rs) =
     (case check m ip n t of
        (None, m') \<Rightarrow> (ip, n, t) # flood_run check m' rs
      | (Some e, m') \<Rightarrow> flood_run check m' rs)"

definition far_enough :: "time \<Rightarrow> nat \<Rightarrow> time \<Rightarrow> bool" where
  "far_enough t n t' \<longleftrightarrow> min (seconds (int n)) (minutes 30) \<le> t' - t"

fun spaced :: "rstr \<times> nat \<times> time \<Rightarrow> rstr \<times> nat \<times> time \<Rightarrow> bool" where
  "spaced (ip, n, t) (ip', n', t') \<longleftrightarrow> (ip = ip' \<longrightarrow> far_enough t n' t')"

locale flood_gate =
  fixes check :: "flood_map \<Rightarrow> rstr \<Rightarrow> nat \<Rightarrow> time \<Rightarrow> rstr option \<times> flood_map"
    and key :: "rstr \<Rightarrow> rstr"
  assumes key_eq: "key ip = key ip' \<longleftrightarrow> ip = ip'"
    and accepted: "check m ip n t = (None, m') \<Longrightarrow> m' = (flood_retain t m)(key ip \<mapsto> t)"
    and rejected: "check m ip n t = (Some e, m') \<Longrightarrow>
      m' = flood_retain t m \<and> (\<exists>s. flood_retain t m (key ip) = Some s \<and> t < s + seconds (int n))"
    and refuses: "flood_retain t m (key ip) = Some s \<Longrightarrow> t < s + seconds (int n) \<Longrightarrow>
      fst (check m ip n t) \<noteq> None"
begin

lemma accepted_far:
  assumes "check m ip n t = (None, m')" and "m (key ip) = Some s" and "s \<le> t"
  shows "far_enough s n t"
proof (cases "t - s < minutes 30")
  case True
  with assms(2,3) have "flood_retain t m (key ip) = Some s" by (simp add: flood_retain_def)
  with refuses [of t m ip s n] assms(1) have "\<not> t < s + seconds (int n)" by auto
  then show ?thesis by (simp add: far_enough_def min_def)
qed (simp add: far_enough_def min_def)

lemma kept_or_expired:
  assumes "m (key ip) = Some s" and "s \<le> t" and "check m ip' n t = (r, m')"
    and "ip' = ip \<Longrightarrow> r \<noteq> None"
  shows "m' (key ip) = Some s \<or> minutes 30 \<le> t - s"
proof -
  have "flood_retain t m (key ip) = Some s \<or> minutes 30 \<le> t - s"
    using assms(1,2) by (auto simp: flood_retain_def)
  moreover have "m' (key ip) = flood_retain t m (key ip)"
    using assms(3,4) accepted [of m ip' n t m'] rejected [of m ip' n t _ m']
    by (cases r) (auto simp: key_eq)
  ultimately show ?thesis by simp
qed

lemma run_times: "(ip, n, t) \<in> set (flood_run check m rs) \<Longrightarrow> (ip, n, t) \<in> set rs"
proof (induction rs arbitrary: m)
  case (Cons q rs)
  obtain ip1 n1 t1 where q: "q = (ip1, n1, t1)" by (cases q)
  obtain r m1 where c: "check m ip1 n1 t1 = (r, m1)" by fastforce
  from Cons.prems q c have "q = (ip, n, t) \<or> (ip, n, t) \<in> set (flood_run check m1 rs)"
    by (cases r) auto
  with Cons.IH show ?case by auto
qed simp

lemma after_entry:
  assumes "m (key ip) = Some s" and "sorted (s # map (\<lambda>(_, _, t). t) rs)"
    and "(ip, n, t) \<in> set (flood_run check m rs)"
  shows "far_enough s n t"
  using assms
proof (induction rs arbitrary: m s)
  case (Cons q rs)
  obtain ip1 n1 t1 where q: "q = (ip1, n1, t1)" by (cases q)
  obtain r m1 where c: "check m ip1 n1 t1 = (r, m1)" by fastforce
  from Cons.prems(2) q have st: "s \<le> t1" and later: "sorted (t1 # map (\<lambda>(_, _, t). t) rs)"
    by auto
  from later st have later': "sorted (s # map (\<lambda>(_, _, t). t) rs)" by auto
  have tail_ge: "t1 \<le> t" if "(ip, n, t) \<in> set (flood_run check m1 rs)"
    using run_times [OF that] later by auto
  show ?case
  proof (cases "ip1 = ip \<and> r = None")
    case True
    then have f1: "far_enough s n1 t1" using accepted_far c Cons.prems(1) st by auto
    from True c have m1: "m1 (key ip) = Some t1" using accepted by fastforce
    from Cons.prems(3) q c True consider "n = n1" "t = t1" | "(ip, n, t) \<in> set (flood_run check m1 rs)"
      by auto
    then show ?thesis
    proof cases
      case 2
      from Cons.IH [OF m1 later this] st show ?thesis by (simp add: far_enough_def)
    qed (use f1 in simp)
  next
    case False
    with Cons.prems(3) q c have mem: "(ip, n, t) \<in> set (flood_run check m1 rs)"
      by (auto split: option.splits)
    have "m1 (key ip) = Some s \<or> minutes 30 \<le> t1 - s"
      by (rule kept_or_expired [OF Cons.prems(1) st c]) (use False in auto)
    then show ?thesis
    proof
      assume "m1 (key ip) = Some s"
      then show ?thesis by (rule Cons.IH [OF _ later' mem])
    next
      assume "minutes 30 \<le> t1 - s"
      with tail_ge [OF mem] show ?thesis by (simp add: far_enough_def)
    qed
  qed
qed simp

lemma run_spaced:
  assumes "sorted (map (\<lambda>(_, _, t). t) rs)"
  shows "sorted_wrt spaced (flood_run check m rs)"
  using assms
proof (induction rs arbitrary: m)
  case (Cons q rs)
  obtain ip n t where q: "q = (ip, n, t)" by (cases q)
  obtain r m1 where c: "check m ip n t = (r, m1)" by fastforce
  from Cons.prems q have later: "sorted (t # map (\<lambda>(_, _, t). t) rs)"
    and tl: "sorted (map (\<lambda>(_, _, t). t) rs)" by auto
  show ?case
  proof (cases r)
    case None
    with c have m1: "m1 (key ip) = Some t" using accepted by fastforce
    have "spaced (ip, n, t) x" if x: "x \<in> set (flood_run check m1 rs)" for x
    proof (cases x)
      case (fields ip' n' t')
      with x after_entry [of m1 ip t rs n' t', OF m1 later] show ?thesis by simp
    qed
    with None q c Cons.IH [OF tl] show ?thesis by simp
  next
    case (Some e)
    with q c Cons.IH [OF tl] show ?thesis by simp
  qed
qed simp

end

interpretation topic_gate: flood_gate optRecordAddTopicAt "\<lambda>ip. (u ''AddTopic:'') @ ip"
  by unfold_locales
    (auto simp: optRecordAddTopicAt_def Let_def split: option.splits if_splits)

interpretation comment_gate: flood_gate optCheckCommentAt "\<lambda>ip. (u ''AddComment:'') @ ip"
  by unfold_locales
    (auto simp: optCheckCommentAt_def Let_def split: option.splits if_splits)

text \<open>Flood protection for topics: when requests arrive in time order, any two accepted
  ones from the same address are at least the later one's threshold (at most the 30 minutes
  the cache remembers) apart, whatever other addresses do in between and whatever the
  cache held before.\<close>

theorem topic_flood_spacing:
  assumes "sorted (map (\<lambda>(_, _, t). t) rs)"
  shows "sorted_wrt spaced (flood_run optRecordAddTopicAt m rs)"
  using assms by (rule topic_gate.run_spaced)

theorem topic_flood_spacing_witness:
  "sorted_wrt spaced (flood_run optRecordAddTopicAt Map.empty
     [((u ''1.2.3.4''), 30, 0), ((u ''1.2.3.4''), 30, 10000000), ((u ''1.2.3.4''), 30, 31000000)])"
  by (rule topic_flood_spacing) simp

text \<open>The comment flood cache behaves as the topic one: it keeps the same spacing, an
  attempt it rejects does not move the recorded time (so it cannot be starved by retries),
  and an attempt is refused exactly when a remembered action is younger than the threshold.\<close>

theorem comment_flood_contract:
  assumes "sorted (map (\<lambda>(_, _, t). t) rs)"
  shows "sorted_wrt spaced (flood_run optCheckCommentAt m rs)
    \<and> (fst (optCheckCommentAt m ip n t) \<noteq> None \<longleftrightarrow>
         (\<exists>s. m ((u ''AddComment:'') @ ip) = Some s \<and> s \<le> t \<and> t - s < minutes 30 \<and> t < s + seconds (int n)))
    \<and> (fst (optCheckCommentAt m ip n t) \<noteq> None \<longrightarrow>
         snd (optCheckCommentAt m ip n t) ((u ''AddComment:'') @ ip) = m ((u ''AddComment:'') @ ip))"
  using comment_gate.run_spaced [OF assms]
  by (auto simp: optCheckCommentAt_def Let_def flood_retain_def split: option.splits if_splits)

theorem comment_flood_contract_witness:
  "sorted_wrt spaced (flood_run optCheckCommentAt Map.empty [((u ''::1''), 10, 0), ((u ''::1''), 10, 9000000)])"
  using comment_flood_contract [of "[((u ''::1''), 10, 0), ((u ''::1''), 10, 9000000)]"] by simp

subsection \<open>The services (src/application/topic/posting.rs)\<close>

text \<open>The repository trait as the record of its operations.\<close>

record 'w TrAddTopicRepository =
  ar_optGroupTopicRestriction :: "int \<Rightarrow> ('w, app_error, int option) eff"
  ar_bIsUserFrozen :: "int \<Rightarrow> ('w, app_error, bool) eff"
  ar_stIpBlockInfo :: "rstr \<Rightarrow> ('w, app_error, StIpBlockInfo) eff"
  ar_iCountRecentTopics :: "int \<Rightarrow> int \<Rightarrow> ('w, app_error, int) eff"
  ar_stSlowModeInfo :: "int \<Rightarrow> ('w, app_error, StSlowModeInfo) eff"

definition stTopicLimitInfo ::
    "'w TrAddTopicRepository \<Rightarrow> StAddTopicActor \<Rightarrow> int \<Rightarrow> ('w, app_error, StTopicLimitInfo) eff" where
  "stTopicLimitInfo repo stActor iSectionId =
     (if aa_bAnonymous stActor \<or> aa_bModerator stActor \<or> aa_bCorrector stActor
      then ret_eff \<lparr>tl_iLimit = 0, tl_iCurrentCount = 0, tl_bReached = False, tl_bExempt = True\<rparr>
      else bind_eff (case aa_optUserId stActor of
                Some iUserId \<Rightarrow> ar_iCountRecentTopics repo iUserId iSectionId
              | None \<Rightarrow> ret_eff 0) (\<lambda>iCurrentCount.
           let iLimit = iTopicDailyLimit (aa_iScore stActor)
           in ret_eff \<lparr>tl_iLimit = iLimit, tl_iCurrentCount = iCurrentCount,
                tl_bReached = (iCurrentCount \<ge> iLimit), tl_bExempt = False\<rparr>))"

definition iAddTopicThresholdSeconds :: "StAddTopicActor \<Rightarrow> StSlowModeInfo \<Rightarrow> nat" where
  "iAddTopicThresholdSeconds stActor stInfo =
     (if aa_bAnonymous stActor \<or> bSlowModeRestricted stActor stInfo \<or> aa_iScore stActor < 100
      then 10 * 60 else 30)"

definition publish_rate_enabled :: "(rstr \<Rightarrow> rstr option) \<Rightarrow> rstr \<Rightarrow> bool" where
  "publish_rate_enabled url_host sPublicUrl \<longleftrightarrow>
     (case url_host sPublicUrl of None \<Rightarrow> True | Some sHost \<Rightarrow> sHost \<noteq> (u ''127.0.0.1''))"

text \<open>The service's mutex-protected map is the second component of the state.\<close>

definition optCheckAddTopicRate ::
    "'w TrAddTopicRepository \<Rightarrow> bool \<Rightarrow> StAddTopicActor \<Rightarrow> rstr \<Rightarrow> time
      \<Rightarrow> 'w \<times> flood_map \<Rightarrow> (app_error + rstr option) \<times> ('w \<times> flood_map)" where
  "optCheckAddTopicRate repo bRateLimitEnabled stActor sRemoteIp tmNow = (\<lambda>(w, m).
     if \<not> bRateLimitEnabled then (Inr None, (w, m))
     else
       (case (case aa_optUserId stActor of
                Some iUserId \<Rightarrow> (if \<not> aa_bAnonymous stActor then ar_stSlowModeInfo repo iUserId w
                                else (Inr StSlowModeInfo_default, w))
              | None \<Rightarrow> (Inr StSlowModeInfo_default, w)) of
          (Inl e, w') \<Rightarrow> (Inl e, (w', m))
        | (Inr stSlow, w') \<Rightarrow>
            (let (r, m') = optRecordAddTopicAt m sRemoteIp
                             (iAddTopicThresholdSeconds stActor stSlow) tmNow
             in (Inr r, (w', m')))))"

definition service_bSlowModeRestricted ::
    "'w TrAddTopicRepository \<Rightarrow> StAddTopicActor \<Rightarrow> ('w, app_error, bool) eff" where
  "service_bSlowModeRestricted repo stActor =
     (case aa_optUserId stActor of
        None \<Rightarrow> ret_eff False
      | Some iUserId \<Rightarrow>
          (if aa_bAnonymous stActor then ret_eff False
           else bind_eff (ar_stSlowModeInfo repo iUserId) (\<lambda>stInfo.
                  ret_eff (bSlowModeRestricted stActor stInfo))))"

definition stCheckRestriction ::
    "'w TrAddTopicRepository \<Rightarrow> int \<Rightarrow> StAddTopicActor \<Rightarrow> rstr
      \<Rightarrow> ('w, app_error, StAddTopicPermission) eff" where
  "stCheckRestriction repo iRestriction stActor sRemoteIp =
     bind_eff (case aa_optUserId stActor of Some iUserId \<Rightarrow> ar_bIsUserFrozen repo iUserId
               | None \<Rightarrow> ret_eff False) (\<lambda>bFrozen.
     bind_eff (ar_stIpBlockInfo repo sRemoteIp) (\<lambda>stIpBlock.
       ret_eff (stCheckAddTopic stActor bFrozen stIpBlock iRestriction)))"

definition optCheckGroup ::
    "'w TrAddTopicRepository \<Rightarrow> int \<Rightarrow> StAddTopicActor \<Rightarrow> rstr
      \<Rightarrow> ('w, app_error, StAddTopicPermission option) eff" where
  "optCheckGroup repo iGroupId stActor sRemoteIp =
     bind_eff (ar_optGroupTopicRestriction repo iGroupId) (\<lambda>optRestriction.
       case optRestriction of
         None \<Rightarrow> ret_eff None
       | Some iRestriction \<Rightarrow>
           bind_eff (case aa_optUserId stActor of Some iUserId \<Rightarrow> ar_bIsUserFrozen repo iUserId
                     | None \<Rightarrow> ret_eff False) (\<lambda>bFrozen.
           bind_eff (ar_stIpBlockInfo repo sRemoteIp) (\<lambda>stIpBlock.
             ret_eff (Some (stCheckAddTopic stActor bFrozen stIpBlock iRestriction)))))"

text \<open>The publish check applies the daily limit to the right people: with the limit
  information the service computed, an otherwise permitted actor is refused exactly when the
  actor is neither anonymous nor moderator nor corrector and the number of recent topics has
  reached the limit for the score.\<close>

theorem publish_limit_applies:
  assumes "stTopicLimitInfo repo a sect w = (Inr info, w')"
    and "aa_optUserId a = Some uid"
  shows "bPermitted (stCheckTopicPublish p info) \<longleftrightarrow>
    bPermitted p \<and>
    (aa_bAnonymous a \<or> aa_bModerator a \<or> aa_bCorrector a
     \<or> (\<exists>n. ar_iCountRecentTopics repo uid sect w = (Inr n, w') \<and> n < iTopicDailyLimit (aa_iScore a)))"
  using assms
  by (auto simp: stTopicLimitInfo_def stCheckTopicPublish_def bPermitted_def Let_def
      eff_simps ret_eff_def split: if_splits)

definition ex_add_repo :: "unit TrAddTopicRepository" where
  "ex_add_repo = \<lparr>ar_optGroupTopicRestriction = (\<lambda>_. ret_eff (Some 50)),
     ar_bIsUserFrozen = (\<lambda>_. ret_eff False),
     ar_stIpBlockInfo = (\<lambda>_. ret_eff StIpBlockInfo_default),
     ar_iCountRecentTopics = (\<lambda>_ _. ret_eff 2),
     ar_stSlowModeInfo = (\<lambda>_. ret_eff StSlowModeInfo_default)\<rparr>"

theorem publish_limit_applies_witness:
  "\<not> bPermitted (stCheckTopicPublish None
       \<lparr>tl_iLimit = 2, tl_iCurrentCount = 2, tl_bReached = True, tl_bExempt = False\<rparr>)"
proof -
  have h: "stTopicLimitInfo ex_add_repo ex_actor 1 () =
      (Inr \<lparr>tl_iLimit = 2, tl_iCurrentCount = 2, tl_bReached = True, tl_bExempt = False\<rparr>, ())"
    by (simp add: stTopicLimitInfo_def ex_add_repo_def ex_actor_def iTopicDailyLimit_def
        bind_eff_def ret_eff_def)
  show ?thesis
    using publish_limit_applies [OF h, of 7 None]
    by (simp add: ex_actor_def ex_add_repo_def iTopicDailyLimit_def ret_eff_def)
qed

text \<open>Rate limiting is strict for the untrusted: a topic request that passes the limiter is
  recorded under its address at the current time, and any further request from that address
  within ten minutes is refused if the actor is anonymous, in slow mode or below score 100
  (30 seconds for everybody else), unless the limiter is off.\<close>

theorem rate_limit_strict:
  assumes first: "optCheckAddTopicRate repo True a ip t (w, m) = (Inr None, (w1, m1))"
    and second: "optCheckAddTopicRate repo True b ip t' (w1, m1) = (Inr r, (w2, m2))"
    and "t \<le> t'" and "t' < t + seconds (if aa_bAnonymous b \<or> aa_iScore b < 100 then 600 else 30)"
  shows "r \<noteq> None \<and> m1 ((u ''AddTopic:'') @ ip) = Some t"
proof -
  from first have m1: "m1 ((u ''AddTopic:'') @ ip) = Some t"
    by (auto simp: optCheckAddTopicRate_def optRecordAddTopicAt_def Let_def
        split: prod.splits sum.splits if_splits option.splits)
  from second obtain st where r: "optRecordAddTopicAt m1 ip (iAddTopicThresholdSeconds b st) t' = (r, m2)"
    by (auto simp: optCheckAddTopicRate_def split: prod.splits sum.splits)
  have "seconds (if aa_bAnonymous b \<or> aa_iScore b < 100 then 600 else 30)
      \<le> seconds (int (iAddTopicThresholdSeconds b st))"
    by (simp add: iAddTopicThresholdSeconds_def seconds_def)
  moreover have "seconds (if aa_bAnonymous b \<or> aa_iScore b < 100 then 600 else 30) \<le> minutes 30"
    by (simp add: duration_defs)
  ultimately have "fst (optRecordAddTopicAt m1 ip (iAddTopicThresholdSeconds b st) t') \<noteq> None"
    using assms(3,4) m1 by (intro topic_gate.refuses [of t' m1 ip t]) (auto simp: flood_retain_def)
  with r m1 show ?thesis by (metis fst_conv)
qed

theorem rate_limit_strict_witness:
  "fst (optRecordAddTopicAt [(u ''AddTopic:1.2.3.4'') \<mapsto> 0] (u ''1.2.3.4'') 30 20000000) \<noteq> None"
proof -
  let ?m1 = "Map.empty((u ''AddTopic:1.2.3.4'') \<mapsto> 0)"
  have a: "optCheckAddTopicRate ex_add_repo True ex_actor (u ''1.2.3.4'') 0 ((), Map.empty) = (Inr None, ((), ?m1))"
    by (simp add: optCheckAddTopicRate_def ex_add_repo_def ex_actor_def optRecordAddTopicAt_def
        flood_retain_def ret_eff_def)
  have b: "optCheckAddTopicRate ex_add_repo True ex_actor (u ''1.2.3.4'') 20000000 ((), ?m1)
      = (Inr (fst (optRecordAddTopicAt ?m1 (u ''1.2.3.4'') 30 20000000)),
         ((), snd (optRecordAddTopicAt ?m1 (u ''1.2.3.4'') 30 20000000)))"
    by (simp add: optCheckAddTopicRate_def ex_add_repo_def ex_actor_def ret_eff_def
        iAddTopicThresholdSeconds_def bSlowModeRestricted_def StSlowModeInfo_default_def
        case_prod_beta Let_def)
  show ?thesis
    using rate_limit_strict [OF a b] by (simp add: ex_actor_def duration_defs)
qed

end
