(* ===== verification/Binding.thy ===== *)
theory Binding
  imports Errors
begin

section \<open>Request parameters and their binders\<close>

text \<open>
  Spring's \<open>@RequestParam\<close> view of a request: a list of decoded pairs in which the first
  value of a name counts.  The code looks names up in four places (\<open>form::get\<close>, the
  deletion binder, the comment binder, the moderation binder); the locale
  \<open>first_value\<close> is the contract they share.  On it rest the binders of
  \<open>src/domain/topic/deletion.rs\<close>, \<open>src/domain/topic/moderation.rs\<close> and
  \<open>src/domain/comment/message_form.rs\<close> and the parameter merge of \<open>src/form.rs\<close>.
\<close>

subsection \<open>First-value lookup\<close>

definition form_get :: "params \<Rightarrow> rstr \<Rightarrow> rstr option" where
  "form_get pairs key = map_option snd (find (\<lambda>(k, _). k = key) pairs)"

definition form_get_all :: "params \<Rightarrow> rstr \<Rightarrow> rstr list" where
  "form_get_all pairs key = map snd (filter (\<lambda>(k, _). k = key) pairs)"

fun optValue :: "params \<Rightarrow> rstr \<Rightarrow> rstr option" where
  "optValue [] sName = None"
| "optValue ((sKey, sValue) # ps) sName = (if sKey = sName then Some sValue else optValue ps sName)"

fun optFirst :: "params \<Rightarrow> rstr \<Rightarrow> rstr option" where
  "optFirst [] sName = None"
| "optFirst ((sKey, sValue) # ps) sName = (if sKey = sName then Some sValue else optFirst ps sName)"

locale first_value =
  fixes look :: "params \<Rightarrow> rstr \<Rightarrow> rstr option"
  assumes look_nil: "look [] k = None"
    and look_cons: "look ((k', v) # ps) k = (if k' = k then Some v else look ps k)"
begin

lemma look_append: "look (ps @ qs) k = or_else (look ps k) (look qs k)"
  by (induction ps) (auto simp: look_nil look_cons)

lemma look_map_of: "look ps k = map_of ps k"
  by (induction ps) (auto simp: look_nil look_cons)

lemma look_hd: "look ((k, v) # ps) k = Some v"
  by (simp add: look_cons)

lemma look_skip: "k' \<noteq> k \<Longrightarrow> look ((k', v) # ps) k = look ps k"
  by (simp add: look_cons)

lemma look_None_iff: "look ps k = None \<longleftrightarrow> k \<notin> fst ` set ps"
  by (simp add: look_map_of map_of_eq_None_iff)

end

interpretation form_fv: first_value form_get
  by unfold_locales (simp_all add: form_get_def)

interpretation deletion_fv: first_value optValue
  by unfold_locales simp_all

interpretation comment_fv: first_value optFirst
  by unfold_locales simp_all

lemma form_get_all_hd: "form_get_all ps k = [] \<longleftrightarrow> form_get ps k = None"
  "form_get ps k = Some v \<Longrightarrow> hd (form_get_all ps k) = v"
  by (induction ps) (auto simp: form_get_all_def form_fv.look_nil form_fv.look_cons split: if_splits)

text \<open>The parameters of a request: query first, then an URL-encoded POST body, unless empty.
  \<open>parse\<close> is \<open>serde_urlencoded::from_bytes\<close>.\<close>

definition parse_pairs_for_named_access :: "(rstr \<Rightarrow> params option) \<Rightarrow> rstr \<Rightarrow> app_error + params" where
  "parse_pairs_for_named_access parse bytes =
     ok_or (BadRequest ([1085, 1077, 1082, 1086, 1088, 1088, 1077, 1082, 1090, 1085, 1099, 1077, 32, 1076, 1072, 1085, 1085, 1099, 1077, 32, 1092, 1086, 1088, 1084, 1099] :: rstr) \<comment> \<open>nekorrektnye dannye formy\<close>) (parse bytes)"

text \<open>\<open>assigned\<close> is the Unicode property \<open>\p{Assigned}\<close> of the name's characters.\<close>

definition bAllowedServletParameterName :: "(rchar \<Rightarrow> bool) \<Rightarrow> rstr \<Rightarrow> bool" where
  "bAllowedServletParameterName assigned sName \<longleftrightarrow>
     list_all assigned sName \<and> \<not> list_ex is_control sName"

definition parse_pairs :: "(rchar \<Rightarrow> bool) \<Rightarrow> (rstr \<Rightarrow> params option) \<Rightarrow> rstr \<Rightarrow> app_error + params" where
  "parse_pairs assigned parse bytes =
     and_then (parse_pairs_for_named_access parse bytes) (\<lambda>vecPairs.
       if list_ex (\<lambda>(sName, _). \<not> bAllowedServletParameterName assigned sName) vecPairs
       then Inl RequestRejected else Inr vecPairs)"

definition bUrlEncodedPost :: "rstr \<Rightarrow> rstr option \<Rightarrow> bool" where
  "bUrlEncodedPost method optContentType \<longleftrightarrow>
     method = (u ''POST'') \<and>
     (case optContentType of None \<Rightarrow> False
      | Some s \<Rightarrow> eq_ignore_ascii_case (trim (hd (split_on 59 s))) (u ''application/x-www-form-urlencoded''))"

definition servlet_request_parameters ::
    "(rstr \<Rightarrow> params option) \<Rightarrow> rstr option \<Rightarrow> rstr \<Rightarrow> rstr option \<Rightarrow> rstr option \<Rightarrow> app_error + params" where
  "servlet_request_parameters parse optQuery method optContentType optBody =
     and_then (case optQuery of Some sQuery \<Rightarrow> parse_pairs_for_named_access parse sQuery
               | None \<Rightarrow> Inr []) (\<lambda>vecParameters.
       if bUrlEncodedPost method optContentType
       then (case optBody of
               None \<Rightarrow> Inl (BadRequest ([1085, 1077, 1082, 1086, 1088, 1088, 1077, 1082, 1090, 1085, 1099, 1077, 32, 1076, 1072, 1085, 1085, 1099, 1077, 32, 1092, 1086, 1088, 1084, 1099] :: rstr) \<comment> \<open>nekorrektnye dannye formy\<close>)
             | Some vecBody \<Rightarrow>
                 (if vecBody \<noteq> []
                  then and_then (parse_pairs_for_named_access parse vecBody) (\<lambda>ps. Inr (vecParameters @ ps))
                  else Inr vecParameters))
       else Inr vecParameters)"

text \<open>The first-value merge of the legacy ANY routes: a name already seen is dropped.\<close>

fun merge_names :: "params \<Rightarrow> rstr set \<Rightarrow> params \<Rightarrow> params \<times> rstr set" where
  "merge_names merged names [] = (merged, names)"
| "merge_names merged names ((sName, sValue) # ps) =
     (if sName \<in> names then merge_names merged names ps
      else merge_names (merged @ [(sName, sValue)]) (insert sName names) ps)"

definition merge_query_and_form :: "params \<Rightarrow> params \<Rightarrow> params" where
  "merge_query_and_form vecQuery vecForm =
     (let (m, names) = merge_names [] {} vecQuery in fst (merge_names m names vecForm))"

lemma merge_names_append:
  "merge_names m n (ps @ qs) = (let (m', n') = merge_names m n ps in merge_names m' n' qs)"
  by (induction m n ps rule: merge_names.induct) (auto simp: Let_def)

lemma merge_names_spec:
  "fst ` set m = n \<Longrightarrow> distinct (map fst m) \<Longrightarrow> merge_names m n ps = (m', n') \<Longrightarrow>
    fst ` set m' = n' \<and> distinct (map fst m') \<and> (\<forall>k. map_of m' k = or_else (map_of m k) (map_of ps k))"
proof (induction m n ps arbitrary: m' n' rule: merge_names.induct)
  case (1 m n)
  then show ?case by (auto simp: or_else_def split: option.splits)
next
  case (2 m n sName sValue ps)
  show ?case
  proof (cases "sName \<in> n")
    case True
    have "or_else (map_of m k) (map_of ((sName, sValue) # ps) k) = or_else (map_of m k) (map_of ps k)" for k
    proof (cases "k = sName")
      case True
      with \<open>sName \<in> n\<close> 2(3) have "map_of m k \<noteq> None" by (metis map_of_eq_None_iff)
      then show ?thesis by (auto simp: or_else_def)
    qed simp
    with 2 True show ?thesis by auto
  next
    case False
    let ?m = "m @ [(sName, sValue)]"
    from False 2(3) have nm: "map_of m sName = None" by (metis map_of_eq_None_iff)
    have key: "or_else (map_of ?m k) (map_of ps k) = or_else (map_of m k) (map_of ((sName, sValue) # ps) k)" for k
      using nm by (cases "map_of m k") (auto simp: map_add_def)
    have im: "sName \<notin> fst ` set m" using False 2(3) by simp
    have ins: "fst ` set ?m = insert sName n" using 2(3) by simp
    have dist: "distinct (map fst ?m)" using 2(4) im by simp
    from False 2(5) have eq: "merge_names ?m (insert sName n) ps = (m', n')" by simp
    from 2(2) [OF False ins dist eq] show ?thesis unfolding key .
  qed
qed

text \<open>Merging an URL-encoded POST form into the query keeps the servlet view: every name
  occurs once, and looking a name up in the merged list gives its first value in query
  followed by form, so a query value always wins over the body.\<close>

theorem merge_first_value:
  "distinct (map fst (merge_query_and_form q f))
   \<and> form_get (merge_query_and_form q f) k = form_get (q @ f) k
   \<and> (form_get q k = Some v \<longrightarrow> form_get (merge_query_and_form q f) k = Some v)"
proof -
  obtain m n where mn: "merge_names [] {} (q @ f) = (m, n)" by fastforce
  then have m: "merge_query_and_form q f = m"
    by (auto simp: merge_query_and_form_def merge_names_append Let_def case_prod_beta)
  have "distinct (map fst m) \<and> (\<forall>k. map_of m k = or_else (map_of [] k) (map_of (q @ f) k))"
    using merge_names_spec [OF _ _ mn] by simp
  then show ?thesis
    using form_fv.look_append [of q f k] by (simp add: m form_fv.look_map_of)
qed

theorem merge_first_value_witness:
  "form_get (merge_query_and_form [((u ''a''), (u ''1''))] [((u ''a''), (u ''2''))]) (u ''a'') = Some (u ''1'')"
  using merge_first_value [of "[((u ''a''), (u ''1''))]" "[((u ''a''), (u ''2''))]" "(u ''a'')" "(u ''1'')"] by (simp add: form_get_def)


subsection \<open>The deletion binder (src/domain/topic/deletion.rs)\<close>

record StDeleteTopicParameters =
  dp_iTopicId :: int
  dp_sReason :: rstr
  dp_iPenalty :: int

datatype EnTopicDeletionBindingError = DeletionMissing rstr | DeletionInvalidInteger rstr

fun deletion_binding_text :: "EnTopicDeletionBindingError \<Rightarrow> rstr" where
  "deletion_binding_text (DeletionMissing sName) = ([82, 101, 113, 117, 105, 114, 101, 100, 32, 112, 97, 114, 97, 109, 101, 116, 101, 114, 32, 39] :: rstr) \<comment> \<open>Required parameter (apostrophe)\<close> @ sName @ ([39, 32, 105, 115, 32, 109, 105, 115, 115, 105, 110, 103] :: rstr) \<comment> \<open>(apostrophe) is missing\<close>"
| "deletion_binding_text (DeletionInvalidInteger sName) = ([70, 97, 105, 108, 101, 100, 32, 116, 111, 32, 99, 111, 110, 118, 101, 114, 116, 32, 112, 97, 114, 97, 109, 101, 116, 101, 114, 32, 39] :: rstr) \<comment> \<open>Failed to convert parameter (apostrophe)\<close> @ sName @ ([39] :: rstr) \<comment> \<open>(apostrophe)\<close>"

definition iParseI32 :: "rstr \<Rightarrow> rstr \<Rightarrow> EnTopicDeletionBindingError + int" where
  "iParseI32 sValue sName = ok_or (DeletionInvalidInteger sName) (parse_i32 (trim sValue))"

definition deletion_sRequired :: "params \<Rightarrow> rstr \<Rightarrow> EnTopicDeletionBindingError + rstr" where
  "deletion_sRequired ps sName = ok_or (DeletionMissing sName) (optValue ps sName)"

definition deletion_iRequiredI32 :: "params \<Rightarrow> rstr \<Rightarrow> EnTopicDeletionBindingError + int" where
  "deletion_iRequiredI32 ps sName = and_then (deletion_sRequired ps sName) (\<lambda>s. iParseI32 s sName)"

definition stBindDeleteTopicParameters ::
    "params \<Rightarrow> EnTopicDeletionBindingError + StDeleteTopicParameters" where
  "stBindDeleteTopicParameters ps =
     and_then (deletion_iRequiredI32 ps (u ''msgid'')) (\<lambda>iTopicId.
     and_then (deletion_sRequired ps (u ''reason'')) (\<lambda>sReason.
     and_then (case optValue ps (u ''bonus'') of
                 None \<Rightarrow> Inr 0
               | Some sValue \<Rightarrow> (if sValue = [] then Inr 0 else iParseI32 sValue (u ''bonus''))) (\<lambda>iPenalty.
       Inr \<lparr>dp_iTopicId = iTopicId, dp_sReason = sReason, dp_iPenalty = iPenalty\<rparr>)))"

definition stBindTopicId :: "params \<Rightarrow> EnTopicDeletionBindingError + int" where
  "stBindTopicId ps = deletion_iRequiredI32 ps (u ''msgid'')"

text \<open>What a browser submits for the deletion form.\<close>

definition delete_form :: "int \<Rightarrow> rstr \<Rightarrow> int \<Rightarrow> params" where
  "delete_form iTopicId sReason iPenalty =
     [((u ''msgid''), show_int iTopicId), ((u ''reason''), sReason), ((u ''bonus''), show_int iPenalty)]"

text \<open>The deletion form round-trips: the binder recovers topic, reason and penalty from the
  submitted pairs whatever other parameters follow, duplicates included.\<close>

theorem delete_form_binds:
  assumes "in_i32 iTopicId" and "in_i32 iPenalty"
  shows "stBindDeleteTopicParameters (delete_form iTopicId sReason iPenalty @ rest) =
    Inr \<lparr>dp_iTopicId = iTopicId, dp_sReason = sReason, dp_iPenalty = iPenalty\<rparr>"
  using assms
  by (simp add: stBindDeleteTopicParameters_def delete_form_def deletion_iRequiredI32_def
      deletion_sRequired_def iParseI32_def parse_i32_show)

theorem delete_form_binds_witness:
  "stBindDeleteTopicParameters (delete_form 42 (u ''4.1'') 7 @ [((u ''msgid''), (u ''x''))]) =
    Inr \<lparr>dp_iTopicId = 42, dp_sReason = (u ''4.1''), dp_iPenalty = 7\<rparr>"
  by (rule delete_form_binds) (simp_all add: in_i32_def)

text \<open>Binding fails in the order of the parameters: without msgid the error names msgid whatever
  else is wrong, then a malformed or out-of-range msgid, then a missing reason, then a bad
  bonus; an absent or empty bonus is a penalty of zero, and every bound number fits an i32.\<close>

theorem delete_binder_errors:
  "(optValue ps (u ''msgid'') = None \<longrightarrow> stBindDeleteTopicParameters ps = Inl (DeletionMissing (u ''msgid'')))
   \<and> (\<forall>s. optValue ps (u ''msgid'') = Some s \<and> parse_i32 (trim s) = None \<longrightarrow>
        stBindDeleteTopicParameters ps = Inl (DeletionInvalidInteger (u ''msgid'')))
   \<and> (\<forall>s i. optValue ps (u ''msgid'') = Some s \<and> parse_i32 (trim s) = Some i \<and> optValue ps (u ''reason'') = None \<longrightarrow>
        stBindDeleteTopicParameters ps = Inl (DeletionMissing (u ''reason'')))
   \<and> (\<forall>p. stBindDeleteTopicParameters ps = Inr p \<longrightarrow>
        in_i32 (dp_iTopicId p) \<and> in_i32 (dp_iPenalty p) \<and>
        (optValue ps (u ''bonus'') \<in> {None, Some []} \<longrightarrow> dp_iPenalty p = 0))"
proof -
  have "in_i32 0" by (simp add: in_i32_def)
  then show ?thesis
    by (auto simp: stBindDeleteTopicParameters_def deletion_iRequiredI32_def deletion_sRequired_def
        iParseI32_def and_then_Inr_iff ok_or_iff dest: parse_i32_range split: option.splits if_splits)
qed

theorem delete_binder_errors_witness:
  "stBindDeleteTopicParameters [] = Inl (DeletionMissing (u ''msgid''))"
  using delete_binder_errors [of "[]"] by (simp add: optValue.simps)


subsection \<open>The moderation binders (src/domain/topic/moderation.rs)\<close>

datatype EnLegacyRequiredBindingError = LegacyMissing rstr | LegacyInvalidInteger rstr

fun legacy_binding_text :: "EnLegacyRequiredBindingError \<Rightarrow> rstr" where
  "legacy_binding_text (LegacyMissing sName) = ([82, 101, 113, 117, 105, 114, 101, 100, 32, 112, 97, 114, 97, 109, 101, 116, 101, 114, 32, 39] :: rstr) \<comment> \<open>Required parameter (apostrophe)\<close> @ sName @ ([39, 32, 105, 115, 32, 109, 105, 115, 115, 105, 110, 103] :: rstr) \<comment> \<open>(apostrophe) is missing\<close>"
| "legacy_binding_text (LegacyInvalidInteger sName) = ([70, 97, 105, 108, 101, 100, 32, 116, 111, 32, 99, 111, 110, 118, 101, 114, 116, 32, 112, 97, 114, 97, 109, 101, 116, 101, 114, 32, 39] :: rstr) \<comment> \<open>Failed to convert parameter (apostrophe)\<close> @ sName @ ([39] :: rstr) \<comment> \<open>(apostrophe)\<close>"

fun legacy_sRequired :: "params \<Rightarrow> rstr \<Rightarrow> EnLegacyRequiredBindingError + rstr" where
  "legacy_sRequired [] sName = Inl (LegacyMissing sName)"
| "legacy_sRequired ((sKey, sValue) # ps) sName =
     (if sKey = sName then Inr sValue else legacy_sRequired ps sName)"

definition legacy_iRequiredI32 :: "params \<Rightarrow> rstr \<Rightarrow> EnLegacyRequiredBindingError + int" where
  "legacy_iRequiredI32 ps sName =
     and_then (legacy_sRequired ps sName) (\<lambda>s. ok_or (LegacyInvalidInteger sName) (parse_i32 (trim s)))"

definition stBindUncommitParameters :: "params \<Rightarrow> EnLegacyRequiredBindingError + int" where
  "stBindUncommitParameters ps = legacy_iRequiredI32 ps (u ''msgid'')"

record StMoveParameters =
  mp_iTopicId :: int
  mp_iMoveToGroupId :: int

definition stBindMoveParameters :: "params \<Rightarrow> EnLegacyRequiredBindingError + StMoveParameters" where
  "stBindMoveParameters ps =
     and_then (legacy_iRequiredI32 ps (u ''msgid'')) (\<lambda>i.
     and_then (legacy_iRequiredI32 ps (u ''moveto'')) (\<lambda>g.
       Inr \<lparr>mp_iTopicId = i, mp_iMoveToGroupId = g\<rparr>))"

record StResolveParameters =
  rp_iTopicId :: int
  rp_sResolve :: rstr

definition stBindResolveParameters :: "params \<Rightarrow> EnLegacyRequiredBindingError + StResolveParameters" where
  "stBindResolveParameters ps =
     and_then (legacy_iRequiredI32 ps (u ''msgid'')) (\<lambda>i.
     and_then (legacy_sRequired ps (u ''resolve'')) (\<lambda>s.
       Inr \<lparr>rp_iTopicId = i, rp_sResolve = s\<rparr>))"

interpretation legacy_fv: first_value "\<lambda>ps k. case legacy_sRequired ps k of Inl _ \<Rightarrow> None | Inr v \<Rightarrow> Some v"
  by unfold_locales simp_all

text \<open>The two binders of required integers agree up to the names of their errors.\<close>

fun legacy_of_deletion :: "EnTopicDeletionBindingError \<Rightarrow> EnLegacyRequiredBindingError" where
  "legacy_of_deletion (DeletionMissing s) = LegacyMissing s"
| "legacy_of_deletion (DeletionInvalidInteger s) = LegacyInvalidInteger s"

lemma legacy_sRequired_eq:
  "legacy_sRequired ps k = map_sum legacy_of_deletion id (deletion_sRequired ps k)"
  by (induction ps) (auto simp: deletion_sRequired_def)

text \<open>The deletion and the moderation forms bind the topic id alike: same value on success,
  and the corresponding error with the same text on failure.\<close>

theorem topic_id_binders_agree:
  "stBindUncommitParameters ps = map_sum legacy_of_deletion id (stBindTopicId ps)
   \<and> legacy_binding_text (legacy_of_deletion e) = deletion_binding_text e"
proof
  show "stBindUncommitParameters ps = map_sum legacy_of_deletion id (stBindTopicId ps)"
    by (cases "deletion_sRequired ps (u ''msgid'')")
      (auto simp: stBindUncommitParameters_def stBindTopicId_def legacy_iRequiredI32_def
        deletion_iRequiredI32_def iParseI32_def legacy_sRequired_eq ok_or_def split: option.splits)
  show "legacy_binding_text (legacy_of_deletion e) = deletion_binding_text e"
    by (cases e) simp_all
qed

subsection \<open>The comment form (src/domain/comment/message_form.rs)\<close>

record StCommentMessageParameters =
  cm_iTopicId :: int
  cm_optReplyToId :: "int option"
  cm_optOriginalId :: "int option"
  cm_optNick :: "rstr option"
  cm_sMessage :: rstr

datatype EnCommentMessageBindingError =
    MissingTopic
  | InvalidTopic
  | InvalidReplyTo
  | InvalidOriginal
  | InvalidNick
  | InvalidMessage
  | TopicDeleted
  | TopicExpired
  | ReplyDeleted
  | ReplyTopicMismatch

definition comment_iTopicId :: "rstr \<Rightarrow> EnCommentMessageBindingError + int" where
  "comment_iTopicId sValue = ok_or InvalidTopic (parse_i32 (hd (split_on 44 sValue)))"

definition optCommentId ::
    "rstr option \<Rightarrow> EnCommentMessageBindingError \<Rightarrow> EnCommentMessageBindingError + int option" where
  "optCommentId optV stInvalid =
     (case optV of None \<Rightarrow> Inr None
      | Some sValue \<Rightarrow>
          (if sValue = [] \<or> sValue = (u ''0'') then Inr None
           else (case parse_i32 sValue of Some i \<Rightarrow> Inr (Some i) | None \<Rightarrow> Inl stInvalid)))"

definition bValidXmlCharacter :: "rchar \<Rightarrow> bool" where
  "bValidXmlCharacter c \<longleftrightarrow> c = 9 \<or> c = 10 \<or> c = 13
     \<or> (32 \<le> c \<and> c \<le> 0xD7FF) \<or> (0xE000 \<le> c \<and> c \<le> 0xFFFD) \<or> (0x10000 \<le> c \<and> c \<le> 0x10FFFF)"

definition stBindCommentMessageParameters ::
    "params \<Rightarrow> EnCommentMessageBindingError + StCommentMessageParameters" where
  "stBindCommentMessageParameters ps =
     and_then (ok_or MissingTopic (optFirst ps (u ''topic''))) (\<lambda>sTopic.
     and_then (comment_iTopicId sTopic) (\<lambda>iTopicId.
     and_then (optCommentId (optFirst ps (u ''replyto'')) InvalidReplyTo) (\<lambda>optReplyToId.
     and_then (optCommentId (optFirst ps (u ''original'')) InvalidOriginal) (\<lambda>optOriginalId.
       let optNick = (case optFirst ps (u ''nick'') of None \<Rightarrow> None
                      | Some n \<Rightarrow> (if n = [] then None else Some n));
           sMessage = (case optFirst ps (u ''msg'') of None \<Rightarrow> [] | Some m \<Rightarrow> m)
       in if \<not> list_all bValidXmlCharacter sMessage then Inl InvalidMessage
          else Inr \<lparr>cm_iTopicId = iTopicId, cm_optReplyToId = optReplyToId,
                 cm_optOriginalId = optOriginalId, cm_optNick = optNick, cm_sMessage = sMessage\<rparr>))))"

subsection \<open>Validating the comment form (src/application/comment/message_form.rs)\<close>

record StCommentMessageTopicValidation =
  tv_bDeleted :: bool
  tv_bExpired :: bool

record StCommentMessageCommentValidation =
  cv_iTopicId :: int
  cv_bDeleted :: bool

record 'w TrCommentMessageRepository =
  cmr_optTopicValidation :: "int \<Rightarrow> ('w, app_error, StCommentMessageTopicValidation option) eff"
  cmr_optCommentValidation :: "int \<Rightarrow> ('w, app_error, StCommentMessageCommentValidation option) eff"
  cmr_bUserExists :: "rstr \<Rightarrow> ('w, app_error, bool) eff"

datatype EnCommentMessageServiceError =
    CommentBinding EnCommentMessageBindingError
  | CommentApplication app_error

definition stValidate :: "'w TrCommentMessageRepository \<Rightarrow> StCommentMessageParameters
    \<Rightarrow> ('w, EnCommentMessageServiceError, StCommentMessageParameters) eff" where
  "stValidate repo ps =
     bind_eff (map_err CommentApplication (cmr_optTopicValidation repo (cm_iTopicId ps))) (\<lambda>optTopic.
     bind_eff (of_result (ok_or (CommentBinding InvalidTopic) optTopic)) (\<lambda>stTopic.
     if tv_bDeleted stTopic then fail_eff (CommentBinding TopicDeleted)
     else if tv_bExpired stTopic then fail_eff (CommentBinding TopicExpired)
     else
     bind_eff (case cm_optReplyToId ps of
         None \<Rightarrow> ret_eff ()
       | Some iReplyToId \<Rightarrow>
           bind_eff (map_err CommentApplication (cmr_optCommentValidation repo iReplyToId)) (\<lambda>optReply.
           bind_eff (of_result (ok_or (CommentBinding InvalidReplyTo) optReply)) (\<lambda>stReply.
           if cv_bDeleted stReply then fail_eff (CommentBinding ReplyDeleted)
           else if cv_iTopicId stReply \<noteq> cm_iTopicId ps then fail_eff (CommentBinding ReplyTopicMismatch)
           else ret_eff ()))) (\<lambda>_.
     bind_eff (case cm_optOriginalId ps of
         None \<Rightarrow> ret_eff ()
       | Some iOriginalId \<Rightarrow>
           bind_eff (map_err CommentApplication (cmr_optCommentValidation repo iOriginalId)) (\<lambda>optOriginal.
             if optOriginal = None then fail_eff (CommentBinding InvalidOriginal) else ret_eff ())) (\<lambda>_.
     bind_eff (case cm_optNick ps of
         None \<Rightarrow> ret_eff ()
       | Some sNick \<Rightarrow>
           bind_eff (map_err CommentApplication (cmr_bUserExists repo sNick)) (\<lambda>b.
             if \<not> b then fail_eff (CommentBinding InvalidNick) else ret_eff ())) (\<lambda>_.
     ret_eff ps)))))"

text \<open>A read-only repository answers from the state and leaves it alone.\<close>

definition comment_repo_reads :: "'w TrCommentMessageRepository \<Rightarrow> 'w
    \<Rightarrow> (int \<Rightarrow> StCommentMessageTopicValidation option)
    \<Rightarrow> (int \<Rightarrow> StCommentMessageCommentValidation option) \<Rightarrow> (rstr \<Rightarrow> bool) \<Rightarrow> bool" where
  "comment_repo_reads repo w topics comments users \<longleftrightarrow>
     (\<forall>i. cmr_optTopicValidation repo i w = (Inr (topics i), w)) \<and>
     (\<forall>i. cmr_optCommentValidation repo i w = (Inr (comments i), w)) \<and>
     (\<forall>s. cmr_bUserExists repo s w = (Inr (users s), w))"

definition comment_form_acceptable :: "StCommentMessageParameters
    \<Rightarrow> (int \<Rightarrow> StCommentMessageTopicValidation option)
    \<Rightarrow> (int \<Rightarrow> StCommentMessageCommentValidation option) \<Rightarrow> (rstr \<Rightarrow> bool) \<Rightarrow> bool" where
  "comment_form_acceptable ps topics comments users \<longleftrightarrow>
     (case topics (cm_iTopicId ps) of None \<Rightarrow> False | Some t \<Rightarrow> \<not> tv_bDeleted t \<and> \<not> tv_bExpired t) \<and>
     (case cm_optReplyToId ps of None \<Rightarrow> True
      | Some i \<Rightarrow> (case comments i of None \<Rightarrow> False
                  | Some c \<Rightarrow> \<not> cv_bDeleted c \<and> cv_iTopicId c = cm_iTopicId ps)) \<and>
     (case cm_optOriginalId ps of None \<Rightarrow> True | Some i \<Rightarrow> comments i \<noteq> None) \<and>
     (case cm_optNick ps of None \<Rightarrow> True | Some n \<Rightarrow> users n)"

text \<open>Over a database that only answers, the comment form validates exactly when the topic
  exists and is neither deleted nor expired, the reply target exists, is not deleted and
  belongs to that topic, the edited comment exists and the nick is known; then the
  parameters come back unchanged, otherwise the error is a binding error, never a 404.\<close>

theorem comment_form_validates:
  assumes "comment_repo_reads repo w topics comments users"
  shows "(stValidate repo ps w = (Inr ps, w) \<longleftrightarrow> comment_form_acceptable ps topics comments users)
    \<and> (\<not> comment_form_acceptable ps topics comments users \<longrightarrow>
        (\<exists>e. stValidate repo ps w = (Inl (CommentBinding e), w)))"
  using assms
  by (auto simp: comment_repo_reads_def comment_form_acceptable_def stValidate_def bind_eff_def
      map_err_def of_result_def ok_or_def ret_eff_def fail_eff_def split: option.splits)

theorem comment_form_validates_witness:
  "stValidate \<lparr>cmr_optTopicValidation = (\<lambda>i. ret_eff (if i = 5 then Some \<lparr>tv_bDeleted = False, tv_bExpired = False\<rparr> else None)),
       cmr_optCommentValidation = (\<lambda>i. ret_eff (if i = 9 then Some \<lparr>cv_iTopicId = 5, cv_bDeleted = False\<rparr> else None)),
       cmr_bUserExists = (\<lambda>_. ret_eff True)\<rparr>
     \<lparr>cm_iTopicId = 5, cm_optReplyToId = Some 9, cm_optOriginalId = None, cm_optNick = None, cm_sMessage = (u ''hi'')\<rparr> ()
   = (Inr \<lparr>cm_iTopicId = 5, cm_optReplyToId = Some 9, cm_optOriginalId = None, cm_optNick = None, cm_sMessage = (u ''hi'')\<rparr>, ())"
  by (rule comment_form_validates [
        where topics = "\<lambda>i. if i = 5 then Some \<lparr>tv_bDeleted = False, tv_bExpired = False\<rparr> else None"
          and comments = "\<lambda>i. if i = 9 then Some \<lparr>cv_iTopicId = 5, cv_bDeleted = False\<rparr> else None"
          and users = "\<lambda>_. True", THEN conjunct1, THEN iffD2])
    (simp_all add: comment_repo_reads_def comment_form_acceptable_def)

end
