(* ===== verification/Store.thy ===== *)
theory Store
  imports Errors
begin

section \<open>The PostgreSQL store behind the repositories\<close>

text \<open>
  The tables the modelled repositories (\<open>src/infra/postgres/*.rs\<close>) read and write, with the
  columns their statements name.  Column types and nullability are those of
  \<open>compat/java-db/schema-contract.tsv\<close>; primary keys, foreign keys and the triggers
  \<open>msgdel_t\<close>, \<open>msgundel_t\<close> and \<open>new_event_t\<close> those of
  \<open>compat/java-db/schema-objects-contract.tsv\<close>.

  A table is the list of its rows.  A statement is an effect on the store; \<open>exec_update\<close>
  yields the number of matched rows, as \<open>rows_affected\<close> reports it.  Arithmetic on an \<open>int4\<close>
  column that leaves the 32-bit range fails the statement, as does a violated key.
  \<open>transaction\<close> is \<open>begin\<close> .. \<open>commit\<close>: an error inside it restores the store.  Losing the
  connection itself and the length limits of \<open>varchar\<close> columns are not modelled.  \<open>CURRENT_TIMESTAMP\<close> is the argument \<open>now\<close>.
\<close>

subsection \<open>Rows\<close>

datatype event_type = TAG | REF | REPLY | WATCH | REACTION | WARNING | DEL

record pg_user =
  pu_id :: int
  pu_nick :: rstr
  pu_passwd :: "rstr option"
  pu_url :: "rstr option"
  pu_photo :: "rstr option"
  pu_town :: "rstr option"
  pu_userinfo :: "rstr option"
  pu_canmod :: bool
  pu_candel :: bool
  pu_corrector :: bool
  pu_blocked :: bool
  pu_score :: "int option"
  pu_max_score :: "int option"
  pu_unread_events :: int
  pu_lastlogin :: "time option"
  pu_lostpwd :: time
  pu_frozen_until :: "time option"
  pu_frozen_by :: "int option"
  pu_freezing_reason :: "rstr option"
  pu_name :: "rstr option"
  pu_email :: "rstr option"
  pu_new_email :: "rstr option"
  pu_regdate :: "time option"
  pu_activated :: bool
  pu_token_generation :: "int option"

record pg_topic =
  pt_id :: int
  pt_groupid :: int
  pt_userid :: int
  pt_title :: rstr
  pt_url :: "rstr option"
  pt_linktext :: "rstr option"
  pt_moderate :: bool
  pt_commitby :: "int option"
  pt_commitdate :: "time option"
  pt_postdate :: time
  pt_lastmod :: time
  pt_deleted :: bool
  pt_draft :: bool
  pt_sticky :: bool
  pt_notop :: bool
  pt_minor :: bool
  pt_resolved :: "bool option"
  pt_stat1 :: int
  pt_stat3 :: int
  pt_postscore :: "int option"
  pt_postip :: "rstr option"
  pt_ua_id :: "int option"
  pt_open_warnings :: int
  pt_allow_anonymous :: bool
  pt_reactions :: "(int \<times> rstr) list"

text \<open>A \<open>reactions\<close> object, keyed by user id.\<close>

record pg_comment =
  pc_id :: int
  pc_topic :: int
  pc_userid :: int
  pc_replyto :: "int option"
  pc_deleted :: bool
  pc_postdate :: time
  pc_postip :: "rstr option"
  pc_ua_id :: "int option"
  pc_title :: rstr
  pc_editor_id :: "int option"
  pc_edit_date :: "time option"
  pc_edit_count :: "int option"
  pc_reactions :: "(int \<times> rstr) list"

record pg_msgbase =
  pm_id :: int
  pm_message :: rstr
  pm_markup :: rstr

record pg_group =
  pg_id :: int
  pg_title :: rstr
  pg_urlname :: rstr
  pg_sect :: int
  pg_resolvable :: bool
  pg_restrict_topics :: "int option"
  pg_restrict_comments :: int
  pg_stat3 :: int

text \<open>\<open>ps_before\<close> is what subtracting the section's \<open>expire\<close> interval from an instant gives.\<close>

record pg_section =
  ps_id :: int
  ps_name :: rstr
  ps_moderate :: bool
  ps_imagepost :: bool
  ps_imageallowed :: bool
  ps_havelink :: bool
  ps_vote :: "bool option"
  ps_before :: "time \<Rightarrow> time"
  ps_restrict_topics :: "int option"

record pg_del_info =
  di_msgid :: int
  di_delby :: int
  di_reason :: "rstr option"
  di_deldate :: "time option"
  di_bonus :: "int option"

record pg_event =
  ue_id :: int
  ue_userid :: int
  ue_type :: event_type
  ue_private :: bool
  ue_message_id :: "int option"
  ue_comment_id :: "int option"
  ue_message :: "rstr option"
  ue_unread :: bool
  ue_origin_user :: "int option"
  ue_warning_id :: "int option"

record pg_warning =
  mw_id :: int
  mw_topic :: int
  mw_comment :: "int option"
  mw_postdate :: time
  mw_author :: int
  mw_message :: rstr
  mw_type :: rstr
  mw_closed_by :: "int option"
  mw_closed_when :: "time option"

record pg_ban_info =
  bi_userid :: int
  bi_reason :: rstr
  bi_ban_by :: int

record pg_user_log =
  ul_userid :: int
  ul_action_userid :: int
  ul_action_date :: time
  ul_action :: rstr
  ul_info :: params

text \<open>An \<open>inet\<close> value is its canonical text; \<open>ip\<close> is unique.\<close>

record pg_ip_block =
  pb_ip :: rstr
  pb_mod_id :: int
  pb_date :: time
  pb_reason :: "rstr option"
  pb_ban_date :: "time option"
  pb_allow_posting :: "bool option"
  pb_captcha_required :: "bool option"

record pg_memory =
  me_userid :: int
  me_topic :: int
  me_watch :: bool

record pg_ignore =
  ig_userid :: int
  ig_ignored :: int

datatype edit_object = EditTopic | EditComment

record pg_edit_info =
  ei_id :: int
  ei_msgid :: int
  ei_editor :: int
  ei_oldmessage :: "rstr option"
  ei_editdate :: time
  ei_oldtitle :: "rstr option"
  ei_oldtags :: "rstr option"
  ei_oldlinktext :: "rstr option"
  ei_oldurl :: "rstr option"
  ei_object_type :: edit_object
  ei_oldminor :: "bool option"
  ei_oldpoll :: "(int \<times> int \<times> bool \<times> (int \<times> rstr) list) option"
  ei_oldaddimages :: "int list option"

text \<open>\<open>oldpoll\<close> is a JSON object: key, topic, multiple choice and the variants.\<close>

record pg_user_agent =
  ag_id :: int
  ag_name :: rstr

text \<open>\<open>settings\<close> is an hstore; the statements read its text form.\<close>

record pg_settings =
  st_id :: int
  st_settings :: rstr

record pg_reaction =
  rl_origin_user :: int
  rl_topic_id :: int
  rl_comment_id :: "int option"
  rl_reaction :: rstr
  rl_set_date :: time

record pg_poll =
  po_id :: int
  po_topic :: int
  po_multiselect :: bool

record pg_variant =
  pv_id :: int
  pv_vote :: int
  pv_label :: rstr
  pv_votes :: int

record pg_vote =
  vu_vote :: int
  vu_userid :: int
  vu_variant_id :: int

text \<open>\<open>tags_values\<close> is a tag, \<open>tags_synonyms\<close> a further name of one, \<open>tags\<close> the tags of topics and
  \<open>user_tags\<close> the favourite and the ignored tags of users.\<close>

record pg_tag_value =
  tv_id :: int
  tv_counter :: "int option"
  tv_value :: rstr

record pg_synonym =
  ty_value :: rstr
  ty_tagid :: int

record pg_tag =
  tg_msgid :: int
  tg_tagid :: int

record pg_user_tag =
  ut_user_id :: int
  ut_tag_id :: int
  ut_is_favorite :: bool

record pg_topic_notified =
  tn_topic :: int
  tn_userid :: int

record pg_image =
  im_id :: int
  im_topic :: int
  im_deleted :: bool
  im_extension :: rstr
  im_main :: bool

record pg =
  db_users :: "pg_user list"
  db_topics :: "pg_topic list"
  db_comments :: "pg_comment list"
  db_msgbase :: "pg_msgbase list"
  db_groups :: "pg_group list"
  db_sections :: "pg_section list"
  db_del_info :: "pg_del_info list"
  db_events :: "pg_event list"
  db_event_seq :: int
  db_warnings :: "pg_warning list"
  db_warning_seq :: int
  db_ban_info :: "pg_ban_info list"
  db_user_log :: "pg_user_log list"
  db_b_ips :: "pg_ip_block list"
  db_msg_seq :: int
  db_memories :: "pg_memory list"
  db_ignore_list :: "pg_ignore list"
  db_edit_info :: "pg_edit_info list"
  db_edit_seq :: int
  db_user_agents :: "pg_user_agent list"
  db_agent_seq :: int
  db_user_settings :: "pg_settings list"
  db_reactions_log :: "pg_reaction list"
  db_polls :: "pg_poll list"
  db_polls_variants :: "pg_variant list"
  db_vote_users :: "pg_vote list"
  db_poll_seq :: int
  db_variant_seq :: int
  db_tags_values :: "pg_tag_value list"
  db_tag_seq :: int
  db_tags_synonyms :: "pg_synonym list"
  db_tags :: "pg_tag list"
  db_user_tags :: "pg_user_tag list"
  db_topic_notified :: "pg_topic_notified list"
  db_images :: "pg_image list"
  db_image_seq :: int

type_synonym 'a pg_eff = "(pg, app_error, 'a) eff"

subsection \<open>Statements\<close>

definition db_failure :: app_error where
  "db_failure = Sqlx (SqlxFailure (u ''constraint or range''))"

definition select_rows :: "(pg \<Rightarrow> 'r list) \<Rightarrow> ('r \<Rightarrow> bool) \<Rightarrow> 'r list pg_eff" where
  "select_rows rows p = (\<lambda>db. (Inr (filter p (rows db)), db))"

text \<open>\<open>fetch_optional\<close> is the first matching row, \<open>fetch_one\<close> fails without one.\<close>

definition fetch_optional :: "(pg \<Rightarrow> 'r list) \<Rightarrow> ('r \<Rightarrow> bool) \<Rightarrow> 'r option pg_eff" where
  "fetch_optional rows p = (\<lambda>db. (Inr (List.find p (rows db)), db))"

definition fetch_one :: "(pg \<Rightarrow> 'r list) \<Rightarrow> ('r \<Rightarrow> bool) \<Rightarrow> 'r pg_eff" where
  "fetch_one rows p = (\<lambda>db. (ok_or (Sqlx RowNotFound) (List.find p (rows db)), db))"

definition update_where :: "('r \<Rightarrow> bool) \<Rightarrow> ('r \<Rightarrow> 'r) \<Rightarrow> 'r list \<Rightarrow> 'r list" where
  "update_where p f = map (\<lambda>r. if p r then f r else r)"

definition exec_update ::
    "(pg \<Rightarrow> 'r list) \<Rightarrow> (('r list \<Rightarrow> 'r list) \<Rightarrow> pg \<Rightarrow> pg) \<Rightarrow> ('r \<Rightarrow> bool) \<Rightarrow> ('r \<Rightarrow> 'r) \<Rightarrow> nat pg_eff" where
  "exec_update rows put p f = (\<lambda>db. (Inr (length (filter p (rows db))), put (update_where p f) db))"

text \<open>\<open>nextval\<close> of a sequence bounded by \<open>maxval\<close>.\<close>

definition next_val :: "(pg \<Rightarrow> int) \<Rightarrow> ((int \<Rightarrow> int) \<Rightarrow> pg \<Rightarrow> pg) \<Rightarrow> int \<Rightarrow> int pg_eff" where
  "next_val sq put maxval = (\<lambda>db. if sq db \<le> maxval then (Inr (sq db), put (\<lambda>n. n + 1) db) else (Inl db_failure, db))"

text \<open>An update whose new values must pass a check on every matched row.\<close>

definition exec_update_checked ::
    "(pg \<Rightarrow> 'r list) \<Rightarrow> (('r list \<Rightarrow> 'r list) \<Rightarrow> pg \<Rightarrow> pg) \<Rightarrow> ('r \<Rightarrow> bool) \<Rightarrow> ('r \<Rightarrow> 'r) \<Rightarrow> ('r \<Rightarrow> bool) \<Rightarrow> nat pg_eff" where
  "exec_update_checked rows put p f ok = (\<lambda>db.
     if list_all (\<lambda>r. p r \<longrightarrow> ok (f r)) (rows db) then exec_update rows put p f db
     else (Inl db_failure, db))"

definition exec_delete ::
    "(('r list \<Rightarrow> 'r list) \<Rightarrow> pg \<Rightarrow> pg) \<Rightarrow> ('r \<Rightarrow> bool) \<Rightarrow> unit pg_eff" where
  "exec_delete put p = (\<lambda>db. (Inr (), put (filter (\<lambda>r. \<not> p r)) db))"

definition exec_insert ::
    "(pg \<Rightarrow> 'r list) \<Rightarrow> (('r list \<Rightarrow> 'r list) \<Rightarrow> pg \<Rightarrow> pg) \<Rightarrow> (pg \<Rightarrow> 'r \<Rightarrow> bool) \<Rightarrow> 'r \<Rightarrow> unit pg_eff" where
  "exec_insert rows put ok r = (\<lambda>db.
     if ok db r then (Inr (), put (\<lambda>rs. rs @ [r]) db) else (Inl db_failure, db))"

definition transaction :: "'a pg_eff \<Rightarrow> 'a pg_eff" where
  "transaction m = (\<lambda>db. case m db of (Inl e, _) \<Rightarrow> (Inl e, db) | (Inr a, db') \<Rightarrow> (Inr a, db'))"

lemmas stmt_defs = select_rows_def fetch_optional_def fetch_one_def exec_update_def
  exec_update_checked_def exec_delete_def exec_insert_def

lemma transaction_Inl: "transaction m db = (Inl e, db') \<Longrightarrow> db' = db"
  by (auto simp: transaction_def split: prod.splits sum.splits)

lemma transaction_Inr [eff_simps]: "transaction m db = (Inr a, db') \<longleftrightarrow> m db = (Inr a, db')"
  by (auto simp: transaction_def split: prod.splits sum.splits)

lemma transaction_err: "transaction m db = (Inl e, db') \<longleftrightarrow> db' = db \<and> (\<exists>db1. m db = (Inl e, db1))"
  by (auto simp: transaction_def split: prod.splits sum.splits)

subsection \<open>Keyed tables\<close>

text \<open>
  What the repositories rely on of a table with a primary key: the accessor and the updater
  are a lens, and the statements touch the rows with the given key only.
\<close>

locale keyed_table =
  fixes rows :: "pg \<Rightarrow> 'r list"
    and put :: "('r list \<Rightarrow> 'r list) \<Rightarrow> pg \<Rightarrow> pg"
    and pk :: "'r \<Rightarrow> 'k"
  assumes get_put: "rows (put f db) = f (rows db)"
    and put_put: "put f (put g db) = put (\<lambda>rs. f (g rs)) db"
begin

definition keyed :: "pg \<Rightarrow> bool" where
  "keyed db \<longleftrightarrow> distinct (map pk (rows db))"

lemma find_key_iff:
  assumes "keyed db"
  shows "List.find (\<lambda>r. pk r = k) (rows db) = Some r \<longleftrightarrow> r \<in> set (rows db) \<and> pk r = k"
proof -
  have "List.find (\<lambda>r. pk r = k) rs = Some r \<longleftrightarrow> r \<in> set rs \<and> pk r = k" if "distinct (map pk rs)" for rs
    using that by (induction rs) (auto simp: image_iff)
  with assms show ?thesis by (simp add: keyed_def)
qed

lemma update_key:
  assumes "\<And>r. pk (f r) = pk r"
  shows "keyed (put (update_where p f) db) = keyed db"
proof -
  have "map pk (update_where p f rs) = map pk rs" for rs
    by (simp add: update_where_def assms)
  then show ?thesis by (simp add: keyed_def get_put)
qed

lemma find_update:
  assumes "\<And>r. pk (f r) = pk r"
  shows "List.find (\<lambda>r. pk r = k) (rows (put (update_where p f) db)) =
    map_option (\<lambda>r. if p r then f r else r) (List.find (\<lambda>r. pk r = k) (rows db))"
proof -
  have "List.find (\<lambda>r. pk r = k) (update_where p f rs) =
      map_option (\<lambda>r. if p r then f r else r) (List.find (\<lambda>r. pk r = k) rs)" for rs
    by (induction rs) (auto simp: update_where_def assms)
  then show ?thesis by (simp add: get_put)
qed

lemma affected_key:
  assumes "keyed db"
  shows "length (filter (\<lambda>r. pk r = k \<and> q r) (rows db)) =
    (case List.find (\<lambda>r. pk r = k) (rows db) of None \<Rightarrow> 0 | Some r \<Rightarrow> if q r then 1 else 0)"
proof -
  have "length (filter (\<lambda>r. pk r = k \<and> q r) rs) =
      (case List.find (\<lambda>r. pk r = k) rs of None \<Rightarrow> 0 | Some r \<Rightarrow> if q r then 1 else 0)"
    if "distinct (map pk rs)" for rs
    using that
  proof (induction rs)
    case (Cons r rs)
    have "filter (\<lambda>r. pk r = k \<and> q r) rs = []" if "pk r = k"
      using Cons.prems that by (auto simp: filter_empty_conv image_iff)
    with Cons show ?case by auto
  qed simp
  with assms show ?thesis by (simp add: keyed_def)
qed

lemma delete_find:
  "List.find (\<lambda>r. pk r = k) (rows (put (filter (\<lambda>r. pk r \<noteq> k)) db)) = None"
  by (auto simp: get_put find_None_iff)

end

interpretation users: keyed_table db_users db_users_update pu_id
  by unfold_locales simp_all

interpretation topics: keyed_table db_topics db_topics_update pt_id
  by unfold_locales simp_all

interpretation comments: keyed_table db_comments db_comments_update pc_id
  by unfold_locales simp_all

interpretation del_info: keyed_table db_del_info db_del_info_update di_msgid
  by unfold_locales simp_all

interpretation warnings: keyed_table db_warnings db_warnings_update mw_id
  by unfold_locales simp_all

interpretation msgbase: keyed_table db_msgbase db_msgbase_update pm_id
  by unfold_locales simp_all

interpretation ip_blocks: keyed_table db_b_ips db_b_ips_update pb_ip
  by unfold_locales simp_all

definition user_of :: "pg \<Rightarrow> int \<Rightarrow> pg_user option" where
  "user_of db i = List.find (\<lambda>r. pu_id r = i) (db_users db)"

definition topic_of :: "pg \<Rightarrow> int \<Rightarrow> pg_topic option" where
  "topic_of db i = List.find (\<lambda>r. pt_id r = i) (db_topics db)"

definition comment_of :: "pg \<Rightarrow> int \<Rightarrow> pg_comment option" where
  "comment_of db i = List.find (\<lambda>r. pc_id r = i) (db_comments db)"

definition del_info_of :: "pg \<Rightarrow> int \<Rightarrow> pg_del_info option" where
  "del_info_of db i = List.find (\<lambda>r. di_msgid r = i) (db_del_info db)"

definition msgbase_of :: "pg \<Rightarrow> int \<Rightarrow> pg_msgbase option" where
  "msgbase_of db i = List.find (\<lambda>r. pm_id r = i) (db_msgbase db)"

lemmas of_defs = user_of_def topic_of_def comment_of_def del_info_of_def msgbase_of_def

definition in_i32_opt :: "int option \<Rightarrow> bool" where
  "in_i32_opt x = (case x of None \<Rightarrow> True | Some i \<Rightarrow> in_i32 i)"

lemma in_i32_opt_simps [simp]: "in_i32_opt None" "in_i32_opt (Some i) = in_i32 i"
  by (simp_all add: in_i32_opt_def)

text \<open>Keys are unique and the scores are \<open>int4\<close> values.\<close>

definition pg_ok :: "pg \<Rightarrow> bool" where
  "pg_ok db \<longleftrightarrow> users.keyed db \<and> topics.keyed db \<and> comments.keyed db \<and> del_info.keyed db \<and>
     list_all (\<lambda>r. in_i32_opt (pu_score r)) (db_users db)"

subsection \<open>Shared statements\<close>

text \<open>\<open>UPDATE users SET score=score+$2 WHERE id=$1\<close>; NULL stays NULL.\<close>

definition add_score :: "int \<Rightarrow> int \<Rightarrow> nat pg_eff" where
  "add_score iUserId iDelta =
     exec_update_checked db_users db_users_update (\<lambda>r. pu_id r = iUserId)
       (pu_score_update (map_option (\<lambda>s. s + iDelta))) (\<lambda>r. in_i32_opt (pu_score r))"

text \<open>The bodies of \<open>msgdel\<close> and \<open>msgundel\<close>.\<close>

definition touch_topic :: "time \<Rightarrow> int \<Rightarrow> pg \<Rightarrow> pg" where
  "touch_topic now iTopicId = db_topics_update (update_where (\<lambda>t. pt_id t = iTopicId) (pt_lastmod_update (\<lambda>_. now)))"

definition insert_del_info :: "time \<Rightarrow> pg_del_info \<Rightarrow> unit pg_eff" where
  "insert_del_info now r =
     bind_eff (exec_insert db_del_info db_del_info_update
       (\<lambda>db r. di_msgid r \<notin> di_msgid ` set (db_del_info db) \<and> user_of db (di_delby r) \<noteq> None) r)
     (\<lambda>_ db. (Inr (), touch_topic now (di_msgid r) db))"

definition delete_del_info :: "time \<Rightarrow> int \<Rightarrow> unit pg_eff" where
  "delete_del_info now iMsgId = (\<lambda>db.
     let hit = (del_info_of db iMsgId \<noteq> None);
         db' = db_del_info_update (filter (\<lambda>r. di_msgid r \<noteq> iMsgId)) db
     in (Inr (), if hit then touch_topic now iMsgId db' else db'))"

text \<open>An insert into \<open>user_events\<close> fires \<open>new_event\<close>.\<close>

definition insert_event :: "pg_event \<Rightarrow> unit pg_eff" where
  "insert_event e = (\<lambda>db.
     let e' = e\<lparr>ue_id := db_event_seq db\<rparr> in
     if user_of db (ue_userid e) \<noteq> None
        \<and> (case ue_message_id e of None \<Rightarrow> True | Some t \<Rightarrow> topic_of db t \<noteq> None)
        \<and> (case ue_comment_id e of None \<Rightarrow> True | Some c \<Rightarrow> comment_of db c \<noteq> None)
        \<and> (case ue_warning_id e of None \<Rightarrow> True | Some i \<Rightarrow> i \<in> mw_id ` set (db_warnings db))
     then bind_eff (exec_update_checked db_users db_users_update (\<lambda>r. pu_id r = ue_userid e)
              (pu_unread_events_update (\<lambda>n. n + 1)) (\<lambda>r. in_i32 (pu_unread_events r)))
            (\<lambda>_. ret_eff ())
            (db\<lparr>db_events := db_events db @ [e'], db_event_seq := db_event_seq db + 1\<rparr>)
     else (Inl db_failure, db))"

text \<open>One statement inserting several events.\<close>

fun insert_events :: "pg_event list \<Rightarrow> unit pg_eff" where
  "insert_events [] = ret_eff ()"
| "insert_events (e # es) = bind_eff (insert_event e) (\<lambda>_. insert_events es)"

definition unread_count :: "pg \<Rightarrow> int \<Rightarrow> nat" where
  "unread_count db iUserId = length (filter (\<lambda>e. ue_unread e \<and> ue_userid e = iUserId) (db_events db))"

text \<open>\<open>UPDATE users SET unread_events=(SELECT count( * ) ..) WHERE id=ANY($1)\<close>.\<close>

definition recalculate_unread :: "int list \<Rightarrow> unit pg_eff" where
  "recalculate_unread ids = (\<lambda>db.
     (Inr (), db_users_update (update_where (\<lambda>r. pu_id r \<in> set ids)
        (\<lambda>r. r\<lparr>pu_unread_events := int (unread_count db (pu_id r))\<rparr>)) db))"

text \<open>Select the affected users, delete the events, recount when somebody was affected.\<close>

definition delete_events :: "(pg_event \<Rightarrow> bool) \<Rightarrow> unit pg_eff" where
  "delete_events p = (\<lambda>db.
     let ids = remdups (map ue_userid (filter p (db_events db)));
         db' = db_events_update (filter (\<lambda>e. \<not> p e)) db
     in if ids \<noteq> [] then recalculate_unread ids db' else (Inr (), db'))"

text \<open>The path prefix of a section in every snapshot query; \<open>lower\<close> is PostgreSQL's \<open>lower\<close>.\<close>

definition section_prefix :: "(rstr \<Rightarrow> rstr) \<Rightarrow> int \<Rightarrow> rstr \<Rightarrow> rstr" where
  "section_prefix lower i name =
     (if i = 1 then (u ''news'') else if i = 2 then (u ''forum'') else if i = 3 then (u ''gallery'')
      else if i = 5 then (u ''polls'') else if i = 6 then (u ''articles'') else lower name)"

definition topic_expired :: "time \<Rightarrow> pg_section \<Rightarrow> pg_topic \<Rightarrow> bool" where
  "topic_expired now s t \<longleftrightarrow> \<not> pt_sticky t \<and>
     (case pt_commitdate t of None \<Rightarrow> pt_postdate t | Some d \<Rightarrow> d) < ps_before s now"

definition user_frozen :: "time \<Rightarrow> pg_user \<Rightarrow> bool" where
  "user_frozen now r = (case pu_frozen_until r of None \<Rightarrow> False | Some d \<Rightarrow> now < d)"

definition coalesce :: "'a \<Rightarrow> 'a option \<Rightarrow> 'a" where
  "coalesce d x = (case x of None \<Rightarrow> d | Some a \<Rightarrow> a)"

lemma coalesce_simps [simp]: "coalesce d None = d" "coalesce d (Some a) = a"
  by (simp_all add: coalesce_def)

subsection \<open>The world of a service\<close>

text \<open>
  A service works on the store and on the search queue, whose state is a parameter.  \<open>on_db\<close>
  runs a repository operation on the store; \<open>keeps_db\<close> says that an operation leaves the
  store alone, as sending a message to the queue does.
\<close>

record 'q world =
  w_db :: pg
  w_queue :: 'q

definition on_db :: "'a pg_eff \<Rightarrow> ('q world, app_error, 'a) eff" where
  "on_db m = (\<lambda>w. case m (w_db w) of (r, db) \<Rightarrow> (r, w\<lparr>w_db := db\<rparr>))"

definition keeps_db :: "('q world, 'e, 'a) eff \<Rightarrow> bool" where
  "keeps_db m \<longleftrightarrow> (\<forall>w. w_db (snd (m w)) = w_db w)"

lemma on_db_iff [eff_simps]:
  "on_db m w = (r, w') \<longleftrightarrow> (\<exists>db. m (w_db w) = (r, db) \<and> w' = w\<lparr>w_db := db\<rparr>)"
  by (auto simp: on_db_def split: prod.splits)

lemma keeps_dbD: "keeps_db m \<Longrightarrow> m w = (r, w') \<Longrightarrow> w_db w' = w_db w"
  by (metis keeps_db_def snd_conv)

lemma db_upd_same [simp]: "w\<lparr>w_db := w_db w\<rparr> = w"
  by simp

text \<open>The joins \<open>topics\<close> - \<open>groups\<close> - \<open>sections\<close> and the row's author.\<close>

definition topic_join :: "pg \<Rightarrow> int \<Rightarrow> (pg_topic \<times> pg_group \<times> pg_section) option" where
  "topic_join db iTopicId =
     (case topic_of db iTopicId of None \<Rightarrow> None
      | Some t \<Rightarrow> (case List.find (\<lambda>g. pg_id g = pt_groupid t) (db_groups db) of None \<Rightarrow> None
        | Some g \<Rightarrow> (case List.find (\<lambda>s. ps_id s = pg_sect g) (db_sections db) of None \<Rightarrow> None
          | Some s \<Rightarrow> Some (t, g, s))))"

subsection \<open>Invariants carried through a transaction\<close>

text \<open>
  \<open>keeps I m\<close>: a successful run of \<open>m\<close> preserves \<open>I\<close>; an unsuccessful one is undone by the
  transaction around it.  The rules of the collection \<open>keeps\<close> follow the code's control flow.
\<close>

named_theorems keeps \<open>invariants preserved by statements and their combinations\<close>

definition keeps :: "(pg \<Rightarrow> bool) \<Rightarrow> 'a pg_eff \<Rightarrow> bool" where
  "keeps I m \<longleftrightarrow> (\<forall>db a db'. I db \<longrightarrow> m db = (Inr a, db') \<longrightarrow> I db')"

lemma keepsD: "keeps I m \<Longrightarrow> I db \<Longrightarrow> m db = (Inr a, db') \<Longrightarrow> I db'"
  by (auto simp: keeps_def)

lemma keeps_transaction: "keeps I m \<Longrightarrow> I db \<Longrightarrow> transaction m db = (r, db') \<Longrightarrow> I db'"
  by (cases r) (auto simp: keeps_def transaction_err transaction_Inr)

lemma keeps_bind [keeps]: "keeps I m \<Longrightarrow> (\<And>a. keeps I (f a)) \<Longrightarrow> keeps I (bind_eff m f)"
  unfolding keeps_def bind_eff_Inr_iff by blast

lemma keeps_pure [keeps]: "keeps I (ret_eff a)" "keeps I (fail_eff e)" "keeps I (of_result r)"
  by (simp_all add: keeps_def)

lemma keeps_trans [keeps]: "keeps I m \<Longrightarrow> keeps I (transaction m)"
  by (auto simp: keeps_def transaction_Inr)

lemma keeps_if [keeps]: "(b \<Longrightarrow> keeps I m) \<Longrightarrow> (\<not> b \<Longrightarrow> keeps I n) \<Longrightarrow> keeps I (if b then m else n)"
  by simp

lemma keeps_option [keeps]:
  "(x = None \<Longrightarrow> keeps I m) \<Longrightarrow> (\<And>a. x = Some a \<Longrightarrow> keeps I (f a)) \<Longrightarrow>
    keeps I (case x of None \<Rightarrow> m | Some a \<Rightarrow> f a)"
  by (cases x) auto

lemma keeps_select [keeps]:
  "keeps I (select_rows rows p)" "keeps I (fetch_optional rows p)" "keeps I (fetch_one rows p)"
  by (simp_all add: keeps_def stmt_defs)

lemma keeps_update:
  "(\<And>db. I db \<Longrightarrow> I (put (update_where p f) db)) \<Longrightarrow> keeps I (exec_update rows put p f)"
  "(\<And>db. I db \<Longrightarrow> I (put (update_where p f) db)) \<Longrightarrow> keeps I (exec_update_checked rows put p f ok)"
  by (auto simp: keeps_def stmt_defs split: if_splits)

lemma keeps_delete: "(\<And>db. I db \<Longrightarrow> I (put (filter (\<lambda>r. \<not> p r)) db)) \<Longrightarrow> keeps I (exec_delete put p)"
  by (auto simp: keeps_def stmt_defs)

lemma keeps_insert:
  "(\<And>db. I db \<Longrightarrow> ok db r \<Longrightarrow> I (put (\<lambda>rs. rs @ [r]) db)) \<Longrightarrow> keeps I (exec_insert rows put ok r)"
  by (auto simp: keeps_def stmt_defs split: if_splits)

lemma insert_event_Inr:
  assumes "insert_event e db = (Inr a, db')"
  shows "db' = db_users_update (update_where (\<lambda>r. pu_id r = ue_userid e) (pu_unread_events_update (\<lambda>n. n + 1)))
    (db\<lparr>db_events := db_events db @ [e\<lparr>ue_id := db_event_seq db\<rparr>], db_event_seq := db_event_seq db + 1\<rparr>)"
  using assms
  by (simp add: insert_event_def Let_def bind_eff_def exec_update_checked_def exec_update_def split: if_splits)

subsection \<open>What the statements leave alone\<close>

text \<open>\<open>scores db\<close>: the score column; the topics, comments and deletions are compared directly.\<close>

definition scores :: "pg \<Rightarrow> (int \<times> int option) list" where
  "scores db = map (\<lambda>r. (pu_id r, pu_score r)) (db_users db)"

definition bump_score :: "int \<Rightarrow> int \<Rightarrow> (int \<times> int option) list \<Rightarrow> (int \<times> int option) list" where
  "bump_score i d = map (\<lambda>(k, s). (k, if k = i then map_option (\<lambda>x. x + d) s else s))"

lemma bump_bump: "bump_score i d (bump_score i e xs) = bump_score i (e + d) xs"
  by (induction xs) (auto simp: bump_score_def option.map_comp comp_def algebra_simps)

lemma bump_zero [simp]: "bump_score i 0 xs = xs"
  by (induction xs) (auto simp: bump_score_def option.map_ident)

lemma find_append_new: "List.find p xs = None \<Longrightarrow> List.find p (xs @ ys) = List.find p ys"
  by (induction xs) (auto split: if_splits)

lemma update_where_none: "filter p rs = [] \<Longrightarrow> update_where p f rs = rs"
  by (induction rs) (auto simp: update_where_def split: if_splits)

lemma update_where_twice:
  assumes "\<And>r. p r \<Longrightarrow> p (f r)"
  shows "update_where p g (update_where p f rs) = update_where p (\<lambda>r. g (f r)) rs"
  using assms by (induction rs) (auto simp: update_where_def)

lemma scores_other:
  "(\<And>r. pu_id (f r) = pu_id r) \<Longrightarrow> (\<And>r. pu_score (f r) = pu_score r) \<Longrightarrow>
    map (\<lambda>r. (pu_id r, pu_score r)) (update_where p f rs) = map (\<lambda>r. (pu_id r, pu_score r)) rs"
  by (simp add: update_where_def comp_def)

lemma add_score_Inr:
  "add_score i d db = (Inr n, db') \<longleftrightarrow>
     n = length (filter (\<lambda>r. pu_id r = i) (db_users db)) \<and>
     (\<forall>r\<in>set (db_users db). pu_id r = i \<longrightarrow> in_i32_opt (map_option (\<lambda>s. s + d) (pu_score r))) \<and>
     db' = db_users_update (update_where (\<lambda>r. pu_id r = i) (pu_score_update (map_option (\<lambda>s. s + d)))) db"
  by (auto simp: add_score_def exec_update_checked_def exec_update_def list_all_iff)

lemma scores_add_score:
  "scores (db_users_update (update_where (\<lambda>r. pu_id r = i) (pu_score_update (map_option (\<lambda>s. s + d)))) db)
    = bump_score i d (scores db)"
  by (simp add: scores_def bump_score_def update_where_def)

text \<open>Taking a score change back: it fits the column because the old score did.\<close>

lemma add_score_back:
  assumes old: "\<forall>r\<in>set (db_users db). in_i32_opt (pu_score r)" and hit: "user_of db i \<noteq> None"
    and sc: "scores db1 = bump_score i d (scores db)"
  shows "\<exists>n db2. add_score i (- d) db1 = (Inr (Suc n), db2) \<and> scores db2 = scores db \<and>
    (\<exists>rs. db2 = db1\<lparr>db_users := rs\<rparr>)"
proof -
  let ?db2 = "db_users_update (update_where (\<lambda>r. pu_id r = i) (pu_score_update (map_option (\<lambda>s. s + - d)))) db1"
  have fit: "in_i32_opt (map_option (\<lambda>s. s + - d) (pu_score r))" if "r \<in> set (db_users db1)" "pu_id r = i" for r
  proof -
    from that have "(i, pu_score r) \<in> set (scores db1)" by (force simp: scores_def)
    then obtain r0 where "r0 \<in> set (db_users db)" "pu_score r = map_option (\<lambda>x. x + d) (pu_score r0)"
      unfolding sc by (auto simp: scores_def bump_score_def split: if_splits)
    with old show ?thesis by (cases "pu_score r0") auto
  qed
  have "map pu_id (db_users db1) = map fst (scores db1)" by (simp add: scores_def comp_def)
  also have "\<dots> = map fst (scores db)" by (simp add: sc bump_score_def comp_def split_def)
  also have "\<dots> = map pu_id (db_users db)" by (simp add: scores_def comp_def)
  finally have ids: "map pu_id (db_users db1) = map pu_id (db_users db)" .
  from hit obtain r0 where "r0 \<in> set (db_users db)" "pu_id r0 = i"
    by (auto simp: user_of_def find_None_iff)
  then have "i \<in> set (map pu_id (db_users db1))" unfolding ids set_map by (metis imageI)
  then have "filter (\<lambda>r. pu_id r = i) (db_users db1) \<noteq> []" unfolding filter_empty_conv set_map by blast
  then obtain n where n: "length (filter (\<lambda>r. pu_id r = i) (db_users db1)) = Suc n"
    by (cases "filter (\<lambda>r. pu_id r = i) (db_users db1)") auto
  have "add_score i (- d) db1 = (Inr (Suc n), ?db2)"
    using fit by (subst add_score_Inr) (simp add: n)
  moreover have "scores ?db2 = scores db"
    by (simp only: scores_add_score sc bump_bump) simp
  moreover have "?db2 = db1\<lparr>db_users := db_users ?db2\<rparr>" by simp
  ultimately show ?thesis by blast
qed

text \<open>The parts of the store that notifications do not touch.\<close>

definition content :: "pg \<Rightarrow> (int \<times> int option) list \<times> pg_topic list \<times> pg_comment list \<times> pg_del_info list \<times> pg_msgbase list \<times> pg_warning list" where
  "content db = (scores db, db_topics db, db_comments db, db_del_info db, db_msgbase db, db_warnings db)"

lemma recalculate_content [simp]: "recalculate_unread ids db = (r, db') \<Longrightarrow> content db' = content db"
  by (auto simp: recalculate_unread_def content_def scores_def scores_other)

lemma delete_events_content: "delete_events p db = (r, db') \<Longrightarrow> content db' = content db"
  by (auto simp: delete_events_def Let_def recalculate_unread_def content_def scores_def scores_other
      split: if_splits)

lemma insert_event_content: "insert_event e db = (Inr a, db') \<Longrightarrow> content db' = content db"
  by (auto dest!: insert_event_Inr simp: content_def scores_def scores_other)

lemma delete_events_total: "\<exists>db'. delete_events p db = (Inr (), db')"
  by (auto simp: delete_events_def recalculate_unread_def Let_def)

lemma insert_events_content: "insert_events es db = (Inr a, db') \<Longrightarrow> content db' = content db"
  by (induction es arbitrary: db) (auto simp: bind_eff_Inr_iff dest: insert_event_content)

text \<open>The same as frame rules.\<close>

lemma content_frame [keeps]:
  "keeps (\<lambda>db. content db = c) (delete_events p)"
  "keeps (\<lambda>db. content db = c) (insert_event e)"
  "keeps (\<lambda>db. content db = c) (recalculate_unread ids)"
  "keeps (\<lambda>db. content db = c) (insert_events es)"
  by (auto simp: keeps_def dest: delete_events_content insert_event_content insert_events_content)

end
