(* ===== verification/Topic_Options.thy ===== *)
theory Topic_Options
  imports Store Topic_Posting
begin

section \<open>Topic options: post score, sticky, notop\<close>

text \<open>
  \<open>src/domain/topic/options.rs\<close>, the service of \<open>src/application/topic/options.rs\<close> and the
  repository of \<open>src/infra/postgres/topic_options_repository.rs\<close>.  The level constants are
  those of \<open>Topic_Posting\<close>; the domain file declares them again with the same values.  The
  search queue's interface \<open>TrTopicReindexQueue\<close>, which the other topic services use too, is
  here.
\<close>

record StTopicOptions =
  to_iTopicId :: int
  to_iPostScore :: int
  to_bSticky :: bool
  to_bNoTop :: bool
  to_bPremoderated :: bool
  to_sCanonicalUrl :: rstr

record StSetTopicOptions =
  so_iTopicId :: int
  so_iPostScore :: int
  so_bSticky :: bool
  so_bNoTop :: bool

definition bValidPostScore :: "int \<Rightarrow> bool" where
  "bValidPostScore i \<longleftrightarrow> i = POSTSCORE_UNRESTRICTED \<or>
     (POSTSCORE_REGISTERED_ONLY \<le> i \<and> i \<le> POSTSCORE_HIDE_COMMENTS)"

definition restriction_prefix :: rstr where
  "restriction_prefix = ([60, 98, 62, 1054, 1075, 1088, 1072, 1085, 1080, 1095, 1077, 1085, 1080, 1077, 32, 1085, 1072, 32, 1086, 1090, 1087, 1088, 1072, 1074, 1082, 1091, 32, 1082, 1086, 1084, 1084, 1077, 1085, 1090, 1072, 1088, 1080, 1077, 1074, 60, 47, 98, 62, 58, 32] :: rstr) \<comment> \<open>(lt)b(gt)Ogranichenie na otpravku kommentariev(lt)/b(gt): \<close>"

definition sPostScoreInfo :: "int \<Rightarrow> rstr" where
  "sPostScoreInfo i =
     (if i = POSTSCORE_UNRESTRICTED then []
      else if i = 50 then
        ([1047, 1072, 1082, 1088, 1099, 1090, 1086, 32, 1076, 1086, 1073, 1072, 1074, 1083, 1077, 1085, 1080, 1077, 32, 1082, 1086, 1084, 1084, 1077, 1085, 1090, 1072, 1088, 1080, 1077, 1074, 32, 1076, 1083, 1103, 32, 1085, 1077, 1076, 1072, 1074, 1085, 1086, 32, 1079, 1072, 1088, 1077, 1075, 1080, 1089, 1090, 1088, 1080, 1088, 1086, 1074, 1072, 1085, 1085, 1099, 1093, 32, 1087, 1086, 1083, 1100, 1079, 1086, 1074, 1072, 1090, 1077, 1083, 1077, 1081, 32, 40, 1089, 1086, 32, 115, 99, 111, 114, 101, 32, 60, 32, 53, 48, 41] :: rstr) \<comment> \<open>Zakryto dobavlenie kommentariev dlya nedavno zaregistrirovannykh polzovatelej (so score (lt) 50)\<close>
      else if i \<in> {100, 200, 300, 400, 500} then
        restriction_prefix @ ([60, 115, 112, 97, 110, 32, 99, 108, 97, 115, 115, 61, 34, 115, 116, 97, 114, 115, 34, 62] :: rstr) \<comment> \<open>(lt)span class=(quote)stars(quote)(gt)\<close> @ stars (nat (i div 100)) @ (u ''</span>'')
      else if i = POSTSCORE_MOD_AUTHOR then restriction_prefix @ ([1090, 1086, 1083, 1100, 1082, 1086, 32, 1076, 1083, 1103, 32, 1084, 1086, 1076, 1077, 1088, 1072, 1090, 1086, 1088, 1086, 1074, 32, 1080, 32, 1072, 1074, 1090, 1086, 1088, 1072] :: rstr) \<comment> \<open>tolko dlya moderatorov i avtora\<close>
      else if i = POSTSCORE_MODERATORS_ONLY then restriction_prefix @ ([1090, 1086, 1083, 1100, 1082, 1086, 32, 1076, 1083, 1103, 32, 1084, 1086, 1076, 1077, 1088, 1072, 1090, 1086, 1088, 1086, 1074] :: rstr) \<comment> \<open>tolko dlya moderatorov\<close>
      else if i = POSTSCORE_NO_COMMENTS then restriction_prefix @ ([1082, 1086, 1084, 1084, 1077, 1085, 1090, 1072, 1088, 1080, 1080, 32, 1079, 1072, 1087, 1088, 1077, 1097, 1077, 1085, 1099] :: rstr) \<comment> \<open>kommentarii zapreshcheny\<close>
      else if i = POSTSCORE_HIDE_COMMENTS then restriction_prefix @ ([1073, 1077, 1079, 32, 1082, 1086, 1084, 1084, 1077, 1085, 1090, 1072, 1088, 1080, 1077, 1074] :: rstr) \<comment> \<open>bez kommentariev\<close>
      else if i = POSTSCORE_REGISTERED_ONLY then
        restriction_prefix @ ([1090, 1086, 1083, 1100, 1082, 1086, 32, 1076, 1083, 1103, 32, 1079, 1072, 1088, 1077, 1075, 1080, 1089, 1090, 1088, 1080, 1088, 1086, 1074, 1072, 1085, 1085, 1099, 1093, 32, 1087, 1086, 1083, 1100, 1079, 1086, 1074, 1072, 1090, 1077, 1083, 1077, 1081] :: rstr) \<comment> \<open>tolko dlya zaregistrirovannykh polzovatelej\<close>
      else restriction_prefix @ ([1090, 1086, 1083, 1100, 1082, 1086, 32, 1076, 1083, 1103, 32, 1079, 1072, 1088, 1077, 1075, 1080, 1089, 1090, 1088, 1080, 1088, 1086, 1074, 1072, 1085, 1085, 1099, 1093, 32, 1087, 1086, 1083, 1100, 1079, 1086, 1074, 1072, 1090, 1077, 1083, 1077, 1081, 44, 32, 115, 99, 111, 114, 101, 62, 61] :: rstr) \<comment> \<open>tolko dlya zaregistrirovannykh polzovatelej, score(gt)=\<close> @ show_int i)"

definition sPostScoreInfoFull :: "int \<Rightarrow> rstr" where
  "sPostScoreInfoFull i =
     (let sInfo = sPostScoreInfo i in if sInfo = [] then ([1073, 1077, 1079, 32, 1086, 1075, 1088, 1072, 1085, 1080, 1095, 1077, 1085, 1080, 1081] :: rstr) \<comment> \<open>bez ogranichenij\<close> else sInfo)"

record 'w TrTopicOptionsRepository =
  tor_optFind :: "int \<Rightarrow> ('w, app_error, StTopicOptions option) eff"
  tor_vSet :: "StSetTopicOptions \<Rightarrow> ('w, app_error, unit) eff"

record 'w TrTopicReindexQueue =
  trq_vUpdateMessage :: "int \<Rightarrow> bool \<Rightarrow> ('w, app_error, unit) eff"

text \<open>The signed-in user.\<close>

record StUserSummary =
  us_id :: int
  us_nick :: rstr
  us_score :: "int option"
  us_canmod :: bool
  us_candel :: bool
  us_corrector :: bool
  us_blocked :: "bool option"
  us_name :: "rstr option"
  us_max_score :: "int option"
  us_photo :: "rstr option"
  us_town :: "rstr option"
  us_regdate :: "time option"
  us_userinfo :: "rstr option"

subsection \<open>The service (src/application/topic/options.rs)\<close>

record StSetPostScoreOutcome =
  po_sBigMessage :: rstr
  po_sCanonicalUrl :: rstr
  po_bPostScoreChanged :: bool

definition vRequireModerator :: "StUserSummary option \<Rightarrow> app_error + StUserSummary" where
  "vRequireModerator optUser =
     ok_or Forbidden (case optUser of None \<Rightarrow> None | Some usr \<Rightarrow> if us_canmod usr then Some usr else None)"

definition options_stForm ::
    "'w TrTopicOptionsRepository \<Rightarrow> StUserSummary option \<Rightarrow> int \<Rightarrow> ('w, app_error, StTopicOptions) eff" where
  "options_stForm repo optUser iTopicId =
     bind_eff (of_result (vRequireModerator optUser)) (\<lambda>_.
     bind_eff (tor_optFind repo iTopicId) (\<lambda>opts.
     of_result (ok_or NotFound opts)))"

definition show_bool :: "bool \<Rightarrow> rstr" where
  "show_bool b = (if b then (u ''true'') else (u ''false''))"

definition options_big_message :: "StTopicOptions \<Rightarrow> StSetTopicOptions \<Rightarrow> rstr" where
  "options_big_message stBefore stOptions =
     (if to_iPostScore stBefore \<noteq> so_iPostScore stOptions
      then ([1059, 1089, 1090, 1072, 1085, 1086, 1074, 1083, 1077, 1085, 32, 1085, 1086, 1074, 1099, 1081, 32, 1091, 1088, 1086, 1074, 1077, 1085, 1100, 32, 1079, 1072, 1087, 1080, 1089, 1080, 58, 32] :: rstr) \<comment> \<open>Ustanovlen novyj uroven zapisi: \<close> @ sPostScoreInfoFull (so_iPostScore stOptions) @ (u ''<br>'') else []) @
     (if to_bSticky stBefore \<noteq> so_bSticky stOptions
      then ([1053, 1086, 1074, 1086, 1077, 32, 1079, 1085, 1072, 1095, 1077, 1085, 1080, 1077, 32, 115, 116, 105, 99, 107, 121, 58, 32] :: rstr) \<comment> \<open>Novoe znachenie sticky: \<close> @ show_bool (so_bSticky stOptions) @ (u ''<br>'') else []) @
     (if to_bNoTop stBefore \<noteq> so_bNoTop stOptions
      then ([1053, 1086, 1074, 1086, 1077, 32, 1079, 1085, 1072, 1095, 1077, 1085, 1080, 1077, 32, 110, 111, 116, 111, 112, 58, 32] :: rstr) \<comment> \<open>Novoe znachenie notop: \<close> @ show_bool (so_bNoTop stOptions) @ (u ''<br>'') else [])"

definition options_stSet ::
    "'w TrTopicOptionsRepository \<Rightarrow> 'w TrTopicReindexQueue \<Rightarrow> StUserSummary option \<Rightarrow> StSetTopicOptions
      \<Rightarrow> ('w, app_error, StSetPostScoreOutcome) eff" where
  "options_stSet repo queue optUser stOptions =
     bind_eff (of_result (vRequireModerator optUser)) (\<lambda>stModerator.
     if \<not> bValidPostScore (so_iPostScore stOptions)
     then fail_eff (BadRequest ((u ''invalid postscore '') @ show_int (so_iPostScore stOptions)))
     else
     bind_eff (tor_optFind repo (so_iTopicId stOptions)) (\<lambda>opts.
     bind_eff (of_result (ok_or NotFound opts)) (\<lambda>stBefore.
     bind_eff (tor_vSet repo stOptions) (\<lambda>_.
     let bPostScoreChanged = (to_iPostScore stBefore \<noteq> so_iPostScore stOptions) in
     bind_eff (if bPostScoreChanged then trq_vUpdateMessage queue (so_iTopicId stOptions) True
               else ret_eff ()) (\<lambda>_.
     ret_eff \<lparr>po_sBigMessage = options_big_message stBefore stOptions,
       po_sCanonicalUrl = to_sCanonicalUrl stBefore, po_bPostScoreChanged = bPostScoreChanged\<rparr>)))))"

subsection \<open>The repository (src/infra/postgres/topic_options_repository.rs)\<close>

definition options_row :: "(rstr \<Rightarrow> rstr) \<Rightarrow> pg_topic \<times> pg_group \<times> pg_section \<Rightarrow> StTopicOptions" where
  "options_row lower = (\<lambda>(t, g, s).
     \<lparr>to_iTopicId = pt_id t, to_iPostScore = coalesce POSTSCORE_UNRESTRICTED (pt_postscore t),
      to_bSticky = pt_sticky t, to_bNoTop = pt_notop t, to_bPremoderated = ps_moderate s,
      to_sCanonicalUrl = (u ''/'') @ section_prefix lower (ps_id s) (ps_name s) @ (u ''/'')
        @ pg_urlname g @ (u ''/'') @ show_int (pt_id t)\<rparr>)"

definition options_optFind :: "(rstr \<Rightarrow> rstr) \<Rightarrow> int \<Rightarrow> StTopicOptions option pg_eff" where
  "options_optFind lower iTopicId = (\<lambda>db. (Inr (map_option (options_row lower) (topic_join db iTopicId)), db))"

definition set_options_row :: "time \<Rightarrow> StSetTopicOptions \<Rightarrow> pg_topic \<Rightarrow> pg_topic" where
  "set_options_row now opts t = t\<lparr>pt_postscore := Some (so_iPostScore opts), pt_sticky := so_bSticky opts,
     pt_notop := so_bNoTop opts, pt_lastmod := now\<rparr>"

definition options_vSet :: "time \<Rightarrow> StSetTopicOptions \<Rightarrow> unit pg_eff" where
  "options_vSet now stOptions = transaction (
     bind_eff (exec_update db_topics db_topics_update (\<lambda>t. pt_id t = so_iTopicId stOptions)
       (set_options_row now stOptions)) (\<lambda>_. ret_eff ()))"

definition pg_topic_options :: "(rstr \<Rightarrow> rstr) \<Rightarrow> time \<Rightarrow> 'q world TrTopicOptionsRepository" where
  "pg_topic_options lower now =
     \<lparr>tor_optFind = (\<lambda>i. on_db (options_optFind lower i)), tor_vSet = (\<lambda>opts. on_db (options_vSet now opts))\<rparr>"

lemmas options_defs = options_stSet_def pg_topic_options_def options_vSet_def options_optFind_def

text \<open>The queue of the examples: it records the messages and, when broken, refuses them.\<close>

definition log_queue :: "bool \<Rightarrow> (int \<times> bool) list world TrTopicReindexQueue" where
  "log_queue broken = \<lparr>trq_vUpdateMessage = (\<lambda>i b w.
     if broken then (Inl (Io (u ''queue'')), w) else (Inr (), w\<lparr>w_queue := w_queue w @ [(i, b)]\<rparr>))\<rparr>"

lemma log_queue_keeps_db: "keeps_db (trq_vUpdateMessage (log_queue broken) i b)"
  by (simp add: keeps_db_def log_queue_def)

subsection \<open>What setting the options does\<close>

lemma vRequireModerator_iff:
  "vRequireModerator opts = Inr a \<longleftrightarrow> opts = Some a \<and> us_canmod a"
  "vRequireModerator opts = Inl e \<longleftrightarrow> e = Forbidden \<and> (\<forall>x. opts = Some x \<longrightarrow> \<not> us_canmod x)"
  by (auto simp: vRequireModerator_def ok_or_iff split: option.splits if_splits)

definition options_committed :: "time \<Rightarrow> StSetTopicOptions \<Rightarrow> pg \<Rightarrow> pg" where
  "options_committed now opts = db_topics_update (update_where (\<lambda>t. pt_id t = so_iTopicId opts) (set_options_row now opts))"

text \<open>Setting the options commits before anything is queued.  A request by anybody but a
  moderator, an invalid level or a missing topic leaves the whole world as it was; otherwise
  the store ends with exactly the new level, sticky and notop in that one topic, and the
  queue is called just when the level differs from the old one - when it fails, the error is
  reported and the committed change stays.\<close>

theorem options_set_effect:
  assumes "\<And>i b. keeps_db (trq_vUpdateMessage queue i b)"
    and "options_stSet (pg_topic_options lower now) queue optUser opts w = (r, w')"
  shows "case (optUser, topic_join (w_db w) (so_iTopicId opts)) of
      (Some m, Some j) \<Rightarrow>
        (if \<not> us_canmod m then r = Inl Forbidden \<and> w' = w
         else if \<not> bValidPostScore (so_iPostScore opts) then (\<exists>s. r = Inl (BadRequest s)) \<and> w' = w
         else w_db w' = options_committed now opts (w_db w) \<and>
           (if to_iPostScore (options_row lower j) = so_iPostScore opts then (\<exists>x. r = Inr x) \<and> w_queue w' = w_queue w
            else (r, w') = (case trq_vUpdateMessage queue (so_iTopicId opts) True
                (w\<lparr>w_db := options_committed now opts (w_db w)\<rparr>) of
                (Inl e, w2) \<Rightarrow> (Inl e, w2)
              | (Inr _, w2) \<Rightarrow> (Inr \<lparr>po_sBigMessage = options_big_message (options_row lower j) opts,
                  po_sCanonicalUrl = to_sCanonicalUrl (options_row lower j), po_bPostScoreChanged = True\<rparr>, w2))))
    | _ \<Rightarrow> (\<exists>e. r = Inl e) \<and> w' = w"
proof -
  note d = options_defs options_committed_def exec_update_def
  note eff = bind_eff_def of_result_def on_db_def transaction_def ret_eff_def fail_eff_def
  consider "optUser = None" | m where "optUser = Some m" "\<not> us_canmod m"
    | m where "optUser = Some m" "us_canmod m" "\<not> bValidPostScore (so_iPostScore opts)"
    | m where "optUser = Some m" "us_canmod m" "bValidPostScore (so_iPostScore opts)"
    by (cases optUser) auto
  then show ?thesis
  proof cases
    case 4
    show ?thesis
    proof (cases "topic_join (w_db w) (so_iTopicId opts)")
      case None
      with assms(2) 4 show ?thesis by (auto simp: d eff vRequireModerator_def)
    next
      case (Some j)
      let ?w = "w\<lparr>w_db := options_committed now opts (w_db w)\<rparr>"
      obtain r2 w2 where q: "trq_vUpdateMessage queue (so_iTopicId opts) True ?w = (r2, w2)" by fastforce
      have "w_db w2 = w_db ?w" by (rule keeps_dbD [OF assms(1) q])
      with assms(2) 4 Some q show ?thesis
        by (auto simp: d eff vRequireModerator_def Let_def split: sum.splits if_splits)
    qed
  qed (use assms(2) in \<open>auto simp: d eff vRequireModerator_def split: option.splits\<close>)
qed

definition ex_topic :: pg_topic where
  "ex_topic = \<lparr>pt_id = 5, pt_groupid = 10, pt_userid = 7, pt_title = u ''t'', pt_url = Some (u ''http://x''),
     pt_linktext = None, pt_moderate = False, pt_commitby = None, pt_commitdate = None, pt_postdate = 1000,
     pt_lastmod = 1000, pt_deleted = False, pt_draft = False, pt_sticky = True, pt_notop = False,
     pt_minor = False, pt_resolved = None, pt_stat1 = 0, pt_stat3 = 0, pt_postscore = None,
     pt_postip = None, pt_ua_id = None, pt_open_warnings = 0, pt_allow_anonymous = True, pt_reactions = []\<rparr>"

definition ex_user :: "int \<Rightarrow> pg_user" where
  "ex_user i = \<lparr>pu_id = i, pu_nick = u ''n'', pu_passwd = Some (u ''x''), pu_url = None, pu_photo = None,
     pu_town = None, pu_userinfo = None, pu_canmod = False, pu_candel = False, pu_corrector = False,
     pu_blocked = False, pu_score = Some 100, pu_max_score = Some 100, pu_unread_events = 0,
     pu_lastlogin = None, pu_lostpwd = 0, pu_frozen_until = None, pu_frozen_by = None,
     pu_freezing_reason = None, pu_name = None, pu_email = None, pu_new_email = None, pu_regdate = None,
     pu_activated = True, pu_token_generation = None\<rparr>"

definition ex_db :: pg where
  "ex_db = \<lparr>db_users = [ex_user 7, (ex_user 8)\<lparr>pu_canmod := True\<rparr>], db_topics = [ex_topic], db_comments = [],
     db_msgbase = [\<lparr>pm_id = 5, pm_message = u ''body'', pm_markup = u ''MARKDOWN''\<rparr>],
     db_groups = [\<lparr>pg_id = 10, pg_title = u ''General'', pg_urlname = u ''general'', pg_sect = 2, pg_resolvable = True,
       pg_restrict_topics = None, pg_restrict_comments = - 9999, pg_stat3 = 0\<rparr>],
     db_sections = [\<lparr>ps_id = 2, ps_name = u ''Forum'', ps_moderate = False, ps_imagepost = False,
       ps_imageallowed = False, ps_havelink = True, ps_vote = None, ps_before = (\<lambda>t. t - days 365),
       ps_restrict_topics = Some (- 50)\<rparr>],
     db_del_info = [], db_events = [], db_event_seq = 1, db_warnings = [], db_warning_seq = 1,
     db_ban_info = [], db_user_log = [], db_b_ips = [],
     db_msg_seq = 100, db_memories = [], db_ignore_list = [], db_edit_info = [], db_edit_seq = 1, db_user_agents = [],
     db_agent_seq = 1, db_user_settings = [], db_reactions_log = [], db_polls = [], db_polls_variants = [], db_vote_users = [],
     db_poll_seq = 1, db_variant_seq = 1, db_tags_values = [], db_tag_seq = 1, db_tags_synonyms = [], db_tags = [], db_user_tags = [],
     db_topic_notified = [], db_images = [], db_image_seq = 1\<rparr>"

definition ex_moderator :: StUserSummary where
  "ex_moderator = \<lparr>us_id = 8, us_nick = u ''mod'', us_score = Some 500, us_canmod = True,
     us_candel = False, us_corrector = False, us_blocked = None, us_name = None,
     us_max_score = Some 500, us_photo = None, us_town = None, us_regdate = None, us_userinfo = None\<rparr>"

theorem options_set_effect_witness:
  "w_db (snd (options_stSet (pg_topic_options id 2000) (log_queue True) (Some ex_moderator)
     \<lparr>so_iTopicId = 5, so_iPostScore = 100, so_bSticky = False, so_bNoTop = True\<rparr> \<lparr>w_db = ex_db, w_queue = []\<rparr>)) =
   ex_db\<lparr>db_topics := [ex_topic\<lparr>pt_postscore := Some 100, pt_sticky := False, pt_notop := True, pt_lastmod := 2000\<rparr>]\<rparr>"
proof -
  let ?opts = "\<lparr>so_iTopicId = 5, so_iPostScore = 100, so_bSticky = False, so_bNoTop = True\<rparr> :: StSetTopicOptions"
  let ?w = "\<lparr>w_db = ex_db, w_queue = []\<rparr> :: (int \<times> bool) list world"
  obtain r w' where run: "options_stSet (pg_topic_options id 2000) (log_queue True) (Some ex_moderator) ?opts ?w = (r, w')"
    by fastforce
  have "topic_join ex_db 5 = Some (ex_topic, hd (db_groups ex_db), hd (db_sections ex_db))"
    by (simp add: topic_join_def topic_of_def ex_db_def ex_topic_def)
  with options_set_effect [OF log_queue_keeps_db run]
  have "w_db w' = options_committed 2000 ?opts ex_db"
    by (simp add: ex_moderator_def bValidPostScore_def postscore_defs)
  with run show ?thesis
    by (simp add: options_committed_def ex_db_def update_where_def ex_topic_def set_options_row_def)
qed

end
