(* ===== verification/Topic_Deletion.thy ===== *)
theory Topic_Deletion
  imports Topic_Options
begin

section \<open>Deleting and restoring a topic\<close>

text \<open>
  The policy of \<open>src/domain/topic/deletion.rs\<close>, the service of
  \<open>src/application/topic/deletion.rs\<close> and the transactions of
  \<open>src/infra/postgres/topic_deletion_repository.rs\<close>.  \<open>plus_month\<close> stands for chrono's
  calendar addition of a month in the process-local time zone.
\<close>

subsection \<open>The policy (src/domain/topic/deletion.rs)\<close>

definition I_ANONYMOUS_USER_ID :: int where "I_ANONYMOUS_USER_ID = 2"

definition VEC_TOPIC_DELETE_REASONS :: "rstr list" where
  "VEC_TOPIC_DELETE_REASONS =
     [([51, 46, 49, 32, 1044, 1091, 1073, 1083, 1100] :: rstr) \<comment> \<open>3.1 Dubl\<close>,
      ([51, 46, 50, 32, 1053, 1077, 1074, 1077, 1088, 1085, 1072, 1103, 32, 1082, 1086, 1076, 1080, 1088, 1086, 1074, 1082, 1072] :: rstr) \<comment> \<open>3.2 Nevernaya kodirovka\<close>,
      ([51, 46, 51, 32, 1053, 1077, 1082, 1086, 1088, 1088, 1077, 1082, 1090, 1085, 1086, 1077, 32, 1092, 1086, 1088, 1084, 1072, 1090, 1080, 1088, 1086, 1074, 1072, 1085, 1080, 1077] :: rstr) \<comment> \<open>3.3 Nekorrektnoe formatirovanie\<close>,
      ([51, 46, 52, 32, 1055, 1091, 1089, 1090, 1086, 1077, 32, 1089, 1086, 1086, 1073, 1097, 1077, 1085, 1080, 1077] :: rstr) \<comment> \<open>3.4 Pustoe soobshchenie\<close>,
      ([52, 46, 49, 32, 1054, 1092, 1090, 1086, 1087, 1080, 1082] :: rstr) \<comment> \<open>4.1 Oftopik\<close>,
      ([52, 46, 50, 32, 1042, 1099, 1079, 1099, 1074, 1072, 1102, 1097, 1077, 32, 1085, 1077, 1074, 1077, 1088, 1085, 1072, 1103, 32, 1080, 1085, 1092, 1086, 1088, 1084, 1072, 1094, 1080, 1103] :: rstr) \<comment> \<open>4.2 Vyzyvayushche nevernaya informatsiya\<close>,
      ([52, 46, 51, 32, 1055, 1088, 1086, 1074, 1086, 1082, 1072, 1094, 1080, 1103, 32, 102, 108, 97, 109, 101] :: rstr) \<comment> \<open>4.3 Provokatsiya flame\<close>,
      ([52, 46, 52, 32, 1054, 1073, 1089, 1091, 1078, 1076, 1077, 1085, 1080, 1077, 32, 1076, 1077, 1081, 1089, 1090, 1074, 1080, 1081, 32, 1084, 1086, 1076, 1077, 1088, 1072, 1090, 1086, 1088, 1086, 1074] :: rstr) \<comment> \<open>4.4 Obsuzhdenie dejstvij moderatorov\<close>,
      ([52, 46, 53, 32, 1058, 1077, 1089, 1090, 1086, 1074, 1099, 1077, 32, 1089, 1086, 1086, 1073, 1097, 1077, 1085, 1080, 1103] :: rstr) \<comment> \<open>4.5 Testovye soobshcheniya\<close>,
      ([52, 46, 54, 32, 1057, 1087, 1072, 1084] :: rstr) \<comment> \<open>4.6 Spam\<close>,
      ([52, 46, 55, 32, 1060, 1083, 1091, 1076] :: rstr) \<comment> \<open>4.7 Flud\<close>,
      ([52, 46, 56, 32, 1044, 1080, 1089, 1082, 1091, 1089, 1089, 1080, 1103, 32, 1085, 1077, 32, 1085, 1072, 32, 1088, 1091, 1089, 1089, 1082, 1086, 1084, 32, 1103, 1079, 1099, 1082, 1077] :: rstr) \<comment> \<open>4.8 Diskussiya ne na russkom yazyke\<close>,
      ([52, 46, 57, 32, 1054, 1092, 1090, 1086, 1087, 1080, 1082, 45, 1083, 1080, 1089, 1090, 44, 32, 1087, 46, 32] :: rstr) \<comment> \<open>4.9 Oftopik-list, p. \<close>,
      ([53, 46, 49, 32, 1053, 1077, 1094, 1077, 1085, 1079, 1091, 1088, 1085, 1099, 1077, 32, 1074, 1099, 1088, 1072, 1078, 1077, 1085, 1080, 1103] :: rstr) \<comment> \<open>5.1 Netsenzurnye vyrazheniya\<close>,
      ([53, 46, 50, 32, 1054, 1089, 1082, 1086, 1088, 1073, 1083, 1077, 1085, 1080, 1077, 32, 1091, 1095, 1072, 1089, 1090, 1085, 1080, 1082, 1086, 1074, 32, 1076, 1080, 1089, 1082, 1091, 1089, 1089, 1080, 1080] :: rstr) \<comment> \<open>5.2 Oskorblenie uchastnikov diskussii\<close>,
      ([53, 46, 51, 32, 1053, 1072, 1094, 1080, 1086, 1085, 1072, 1083, 1100, 1085, 1099, 1077, 47, 1087, 1086, 1083, 1080, 1090, 1080, 1095, 1077, 1089, 1082, 1080, 1077, 47, 1088, 1077, 1083, 1080, 1075, 1080, 1086, 1079, 1085, 1099, 1077, 32, 1089, 1087, 1086, 1088, 1099] :: rstr) \<comment> \<open>5.3 Natsionalnye/politicheskie/religioznye spory\<close>,
      ([53, 46, 52, 32, 1051, 1080, 1095, 1085, 1072, 1103, 32, 1087, 1077, 1088, 1077, 1087, 1080, 1089, 1082, 1072] :: rstr) \<comment> \<open>5.4 Lichnaya perepiska\<close>,
      ([53, 46, 53, 32, 1055, 1088, 1077, 1076, 1085, 1072, 1084, 1077, 1088, 1077, 1085, 1085, 1086, 1077, 32, 1085, 1072, 1088, 1091, 1096, 1077, 1085, 1080, 1077, 32, 1087, 1088, 1072, 1074, 1080, 1083, 32, 1088, 1091, 1089, 1089, 1082, 1086, 1075, 1086, 32, 1103, 1079, 1099, 1082, 1072] :: rstr) \<comment> \<open>5.5 Prednamerennoe narushenie pravil russkogo yazyka\<close>,
      ([54, 32, 1053, 1072, 1088, 1091, 1096, 1077, 1085, 1080, 1077, 32, 99, 111, 112, 121, 114, 105, 103, 104, 116] :: rstr) \<comment> \<open>6 Narushenie copyright\<close>,
      (u ''6.2 Warez''),
      ([55, 46, 49, 32, 1054, 1090, 1074, 1077, 1090, 32, 1085, 1072, 32, 1085, 1077, 1082, 1086, 1088, 1088, 1077, 1082, 1090, 1085, 1086, 1077, 32, 1089, 1086, 1086, 1073, 1097, 1077, 1085, 1080, 1077] :: rstr) \<comment> \<open>7.1 Otvet na nekorrektnoe soobshchenie\<close>,
      ([55, 46, 50, 32, 1063, 1088, 1077, 1079, 1084, 1077, 1088, 1085, 1086, 32, 1080, 1089, 1087, 1088, 1072, 1074, 1083, 1077, 1085, 1085, 1086, 1077, 32, 1089, 1086, 1086, 1073, 1097, 1077, 1085, 1080, 1077] :: rstr) \<comment> \<open>7.2 Chrezmerno ispravlennoe soobshchenie\<close>]"

record StTopicDeletionActor =
  td_iUserId :: int
  td_sNick :: rstr
  td_bModerator :: bool
  td_bAdministrator :: bool

record StTopicDeletionSnapshot =
  ts_iTopicId :: int
  ts_iAuthorId :: int
  ts_sAuthorNick :: rstr
  ts_iAuthorScore :: int
  ts_iAuthorMaxScore :: int
  ts_bAuthorBlocked :: bool
  ts_bAuthorAnonymous :: bool
  ts_bAuthorFrozen :: bool
  ts_sStoredTitle :: rstr
  ts_sMessage :: rstr
  ts_sMarkup :: rstr
  ts_optUrl :: "rstr option"
  ts_optLinkText :: "rstr option"
  ts_iGroupId :: int
  ts_sGroupTitle :: rstr
  ts_sGroupUrlName :: rstr
  ts_iSectionId :: int
  ts_sSectionTitle :: rstr
  ts_sSectionPrefix :: rstr
  ts_bSectionPremoderated :: bool
  ts_bSectionPollAllowed :: bool
  ts_bSectionImagePost :: bool
  ts_bSectionImageAllowed :: bool
  ts_bLinksAllowed :: bool
  ts_bDeleted :: bool
  ts_bDraft :: bool
  ts_bCommitted :: bool
  ts_bSticky :: bool
  ts_bResolved :: bool
  ts_bExpired :: bool
  ts_iCommentCount :: int
  ts_iPostScore :: int
  ts_bMinor :: bool
  ts_dtPostdate :: time
  ts_optCommitDate :: "time option"
  ts_dtLastMod :: time
  ts_optDeleteDate :: "time option"
  ts_sPostIp :: rstr
  ts_iUserAgentId :: int

definition deletion_sCanonicalUrl :: "StTopicDeletionSnapshot \<Rightarrow> rstr" where
  "deletion_sCanonicalUrl t =
     (u ''/'') @ ts_sSectionPrefix t @ (u ''/'') @ ts_sGroupUrlName t @ (u ''/'') @ show_int (ts_iTopicId t)"

definition bDeleteBonusEligible :: "StTopicDeletionSnapshot \<Rightarrow> bool" where
  "bDeleteBonusEligible t \<longleftrightarrow> \<not> ts_bSectionPremoderated t \<and> \<not> ts_bDraft t \<and> \<not> ts_bExpired t"

definition deletion_bUncommitted :: "StTopicDeletionSnapshot \<Rightarrow> bool" where
  "deletion_bUncommitted t \<longleftrightarrow> ts_bSectionPremoderated t \<and> \<not> ts_bCommitted t"

datatype EnTopicDeletionRestriction = TopicAlreadyDeleted | TopicCannotDelete | TopicCannotUndelete

fun deletion_sReason :: "EnTopicDeletionRestriction \<Rightarrow> rstr" where
  "deletion_sReason TopicAlreadyDeleted = ([1057, 1086, 1086, 1073, 1097, 1077, 1085, 1080, 1077, 32, 1091, 1078, 1077, 32, 1091, 1076, 1072, 1083, 1077, 1085, 1086] :: rstr) \<comment> \<open>Soobshchenie uzhe udaleno\<close>"
| "deletion_sReason TopicCannotDelete = ([1042, 1099, 32, 1085, 1077, 32, 1084, 1086, 1078, 1077, 1090, 1077, 32, 1091, 1076, 1072, 1083, 1080, 1090, 1100, 32, 1101, 1090, 1086, 32, 1089, 1086, 1086, 1073, 1097, 1077, 1085, 1080, 1077] :: rstr) \<comment> \<open>Vy ne mozhete udalit eto soobshchenie\<close>"
| "deletion_sReason TopicCannotUndelete = ([1101, 1090, 1086, 32, 1089, 1086, 1086, 1073, 1097, 1077, 1085, 1080, 1077, 32, 1085, 1077, 1083, 1100, 1079, 1103, 32, 1074, 1086, 1089, 1089, 1090, 1072, 1085, 1086, 1074, 1080, 1090, 1100] :: rstr) \<comment> \<open>eto soobshchenie nelzya vosstanovit\<close>"

definition optDeleteRestriction ::
    "(time \<Rightarrow> time option) \<Rightarrow> StTopicDeletionActor \<Rightarrow> StTopicDeletionSnapshot \<Rightarrow> time
      \<Rightarrow> EnTopicDeletionRestriction option" where
  "optDeleteRestriction plus_month stActor stTopic dtNow =
     (if ts_bDeleted stTopic then Some TopicAlreadyDeleted
      else if td_bAdministrator stActor then None
      else
        let bByAuthor =
          (if td_iUserId stActor \<noteq> ts_iAuthorId stTopic then False
           else if ts_bDraft stTopic then True
           else if ts_bSectionPremoderated stTopic \<and> ts_bCommitted stTopic then False
           else ts_dtPostdate stTopic + days 3 > dtNow \<and> ts_iCommentCount stTopic = 0)
        in if bByAuthor then None
        else
          let bByModerator = (td_bModerator stActor \<and>
            (if \<not> ts_bSectionPremoderated stTopic \<or> \<not> ts_bCommitted stTopic then True
             else (case plus_month (ts_dtPostdate stTopic) of None \<Rightarrow> False | Some d \<Rightarrow> d > dtNow)))
          in then_some (\<not> bByModerator) TopicCannotDelete)"

definition optUndeleteRestriction ::
    "StTopicDeletionActor \<Rightarrow> StTopicDeletionSnapshot \<Rightarrow> time \<Rightarrow> EnTopicDeletionRestriction option" where
  "optUndeleteRestriction stActor stTopic dtNow =
     (let bAllowed = (ts_bDeleted stTopic \<and> td_bModerator stActor \<and>
            (td_bAdministrator stActor \<or> \<not> ts_bExpired stTopic \<or>
             (case ts_optDeleteDate stTopic of None \<Rightarrow> False | Some d \<Rightarrow> d > dtNow - days 14)))
      in then_some (\<not> bAllowed) TopicCannotUndelete)"

record StDeleteTopicCommand =
  dc_iTopicId :: int
  dc_sReason :: rstr
  dc_iPenalty :: int

record StTopicDeleteMutation =
  dm_bDeleted :: bool
  dm_iAppliedScoreDelta :: int

record 'w TrTopicDeletionRepository =
  tdr_optSnapshot :: "int \<Rightarrow> ('w, app_error, StTopicDeletionSnapshot option) eff"
  tdr_stDelete :: "StTopicDeletionActor \<Rightarrow> StTopicDeletionSnapshot \<Rightarrow> StDeleteTopicCommand
    \<Rightarrow> ('w, app_error, StTopicDeleteMutation) eff"
  tdr_vUndelete :: "StTopicDeletionSnapshot \<Rightarrow> ('w, app_error, unit) eff"

subsection \<open>The service (src/application/topic/deletion.rs)\<close>

datatype EnTopicDeletionServiceError =
    DelNotFound | DelNotAuthorized | DelRestricted EnTopicDeletionRestriction | DelInvalidPenalty
  | DelInfrastructure app_error

record StDeleteTopicFormData =
  df_stTopic :: StTopicDeletionSnapshot
  df_bBonusEligible :: bool
  df_bModeratorSession :: bool
  df_bUncommitted :: bool

record StTopicDeletionOutcome =
  do_sMessage :: rstr
  do_optLink :: "rstr option"
  do_optMutation :: "StTopicDeleteMutation option"

definition deletion_stRequireAuthorized ::
    "StTopicDeletionActor option \<Rightarrow> EnTopicDeletionServiceError + StTopicDeletionActor" where
  "deletion_stRequireAuthorized optActor = ok_or DelNotAuthorized optActor"

definition deletion_vRestriction ::
    "EnTopicDeletionRestriction option \<Rightarrow> EnTopicDeletionServiceError + unit" where
  "deletion_vRestriction optRestriction =
     (case optRestriction of Some e \<Rightarrow> Inl (DelRestricted e) | None \<Rightarrow> Inr ())"

definition deletion_stSnapshot ::
    "'w TrTopicDeletionRepository \<Rightarrow> int \<Rightarrow> ('w, EnTopicDeletionServiceError, StTopicDeletionSnapshot) eff" where
  "deletion_stSnapshot repo iTopicId =
     bind_eff (map_err DelInfrastructure (tdr_optSnapshot repo iTopicId)) (\<lambda>r.
     of_result (ok_or DelNotFound r))"

definition deletion_stPrepareDelete where
  "deletion_stPrepareDelete plus_month repo optActor iTopicId dtNow =
     bind_eff (of_result (deletion_stRequireAuthorized optActor)) (\<lambda>stActor.
     bind_eff (deletion_stSnapshot repo iTopicId) (\<lambda>stTopic.
     bind_eff (of_result (deletion_vRestriction (optDeleteRestriction plus_month stActor stTopic dtNow))) (\<lambda>_.
     ret_eff \<lparr>df_stTopic = stTopic, df_bBonusEligible = bDeleteBonusEligible stTopic,
       df_bModeratorSession = td_bModerator stActor, df_bUncommitted = deletion_bUncommitted stTopic\<rparr>)))"

text \<open>The penalty a command carries on to the repository.\<close>

definition effective_command ::
    "StTopicDeletionActor \<Rightarrow> StTopicDeletionSnapshot \<Rightarrow> StDeleteTopicCommand \<Rightarrow> StDeleteTopicCommand" where
  "effective_command stActor stTopic stCommand =
     (if \<not> td_bModerator stActor \<or> td_iUserId stActor = ts_iAuthorId stTopic \<or> ts_bDraft stTopic
      then stCommand\<lparr>dc_iPenalty := 0\<rparr> else stCommand)"

definition deletion_stDelete ::
    "(time \<Rightarrow> time option) \<Rightarrow> 'w TrTopicDeletionRepository \<Rightarrow> 'w TrTopicReindexQueue
      \<Rightarrow> StTopicDeletionActor option \<Rightarrow> StDeleteTopicCommand \<Rightarrow> time
      \<Rightarrow> ('w, EnTopicDeletionServiceError, StTopicDeletionOutcome) eff" where
  "deletion_stDelete plus_month repo queue optActor stCommand dtNow =
     bind_eff (of_result (deletion_stRequireAuthorized optActor)) (\<lambda>stActor.
     if \<not> (0 \<le> dc_iPenalty stCommand \<and> dc_iPenalty stCommand \<le> 20) then fail_eff DelInvalidPenalty else
     bind_eff (deletion_stSnapshot repo (dc_iTopicId stCommand)) (\<lambda>stTopic.
     bind_eff (of_result (deletion_vRestriction (optDeleteRestriction plus_month stActor stTopic dtNow))) (\<lambda>_.
     bind_eff (map_err DelInfrastructure
       (tdr_stDelete repo stActor stTopic (effective_command stActor stTopic stCommand))) (\<lambda>stMutation.
     bind_eff (map_err DelInfrastructure (trq_vUpdateMessage queue (dc_iTopicId stCommand) True)) (\<lambda>_.
     ret_eff \<lparr>do_sMessage = ([1057, 1086, 1086, 1073, 1097, 1077, 1085, 1080, 1077, 32, 1091, 1076, 1072, 1083, 1077, 1085, 1086] :: rstr) \<comment> \<open>Soobshchenie udaleno\<close>, do_optLink = None, do_optMutation = Some stMutation\<rparr>)))))"

definition deletion_stPrepareUndelete where
  "deletion_stPrepareUndelete repo optActor iTopicId dtNow =
     bind_eff (of_result (deletion_stRequireAuthorized optActor)) (\<lambda>stActor.
     bind_eff (deletion_stSnapshot repo iTopicId) (\<lambda>stTopic.
     bind_eff (of_result (deletion_vRestriction (optUndeleteRestriction stActor stTopic dtNow))) (\<lambda>_.
     ret_eff stTopic)))"

definition deletion_stUndelete ::
    "'w TrTopicDeletionRepository \<Rightarrow> 'w TrTopicReindexQueue \<Rightarrow> StTopicDeletionActor option \<Rightarrow> int \<Rightarrow> time
      \<Rightarrow> ('w, EnTopicDeletionServiceError, StTopicDeletionOutcome) eff" where
  "deletion_stUndelete repo queue optActor iTopicId dtNow =
     bind_eff (of_result (deletion_stRequireAuthorized optActor)) (\<lambda>stActor.
     bind_eff (deletion_stSnapshot repo iTopicId) (\<lambda>stTopic.
     bind_eff (of_result (deletion_vRestriction (optUndeleteRestriction stActor stTopic dtNow))) (\<lambda>_.
     bind_eff (map_err DelInfrastructure (tdr_vUndelete repo stTopic)) (\<lambda>_.
     bind_eff (map_err DelInfrastructure (trq_vUpdateMessage queue iTopicId True)) (\<lambda>_.
     ret_eff \<lparr>do_sMessage = ([1057, 1086, 1086, 1073, 1097, 1077, 1085, 1080, 1077, 32, 1074, 1086, 1089, 1089, 1090, 1072, 1085, 1086, 1074, 1083, 1077, 1085, 1086] :: rstr) \<comment> \<open>Soobshchenie vosstanovleno\<close>, do_optLink = Some (deletion_sCanonicalUrl stTopic),
       do_optMutation = None\<rparr>)))))"

subsection \<open>The repository (src/infra/postgres/topic_deletion_repository.rs)\<close>

definition deletion_row ::
    "(rstr \<Rightarrow> rstr) \<Rightarrow> time \<Rightarrow> pg \<Rightarrow> pg_topic \<times> pg_group \<times> pg_section \<Rightarrow> pg_msgbase \<Rightarrow> pg_user
      \<Rightarrow> StTopicDeletionSnapshot" where
  "deletion_row lower now db = (\<lambda>(t, g, s) m a.
     \<lparr>ts_iTopicId = pt_id t, ts_iAuthorId = pt_userid t, ts_sAuthorNick = pu_nick a,
      ts_iAuthorScore = coalesce 0 (pu_score a), ts_iAuthorMaxScore = coalesce 0 (pu_max_score a),
      ts_bAuthorBlocked = pu_blocked a, ts_bAuthorAnonymous = (coalesce [] (pu_passwd a) = []),
      ts_bAuthorFrozen = user_frozen now a, ts_sStoredTitle = pt_title t,
      ts_sMessage = pm_message m, ts_sMarkup = pm_markup m,
      ts_optUrl = pt_url t, ts_optLinkText = pt_linktext t,
      ts_iGroupId = pt_groupid t, ts_sGroupTitle = pg_title g, ts_sGroupUrlName = pg_urlname g,
      ts_iSectionId = ps_id s, ts_sSectionTitle = ps_name s,
      ts_sSectionPrefix = section_prefix lower (ps_id s) (ps_name s),
      ts_bSectionPremoderated = ps_moderate s, ts_bSectionPollAllowed = coalesce False (ps_vote s),
      ts_bSectionImagePost = ps_imagepost s, ts_bSectionImageAllowed = ps_imageallowed s,
      ts_bLinksAllowed = ps_havelink s, ts_bDeleted = pt_deleted t, ts_bDraft = pt_draft t,
      ts_bCommitted = pt_moderate t, ts_bSticky = pt_sticky t,
      ts_bResolved = coalesce False (pt_resolved t), ts_bExpired = topic_expired now s t,
      ts_iCommentCount = pt_stat1 t, ts_iPostScore = coalesce (- 9999) (pt_postscore t),
      ts_bMinor = pt_minor t, ts_dtPostdate = pt_postdate t, ts_optCommitDate = pt_commitdate t,
      ts_dtLastMod = pt_lastmod t,
      ts_optDeleteDate = (case del_info_of db (pt_id t) of None \<Rightarrow> None | Some d \<Rightarrow> di_deldate d),
      ts_sPostIp = coalesce [] (pt_postip t), ts_iUserAgentId = coalesce 0 (pt_ua_id t)\<rparr>)"

definition deletion_optSnapshot :: "(rstr \<Rightarrow> rstr) \<Rightarrow> time \<Rightarrow> int \<Rightarrow> StTopicDeletionSnapshot option pg_eff" where
  "deletion_optSnapshot lower now iTopicId = (\<lambda>db.
     (Inr (case (topic_join db iTopicId, msgbase_of db iTopicId) of
        (Some (t, g, s), Some m) \<Rightarrow>
          (case user_of db (pt_userid t) of None \<Rightarrow> None
           | Some a \<Rightarrow> Some (deletion_row lower now db (t, g, s) m a))
      | _ \<Rightarrow> None), db))"

definition vRequireUserUpdate :: "nat \<Rightarrow> int \<Rightarrow> app_error + unit" where
  "vRequireUserUpdate iRowsAffected iUserId =
     (if iRowsAffected = 0
      then Inl (Anyhow ((u ''topic deletion author '') @ show_int iUserId @ (u '' does not exist'')))
      else Inr ())"

definition deletion_vDeleteTopicEvents :: "int \<Rightarrow> unit pg_eff" where
  "deletion_vDeleteTopicEvents iTopicId =
     delete_events (\<lambda>e. ue_message_id e = Some iTopicId \<and> ue_type e \<in> {TAG, REF, REPLY, WATCH, REACTION, WARNING})"

definition del_event :: "int \<Rightarrow> int \<Rightarrow> int option \<Rightarrow> rstr \<Rightarrow> pg_event" where
  "del_event iUserId iTopicId optCommentId sReason =
     \<lparr>ue_id = 0, ue_userid = iUserId, ue_type = DEL, ue_private = True, ue_message_id = Some iTopicId,
      ue_comment_id = optCommentId, ue_message = Some sReason, ue_unread = True,
      ue_origin_user = None, ue_warning_id = None\<rparr>"

definition vNotifyTopicDeleted :: "StTopicDeletionSnapshot \<Rightarrow> int \<Rightarrow> rstr \<Rightarrow> unit pg_eff" where
  "vNotifyTopicDeleted stTopic iDeletedBy sReason =
     (if iDeletedBy = ts_iAuthorId stTopic \<or> ts_iAuthorId stTopic = I_ANONYMOUS_USER_ID
         \<or> ts_bAuthorFrozen stTopic
      then ret_eff ()
      else insert_event (del_event (ts_iAuthorId stTopic) (ts_iTopicId stTopic) None sReason))"

definition deletion_score_delta :: "StTopicDeletionSnapshot \<Rightarrow> StDeleteTopicCommand \<Rightarrow> int" where
  "deletion_score_delta stTopic stCommand =
     (let iRequested = wrap_i32 (- dc_iPenalty stCommand)
      in if iRequested \<noteq> 0 \<and> ts_iAuthorId stTopic \<noteq> I_ANONYMOUS_USER_ID \<and> ts_bAuthorFrozen stTopic
         then 0 else iRequested)"

definition deletion_repo_stDelete ::
    "time \<Rightarrow> StTopicDeletionActor \<Rightarrow> StTopicDeletionSnapshot \<Rightarrow> StDeleteTopicCommand \<Rightarrow> StTopicDeleteMutation pg_eff" where
  "deletion_repo_stDelete now stActor stTopic stCommand = transaction (
     bind_eff (exec_update db_topics db_topics_update (\<lambda>t. pt_id t = ts_iTopicId stTopic \<and> \<not> pt_deleted t)
       (\<lambda>t. t\<lparr>pt_deleted := True, pt_sticky := False\<rparr>)) (\<lambda>iRows.
     if iRows = 0 then ret_eff \<lparr>dm_bDeleted = False, dm_iAppliedScoreDelta = 0\<rparr>
     else
       let iDelta = deletion_score_delta stTopic stCommand in
       bind_eff (if iDelta \<noteq> 0
                 then bind_eff (add_score (ts_iAuthorId stTopic) iDelta) (\<lambda>n.
                        of_result (vRequireUserUpdate n (ts_iAuthorId stTopic)))
                 else ret_eff ()) (\<lambda>_.
       bind_eff (insert_del_info now \<lparr>di_msgid = ts_iTopicId stTopic, di_delby = td_iUserId stActor,
                   di_reason = Some (dc_sReason stCommand), di_deldate = Some now, di_bonus = Some iDelta\<rparr>) (\<lambda>_.
       bind_eff (deletion_vDeleteTopicEvents (ts_iTopicId stTopic)) (\<lambda>_.
       bind_eff (vNotifyTopicDeleted stTopic (td_iUserId stActor) (dc_sReason stCommand)) (\<lambda>_.
       ret_eff \<lparr>dm_bDeleted = True, dm_iAppliedScoreDelta = iDelta\<rparr>))))))"

definition deletion_repo_vUndelete :: "time \<Rightarrow> StTopicDeletionSnapshot \<Rightarrow> unit pg_eff" where
  "deletion_repo_vUndelete now stTopic = transaction (
     bind_eff (fetch_optional db_del_info (\<lambda>d. di_msgid d = ts_iTopicId stTopic)) (\<lambda>r.
     bind_eff (case (case r of None \<Rightarrow> None | Some d \<Rightarrow> di_bonus d) of
                 None \<Rightarrow> ret_eff ()
               | Some iBonus \<Rightarrow>
                   (if iBonus \<noteq> 0
                    then bind_eff (add_score (ts_iAuthorId stTopic) (- iBonus)) (\<lambda>n.
                           of_result (vRequireUserUpdate n (ts_iAuthorId stTopic)))
                    else ret_eff ())) (\<lambda>_.
     bind_eff (exec_update db_topics db_topics_update (\<lambda>t. pt_id t = ts_iTopicId stTopic)
       (pt_deleted_update (\<lambda>_. False))) (\<lambda>_.
     delete_del_info now (ts_iTopicId stTopic)))))"

definition pg_topic_deletion :: "(rstr \<Rightarrow> rstr) \<Rightarrow> time \<Rightarrow> 'q world TrTopicDeletionRepository" where
  "pg_topic_deletion lower now =
     \<lparr>tdr_optSnapshot = (\<lambda>i. on_db (deletion_optSnapshot lower now i)),
      tdr_stDelete = (\<lambda>a t c. on_db (deletion_repo_stDelete now a t c)),
      tdr_vUndelete = (\<lambda>t. on_db (deletion_repo_vUndelete now t))\<rparr>"

subsection \<open>Who may delete, and until when\<close>

text \<open>The right to delete a topic only fades: who may delete it now could delete the same snapshot at
  any earlier moment, and a topic is never deletable and restorable at once.  Only the author,
  a moderator or an administrator may delete; somebody else's published topic in an
  unmoderated section, or one with comments, is beyond everybody but them.\<close>

theorem delete_permission_fades:
  assumes "optDeleteRestriction plus_month a t now = None" and "earlier \<le> now"
  shows "optDeleteRestriction plus_month a t earlier = None
    \<and> optUndeleteRestriction a t now = Some TopicCannotUndelete
    \<and> (td_bAdministrator a \<or> td_bModerator a \<or> td_iUserId a = ts_iAuthorId t)
    \<and> (\<not> td_bAdministrator a \<and> \<not> td_bModerator a \<longrightarrow>
        ts_bDraft t \<or> (now < ts_dtPostdate t + days 3 \<and> ts_iCommentCount t = 0
          \<and> \<not> (ts_bSectionPremoderated t \<and> ts_bCommitted t)))"
  using assms
  by (auto simp: optDeleteRestriction_def optUndeleteRestriction_def Let_def split: if_splits option.splits)

definition ex_author :: StTopicDeletionActor where
  "ex_author = \<lparr>td_iUserId = 7, td_sNick = u ''a'', td_bModerator = False, td_bAdministrator = False\<rparr>"

definition ex_mod :: StTopicDeletionActor where
  "ex_mod = \<lparr>td_iUserId = 8, td_sNick = u ''m'', td_bModerator = True, td_bAdministrator = False\<rparr>"

definition ex_snapshot :: StTopicDeletionSnapshot where
  "ex_snapshot = deletion_row id 2000 ex_db (ex_topic, hd (db_groups ex_db), hd (db_sections ex_db))
     (hd (db_msgbase ex_db)) (ex_user 7)"

lemmas ex_defs = ex_author_def ex_mod_def ex_snapshot_def deletion_row_def ex_db_def ex_topic_def ex_user_def

theorem delete_permission_fades_witness:
  "optDeleteRestriction (\<lambda>_. None) ex_author ex_snapshot 1500 = None"
  by (rule delete_permission_fades [where now = 2000, THEN conjunct1])
    (simp_all add: optDeleteRestriction_def ex_defs duration_defs)

text \<open>C32: Deleting through the service touches the world only after every guard: whatever the
  repository does, a refused request leaves the world as it was, and the repository is reached
  only by an authenticated actor with a penalty in 0..20 on an existing topic the policy lets
  them delete; a non-zero penalty reaches it only from a moderator deleting somebody else's
  topic that is not a draft.\<close>

theorem deletion_guarded:
  assumes reads: "\<And>i v. snd (tdr_optSnapshot repo i v) = v"
    and run: "deletion_stDelete plus_month repo queue optActor c now w = (r, w')"
  shows "(w' = w \<and> (\<exists>e. r = Inl e)) \<or>
    (\<exists>a t c' n s v.
       optActor = Some a \<and> 0 \<le> dc_iPenalty c \<and> dc_iPenalty c \<le> 20 \<and>
       tdr_optSnapshot repo (dc_iTopicId c) w = (Inr (Some t), w) \<and>
       optDeleteRestriction plus_month a t now = None \<and>
       c' = \<lparr>dc_iTopicId = dc_iTopicId c, dc_sReason = s, dc_iPenalty = n\<rparr> \<and> s = dc_sReason c \<and>
       n \<in> {0, dc_iPenalty c} \<and>
       (n \<noteq> 0 \<longrightarrow> td_bModerator a \<and> td_iUserId a \<noteq> ts_iAuthorId t \<and> \<not> ts_bDraft t) \<and>
       tdr_stDelete repo a t c' w = v \<and>
       (case v of (Inl e, w1) \<Rightarrow> r = Inl (DelInfrastructure e) \<and> w' = w1
        | (Inr m, w1) \<Rightarrow> w' = snd (trq_vUpdateMessage queue (dc_iTopicId c) True w1) \<and>
            (case r of Inr out \<Rightarrow> do_optMutation out = Some m | Inl e \<Rightarrow> \<exists>x. e = DelInfrastructure x)))"
proof -
  obtain o1 where snap: "tdr_optSnapshot repo (dc_iTopicId c) w = (o1, w)"
    using reads [of "dc_iTopicId c" w] by (metis prod.collapse)
  note d = deletion_stDelete_def deletion_stRequireAuthorized_def deletion_stSnapshot_def
    deletion_vRestriction_def bind_eff_def of_result_def map_err_def
  show ?thesis
  proof (cases "\<exists>a t. optActor = Some a \<and> 0 \<le> dc_iPenalty c \<and> dc_iPenalty c \<le> 20 \<and> o1 = Inr (Some t)
      \<and> optDeleteRestriction plus_month a t now = None")
    case False
    with run snap show ?thesis
      by (cases optActor) (auto simp: d ok_or_iff split: if_splits sum.splits option.splits)
  next
    case True
    then obtain a t where at: "optActor = Some a" "0 \<le> dc_iPenalty c" "dc_iPenalty c \<le> 20" "o1 = Inr (Some t)"
      "optDeleteRestriction plus_month a t now = None" by blast
    let ?c = "effective_command a t c"
    obtain r1 w1 where del: "tdr_stDelete repo a t ?c w = (r1, w1)" by fastforce
    obtain r2 w2 where que: "trq_vUpdateMessage queue (dc_iTopicId c) True w1 = (r2, w2)" by fastforce
    have c': "?c = \<lparr>dc_iTopicId = dc_iTopicId c, dc_sReason = dc_sReason c, dc_iPenalty = dc_iPenalty ?c\<rparr>"
      "dc_iPenalty ?c \<in> {0, dc_iPenalty c}"
      "dc_iPenalty ?c \<noteq> 0 \<longrightarrow> td_bModerator a \<and> td_iUserId a \<noteq> ts_iAuthorId t \<and> \<not> ts_bDraft t"
      by (auto simp: effective_command_def)
    have tail: "(case (r1, w1) of (Inl e, w1) \<Rightarrow> r = Inl (DelInfrastructure e) \<and> w' = w1
        | (Inr m, w1) \<Rightarrow> w' = snd (trq_vUpdateMessage queue (dc_iTopicId c) True w1) \<and>
            (case r of Inr out \<Rightarrow> do_optMutation out = Some m | Inl e \<Rightarrow> \<exists>x. e = DelInfrastructure x))"
      using run snap at del que by (cases r1; cases r2) (auto simp: d)
    show ?thesis
      using at snap c' del tail by (intro disjI2 exI [of _ a] exI [of _ t]) auto
  qed
qed

theorem deletion_guarded_witness:
  "snd (deletion_stDelete (\<lambda>_. None) (pg_topic_deletion id 2000) (log_queue False) (Some ex_author)
     \<lparr>dc_iTopicId = 5, dc_sReason = [], dc_iPenalty = 21\<rparr> 2000 \<lparr>w_db = ex_db, w_queue = []\<rparr>) = \<lparr>w_db = ex_db, w_queue = []\<rparr>"
proof -
  let ?w = "\<lparr>w_db = ex_db, w_queue = []\<rparr> :: (int \<times> bool) list world"
  have reads: "snd (tdr_optSnapshot (pg_topic_deletion id 2000) i v) = v" for i and v :: "(int \<times> bool) list world"
    by (simp add: pg_topic_deletion_def deletion_optSnapshot_def on_db_def)
  obtain r w' where run: "deletion_stDelete (\<lambda>_. None) (pg_topic_deletion id 2000) (log_queue False) (Some ex_author)
     \<lparr>dc_iTopicId = 5, dc_sReason = [], dc_iPenalty = 21\<rparr> 2000 ?w = (r, w')" by fastforce
  from deletion_guarded [OF reads run] run show ?thesis by simp
qed

subsection \<open>What the transactions do\<close>

definition topic_deleted :: "time \<Rightarrow> int \<Rightarrow> pg_topic list \<Rightarrow> pg_topic list" where
  "topic_deleted now i = update_where (\<lambda>t. pt_id t = i) (\<lambda>t. t\<lparr>pt_deleted := True, pt_sticky := False, pt_lastmod := now\<rparr>)"

lemma notify_frame: "keeps (\<lambda>db. content db = c) (bind_eff (deletion_vDeleteTopicEvents i) (\<lambda>_.
    bind_eff (vNotifyTopicDeleted t iBy s) (\<lambda>_. ret_eff x)))"
  unfolding deletion_vDeleteTopicEvents_def vNotifyTopicDeleted_def by (intro keeps)

lemma live_unique:
  assumes "topics.keyed db" and "filter (\<lambda>t. pt_id t = i \<and> \<not> pt_deleted t) (db_topics db) \<noteq> []"
    and "x \<in> set (db_topics db)" and "pt_id x = i"
  shows "\<not> pt_deleted x"
proof -
  from assms(2) obtain t0 where t0: "t0 \<in> set (db_topics db)" "pt_id t0 = i" "\<not> pt_deleted t0"
    by (auto simp: filter_empty_conv)
  have "x = t0"
    using assms(1,3,4) t0 unfolding topics.keyed_def by (metis inj_on_eq_iff distinct_map)
  with t0 show ?thesis by simp
qed

lemma delete_body:
  assumes "topics.keyed db" and "filter (\<lambda>t. pt_id t = i \<and> \<not> pt_deleted t) (db_topics db) \<noteq> []"
  shows "update_where (\<lambda>t. pt_id t = i) (pt_lastmod_update (\<lambda>_. now))
      (update_where (\<lambda>t. pt_id t = i \<and> \<not> pt_deleted t) (\<lambda>t. t\<lparr>pt_deleted := True, pt_sticky := False\<rparr>) (db_topics db))
    = topic_deleted now i (db_topics db)"
  using live_unique [OF assms]
  unfolding topic_deleted_def update_where_def map_map by (intro map_cong refl) (simp split: if_splits)

lemma live_only:
  assumes "topics.keyed db" and "filter (\<lambda>t. pt_id t = i \<and> \<not> pt_deleted t) (db_topics db) \<noteq> []"
  shows "filter (\<lambda>t. pt_id t = i \<and> pt_deleted t) (db_topics db) = []"
  using live_unique [OF assms] by (auto simp: filter_empty_conv)

abbreviation live_topic :: "int \<Rightarrow> pg_topic \<Rightarrow> bool" where
  "live_topic i x \<equiv> pt_id x = i \<and> \<not> pt_deleted x"

definition deletion_record :: "time \<Rightarrow> StTopicDeletionActor \<Rightarrow> StTopicDeletionSnapshot \<Rightarrow> StDeleteTopicCommand \<Rightarrow> pg_del_info" where
  "deletion_record now a t c = \<lparr>di_msgid = ts_iTopicId t, di_delby = td_iUserId a, di_reason = Some (dc_sReason c),
     di_deldate = Some now, di_bonus = Some (deletion_score_delta t c)\<rparr>"

definition topic_delete_post ::
    "time \<Rightarrow> StTopicDeletionActor \<Rightarrow> StTopicDeletionSnapshot \<Rightarrow> StDeleteTopicCommand \<Rightarrow> pg \<Rightarrow> pg \<Rightarrow> bool" where
  "topic_delete_post now a t c db db' \<longleftrightarrow>
     db_topics db' = topic_deleted now (ts_iTopicId t) (db_topics db) \<and>
     scores db' = bump_score (ts_iAuthorId t) (deletion_score_delta t c) (scores db) \<and>
     ts_iTopicId t \<notin> di_msgid ` set (db_del_info db) \<and>
     db_del_info db' = db_del_info db @ [deletion_record now a t c] \<and>
     (deletion_score_delta t c \<noteq> 0 \<longrightarrow> user_of db (ts_iAuthorId t) \<noteq> None) \<and>
     db_comments db' = db_comments db \<and> db_msgbase db' = db_msgbase db \<and> db_warnings db' = db_warnings db"

lemma repo_delete_noop:
  assumes "filter (live_topic (ts_iTopicId t)) (db_topics db) = []"
  shows "deletion_repo_stDelete now a t c db = (Inr \<lparr>dm_bDeleted = False, dm_iAppliedScoreDelta = 0\<rparr>, db)"
proof -
  have "db_topics_update (update_where (live_topic (ts_iTopicId t)) f) db = db" for f
    using update_where_none [OF assms, of f] by simp
  with assms show ?thesis
    by (simp add: deletion_repo_stDelete_def transaction_def bind_eff_def exec_update_def)
qed

lemma repo_delete_Inr:
  assumes keyed: "topics.keyed db" and run: "deletion_repo_stDelete now a t c db = (Inr m, db')"
    and live: "filter (live_topic (ts_iTopicId t)) (db_topics db) \<noteq> []"
  shows "m = \<lparr>dm_bDeleted = True, dm_iAppliedScoreDelta = deletion_score_delta t c\<rparr> \<and> topic_delete_post now a t c db db'"
proof -
  let ?i = "ts_iTopicId t" and ?d = "deletion_score_delta t c" and ?del = "deletion_record now a t c"
  let ?db1 = "db_topics_update (update_where (live_topic ?i) (\<lambda>t. t\<lparr>pt_deleted := True, pt_sticky := False\<rparr>)) db"
  let ?tail = "bind_eff (deletion_vDeleteTopicEvents ?i) (\<lambda>_. bind_eff (vNotifyTopicDeleted t (td_iUserId a) (dc_sReason c)) (\<lambda>_.
       ret_eff \<lparr>dm_bDeleted = True, dm_iAppliedScoreDelta = ?d\<rparr>))"
  from run live obtain db2 x db3 y where
    score: "(if ?d \<noteq> 0 then bind_eff (add_score (ts_iAuthorId t) ?d) (\<lambda>n. of_result (vRequireUserUpdate n (ts_iAuthorId t)))
      else ret_eff ()) ?db1 = (Inr x, db2)"
    and ins: "insert_del_info now ?del db2 = (Inr y, db3)"
    and tail: "?tail db3 = (Inr m, db')"
    by (auto simp: deletion_repo_stDelete_def transaction_Inr bind_eff_Inr_iff exec_update_def Let_def deletion_record_def)
  have m: "m = \<lparr>dm_bDeleted = True, dm_iAppliedScoreDelta = ?d\<rparr>"
    using tail by (auto simp: bind_eff_Inr_iff)
  have "content db' = content db3"
    using keepsD [OF notify_frame _ tail] by blast
  moreover have db3: "db3 = touch_topic now ?i (db_del_info_update (\<lambda>xs. xs @ [?del]) db2)"
    "?i \<notin> di_msgid ` set (db_del_info db2)"
    using ins by (auto simp: insert_del_info_def bind_eff_def exec_insert_def deletion_record_def split: if_splits)
  moreover have db2: "?d = 0 \<and> db2 = ?db1 \<or> ?d \<noteq> 0 \<and> user_of db (ts_iAuthorId t) \<noteq> None \<and>
    db2 = db_users_update (update_where (\<lambda>r. pu_id r = ts_iAuthorId t) (pu_score_update (map_option (\<lambda>s. s + ?d)))) ?db1"
    using score
    by (auto simp: bind_eff_Inr_iff add_score_Inr vRequireUserUpdate_def user_of_def find_None_iff
        filter_empty_conv split: if_splits)
  moreover have "scores db2 = bump_score (ts_iAuthorId t) ?d (scores db)"
    using db2 scores_add_score [of "ts_iAuthorId t" ?d ?db1] by (auto simp: scores_def)
  moreover have "db_topics db2 = db_topics ?db1" "db_del_info db2 = db_del_info db" "db_comments db2 = db_comments db"
    "db_msgbase db2 = db_msgbase db" "db_warnings db2 = db_warnings db"
    using db2 by auto
  ultimately show ?thesis
    using m delete_body [OF keyed live, of now]
    by (auto simp: content_def touch_topic_def scores_def topic_delete_post_def)
qed

text \<open>C13: The deletion transaction: on a topic that is missing or already deleted it reports that nothing
  was deleted and changes nothing; on an error nothing changes either.  Otherwise the topic is
  marked deleted, loses its sticky flag and gets the time of deletion as its last change, the
  author's score - nobody else's - changes by the penalty (zero for a frozen author), and one
  deletion record with that bonus is added; comments, texts and warnings stay.\<close>

theorem topic_delete_effect:
  assumes "topics.keyed db" and "deletion_repo_stDelete now a t c db = (r, db')"
  shows "case r of
      Inl e \<Rightarrow> db' = db
    | Inr m \<Rightarrow>
        if filter (live_topic (ts_iTopicId t)) (db_topics db) = []
        then m = \<lparr>dm_bDeleted = False, dm_iAppliedScoreDelta = 0\<rparr> \<and> db' = db
        else m = \<lparr>dm_bDeleted = True, dm_iAppliedScoreDelta = deletion_score_delta t c\<rparr> \<and>
          topic_delete_post now a t c db db'"
proof (cases r)
  case (Inl e)
  with assms(2) show ?thesis by (auto simp: deletion_repo_stDelete_def transaction_err)
next
  case (Inr m)
  with assms repo_delete_noop [of t db now a c] repo_delete_Inr [of db now a t c m db'] show ?thesis
    by auto
qed

text \<open>Undeleting, and the round trip.\<close>

text \<open>C12: Restoring undoes a deletion: when a topic of a well-formed store was deleted, restoring it - with
  any later snapshot of the same topic and author - succeeds, gives every user back the exact
  score they had, removes the deletion record, and leaves every topic as it was before the
  deletion but for the sticky flag, which stays cleared, and the last change of that topic.\<close>

theorem topic_undelete_roundtrip:
  assumes ok: "pg_ok db"
    and del: "deletion_repo_stDelete now a t c db = (Inr m, db1)" and "dm_bDeleted m"
    and same: "ts_iTopicId t' = ts_iTopicId t" "ts_iAuthorId t' = ts_iAuthorId t"
  shows "\<exists>db2. deletion_repo_vUndelete now' t' db1 = (Inr (), db2) \<and>
    scores db2 = scores db \<and> db_del_info db2 = db_del_info db \<and>
    db_topics db2 = update_where (\<lambda>x. pt_id x = ts_iTopicId t) (\<lambda>x. x\<lparr>pt_sticky := False, pt_lastmod := now'\<rparr>) (db_topics db)
    \<and> db_comments db2 = db_comments db \<and> db_msgbase db2 = db_msgbase db"
proof -
  let ?i = "ts_iTopicId t" and ?d = "deletion_score_delta t c" and ?u = "ts_iAuthorId t"
  from ok have keyed: "topics.keyed db" and range: "\<forall>r\<in>set (db_users db). in_i32_opt (pu_score r)"
    by (simp_all add: pg_ok_def list_all_iff)
  have live: "filter (live_topic ?i) (db_topics db) \<noteq> []"
    using assms(3) del repo_delete_noop [of t db now a c] by auto
  from repo_delete_Inr [OF keyed del live] have post: "topic_delete_post now a t c db db1" by simp
  have "List.find (\<lambda>r. di_msgid r = ?i) (db_del_info db) = None"
    using post unfolding topic_delete_post_def find_None_iff by (metis imageI)
  with post have find: "List.find (\<lambda>r. di_msgid r = ?i) (db_del_info db1) = Some (deletion_record now a t c)"
    by (simp add: topic_delete_post_def find_append_new) (simp add: deletion_record_def)
  obtain db2 where score: "(if ?d \<noteq> 0 then bind_eff (add_score ?u (- ?d)) (\<lambda>n. of_result (vRequireUserUpdate n ?u)) else ret_eff ()) db1
      = (Inr (), db2)" and db2: "scores db2 = scores db" "\<exists>rs. db2 = db1\<lparr>db_users := rs\<rparr>"
  proof (cases "?d = 0")
    case True
    with post have "scores db1 = scores db" by (simp add: topic_delete_post_def)
    have "\<exists>rs. db1 = db1\<lparr>db_users := rs\<rparr>" by (intro exI [of _ "db_users db1"]) simp
    show ?thesis
    proof (rule that [of db1])
      show "(if ?d \<noteq> 0 then bind_eff (add_score ?u (- ?d)) (\<lambda>n. of_result (vRequireUserUpdate n ?u)) else ret_eff ()) db1
        = (Inr (), db1)" using True by simp
    qed fact+
  next
    case False
    with post have "user_of db ?u \<noteq> None" "scores db1 = bump_score ?u ?d (scores db)"
      by (auto simp: topic_delete_post_def)
    from add_score_back [OF range this] obtain n db2 where
      "add_score ?u (- ?d) db1 = (Inr (Suc n), db2)" "scores db2 = scores db" "\<exists>rs. db2 = db1\<lparr>db_users := rs\<rparr>" by blast
    with False that [of db2] show ?thesis by (simp add: vRequireUserUpdate_def)
  qed
  let ?db3 = "db_topics_update (update_where (\<lambda>x. pt_id x = ?i) (pt_deleted_update (\<lambda>_. False))) db2"
  let ?db4 = "touch_topic now' ?i (db_del_info_update (filter (\<lambda>r. di_msgid r \<noteq> ?i)) ?db3)"
  have same_del: "db_del_info db2 = db_del_info db1" "db_topics db2 = db_topics db1"
    "db_comments db2 = db_comments db1" "db_msgbase db2 = db_msgbase db1" using db2 by auto
  have run: "deletion_repo_vUndelete now' t' db1 = (Inr (), ?db4)"
    using find score same_del
    by (cases "?d = 0") (simp_all add: deletion_repo_vUndelete_def same transaction_def bind_eff_def fetch_optional_def
        exec_update_def delete_del_info_def Let_def del_info_of_def deletion_record_def)
  have "filter (\<lambda>r. di_msgid r \<noteq> ?i) (db_del_info db1) = db_del_info db"
    using post by (auto simp: topic_delete_post_def deletion_record_def filter_id_conv image_iff)
  moreover have "filter (\<lambda>x. pt_id x = ?i \<and> pt_deleted x) (db_topics db) = []"
    by (rule live_only [OF keyed live])
  ultimately show ?thesis
    using run post same_del db2
    by (intro exI [of _ ?db4])
      (auto simp: topic_delete_post_def touch_topic_def scores_def topic_deleted_def update_where_def filter_empty_conv)
qed

lemmas del_ex_defs = ex_defs deletion_repo_stDelete_def transaction_def bind_eff_def exec_update_def
  update_where_def ret_eff_def deletion_score_delta_def insert_del_info_def exec_insert_def touch_topic_def
  deletion_vDeleteTopicEvents_def delete_events_def vNotifyTopicDeleted_def insert_event_def
  user_frozen_def add_score_def exec_update_checked_def I_ANONYMOUS_USER_ID_def in_i32_def

definition ex_command :: StDeleteTopicCommand where
  "ex_command = \<lparr>dc_iTopicId = 5, dc_sReason = ([52, 46, 54, 32, 1057, 1087, 1072, 1084] :: rstr) \<comment> \<open>4.6 Spam\<close>, dc_iPenalty = 7\<rparr>"

lemma ex_delete: "\<exists>db1. deletion_repo_stDelete 2000 ex_mod ex_snapshot ex_command ex_db
    = (Inr \<lparr>dm_bDeleted = True, dm_iAppliedScoreDelta = -7\<rparr>, db1)"
  by (simp add: del_ex_defs ex_command_def vRequireUserUpdate_def Let_def user_of_def topic_of_def del_event_def)

lemma ex_db_ok: "pg_ok ex_db"
  by (simp add: pg_ok_def users.keyed_def topics.keyed_def comments.keyed_def del_info.keyed_def ex_defs in_i32_def)

theorem topic_delete_effect_witness:
  "\<exists>db1. deletion_repo_stDelete 2000 ex_mod ex_snapshot ex_command ex_db
      = (Inr \<lparr>dm_bDeleted = True, dm_iAppliedScoreDelta = -7\<rparr>, db1)
    \<and> topic_delete_post 2000 ex_mod ex_snapshot ex_command ex_db db1"
proof -
  from ex_delete obtain db1 where run: "deletion_repo_stDelete 2000 ex_mod ex_snapshot ex_command ex_db
    = (Inr \<lparr>dm_bDeleted = True, dm_iAppliedScoreDelta = -7\<rparr>, db1)" by blast
  have "topics.keyed ex_db" using ex_db_ok by (simp add: pg_ok_def)
  from topic_delete_effect [OF this run] run show ?thesis
    by (auto split: if_splits)
qed

theorem topic_undelete_roundtrip_witness:
  "\<exists>db1 db2. deletion_repo_vUndelete 3000 ex_snapshot db1 = (Inr (), db2) \<and> scores db2 = scores ex_db"
proof -
  from ex_delete obtain db1 where run: "deletion_repo_stDelete 2000 ex_mod ex_snapshot ex_command ex_db
    = (Inr \<lparr>dm_bDeleted = True, dm_iAppliedScoreDelta = -7\<rparr>, db1)" by blast
  from topic_undelete_roundtrip [OF ex_db_ok run, of ex_snapshot 3000] show ?thesis by auto
qed

end
