(* ===== verification/Topic_Moderation.thy ===== *)
theory Topic_Moderation
  imports Topic_Deletion Title
begin

section \<open>Uncommitting, moving and resolving topics\<close>

text \<open>
  The policy and the move notice of \<open>src/domain/topic/moderation.rs\<close>, the service of
  \<open>src/application/topic/moderation.rs\<close> and the transactions of
  \<open>src/infra/postgres/topic_moderation_repository.rs\<close>.  The binders of the domain file are in
  \<open>Binding\<close>.  Anyhow errors carry their message.
\<close>

subsection \<open>The policy (src/domain/topic/moderation.rs)\<close>

record StTopicModerationActor =
  tm_iUserId :: int
  tm_sNick :: rstr
  tm_bModerator :: bool

record StTopicModerationSnapshot =
  sn_iTopicId :: int
  sn_iAuthorId :: int
  sn_sAuthorNick :: rstr
  sn_iAuthorScore :: int
  sn_bAuthorBlocked :: bool
  sn_sStoredTitle :: rstr
  sn_sMessage :: rstr
  sn_sMarkup :: rstr
  sn_optUrl :: "rstr option"
  sn_optLinkText :: "rstr option"
  sn_iGroupId :: int
  sn_sGroupTitle :: rstr
  sn_sGroupUrlName :: rstr
  sn_iSectionId :: int
  sn_sSectionPrefix :: rstr
  sn_bSectionPremoderated :: bool
  sn_bSectionPollAllowed :: bool
  sn_bLinksAllowed :: bool
  sn_bGroupResolvable :: bool
  sn_bDeleted :: bool
  sn_bCommitted :: bool
  sn_bSticky :: bool
  sn_bExpired :: bool
  sn_dtLastMod :: time

definition moderation_sCanonicalUrl :: "StTopicModerationSnapshot \<Rightarrow> rstr" where
  "moderation_sCanonicalUrl t =
     (u ''/'') @ sn_sSectionPrefix t @ (u ''/'') @ sn_sGroupUrlName t @ (u ''/'') @ show_int (sn_iTopicId t)"

text \<open>\<open>timestamp_millis\<close> floors the microseconds.\<close>

definition sForceLastModUrl :: "StTopicModerationSnapshot \<Rightarrow> rstr" where
  "sForceLastModUrl t = moderation_sCanonicalUrl t @ (u ''?lastmod='') @ show_int (sn_dtLastMod t div 1000)"

record StTopicMoveGroup =
  mg_iId :: int
  mg_sTitle :: rstr
  mg_iSectionId :: int
  mg_sSectionTitle :: rstr
  mg_bLinksAllowed :: bool
  mg_bResolvable :: bool

definition sFormLabel :: "StTopicMoveGroup \<Rightarrow> rstr" where
  "sFormLabel g = mg_sSectionTitle g @ (u '': '') @ mg_sTitle g"

datatype EnTopicMoveForm = FormForumAndArticles | FormPremoderatedCompanion

datatype EnTopicMoveGroupScope = ForumAndArticles | CurrentSection int | PremoderatedNonPoll

definition enMoveGroupScope :: "EnTopicMoveForm \<Rightarrow> StTopicModerationSnapshot \<Rightarrow> EnTopicMoveGroupScope" where
  "enMoveGroupScope enForm stTopic =
     (case enForm of
        FormForumAndArticles \<Rightarrow> ForumAndArticles
      | FormPremoderatedCompanion \<Rightarrow>
          (if sn_bSectionPremoderated stTopic \<and> \<not> sn_bSectionPollAllowed stTopic then PremoderatedNonPoll
           else CurrentSection (sn_iSectionId stTopic)))"

datatype EnTopicModerationRestriction =
    UncommitExpired | UncommitDeleted | UncommitNotCommitted | MoveDeleted | ResolveGroupDisabled | ResolveForbidden

fun moderation_sReason :: "EnTopicModerationRestriction \<Rightarrow> rstr" where
  "moderation_sReason UncommitExpired = ([1085, 1077, 1083, 1100, 1079, 1103, 32, 1074, 1086, 1089, 1089, 1090, 1072, 1085, 1072, 1074, 1083, 1080, 1074, 1072, 1090, 1100, 32, 1091, 1089, 1090, 1072, 1088, 1077, 1074, 1096, 1080, 1077, 32, 1089, 1086, 1086, 1073, 1097, 1077, 1085, 1080, 1103] :: rstr) \<comment> \<open>nelzya vosstanavlivat ustarevshie soobshcheniya\<close>"
| "moderation_sReason UncommitDeleted = ([1089, 1086, 1086, 1073, 1097, 1077, 1085, 1080, 1077, 32, 1091, 1076, 1072, 1083, 1077, 1085, 1086] :: rstr) \<comment> \<open>soobshchenie udaleno\<close>"
| "moderation_sReason UncommitNotCommitted = ([1089, 1086, 1086, 1073, 1097, 1077, 1085, 1080, 1077, 32, 1085, 1077, 32, 1087, 1086, 1076, 1090, 1074, 1077, 1088, 1078, 1076, 1077, 1085, 1086] :: rstr) \<comment> \<open>soobshchenie ne podtverzhdeno\<close>"
| "moderation_sReason MoveDeleted = ([1057, 1086, 1086, 1073, 1097, 1077, 1085, 1080, 1077, 32, 1091, 1076, 1072, 1083, 1077, 1085, 1086] :: rstr) \<comment> \<open>Soobshchenie udaleno\<close>"
| "moderation_sReason ResolveGroupDisabled = ([1042, 32, 1076, 1072, 1085, 1085, 1086, 1081, 32, 1075, 1088, 1091, 1087, 1087, 1077, 32, 1085, 1077, 1083, 1100, 1079, 1103, 32, 1087, 1086, 1084, 1077, 1095, 1072, 1090, 1100, 32, 1090, 1077, 1084, 1099, 32, 1082, 1072, 1082, 32, 1088, 1077, 1096, 1077, 1085, 1085, 1099, 1077] :: rstr) \<comment> \<open>V dannoj gruppe nelzya pomechat temy kak reshennye\<close>"
| "moderation_sReason ResolveForbidden = ([1059, 32, 1042, 1072, 1089, 32, 1085, 1077, 1090, 32, 1087, 1088, 1072, 1074, 32, 1085, 1072, 32, 1088, 1077, 1096, 1077, 1085, 1080, 1077, 32, 1076, 1072, 1085, 1085, 1086, 1081, 32, 1090, 1077, 1084, 1099] :: rstr) \<comment> \<open>U Vas net prav na reshenie dannoj temy\<close>"

definition optUncommitRestriction :: "StTopicModerationSnapshot \<Rightarrow> EnTopicModerationRestriction option" where
  "optUncommitRestriction t =
     (if sn_bExpired t then Some UncommitExpired
      else if sn_bDeleted t then Some UncommitDeleted
      else if \<not> sn_bCommitted t then Some UncommitNotCommitted
      else None)"

definition optMoveRestriction :: "StTopicModerationSnapshot \<Rightarrow> EnTopicModerationRestriction option" where
  "optMoveRestriction t = then_some (sn_bDeleted t) MoveDeleted"

definition optResolveRestriction ::
    "StTopicModerationSnapshot \<Rightarrow> StTopicModerationActor \<Rightarrow> EnTopicModerationRestriction option" where
  "optResolveRestriction t a =
     (if \<not> sn_bGroupResolvable t then Some ResolveGroupDisabled
      else if \<not> tm_bModerator a \<and> tm_iUserId a \<noteq> sn_iAuthorId t then Some ResolveForbidden
      else None)"

definition bResolveValue :: "rstr \<Rightarrow> bool" where
  "bResolveValue sValue \<longleftrightarrow> sValue = (u ''yes'')"

datatype EnTopicMarkup = Lorcode | LorcodeUserLineBreak | Html | Markdown

definition topic_markup_of :: "rstr \<Rightarrow> rstr + EnTopicMarkup" where
  "topic_markup_of sMarkup =
     (if sMarkup = (u ''BBCODE_TEX'') \<or> sMarkup = (u ''LORCODE'') then Inr Lorcode
      else if sMarkup = (u ''BBCODE_ULB'') then Inr LorcodeUserLineBreak
      else if sMarkup = (u ''PLAIN'') then Inr Html
      else if sMarkup = (u ''MARKDOWN'') then Inr Markdown
      else Inl ((u ''unsupported topic markup '') @ sMarkup))"

definition sEscapeInlineMarkdown :: "rstr \<Rightarrow> rstr" where
  "sEscapeInlineMarkdown s = concat (map (\<lambda>c. if c \<in> {92, 91, 93, 96} then [92, c] else [c]) s)"

definition move_link :: "EnTopicMarkup \<Rightarrow> rstr option \<Rightarrow> rstr option \<Rightarrow> rstr" where
  "move_link enMarkup optUrl optLinkText =
     (case optUrl of None \<Rightarrow> []
      | Some sUrl \<Rightarrow>
        if sUrl = [] then [] else
        let sText = (case optLinkText of None \<Rightarrow> ([1055, 1086, 1076, 1088, 1086, 1073, 1085, 1086, 1089, 1090, 1080] :: rstr) \<comment> \<open>Podrobnosti\<close>
                     | Some s \<Rightarrow> if s = [] then ([1055, 1086, 1076, 1088, 1086, 1073, 1085, 1086, 1089, 1090, 1080] :: rstr) \<comment> \<open>Podrobnosti\<close> else s) in
        case enMarkup of
          Html \<Rightarrow> ([60, 98, 114, 62, 60, 97, 32, 104, 114, 101, 102, 61, 34] :: rstr) \<comment> \<open>(lt)br(gt)(lt)a href=(quote)\<close> @ sEscapeHtmlLikeJava sUrl @ ([34, 62] :: rstr) \<comment> \<open>(quote)(gt)\<close> @ sEscapeHtmlLikeJava sText @ ([60, 47, 97, 62, 10, 60, 98, 114, 62, 10] :: rstr) \<comment> \<open>(lt)/a(gt) / (lt)br(gt) / \<close>
        | Markdown \<Rightarrow> ([10, 91] :: rstr) \<comment> \<open> / [\<close> @ sEscapeInlineMarkdown sText @ (u '']('') @ sUrl @ ([41, 10] :: rstr) \<comment> \<open>) / \<close>
        | _ \<Rightarrow> ([10, 91, 117, 114, 108, 61] :: rstr) \<comment> \<open> / [url=\<close> @ sUrl @ (u '']'') @ sText @ ([91, 47, 117, 114, 108, 93, 10] :: rstr) \<comment> \<open>[/url] / \<close>)"

definition sMoveInfo :: "EnTopicMarkup \<Rightarrow> rstr option \<Rightarrow> rstr option \<Rightarrow> rstr \<Rightarrow> rstr \<Rightarrow> rstr" where
  "sMoveInfo enMarkup optUrl optLinkText sModeratorNick sOldGroupUrlName =
     (let sLink = move_link enMarkup optUrl optLinkText in
      case enMarkup of
        Html \<Rightarrow> ([10] :: rstr) \<comment> \<open> / \<close> @ sLink @ ([60, 98, 114, 62, 60, 105, 62, 1055, 1077, 1088, 1077, 1084, 1077, 1097, 1077, 1085, 1086, 32] :: rstr) \<comment> \<open>(lt)br(gt)(lt)i(gt)Peremeshcheno \<close> @ sModeratorNick @ ([32, 1080, 1079, 32] :: rstr) \<comment> \<open> iz \<close> @ sOldGroupUrlName @ ([60, 47, 105, 62, 10] :: rstr) \<comment> \<open>(lt)/i(gt) / \<close>
      | Markdown \<Rightarrow> ([10] :: rstr) \<comment> \<open> / \<close> @ sLink @ ([10, 10, 1055, 1077, 1088, 1077, 1084, 1077, 1097, 1077, 1085, 1086, 32] :: rstr) \<comment> \<open> /  / Peremeshcheno \<close> @ sModeratorNick @ ([32, 1080, 1079, 32] :: rstr) \<comment> \<open> iz \<close> @ sOldGroupUrlName @ ([10] :: rstr) \<comment> \<open> / \<close>
      | _ \<Rightarrow> ([10] :: rstr) \<comment> \<open> / \<close> @ sLink @ ([10, 10, 91, 105, 93, 1055, 1077, 1088, 1077, 1084, 1077, 1097, 1077, 1085, 1086, 32] :: rstr) \<comment> \<open> /  / [i]Peremeshcheno \<close> @ sModeratorNick @ ([32, 1080, 1079, 32] :: rstr) \<comment> \<open> iz \<close> @ sOldGroupUrlName @ ([91, 47, 105, 93, 10] :: rstr) \<comment> \<open>[/i] / \<close>)"

record StMoveTopicCommand =
  mv_iTopicId :: int
  mv_iTargetGroupId :: int
  mv_bTargetLinksAllowed :: bool
  mv_optOriginalUrl :: "rstr option"
  mv_optOriginalLinkText :: "rstr option"
  mv_sOriginalGroupUrlName :: rstr
  mv_sModeratorNick :: rstr

record 'w TrTopicModerationRepository =
  tmr_optSnapshot :: "int \<Rightarrow> ('w, app_error, StTopicModerationSnapshot option) eff"
  tmr_optMoveGroup :: "int \<Rightarrow> ('w, app_error, StTopicMoveGroup option) eff"
  tmr_vecMoveGroups :: "EnTopicMoveGroupScope \<Rightarrow> ('w, app_error, StTopicMoveGroup list) eff"
  tmr_vUncommit :: "int \<Rightarrow> ('w, app_error, unit) eff"
  tmr_vMove :: "StMoveTopicCommand \<Rightarrow> ('w, app_error, unit) eff"
  tmr_vResolve :: "int \<Rightarrow> bool \<Rightarrow> ('w, app_error, unit) eff"

subsection \<open>The service (src/application/topic/moderation.rs)\<close>

datatype EnTopicModerationServiceError = ModNotFound | ModForbidden rstr | ModInfrastructure app_error

fun optForbiddenReason :: "EnTopicModerationServiceError \<Rightarrow> rstr option" where
  "optForbiddenReason (ModForbidden sReason) = Some sReason"
| "optForbiddenReason ModNotFound = None"
| "optForbiddenReason (ModInfrastructure e) = None"

definition moderation_stRequireAuthorized ::
    "StTopicModerationActor option \<Rightarrow> EnTopicModerationServiceError + StTopicModerationActor" where
  "moderation_stRequireAuthorized optActor = ok_or (ModForbidden (u ''Not authorized'')) optActor"

definition moderation_stRequireModerator ::
    "StTopicModerationActor option \<Rightarrow> EnTopicModerationServiceError + StTopicModerationActor" where
  "moderation_stRequireModerator optActor =
     and_then (ok_or (ModForbidden (u ''Not moderator'')) optActor) (\<lambda>stActor.
       if \<not> tm_bModerator stActor then Inl (ModForbidden (u ''Not moderator'')) else Inr stActor)"

definition moderation_vRestriction ::
    "EnTopicModerationRestriction option \<Rightarrow> EnTopicModerationServiceError + unit" where
  "moderation_vRestriction r = (case r of Some e \<Rightarrow> Inl (ModForbidden (moderation_sReason e)) | None \<Rightarrow> Inr ())"

definition moderation_stSnapshot ::
    "'w TrTopicModerationRepository \<Rightarrow> int \<Rightarrow> ('w, EnTopicModerationServiceError, StTopicModerationSnapshot) eff" where
  "moderation_stSnapshot repo iTopicId =
     bind_eff (map_err ModInfrastructure (tmr_optSnapshot repo iTopicId)) (\<lambda>r.
     of_result (ok_or ModNotFound r))"

definition stPrepareUncommit where
  "stPrepareUncommit repo optActor iTopicId =
     bind_eff (of_result (moderation_stRequireModerator optActor)) (\<lambda>_.
     bind_eff (moderation_stSnapshot repo iTopicId) (\<lambda>stTopic.
     bind_eff (of_result (moderation_vRestriction (optUncommitRestriction stTopic))) (\<lambda>_.
     ret_eff stTopic)))"

definition stUncommit ::
    "'w TrTopicModerationRepository \<Rightarrow> 'w TrTopicReindexQueue \<Rightarrow> StTopicModerationActor option \<Rightarrow> int
      \<Rightarrow> ('w, EnTopicModerationServiceError, rstr \<times> rstr) eff" where
  "stUncommit repo queue optActor iTopicId =
     bind_eff (of_result (moderation_stRequireModerator optActor)) (\<lambda>stActor.
     bind_eff (moderation_stSnapshot repo iTopicId) (\<lambda>stTopic.
     bind_eff (of_result (moderation_vRestriction (optUncommitRestriction stTopic))) (\<lambda>_.
     bind_eff (map_err ModInfrastructure (tmr_vUncommit repo iTopicId)) (\<lambda>_.
     bind_eff (map_err ModInfrastructure (trq_vUpdateMessage queue iTopicId True)) (\<lambda>_.
     ret_eff (([1055, 1086, 1076, 1090, 1074, 1077, 1088, 1078, 1076, 1077, 1085, 1080, 1077, 32, 1086, 1090, 1084, 1077, 1085, 1077, 1085, 1086] :: rstr) \<comment> \<open>Podtverzhdenie otmeneno\<close>, moderation_sCanonicalUrl stTopic))))))"

definition stPrepareMove where
  "stPrepareMove repo optActor iTopicId enForm =
     bind_eff (of_result (moderation_stRequireModerator optActor)) (\<lambda>_.
     bind_eff (moderation_stSnapshot repo iTopicId) (\<lambda>stTopic.
     bind_eff (map_err ModInfrastructure (tmr_vecMoveGroups repo (enMoveGroupScope enForm stTopic))) (\<lambda>vecGroups.
     ret_eff (stTopic, vecGroups))))"

definition move_command ::
    "StTopicModerationActor \<Rightarrow> StTopicModerationSnapshot \<Rightarrow> StTopicMoveGroup \<Rightarrow> int \<Rightarrow> int \<Rightarrow> StMoveTopicCommand" where
  "move_command stActor stTopic stTarget iTopicId iTargetGroupId =
     \<lparr>mv_iTopicId = iTopicId, mv_iTargetGroupId = iTargetGroupId,
      mv_bTargetLinksAllowed = mg_bLinksAllowed stTarget, mv_optOriginalUrl = sn_optUrl stTopic,
      mv_optOriginalLinkText = sn_optLinkText stTopic, mv_sOriginalGroupUrlName = sn_sGroupUrlName stTopic,
      mv_sModeratorNick = tm_sNick stActor\<rparr>"

definition stMove ::
    "'w TrTopicModerationRepository \<Rightarrow> 'w TrTopicReindexQueue \<Rightarrow> StTopicModerationActor option \<Rightarrow> int \<Rightarrow> int
      \<Rightarrow> ('w, EnTopicModerationServiceError, rstr \<times> bool) eff" where
  "stMove repo queue optActor iTopicId iTargetGroupId =
     bind_eff (of_result (moderation_stRequireModerator optActor)) (\<lambda>stActor.
     bind_eff (moderation_stSnapshot repo iTopicId) (\<lambda>stTopic.
     bind_eff (of_result (moderation_vRestriction (optMoveRestriction stTopic))) (\<lambda>_.
     bind_eff (map_err ModInfrastructure (tmr_optMoveGroup repo iTargetGroupId)) (\<lambda>r.
     bind_eff (of_result (ok_or (ModInfrastructure (Anyhow
        ((u ''move target group '') @ show_int iTargetGroupId @ (u '' does not exist'')))) r)) (\<lambda>stTarget.
     let bDatabaseMoveRequested = (sn_iGroupId stTopic \<noteq> mg_iId stTarget) in
     bind_eff (if bDatabaseMoveRequested
       then map_err ModInfrastructure (tmr_vMove repo (move_command stActor stTopic stTarget iTopicId iTargetGroupId))
       else ret_eff ()) (\<lambda>_.
     bind_eff (map_err ModInfrastructure (trq_vUpdateMessage queue iTopicId True)) (\<lambda>_.
     ret_eff (sForceLastModUrl stTopic, bDatabaseMoveRequested))))))))"

definition stResolve ::
    "'w TrTopicModerationRepository \<Rightarrow> StTopicModerationActor option \<Rightarrow> int \<Rightarrow> rstr
      \<Rightarrow> ('w, EnTopicModerationServiceError, rstr \<times> bool) eff" where
  "stResolve repo optActor iTopicId sResolve =
     bind_eff (of_result (moderation_stRequireAuthorized optActor)) (\<lambda>stActor.
     bind_eff (moderation_stSnapshot repo iTopicId) (\<lambda>stTopic.
     bind_eff (of_result (moderation_vRestriction (optResolveRestriction stTopic stActor))) (\<lambda>_.
     let bResolved = bResolveValue sResolve in
     bind_eff (map_err ModInfrastructure (tmr_vResolve repo iTopicId bResolved)) (\<lambda>_.
     ret_eff (sForceLastModUrl stTopic, bResolved)))))"

subsection \<open>The repository (src/infra/postgres/topic_moderation_repository.rs)\<close>

definition moderation_row ::
    "(rstr \<Rightarrow> rstr) \<Rightarrow> time \<Rightarrow> pg_topic \<times> pg_group \<times> pg_section \<Rightarrow> pg_msgbase \<Rightarrow> pg_user \<Rightarrow> StTopicModerationSnapshot" where
  "moderation_row lower now = (\<lambda>(t, g, s) m a.
     \<lparr>sn_iTopicId = pt_id t, sn_iAuthorId = pt_userid t, sn_sAuthorNick = pu_nick a,
      sn_iAuthorScore = coalesce 0 (pu_score a), sn_bAuthorBlocked = pu_blocked a,
      sn_sStoredTitle = pt_title t, sn_sMessage = pm_message m, sn_sMarkup = pm_markup m,
      sn_optUrl = pt_url t, sn_optLinkText = pt_linktext t, sn_iGroupId = pt_groupid t,
      sn_sGroupTitle = pg_title g, sn_sGroupUrlName = pg_urlname g, sn_iSectionId = ps_id s,
      sn_sSectionPrefix = section_prefix lower (ps_id s) (ps_name s),
      sn_bSectionPremoderated = ps_moderate s, sn_bSectionPollAllowed = coalesce False (ps_vote s),
      sn_bLinksAllowed = ps_havelink s, sn_bGroupResolvable = pg_resolvable g,
      sn_bDeleted = pt_deleted t, sn_bCommitted = pt_moderate t, sn_bSticky = pt_sticky t,
      sn_bExpired = topic_expired now s t, sn_dtLastMod = pt_lastmod t\<rparr>)"

definition moderation_optSnapshot :: "(rstr \<Rightarrow> rstr) \<Rightarrow> time \<Rightarrow> int \<Rightarrow> StTopicModerationSnapshot option pg_eff" where
  "moderation_optSnapshot lower now iTopicId = (\<lambda>db.
     (Inr (case (topic_join db iTopicId, msgbase_of db iTopicId) of
        (Some (t, g, s), Some m) \<Rightarrow>
          (case user_of db (pt_userid t) of None \<Rightarrow> None
           | Some a \<Rightarrow> Some (moderation_row lower now (t, g, s) m a))
      | _ \<Rightarrow> None), db))"

definition move_group_row :: "pg_group \<Rightarrow> pg_section \<Rightarrow> StTopicMoveGroup" where
  "move_group_row g s = \<lparr>mg_iId = pg_id g, mg_sTitle = pg_title g, mg_iSectionId = ps_id s,
     mg_sSectionTitle = ps_name s, mg_bLinksAllowed = ps_havelink s, mg_bResolvable = pg_resolvable g\<rparr>"

definition group_section_rows :: "pg \<Rightarrow> (pg_group \<times> pg_section) list" where
  "group_section_rows db = concat (map (\<lambda>g. map (\<lambda>s. (g, s))
     (filter (\<lambda>s. ps_id s = pg_sect g) (db_sections db))) (db_groups db))"

definition optMoveGroup :: "int \<Rightarrow> StTopicMoveGroup option pg_eff" where
  "optMoveGroup iGroupId = (\<lambda>db.
     (Inr (map_option (\<lambda>(g, s). move_group_row g s)
        (List.find (\<lambda>(g, s). pg_id g = iGroupId) (group_section_rows db))), db))"

text \<open>The three lists, each in the order its \<open>ORDER BY\<close> asks for.\<close>

definition vecMoveGroups :: "EnTopicMoveGroupScope \<Rightarrow> StTopicMoveGroup list pg_eff" where
  "vecMoveGroups enScope = (\<lambda>db.
     let rows = group_section_rows db;
         sel = (\<lambda>p. filter (\<lambda>(g, s). p s) rows)
     in (Inr (map (\<lambda>(g, s). move_group_row g s) (case enScope of
          ForumAndArticles \<Rightarrow>
            sort_key (\<lambda>(g, s). pg_id g) (sel (\<lambda>s. ps_id s = 2)) @ sort_key (\<lambda>(g, s). pg_id g) (sel (\<lambda>s. ps_id s = 6))
        | CurrentSection i \<Rightarrow> sort_key (\<lambda>(g, s). pg_id g) (sel (\<lambda>s. ps_id s = i))
        | PremoderatedNonPoll \<Rightarrow>
            sort_key (\<lambda>(g, s). ps_id s) (sort_key (\<lambda>(g, s). pg_id g)
              (sel (\<lambda>s. ps_moderate s \<and> \<not> coalesce False (ps_vote s)))))), db))"

definition repo_vUncommit :: "int \<Rightarrow> unit pg_eff" where
  "repo_vUncommit iTopicId = transaction (
     bind_eff (exec_update db_topics db_topics_update (\<lambda>t. pt_id t = iTopicId)
       (\<lambda>t. t\<lparr>pt_moderate := False, pt_commitby := None, pt_commitdate := None\<rparr>)) (\<lambda>_. ret_eff ()))"

text \<open>The foreign key \<open>topics_groupid_fkey\<close> guards the new group.\<close>

definition move_topic_row :: "time \<Rightarrow> StMoveTopicCommand \<Rightarrow> int \<Rightarrow> unit pg_eff" where
  "move_topic_row now c iCurrentGroupId =
     (if iCurrentGroupId \<noteq> mv_iTargetGroupId c
      then
        bind_eff (\<lambda>db. if mv_iTargetGroupId c \<in> pg_id ` set (db_groups db)
            then exec_update db_topics db_topics_update (\<lambda>t. pt_id t = mv_iTopicId c)
              (\<lambda>t. t\<lparr>pt_groupid := mv_iTargetGroupId c, pt_lastmod := now\<rparr>) db
            else (Inl db_failure, db)) (\<lambda>_.
        if \<not> mv_bTargetLinksAllowed c
        then bind_eff (exec_update db_topics db_topics_update (\<lambda>t. pt_id t = mv_iTopicId c)
               (\<lambda>t. t\<lparr>pt_linktext := None, pt_url := None\<rparr>)) (\<lambda>_. ret_eff ())
        else ret_eff ())
      else ret_eff ())"

definition append_move_info :: "StMoveTopicCommand \<Rightarrow> unit pg_eff" where
  "append_move_info c =
     (if \<not> mv_bTargetLinksAllowed c
      then
        bind_eff (fetch_optional db_msgbase (\<lambda>m. pm_id m = mv_iTopicId c)) (\<lambda>r.
        bind_eff (of_result (ok_or (Anyhow ((u ''msgbase row '') @ show_int (mv_iTopicId c) @ (u '' disappeared during move''))) r)) (\<lambda>m.
        bind_eff (of_result (case topic_markup_of (pm_markup m) of Inl s \<Rightarrow> Inl (Anyhow s) | Inr k \<Rightarrow> Inr k)) (\<lambda>enMarkup.
        bind_eff (exec_update db_msgbase db_msgbase_update (\<lambda>m. pm_id m = mv_iTopicId c)
          (pm_message_update (\<lambda>s. s @ sMoveInfo enMarkup (mv_optOriginalUrl c) (mv_optOriginalLinkText c)
             (mv_sModeratorNick c) (mv_sOriginalGroupUrlName c)))) (\<lambda>_.
        ret_eff ()))))
      else ret_eff ())"

definition repo_vMove :: "time \<Rightarrow> StMoveTopicCommand \<Rightarrow> unit pg_eff" where
  "repo_vMove now c = transaction (
     bind_eff (fetch_optional db_topics (\<lambda>t. pt_id t = mv_iTopicId c)) (\<lambda>r.
     bind_eff (of_result (ok_or (Anyhow ((u ''topic '') @ show_int (mv_iTopicId c) @ (u '' disappeared during move''))) r)) (\<lambda>t.
     bind_eff (move_topic_row now c (pt_groupid t)) (\<lambda>_.
     append_move_info c))))"

definition repo_vResolve :: "int \<Rightarrow> bool \<Rightarrow> unit pg_eff" where
  "repo_vResolve iTopicId bResolved = transaction (
     bind_eff (exec_update db_topics db_topics_update (\<lambda>t. pt_id t = iTopicId)
       (\<lambda>t. t\<lparr>pt_resolved := Some bResolved, pt_lastmod := pt_lastmod t + seconds 1\<rparr>)) (\<lambda>_. ret_eff ()))"

definition pg_topic_moderation :: "(rstr \<Rightarrow> rstr) \<Rightarrow> time \<Rightarrow> 'q world TrTopicModerationRepository" where
  "pg_topic_moderation lower now =
     \<lparr>tmr_optSnapshot = (\<lambda>i. on_db (moderation_optSnapshot lower now i)),
      tmr_optMoveGroup = (\<lambda>i. on_db (optMoveGroup i)), tmr_vecMoveGroups = (\<lambda>s. on_db (vecMoveGroups s)),
      tmr_vUncommit = (\<lambda>i. on_db (repo_vUncommit i)), tmr_vMove = (\<lambda>c. on_db (repo_vMove now c)),
      tmr_vResolve = (\<lambda>i b. on_db (repo_vResolve i b))\<rparr>"

subsection \<open>What the operations do\<close>

text \<open>Moderation touches nothing for those who may not: over a repository whose look-ups only read, a
  request of anybody but a moderator to uncommit or move a topic, a request to resolve one by
  somebody who is neither its author nor a moderator, and any request on a topic that is
  missing, or in a state that forbids it, leave the world as it was.\<close>

theorem moderation_guarded:
  assumes snap: "tmr_optSnapshot repo i w = (Inr o1, w)" and grp: "snd (tmr_optMoveGroup repo g w) = w"
  shows "(\<not> (\<exists>a t. optActor = Some a \<and> tm_bModerator a \<and> o1 = Some t
            \<and> sn_bCommitted t \<and> \<not> sn_bDeleted t \<and> \<not> sn_bExpired t) \<longrightarrow>
          (\<exists>e. stUncommit repo queue optActor i w = (Inl e, w)))
    \<and> (\<not> (\<exists>a t. optActor = Some a \<and> tm_bModerator a \<and> o1 = Some t \<and> \<not> sn_bDeleted t) \<longrightarrow>
          (\<exists>e. stMove repo queue optActor i g w = (Inl e, w)))
    \<and> (\<not> (\<exists>a t. optActor = Some a \<and> o1 = Some t \<and> sn_bGroupResolvable t
            \<and> (tm_bModerator a \<or> tm_iUserId a = sn_iAuthorId t)) \<longrightarrow>
          (\<exists>e. stResolve repo optActor i sResolve w = (Inl e, w)))"
proof -
  note d = moderation_stRequireModerator_def moderation_stRequireAuthorized_def moderation_stSnapshot_def
    moderation_vRestriction_def bind_eff_def map_err_def snap
  show ?thesis
    by (cases optActor; cases o1)
      (auto simp: d stUncommit_def stMove_def stResolve_def optUncommitRestriction_def optMoveRestriction_def
        optResolveRestriction_def then_some_def)
qed

definition ex_moderation :: StTopicModerationActor where
  "ex_moderation = \<lparr>tm_iUserId = 9, tm_sNick = u ''m'', tm_bModerator = False\<rparr>"

theorem moderation_guarded_witness:
  "\<exists>e. stMove (pg_topic_moderation id 2000) (log_queue False) (Some ex_moderation) 5 10 \<lparr>w_db = ex_db, w_queue = []\<rparr>
    = (Inl e, \<lparr>w_db = ex_db, w_queue = []\<rparr>)"
proof -
  let ?w = "\<lparr>w_db = ex_db, w_queue = []\<rparr> :: (int \<times> bool) list world"
  obtain o1 where snap: "tmr_optSnapshot (pg_topic_moderation id 2000) 5 ?w = (Inr o1, ?w)"
    by (simp add: pg_topic_moderation_def on_db_def moderation_optSnapshot_def)
  have grp: "snd (tmr_optMoveGroup (pg_topic_moderation id 2000) 10 ?w) = ?w"
    by (simp add: pg_topic_moderation_def on_db_def optMoveGroup_def)
  from moderation_guarded [OF snap grp, where optActor = "Some ex_moderation" and queue = "log_queue False"]
  show ?thesis by (simp add: ex_moderation_def)
qed

definition moved_row :: "time \<Rightarrow> StMoveTopicCommand \<Rightarrow> pg_topic \<Rightarrow> pg_topic" where
  "moved_row now c t =
     (let t1 = t\<lparr>pt_groupid := mv_iTargetGroupId c, pt_lastmod := now\<rparr>
      in if mv_bTargetLinksAllowed c then t1 else t1\<lparr>pt_linktext := None, pt_url := None\<rparr>)"

lemma moved_row_cases:
  "mv_bTargetLinksAllowed c \<Longrightarrow> moved_row now c = (\<lambda>t. t\<lparr>pt_groupid := mv_iTargetGroupId c, pt_lastmod := now\<rparr>)"
  "\<not> mv_bTargetLinksAllowed c \<Longrightarrow> moved_row now c = (\<lambda>t. t\<lparr>pt_groupid := mv_iTargetGroupId c, pt_lastmod := now,
     pt_linktext := None, pt_url := None\<rparr>)"
  by (rule ext, simp add: moved_row_def Let_def)+

lemma move_topic_row_Inr:
  assumes "move_topic_row now c g db = (Inr x, db')"
  shows "db' = (if g = mv_iTargetGroupId c then db
    else db_topics_update (update_where (\<lambda>t. pt_id t = mv_iTopicId c) (moved_row now c)) db)"
proof -
  have "update_where (\<lambda>t. pt_id t = i) (\<lambda>t. t\<lparr>pt_linktext := None, pt_url := None\<rparr>)
      (update_where (\<lambda>t. pt_id t = i) (\<lambda>t. t\<lparr>pt_groupid := k, pt_lastmod := now\<rparr>) ts) =
    update_where (\<lambda>t. pt_id t = i) (\<lambda>t. t\<lparr>pt_groupid := k, pt_lastmod := now, pt_linktext := None, pt_url := None\<rparr>) ts"
    for i k and ts :: "pg_topic list" by (subst update_where_twice) auto
  then show ?thesis
    using assms
    by (auto simp: move_topic_row_def bind_eff_Inr_iff exec_update_def moved_row_cases comp_def split: if_splits)
qed

lemma append_move_info_Inr:
  assumes "append_move_info c db = (Inr x, db')"
  shows "if mv_bTargetLinksAllowed c then db' = db
    else \<exists>m k. msgbase_of db (mv_iTopicId c) = Some m \<and> topic_markup_of (pm_markup m) = Inr k \<and>
      db' = db_msgbase_update (update_where (\<lambda>m. pm_id m = mv_iTopicId c)
        (pm_message_update (\<lambda>s. s @ sMoveInfo k (mv_optOriginalUrl c) (mv_optOriginalLinkText c)
          (mv_sModeratorNick c) (mv_sOriginalGroupUrlName c)))) db"
proof (cases "mv_bTargetLinksAllowed c")
  case True
  with assms show ?thesis by (simp add: append_move_info_def)
next
  case False
  with assms obtain m where m: "msgbase_of db (mv_iTopicId c) = Some m"
    by (auto simp: append_move_info_def bind_eff_Inr_iff fetch_optional_def ok_or_iff msgbase_of_def)
  with False assms show ?thesis
    by (cases "topic_markup_of (pm_markup m)")
      (auto simp: append_move_info_def bind_eff_Inr_iff fetch_optional_def msgbase_of_def exec_update_def)
qed

text \<open>Moving a topic is one transaction: an error leaves the store as it was; on success the topic - and
  no other - is in the target group with a new last change, unless the locked row already was
  there.  Into a group without links its link is removed and the notice, written for the
  stored markup, is appended to its text, which is otherwise kept; users, comments and
  deletions never change.\<close>

theorem move_topic_effect:
  assumes "repo_vMove now c db = (r, db')"
  shows "case r of Inl e \<Rightarrow> db' = db
    | Inr x \<Rightarrow> \<exists>t. topic_of db (mv_iTopicId c) = Some t
        \<and> db_topics db' = (if pt_groupid t = mv_iTargetGroupId c then db_topics db
            else update_where (\<lambda>t. pt_id t = mv_iTopicId c) (moved_row now c) (db_topics db))
        \<and> (if mv_bTargetLinksAllowed c then db_msgbase db' = db_msgbase db
           else \<exists>m k. msgbase_of db (mv_iTopicId c) = Some m \<and> topic_markup_of (pm_markup m) = Inr k \<and>
             db_msgbase db' = update_where (\<lambda>m. pm_id m = mv_iTopicId c)
               (pm_message_update (\<lambda>s. s @ sMoveInfo k (mv_optOriginalUrl c) (mv_optOriginalLinkText c)
                 (mv_sModeratorNick c) (mv_sOriginalGroupUrlName c))) (db_msgbase db))
        \<and> db_users db' = db_users db \<and> db_comments db' = db_comments db \<and> db_del_info db' = db_del_info db"
proof (cases r)
  case (Inl e)
  with assms show ?thesis by (auto simp: repo_vMove_def transaction_err)
next
  case (Inr x)
  with assms obtain t y db1 where t: "topic_of db (mv_iTopicId c) = Some t"
    and move: "move_topic_row now c (pt_groupid t) db = (Inr y, db1)"
    and app: "append_move_info c db1 = (Inr x, db')"
    by (auto simp: repo_vMove_def transaction_Inr bind_eff_Inr_iff fetch_optional_def ok_or_iff topic_of_def)
  from move_topic_row_Inr [OF move] have db1: "msgbase_of db1 = msgbase_of db" "db_msgbase db1 = db_msgbase db"
    "db_topics db1 = (if pt_groupid t = mv_iTargetGroupId c then db_topics db
      else update_where (\<lambda>t. pt_id t = mv_iTopicId c) (moved_row now c) (db_topics db))"
    "db_users db1 = db_users db" "db_comments db1 = db_comments db" "db_del_info db1 = db_del_info db"
    by (auto simp: msgbase_of_def)
  show ?thesis
  proof (cases "mv_bTargetLinksAllowed c")
    case True
    with append_move_info_Inr [OF app] t db1 Inr show ?thesis by simp
  next
    case False
    with append_move_info_Inr [OF app] obtain m k where "msgbase_of db1 (mv_iTopicId c) = Some m"
      "topic_markup_of (pm_markup m) = Inr k"
      "db' = db_msgbase_update (update_where (\<lambda>m. pm_id m = mv_iTopicId c)
        (pm_message_update (\<lambda>s. s @ sMoveInfo k (mv_optOriginalUrl c) (mv_optOriginalLinkText c)
          (mv_sModeratorNick c) (mv_sOriginalGroupUrlName c)))) db1" by auto
    with t db1 Inr False show ?thesis by simp
  qed
qed

definition ex_move :: StMoveTopicCommand where
  "ex_move = \<lparr>mv_iTopicId = 5, mv_iTargetGroupId = 10, mv_bTargetLinksAllowed = False,
     mv_optOriginalUrl = Some (u ''http://x''), mv_optOriginalLinkText = None,
     mv_sOriginalGroupUrlName = u ''g'', mv_sModeratorNick = u ''m''\<rparr>"

theorem move_topic_effect_witness:
  "\<exists>db'. repo_vMove 2000 ex_move ex_db = (Inr (), db') \<and> db_topics db' = db_topics ex_db
    \<and> db_msgbase db' \<noteq> db_msgbase ex_db"
proof -
  obtain r db' where run: "repo_vMove 2000 ex_move ex_db = (r, db')" by fastforce
  have "fst (repo_vMove 2000 ex_move ex_db) = Inr ()"
    by (simp add: repo_vMove_def transaction_def bind_eff_def fetch_optional_def ex_move_def ex_db_def ex_topic_def
        move_topic_row_def append_move_info_def topic_markup_of_def exec_update_def)
  with run have r: "r = Inr ()" by simp
  from move_topic_effect [OF run] r have
    "db_topics db' = db_topics ex_db \<and> (\<exists>m k. db_msgbase db' = update_where (\<lambda>m. pm_id m = 5)
       (pm_message_update (\<lambda>s. s @ sMoveInfo k (mv_optOriginalUrl ex_move) None (u ''m'') (u ''g''))) (db_msgbase ex_db))"
    by (auto simp: ex_move_def ex_db_def ex_topic_def topic_of_def)
  moreover have "update_where (\<lambda>m. pm_id m = 5) (pm_message_update (\<lambda>s. s @ sMoveInfo k a b c d)) (db_msgbase ex_db)
      \<noteq> db_msgbase ex_db" for k a b c d
    by (cases k) (simp_all add: ex_db_def update_where_def sMoveInfo_def Let_def)
  ultimately show ?thesis using run r by metis
qed

subsection \<open>The move notice\<close>

fun md_unescape :: "rstr \<Rightarrow> rstr" where
  "md_unescape [] = []"
| "md_unescape [c] = [c]"
| "md_unescape (c # d # s) = (if c = 92 then d # md_unescape s else c # md_unescape (d # s))"

text \<open>No bracket or backtick stands outside an escape.\<close>

fun md_plain :: "rstr \<Rightarrow> bool" where
  "md_plain [] \<longleftrightarrow> True"
| "md_plain [c] \<longleftrightarrow> c \<notin> {91, 93, 96, 92}"
| "md_plain (c # d # s) \<longleftrightarrow> (if c = 92 then md_plain s else c \<notin> {91, 93, 96} \<and> md_plain (d # s))"

lemma md_escape_Cons: "sEscapeInlineMarkdown (c # s) = (if c \<in> {92, 91, 93, 96} then [92, c] else [c]) @ sEscapeInlineMarkdown s"
  by (simp add: sEscapeInlineMarkdown_def)

lemma md_plain_Cons: "c \<notin> {92, 91, 93, 96} \<Longrightarrow> md_plain s \<Longrightarrow> md_plain (c # s)"
  by (cases s) auto

lemma md_unescape_Cons: "c \<noteq> 92 \<Longrightarrow> md_unescape (c # s) = c # md_unescape s"
  by (cases s) auto

text \<open>The link text of the move notice cannot break out of its link: in Markdown the escaped text has no
  bracket or backtick outside an escape and unescapes to the original; in HTML neither address
  nor text keeps a quote or an angle bracket.\<close>

theorem move_notice_link_safe:
  "md_unescape (sEscapeInlineMarkdown s) = s \<and> md_plain (sEscapeInlineMarkdown s)
   \<and> set (sEscapeHtmlLikeJava s) \<inter> {34, 39, 60, 62} = {}"
proof -
  have "md_unescape (sEscapeInlineMarkdown s) = s \<and> md_plain (sEscapeInlineMarkdown s)"
  proof (induction s)
    case (Cons c s)
    then show ?case
      by (cases "c \<in> {92, 91, 93, 96}") (auto simp: md_escape_Cons md_unescape_Cons md_plain_Cons)
  qed (simp add: sEscapeInlineMarkdown_def)
  moreover have "set (sEscapeHtmlLikeJava s) \<inter> {34, 39, 60, 62} = {}"
    by (induction s) auto
  ultimately show ?thesis by blast
qed

end
