(* ===== verification/Comment_Deletion.thy ===== *)
theory Comment_Deletion
  imports Topic_Deletion
begin

section \<open>Deleting comments with their replies\<close>

text \<open>
  The policy of \<open>src/domain/comment/deletion.rs\<close>, the service of
  \<open>src/application/comment/deletion.rs\<close> and the transactions of
  \<open>src/infra/postgres/comment_deletion_repository.rs\<close>.  The recursive query for the replies
  and the postorder walk over them run on fuel; \<open>subtree_total\<close> and \<open>postorder_total\<close> show
  that one more than the number of comments is enough when a reply always has a larger id
  than what it answers, as the shared id sequence guarantees.  The preview queries only
  render; they are fields of the interface.
\<close>

subsection \<open>The policy (src/domain/comment/deletion.rs)\<close>

definition VEC_DELETE_REASONS :: "rstr list" where
  "VEC_DELETE_REASONS =
     [([51, 46, 49, 32, 1044, 1091, 1073, 1083, 1100] :: rstr) \<comment> \<open>3.1 Dubl\<close>,
      ([51, 46, 50, 32, 1053, 1077, 1074, 1077, 1088, 1085, 1072, 1103, 32, 1082, 1086, 1076, 1080, 1088, 1086, 1074, 1082, 1072] :: rstr) \<comment> \<open>3.2 Nevernaya kodirovka\<close>,
      ([51, 46, 51, 32, 1053, 1077, 1082, 1086, 1088, 1088, 1077, 1082, 1090, 1085, 1086, 1077, 32, 1092, 1086, 1088, 1084, 1072, 1090, 1080, 1088, 1086, 1074, 1072, 1085, 1080, 1077] :: rstr) \<comment> \<open>3.3 Nekorrektnoe formatirovanie\<close>,
      ([51, 46, 52, 32, 1055, 1091, 1089, 1090, 1086, 1077, 32, 1089, 1086, 1086, 1073, 1097, 1077, 1085, 1080, 1077] :: rstr) \<comment> \<open>3.4 Pustoe soobshchenie\<close>,
      ([52, 46, 49, 32, 1054, 1092, 1090, 1086, 1087, 1080, 1082] :: rstr) \<comment> \<open>4.1 Oftopik\<close>,
      ([52, 46, 50, 32, 1042, 1099, 1079, 1099, 1074, 1072, 1102, 1097, 1077, 32, 1085, 1077, 1074, 1077, 1088, 1085, 1072, 1103, 32, 1080, 1085, 1092, 1086, 1088, 1084, 1072, 1094, 1080, 1103] :: rstr) \<comment> \<open>4.2 Vyzyvayushche nevernaya informatsiya\<close>,
      ([52, 46, 51, 32, 1055, 1088, 1086, 1074, 1086, 1082, 1072, 1094, 1080, 1103, 32, 102, 108, 97, 109, 101] :: rstr) \<comment> \<open>4.3 Provokatsiya flame\<close>,
      ([52, 46, 52, 32, 1054, 1073, 1089, 1091, 1078, 1076, 1077, 1085, 1080, 1077, 32, 1076, 1077, 1081, 1089, 1090, 1074, 1080, 1081, 32, 1084, 1086, 1076, 1077, 1088, 1072, 1090, 1086, 1088, 1086, 1074] :: rstr) \<comment> \<open>4.4 Obsuzhdenie dejstvij moderatorov\<close>,
      ([52, 46, 53, 32, 1058, 1077, 1089, 1090, 1086, 1074, 1099, 1077, 32, 1089, 1086, 1086, 1073, 1097, 1077, 1085, 1080, 1103] :: rstr) \<comment> \<open>4.5 Testovye soobshcheniya\<close>,
      ([52, 46, 54, 32, 1057, 1087, 1072, 1084] :: rstr) \<comment> \<open>4.6 Spam\<close>,
      ([52, 46, 55, 32, 1060, 1083, 1091, 1076] :: rstr) \<comment> \<open>4.7 Flud\<close>,
      ([52, 46, 56, 32, 1044, 1080, 1089, 1082, 1091, 1089, 1089, 1080, 1103, 32, 1085, 1077, 32, 1085, 1072, 32, 1088, 1091, 1089, 1089, 1082, 1086, 1084, 32, 1103, 1079, 1099, 1082, 1077] :: rstr) \<comment> \<open>4.8 Diskussiya ne na russkom yazyke\<close>,
      ([52, 46, 57, 32, 1054, 1092, 1090, 1086, 1087, 1080, 1082, 45, 1083, 1080, 1089, 1090, 44, 32, 1087, 46, 32] :: rstr) \<comment> \<open>4.9 Oftopik-list, p. \<close>,
      ([53, 46, 49, 32, 1053, 1077, 1094, 1077, 1085, 1079, 1091, 1088, 1085, 1099, 1077, 32, 1074, 1099, 1088, 1072, 1078, 1077, 1085, 1080, 1103] :: rstr) \<comment> \<open>5.1 Netsenzurnye vyrazheniya\<close>,
      ([53, 46, 50, 32, 1054, 1089, 1082, 1086, 1088, 1073, 1083, 1077, 1085, 1080, 1077, 32, 1091, 1095, 1072, 1089, 1090, 1085, 1080, 1082, 1086, 1074, 32, 1076, 1080, 1089, 1082, 1091, 1089, 1089, 1080, 1080] :: rstr) \<comment> \<open>5.2 Oskorblenie uchastnikov diskussii\<close>,
      ([53, 46, 51, 32, 1053, 1072, 1094, 1080, 1086, 1085, 1072, 1083, 1100, 1085, 1099, 1077, 47, 1087, 1086, 1083, 1080, 1090, 1080, 1095, 1077, 1089, 1082, 1080, 1077, 47, 1088, 1077, 1083, 1080, 1075, 1080, 1086, 1079, 1085, 1099, 1077, 32, 1089, 1087, 1086, 1088, 1099] :: rstr) \<comment> \<open>5.3 Natsionalnye/politicheskie/religioznye spory\<close>,
      ([53, 46, 52, 32, 1051, 1080, 1095, 1085, 1072, 1103, 32, 1087, 1077, 1088, 1077, 1087, 1080, 1089, 1082, 1072] :: rstr) \<comment> \<open>5.4 Lichnaya perepiska\<close>,
      ([53, 46, 53, 32, 1055, 1088, 1077, 1076, 1085, 1072, 1084, 1077, 1088, 1077, 1085, 1085, 1086, 1077, 32, 1085, 1072, 1088, 1091, 1096, 1077, 1085, 1080, 1077, 32, 1087, 1088, 1072, 1074, 1080, 1083, 32, 1088, 1091, 1089, 1089, 1082, 1086, 1075, 1086, 32, 1103, 1079, 1099, 1082, 1072] :: rstr) \<comment> \<open>5.5 Prednamerennoe narushenie pravil russkogo yazyka\<close>,
      ([54, 32, 1053, 1072, 1088, 1091, 1096, 1077, 1085, 1080, 1077, 32, 99, 111, 112, 121, 114, 105, 103, 104, 116] :: rstr) \<comment> \<open>6 Narushenie copyright\<close>,
      (u ''6.2 Warez''),
      ([55, 46, 49, 32, 1054, 1090, 1074, 1077, 1090, 32, 1085, 1072, 32, 1085, 1077, 1082, 1086, 1088, 1088, 1077, 1082, 1090, 1085, 1086, 1077, 32, 1089, 1086, 1086, 1073, 1097, 1077, 1085, 1080, 1077] :: rstr) \<comment> \<open>7.1 Otvet na nekorrektnoe soobshchenie\<close>,
      ([55, 46, 50, 32, 1063, 1088, 1077, 1079, 1084, 1077, 1088, 1085, 1086, 32, 1080, 1089, 1087, 1088, 1072, 1074, 1083, 1077, 1085, 1085, 1086, 1077, 32, 1089, 1086, 1086, 1073, 1097, 1077, 1085, 1080, 1077] :: rstr) \<comment> \<open>7.2 Chrezmerno ispravlennoe soobshchenie\<close>]"

record StCommentDeleteActor =
  ca_iUserId :: int
  ca_bModerator :: bool

record StCommentDeleteTarget =
  ct_iCommentId :: int
  ct_iTopicId :: int
  ct_iAuthorId :: int
  ct_sAuthorNick :: rstr
  ct_iAuthorScore :: int
  ct_bDeleted :: bool
  ct_bTopicDeleted :: bool
  ct_bTopicExpired :: bool
  ct_bTopicDraft :: bool
  ct_bCommentsHidden :: bool
  ct_bHasReplies :: bool
  ct_dtPostdate :: time
  ct_optDeletedBy :: "int option"
  ct_sPostIp :: rstr
  ct_iUserAgentId :: int
  ct_sCanonicalTopicUrl :: rstr

definition bCanDelete :: "StCommentDeleteTarget \<Rightarrow> StCommentDeleteActor \<Rightarrow> time \<Rightarrow> bool" where
  "bCanDelete self stActor dtNow =
     (if ct_bDeleted self \<or> ct_bTopicDeleted self then False
      else ca_bModerator stActor \<or>
        (ca_iUserId stActor = ct_iAuthorId self \<and> \<not> ct_bTopicExpired self \<and> \<not> ct_bHasReplies self
         \<and> ct_dtPostdate self + hours 3 > dtNow))"

definition bCanUndelete :: "StCommentDeleteTarget \<Rightarrow> StCommentDeleteActor \<Rightarrow> bool" where
  "bCanUndelete self stActor \<longleftrightarrow>
     ca_bModerator stActor \<and> ct_bDeleted self \<and> \<not> ct_bTopicDeleted self \<and> \<not> ct_bTopicExpired self
     \<and> ct_optDeletedBy self \<noteq> Some (ct_iAuthorId self)"

record StDeleteCommentCommand =
  cc_iCommentId :: int
  cc_sReason :: rstr
  cc_iPenalty :: int
  cc_bDeleteReplies :: bool

record StCommentDeleteMutation =
  cd_vecDeletedIds :: "int list"
  cd_optNextCommentId :: "int option"

text \<open>The preview rows are opaque to the service but for their id.\<close>

record ('w, 'p) TrCommentDeletionRepository =
  cdr_optFindTarget :: "int \<Rightarrow> ('w, app_error, StCommentDeleteTarget option) eff"
  cdr_vecDeletePreview :: "int \<Rightarrow> int \<Rightarrow> ('w, app_error, 'p list) eff"
  cdr_vecUndeletePreview :: "int \<Rightarrow> int \<Rightarrow> ('w, app_error, 'p list) eff"
  cdr_iPreviewId :: "'p \<Rightarrow> int"
  cdr_stDelete :: "StCommentDeleteActor \<Rightarrow> StCommentDeleteTarget \<Rightarrow> StDeleteCommentCommand
    \<Rightarrow> ('w, app_error, StCommentDeleteMutation) eff"
  cdr_vUndelete :: "StCommentDeleteTarget \<Rightarrow> ('w, app_error, unit) eff"

record 'w TrCommentReindexQueue =
  crq_vUpdateComments :: "int list \<Rightarrow> ('w, app_error, unit) eff"

subsection \<open>The service (src/application/comment/deletion.rs)\<close>

datatype EnCommentDeletionRestriction =
  ComAlreadyDeleted | ComTopicDeleted | ComCannotDelete | ComCannotUndelete | ComHasReplies | ComInvalidPenalty

fun comment_sMessage :: "EnCommentDeletionRestriction \<Rightarrow> rstr" where
  "comment_sMessage ComAlreadyDeleted = ([1082, 1086, 1084, 1084, 1077, 1085, 1090, 1072, 1088, 1080, 1081, 32, 1091, 1078, 1077, 32, 1091, 1076, 1072, 1083, 1077, 1085] :: rstr) \<comment> \<open>kommentarij uzhe udalen\<close>"
| "comment_sMessage ComTopicDeleted = ([1090, 1077, 1084, 1072, 32, 1091, 1076, 1072, 1083, 1077, 1085, 1072] :: rstr) \<comment> \<open>tema udalena\<close>"
| "comment_sMessage ComCannotDelete = ([1082, 1086, 1084, 1084, 1077, 1085, 1090, 1072, 1088, 1080, 1081, 32, 1085, 1077, 1083, 1100, 1079, 1103, 32, 1091, 1076, 1072, 1083, 1080, 1090, 1100] :: rstr) \<comment> \<open>kommentarij nelzya udalit\<close>"
| "comment_sMessage ComCannotUndelete = ([1101, 1090, 1086, 1090, 32, 1082, 1086, 1084, 1084, 1077, 1085, 1090, 1072, 1088, 1080, 1081, 32, 1085, 1077, 1083, 1100, 1079, 1103, 32, 1074, 1086, 1089, 1089, 1090, 1072, 1085, 1086, 1074, 1080, 1090, 1100] :: rstr) \<comment> \<open>etot kommentarij nelzya vosstanovit\<close>"
| "comment_sMessage ComHasReplies = ([1053, 1077, 1083, 1100, 1079, 1103, 32, 1091, 1076, 1072, 1083, 1080, 1090, 1100, 32, 1082, 1086, 1084, 1084, 1077, 1085, 1090, 1072, 1088, 1080, 1081, 32, 1089, 32, 1086, 1090, 1074, 1077, 1090, 1072, 1084, 1080] :: rstr) \<comment> \<open>Nelzya udalit kommentarij s otvetami\<close>"
| "comment_sMessage ComInvalidPenalty = ([1053, 1077, 1087, 1088, 1072, 1074, 1080, 1083, 1100, 1085, 1099, 1081, 32, 1092, 1086, 1088, 1084, 1072, 1090, 32, 1087, 1072, 1088, 1072, 1084, 1077, 1090, 1088, 1072, 32, 96, 96, 1085, 1077, 1087, 1088, 1072, 1074, 1080, 1083, 1100, 1085, 1099, 1081, 32, 1088, 1072, 1079, 1084, 1077, 1088, 32, 1096, 1090, 1088, 1072, 1092, 1072, 39, 39] :: rstr) \<comment> \<open>Nepravilnyj format parametra (backquote)(backquote)nepravilnyj razmer shtrafa(apostrophe)(apostrophe)\<close>"

datatype EnCommentDeletionError = ComRestricted EnCommentDeletionRestriction | ComApplication app_error

record StCommentDeleteOutcome =
  co_stTarget :: StCommentDeleteTarget
  co_vecDeletedIds :: "int list"
  co_optNextCommentId :: "int option"

definition comment_stTarget ::
    "('w, 'p) TrCommentDeletionRepository \<Rightarrow> int \<Rightarrow> ('w, EnCommentDeletionError, StCommentDeleteTarget) eff" where
  "comment_stTarget repo iCommentId =
     bind_eff (map_err ComApplication (cdr_optFindTarget repo iCommentId)) (\<lambda>r.
     of_result (ok_or (ComApplication NotFound) r))"

definition optPrepareCommentOnly ::
    "('w, 'p) TrCommentDeletionRepository \<Rightarrow> int \<Rightarrow> int
      \<Rightarrow> ('w, app_error, (StCommentDeleteTarget \<times> 'p) option) eff" where
  "optPrepareCommentOnly repo iCommentId iViewerId =
     bind_eff (cdr_optFindTarget repo iCommentId) (\<lambda>r.
     case r of None \<Rightarrow> ret_eff None
     | Some stTarget \<Rightarrow>
         bind_eff (cdr_vecDeletePreview repo iCommentId iViewerId) (\<lambda>ps.
         ret_eff (map_option (\<lambda>p. (stTarget, p)) (List.find (\<lambda>p. cdr_iPreviewId repo p = iCommentId) ps))))"

definition comment_stDeleteForm where
  "comment_stDeleteForm repo stActor iCommentId dtNow =
     bind_eff (comment_stTarget repo iCommentId) (\<lambda>stTarget.
     if ct_bDeleted stTarget then fail_eff (ComRestricted ComAlreadyDeleted)
     else if ct_bTopicDeleted stTarget then fail_eff (ComRestricted ComTopicDeleted)
     else if \<not> bCanDelete stTarget stActor dtNow then fail_eff (ComRestricted ComCannotDelete)
     else bind_eff (map_err ComApplication (cdr_vecDeletePreview repo iCommentId (ca_iUserId stActor)))
       (\<lambda>vecPreview. ret_eff (stTarget, vecPreview)))"

definition effective_comment_command ::
    "StCommentDeleteActor \<Rightarrow> StCommentDeleteTarget \<Rightarrow> StDeleteCommentCommand \<Rightarrow> StDeleteCommentCommand" where
  "effective_comment_command stActor stTarget c =
     (if \<not> ca_bModerator stActor then c\<lparr>cc_bDeleteReplies := False, cc_iPenalty := 0\<rparr>
      else if ca_iUserId stActor = ct_iAuthorId stTarget then c\<lparr>cc_iPenalty := 0\<rparr>
      else c)"

text \<open>A Forbidden from the repository means replies when the actor is no moderator.\<close>

definition comment_delete_error :: "StCommentDeleteActor \<Rightarrow> app_error \<Rightarrow> EnCommentDeletionError" where
  "comment_delete_error stActor e =
     (if e = Forbidden \<and> \<not> ca_bModerator stActor then ComRestricted ComHasReplies else ComApplication e)"

definition comment_stDelete ::
    "('w, 'p) TrCommentDeletionRepository \<Rightarrow> 'w TrCommentReindexQueue \<Rightarrow> StCommentDeleteActor
      \<Rightarrow> StDeleteCommentCommand \<Rightarrow> time \<Rightarrow> ('w, EnCommentDeletionError, StCommentDeleteOutcome) eff" where
  "comment_stDelete repo queue stActor stCommand dtNow =
     (if \<not> (0 \<le> cc_iPenalty stCommand \<and> cc_iPenalty stCommand \<le> 20)
      then fail_eff (ComRestricted ComInvalidPenalty) else
      bind_eff (comment_stTarget repo (cc_iCommentId stCommand)) (\<lambda>stTarget.
      if ct_bDeleted stTarget then fail_eff (ComRestricted ComAlreadyDeleted)
      else if \<not> bCanDelete stTarget stActor dtNow then fail_eff (ComRestricted ComCannotDelete)
      else
      bind_eff (map_err (comment_delete_error stActor)
        (cdr_stDelete repo stActor stTarget (effective_comment_command stActor stTarget stCommand))) (\<lambda>m.
      bind_eff (map_err ComApplication (crq_vUpdateComments queue (cd_vecDeletedIds m))) (\<lambda>_.
      ret_eff \<lparr>co_stTarget = stTarget, co_vecDeletedIds = cd_vecDeletedIds m,
        co_optNextCommentId = cd_optNextCommentId m\<rparr>))))"

definition comment_stUndeleteForm where
  "comment_stUndeleteForm repo stActor iCommentId =
     bind_eff (comment_stTarget repo iCommentId) (\<lambda>stTarget.
     if \<not> bCanUndelete stTarget stActor then fail_eff (ComRestricted ComCannotUndelete)
     else bind_eff (map_err ComApplication (cdr_vecUndeletePreview repo iCommentId (ca_iUserId stActor)))
       (\<lambda>vecPreview. ret_eff (stTarget, vecPreview)))"

definition comment_vUndelete ::
    "('w, 'p) TrCommentDeletionRepository \<Rightarrow> 'w TrCommentReindexQueue \<Rightarrow> StCommentDeleteActor \<Rightarrow> int
      \<Rightarrow> ('w, EnCommentDeletionError, StCommentDeleteTarget) eff" where
  "comment_vUndelete repo queue stActor iCommentId =
     bind_eff (comment_stTarget repo iCommentId) (\<lambda>stTarget.
     if \<not> bCanUndelete stTarget stActor then fail_eff (ComRestricted ComCannotUndelete)
     else
     bind_eff (map_err ComApplication (cdr_vUndelete repo stTarget)) (\<lambda>_.
     bind_eff (map_err ComApplication (crq_vUpdateComments queue [iCommentId])) (\<lambda>_.
     ret_eff stTarget)))"

subsection \<open>The replies of a comment\<close>

record StReplyNode =
  rn_i_id :: int
  rn_i_author_id :: int
  rn_opt_reply_to :: "int option"
  rn_i_depth :: int

definition reply_node :: "int \<Rightarrow> pg_comment \<Rightarrow> StReplyNode" where
  "reply_node d c = \<lparr>rn_i_id = pc_id c, rn_i_author_id = pc_userid c, rn_opt_reply_to = pc_replyto c, rn_i_depth = d\<rparr>"

text \<open>The recursive query: the live replies of the root, then those of each level.\<close>

definition reply_rows :: "pg_comment list \<Rightarrow> int \<Rightarrow> int \<Rightarrow> StReplyNode list" where
  "reply_rows cs d i = map (reply_node d) (filter (\<lambda>c. pc_replyto c = Some i \<and> \<not> pc_deleted c) cs)"

fun subtree_from :: "nat \<Rightarrow> pg_comment list \<Rightarrow> StReplyNode list \<Rightarrow> StReplyNode list option" where
  "subtree_from 0 cs level = None"
| "subtree_from (Suc n) cs level =
     (if level = [] then Some []
      else map_option ((@) level)
        (subtree_from n cs (concat (map (\<lambda>st. reply_rows cs (rn_i_depth st + 1) (rn_i_id st)) level))))"

definition subtree :: "pg_comment list \<Rightarrow> int \<Rightarrow> StReplyNode list option" where
  "subtree cs iRootId = subtree_from (Suc (length cs)) cs (reply_rows cs 0 iRootId)"

text \<open>\<open>mapChildren\<close>: the nodes grouped by parent, each group in the order of the ids.\<close>

definition mapChildren :: "int \<Rightarrow> StReplyNode list \<Rightarrow> int \<Rightarrow> StReplyNode list" where
  "mapChildren iRootId vecNodes p =
     sort_key rn_i_id (filter (\<lambda>n. coalesce iRootId (rn_opt_reply_to n) = p) vecNodes)"

fun vAppendPostorder :: "nat \<Rightarrow> (int \<Rightarrow> StReplyNode list) \<Rightarrow> int \<Rightarrow> StReplyNode list option" where
  "vAppendPostorder 0 children p = None"
| "vAppendPostorder (Suc n) children p =
     map_option concat (those (map (\<lambda>c. map_option (\<lambda>out. out @ [c]) (vAppendPostorder n children (rn_i_id c)))
       (children p)))"

definition vecReplyNodesPostorder :: "pg_comment list \<Rightarrow> int \<Rightarrow> StReplyNode list option" where
  "vecReplyNodesPostorder cs iRootId =
     (case subtree cs iRootId of None \<Rightarrow> None
      | Some vecNodes \<Rightarrow> vAppendPostorder (Suc (length cs)) (mapChildren iRootId vecNodes) iRootId)"

definition stReplyBonusAndReason :: "bool \<Rightarrow> int \<Rightarrow> int \<times> rstr" where
  "stReplyBonusAndReason bDropScore iDepth =
     (if \<not> bDropScore then (0, ([55, 46, 49, 32, 1054, 1090, 1074, 1077, 1090, 32, 1085, 1072, 32, 1085, 1077, 1082, 1086, 1088, 1088, 1077, 1082, 1090, 1085, 1086, 1077, 32, 1089, 1086, 1086, 1073, 1097, 1077, 1085, 1080, 1077, 32, 40, 1072, 1074, 1090, 1086, 41] :: rstr) \<comment> \<open>7.1 Otvet na nekorrektnoe soobshchenie (avto)\<close>)
      else if iDepth = 0 then (-2, ([55, 46, 49, 32, 1054, 1090, 1074, 1077, 1090, 32, 1085, 1072, 32, 1085, 1077, 1082, 1086, 1088, 1088, 1077, 1082, 1090, 1085, 1086, 1077, 32, 1089, 1086, 1086, 1073, 1097, 1077, 1085, 1080, 1077, 32, 40, 1072, 1074, 1090, 1086, 44, 32, 1091, 1088, 1086, 1074, 1077, 1085, 1100, 32, 48, 41] :: rstr) \<comment> \<open>7.1 Otvet na nekorrektnoe soobshchenie (avto, uroven 0)\<close>)
      else if iDepth = 1 then (-1, ([55, 46, 49, 32, 1054, 1090, 1074, 1077, 1090, 32, 1085, 1072, 32, 1085, 1077, 1082, 1086, 1088, 1088, 1077, 1082, 1090, 1085, 1086, 1077, 32, 1089, 1086, 1086, 1073, 1097, 1077, 1085, 1080, 1077, 32, 40, 1072, 1074, 1090, 1086, 44, 32, 1091, 1088, 1086, 1074, 1077, 1085, 1100, 32, 49, 41] :: rstr) \<comment> \<open>7.1 Otvet na nekorrektnoe soobshchenie (avto, uroven 1)\<close>)
      else (0, ([55, 46, 49, 32, 1054, 1090, 1074, 1077, 1090, 32, 1085, 1072, 32, 1085, 1077, 1082, 1086, 1088, 1088, 1077, 1082, 1090, 1085, 1086, 1077, 32, 1089, 1086, 1086, 1073, 1097, 1077, 1085, 1080, 1077, 32, 40, 1072, 1074, 1090, 1086, 44, 32, 1091, 1088, 1086, 1074, 1077, 1085, 1100, 32, 62, 49, 41] :: rstr) \<comment> \<open>7.1 Otvet na nekorrektnoe soobshchenie (avto, uroven (gt)1)\<close>))"

subsection \<open>The transactions (src/infra/postgres/comment_deletion_repository.rs)\<close>

definition comment_target_row ::
    "(rstr \<Rightarrow> rstr) \<Rightarrow> time \<Rightarrow> pg \<Rightarrow> pg_comment \<Rightarrow> pg_user \<Rightarrow> pg_topic \<times> pg_group \<times> pg_section
      \<Rightarrow> StCommentDeleteTarget" where
  "comment_target_row lower now db c a = (\<lambda>(t, g, s).
     \<lparr>ct_iCommentId = pc_id c, ct_iTopicId = pc_topic c, ct_iAuthorId = pc_userid c,
      ct_sAuthorNick = pu_nick a, ct_iAuthorScore = coalesce 0 (pu_score a),
      ct_bDeleted = pc_deleted c, ct_bTopicDeleted = pt_deleted t, ct_bTopicExpired = topic_expired now s t,
      ct_bTopicDraft = pt_draft t, ct_bCommentsHidden = (coalesce (- 9999) (pt_postscore t) = 10002),
      ct_bHasReplies = list_ex (\<lambda>r. pc_replyto r = Some (pc_id c) \<and> \<not> pc_deleted r) (db_comments db),
      ct_dtPostdate = pc_postdate c,
      ct_optDeletedBy = map_option di_delby (del_info_of db (pc_id c)),
      ct_sPostIp = coalesce [] (pc_postip c), ct_iUserAgentId = coalesce 0 (pc_ua_id c),
      ct_sCanonicalTopicUrl = (u ''/'') @ section_prefix lower (ps_id s) (ps_name s) @ (u ''/'') @ pg_urlname g
        @ (u ''/'') @ show_int (pt_id t)\<rparr>)"

definition comment_optFindTarget :: "(rstr \<Rightarrow> rstr) \<Rightarrow> time \<Rightarrow> int \<Rightarrow> StCommentDeleteTarget option pg_eff" where
  "comment_optFindTarget lower now iCommentId = (\<lambda>db.
     (Inr (case comment_of db iCommentId of None \<Rightarrow> None
       | Some c \<Rightarrow> (case (user_of db (pc_userid c), topic_join db (pc_topic c)) of
           (Some a, Some j) \<Rightarrow> Some (comment_target_row lower now db c a j) | _ \<Rightarrow> None)), db))"

definition iEffectiveBonus :: "time \<Rightarrow> int \<Rightarrow> int \<Rightarrow> int pg_eff" where
  "iEffectiveBonus now iAuthorId iRequestedBonus =
     (if iRequestedBonus = 0 \<or> iAuthorId = I_ANONYMOUS_USER_ID then ret_eff iRequestedBonus
      else bind_eff (fetch_one db_users (\<lambda>r. pu_id r = iAuthorId)) (\<lambda>r.
        ret_eff (if user_frozen now r then 0 else iRequestedBonus)))"

definition vNotifyDeleted :: "time \<Rightarrow> int \<Rightarrow> int \<Rightarrow> int \<Rightarrow> int \<Rightarrow> rstr \<Rightarrow> unit pg_eff" where
  "vNotifyDeleted now iAuthorId iDeletedBy iTopicId iCommentId sReason =
     (if iAuthorId = iDeletedBy \<or> iAuthorId = I_ANONYMOUS_USER_ID then ret_eff ()
      else bind_eff (fetch_one db_users (\<lambda>r. pu_id r = iAuthorId)) (\<lambda>r.
        if user_frozen now r then ret_eff ()
        else insert_event (del_event iAuthorId iTopicId (Some iCommentId) sReason)))"

definition bDeleteOne :: "time \<Rightarrow> int \<Rightarrow> int \<Rightarrow> int \<Rightarrow> rstr \<Rightarrow> int \<Rightarrow> int \<Rightarrow> bool \<Rightarrow> bool pg_eff" where
  "bDeleteOne now iCommentId iAuthorId iDeletedBy sReason iRequestedBonus iTopicId bNotify =
     bind_eff (exec_update db_comments db_comments_update (\<lambda>c. pc_id c = iCommentId \<and> \<not> pc_deleted c)
       (pc_deleted_update (\<lambda>_. True))) (\<lambda>iRows.
     if iRows = 0 then ret_eff False
     else
     bind_eff (iEffectiveBonus now iAuthorId iRequestedBonus) (\<lambda>iBonus.
     bind_eff (if iBonus \<noteq> 0 then bind_eff (add_score iAuthorId iBonus) (\<lambda>_. ret_eff ()) else ret_eff ()) (\<lambda>_.
     bind_eff (insert_del_info now \<lparr>di_msgid = iCommentId, di_delby = iDeletedBy, di_reason = Some sReason,
       di_deldate = Some now, di_bonus = Some iBonus\<rparr>) (\<lambda>_.
     bind_eff (if bNotify then vNotifyDeleted now iAuthorId iDeletedBy iTopicId iCommentId sReason
               else ret_eff ()) (\<lambda>_.
     ret_eff True)))))"

definition vDeleteEvents :: "int list \<Rightarrow> unit pg_eff" where
  "vDeleteEvents vecCommentIds =
     (if vecCommentIds = [] then ret_eff ()
      else delete_events (\<lambda>e. (case ue_comment_id e of None \<Rightarrow> False | Some i \<Rightarrow> i \<in> set vecCommentIds)
        \<and> ue_type e \<in> {REPLY, WATCH, REF, REACTION, WARNING}))"

text \<open>The loop over the replies, collecting the ids really deleted.\<close>

fun delete_replies ::
    "time \<Rightarrow> StCommentDeleteActor \<Rightarrow> StCommentDeleteTarget \<Rightarrow> bool \<Rightarrow> StReplyNode list \<Rightarrow> int list pg_eff" where
  "delete_replies now stActor stTarget bDropScore [] = ret_eff []"
| "delete_replies now stActor stTarget bDropScore (stNode # nodes) =
     (let (iBonus, sReason) = stReplyBonusAndReason bDropScore (rn_i_depth stNode) in
      bind_eff (bDeleteOne now (rn_i_id stNode) (rn_i_author_id stNode) (ca_iUserId stActor) sReason iBonus
        (ct_iTopicId stTarget) (\<not> ct_bTopicExpired stTarget)) (\<lambda>b.
      bind_eff (delete_replies now stActor stTarget bDropScore nodes) (\<lambda>ids.
      ret_eff (if b then rn_i_id stNode # ids else ids))))"

text \<open>Not returning from the query or the walk (see above) is the error \<open>db_failure\<close>.\<close>

definition delete_reply_tree ::
    "time \<Rightarrow> StCommentDeleteActor \<Rightarrow> StCommentDeleteTarget \<Rightarrow> StDeleteCommentCommand \<Rightarrow> int list pg_eff" where
  "delete_reply_tree now stActor stTarget stCommand =
     (if ca_bModerator stActor \<and> cc_bDeleteReplies stCommand
      then bind_eff (\<lambda>db. (ok_or db_failure (vecReplyNodesPostorder (db_comments db) (ct_iCommentId stTarget)), db))
        (delete_replies now stActor stTarget (wrap_i32 (- cc_iPenalty stCommand) < -2))
      else ret_eff [])"

definition subtract_comments :: "time \<Rightarrow> int \<Rightarrow> int \<Rightarrow> unit pg_eff" where
  "subtract_comments now iTopicId n =
     bind_eff (exec_update_checked db_topics db_topics_update (\<lambda>t. pt_id t = iTopicId)
       (\<lambda>t. t\<lparr>pt_stat1 := pt_stat1 t - n, pt_lastmod := now\<rparr>) (\<lambda>t. in_i32 (pt_stat1 t))) (\<lambda>_.
     bind_eff (exec_update db_topics db_topics_update (\<lambda>t. pt_id t = iTopicId \<and> pt_stat3 t > pt_stat1 t)
       (\<lambda>t. t\<lparr>pt_stat3 := pt_stat1 t\<rparr>)) (\<lambda>_. ret_eff ()))"

definition finish_deletion :: "time \<Rightarrow> int \<Rightarrow> int list \<Rightarrow> int list pg_eff" where
  "finish_deletion now iTopicId vecDeletedIds =
     bind_eff (if vecDeletedIds \<noteq> [] then subtract_comments now iTopicId (int (length vecDeletedIds)) else ret_eff ()) (\<lambda>_.
     bind_eff (vDeleteEvents vecDeletedIds) (\<lambda>_.
     ret_eff vecDeletedIds))"

definition comment_delete_body ::
    "time \<Rightarrow> StCommentDeleteActor \<Rightarrow> StCommentDeleteTarget \<Rightarrow> StDeleteCommentCommand \<Rightarrow> int list pg_eff" where
  "comment_delete_body now stActor stTarget stCommand =
     bind_eff (if ca_bModerator stActor then ret_eff []
       else select_rows db_comments (\<lambda>c. pc_replyto c = Some (ct_iCommentId stTarget) \<and> \<not> pc_deleted c)) (\<lambda>replies.
     if replies \<noteq> [] then fail_eff Forbidden else
     bind_eff (delete_reply_tree now stActor stTarget stCommand) (\<lambda>ids.
     bind_eff (bDeleteOne now (ct_iCommentId stTarget) (ct_iAuthorId stTarget) (ca_iUserId stActor)
       (cc_sReason stCommand) (wrap_i32 (- cc_iPenalty stCommand)) (ct_iTopicId stTarget) True) (\<lambda>b.
     finish_deletion now (ct_iTopicId stTarget) (if b then ids @ [ct_iCommentId stTarget] else ids))))"

definition next_comment :: "pg_comment list \<Rightarrow> int \<Rightarrow> int \<Rightarrow> int option" where
  "next_comment cs iTopicId iCommentId =
     (let ids = map pc_id (filter (\<lambda>c. pc_topic c = iTopicId \<and> \<not> pc_deleted c \<and> iCommentId \<le> pc_id c) cs)
      in if ids = [] then None else Some (Min (set ids)))"

definition comment_repo_stDelete ::
    "time \<Rightarrow> StCommentDeleteActor \<Rightarrow> StCommentDeleteTarget \<Rightarrow> StDeleteCommentCommand
      \<Rightarrow> StCommentDeleteMutation pg_eff" where
  "comment_repo_stDelete now stActor stTarget stCommand =
     bind_eff (transaction (comment_delete_body now stActor stTarget stCommand)) (\<lambda>ids db.
       (Inr \<lparr>cd_vecDeletedIds = ids,
         cd_optNextCommentId = next_comment (db_comments db) (ct_iTopicId stTarget) (ct_iCommentId stTarget)\<rparr>, db))"

definition comment_repo_vUndelete :: "time \<Rightarrow> StCommentDeleteTarget \<Rightarrow> unit pg_eff" where
  "comment_repo_vUndelete now stTarget = transaction (
     bind_eff (fetch_optional db_del_info (\<lambda>d. di_msgid d = ct_iCommentId stTarget)) (\<lambda>r.
     bind_eff (case (case r of None \<Rightarrow> None | Some d \<Rightarrow> di_bonus d) of
                 None \<Rightarrow> ret_eff ()
               | Some iBonus \<Rightarrow> (if iBonus \<noteq> 0
                   then bind_eff (add_score (ct_iAuthorId stTarget) (- iBonus)) (\<lambda>_. ret_eff ())
                   else ret_eff ())) (\<lambda>_.
     bind_eff (exec_update db_comments db_comments_update (\<lambda>c. pc_id c = ct_iCommentId stTarget)
       (pc_deleted_update (\<lambda>_. False))) (\<lambda>_.
     bind_eff (delete_del_info now (ct_iCommentId stTarget)) (\<lambda>_.
     bind_eff (exec_update db_topics db_topics_update (\<lambda>t. pt_id t = ct_iTopicId stTarget)
       (pt_lastmod_update (\<lambda>_. now))) (\<lambda>_.
     ret_eff ()))))))"

subsection \<open>The replies are found, all of them, children first\<close>

inductive live_reply :: "pg_comment list \<Rightarrow> int \<Rightarrow> int \<Rightarrow> pg_comment \<Rightarrow> bool" for cs and iRootId where
  direct: "c \<in> set cs \<Longrightarrow> pc_replyto c = Some iRootId \<Longrightarrow> \<not> pc_deleted c \<Longrightarrow> live_reply cs iRootId 0 c"
| deeper: "live_reply cs iRootId d p \<Longrightarrow> c \<in> set cs \<Longrightarrow> pc_replyto c = Some (pc_id p) \<Longrightarrow> \<not> pc_deleted c \<Longrightarrow>
    live_reply cs iRootId (d + 1) c"

inductive_cases live_replyE: "live_reply cs iRootId d c"

definition replies_later :: "pg_comment list \<Rightarrow> bool" where
  "replies_later cs \<longleftrightarrow> (\<forall>c\<in>set cs. \<forall>p. pc_replyto c = Some p \<longrightarrow> p < pc_id c)"

definition id_rank :: "pg_comment list \<Rightarrow> int \<Rightarrow> nat" where
  "id_rank cs i = card {x \<in> pc_id ` set cs. i < x}"

lemma id_rank_less: "j \<in> pc_id ` set cs \<Longrightarrow> i < j \<Longrightarrow> id_rank cs j < id_rank cs i"
  unfolding id_rank_def by (rule psubset_card_mono) auto

lemma id_rank_le: "id_rank cs i \<le> length cs"
proof -
  have "id_rank cs i \<le> card (pc_id ` set cs)"
    unfolding id_rank_def by (rule card_mono) auto
  also have "\<dots> \<le> card (set cs)" by (rule card_image_le) simp
  also have "\<dots> \<le> length cs" by (rule card_length)
  finally show ?thesis .
qed

lemma reply_rows_iff:
  "x \<in> set (reply_rows cs d i) \<longleftrightarrow> (\<exists>c\<in>set cs. x = reply_node d c \<and> pc_replyto c = Some i \<and> \<not> pc_deleted c)"
  by (auto simp: reply_rows_def)

lemma reply_node_simps [simp]:
  "rn_i_id (reply_node d c) = pc_id c" "rn_i_depth (reply_node d c) = d"
  "rn_opt_reply_to (reply_node d c) = pc_replyto c" "rn_i_author_id (reply_node d c) = pc_userid c"
  by (simp_all add: reply_node_def)

lemma subtree_from_total:
  assumes "replies_later cs"
  shows "(\<forall>x\<in>set level. id_rank cs (rn_i_id x) < n) \<Longrightarrow> \<exists>ns. subtree_from (Suc n) cs level = Some ns"
proof (induction n arbitrary: level)
  case 0
  then show ?case by (cases level) auto
next
  case (Suc n)
  let ?next = "concat (map (\<lambda>st. reply_rows cs (rn_i_depth st + 1) (rn_i_id st)) level)"
  have "\<forall>x\<in>set ?next. id_rank cs (rn_i_id x) < n"
  proof
    fix x assume "x \<in> set ?next"
    then obtain st c where st: "st \<in> set level" "c \<in> set cs" "x = reply_node (rn_i_depth st + 1) c"
      "pc_replyto c = Some (rn_i_id st)" by (auto simp: reply_rows_iff)
    with assms have "rn_i_id st < rn_i_id x" by (auto simp: replies_later_def)
    with st have "id_rank cs (rn_i_id x) < id_rank cs (rn_i_id st)" by (intro id_rank_less) auto
    with Suc.prems st show "id_rank cs (rn_i_id x) < n" by fastforce
  qed
  from Suc.IH [OF this] show ?case by auto
qed

lemma subtree_total: "replies_later cs \<Longrightarrow> \<exists>ns. subtree cs i = Some ns"
proof -
  assume later: "replies_later cs"
  have "id_rank cs (rn_i_id x) < length cs" if "x \<in> set (reply_rows cs 0 i)" for x
  proof -
    from that obtain c where "c \<in> set cs" "x = reply_node 0 c" "pc_replyto c = Some i"
      by (auto simp: reply_rows_iff)
    with later have "id_rank cs (rn_i_id x) < id_rank cs i"
      by (intro id_rank_less) (auto simp: replies_later_def)
    with id_rank_le [of cs i] show ?thesis by simp
  qed
  with subtree_from_total [OF later] show ?thesis unfolding subtree_def by blast
qed

lemma subtree_from_sound:
  assumes "subtree_from n cs level = Some ns" and "\<forall>x\<in>set level. \<exists>d c. x = reply_node d c \<and> live_reply cs i d c"
  shows "\<forall>x\<in>set ns. \<exists>d c. x = reply_node d c \<and> live_reply cs i d c"
  using assms
proof (induction n cs level arbitrary: ns rule: subtree_from.induct)
  case (2 n cs level)
  show ?case
  proof (cases "level = []")
    case False
    let ?next = "concat (map (\<lambda>st. reply_rows cs (rn_i_depth st + 1) (rn_i_id st)) level)"
    from 2(2) False obtain ms where ms: "subtree_from n cs ?next = Some ms" "ns = level @ ms" by auto
    have "\<exists>d c. x = reply_node d c \<and> live_reply cs i d c" if "x \<in> set ?next" for x
      using that 2(3) by (fastforce simp: reply_rows_iff intro: live_reply.deeper)
    with 2(1) [OF False ms(1)] ms 2(3) show ?thesis by auto
  qed (use 2(2) in simp)
qed simp

lemma subtree_from_closed:
  assumes "subtree_from n cs level = Some ns"
  shows "set level \<subseteq> set ns \<and> (\<forall>x\<in>set ns. set (reply_rows cs (rn_i_depth x + 1) (rn_i_id x)) \<subseteq> set ns)"
  using assms
proof (induction n cs level arbitrary: ns rule: subtree_from.induct)
  case (2 n cs level)
  show ?case
  proof (cases "level = []")
    case False
    let ?next = "concat (map (\<lambda>st. reply_rows cs (rn_i_depth st + 1) (rn_i_id st)) level)"
    from 2(2) False obtain ms where ms: "subtree_from n cs ?next = Some ms" "ns = level @ ms" by auto
    have "set (reply_rows cs (rn_i_depth x + 1) (rn_i_id x)) \<subseteq> set ?next" if "x \<in> set level" for x
      using that by auto
    with 2(1) [OF False ms(1)] ms(2) show ?thesis by (auto 4 3)
  qed (use 2(2) in simp)
qed simp

lemma subtree_iff:
  assumes "subtree cs i = Some ns"
  shows "x \<in> set ns \<longleftrightarrow> (\<exists>d c. x = reply_node d c \<and> live_reply cs i d c)"
proof
  assume "x \<in> set ns"
  moreover have "\<exists>d c. y = reply_node d c \<and> live_reply cs i d c" if "y \<in> set (reply_rows cs 0 i)" for y
    using that live_reply.direct unfolding reply_rows_iff by blast
  ultimately show "\<exists>d c. x = reply_node d c \<and> live_reply cs i d c"
    using subtree_from_sound assms unfolding subtree_def by blast
next
  assume "\<exists>d c. x = reply_node d c \<and> live_reply cs i d c"
  then obtain d c where x: "x = reply_node d c" and "live_reply cs i d c" by blast
  note cl = subtree_from_closed [OF assms [unfolded subtree_def]]
  from \<open>live_reply cs i d c\<close> have "reply_node d c \<in> set ns"
  proof (induction rule: live_reply.induct)
    case (direct c)
    then have "reply_node 0 c \<in> set (reply_rows cs 0 i)" by (auto simp: reply_rows_iff)
    with cl show ?case by blast
  next
    case (deeper d p c)
    then have "reply_node (d + 1) c \<in> set (reply_rows cs (rn_i_depth (reply_node d p) + 1) (rn_i_id (reply_node d p)))"
      by (auto simp: reply_rows_iff)
    with cl deeper.IH show ?case by blast
  qed
  with x show "x \<in> set ns" by simp
qed

subsubsection \<open>The walk\<close>

lemma those_Some_iff: "those xs = Some ys \<longleftrightarrow> xs = map Some ys"
  by (induction xs arbitrary: ys) (auto split: option.splits)

lemma those_exists: "(\<forall>x\<in>set xs. f x \<noteq> None) \<Longrightarrow> \<exists>ys. those (map f xs) = Some ys"
  by (induction xs) (auto split: option.splits)

lemma postorder_steps:
  assumes "vAppendPostorder (Suc n) ch p = Some out"
  obtains outs where "length outs = length (ch p)" "out = concat outs"
    "\<And>k. k < length (ch p) \<Longrightarrow> \<exists>o1. vAppendPostorder n ch (rn_i_id (ch p ! k)) = Some o1 \<and> outs ! k = o1 @ [ch p ! k]"
proof -
  from assms obtain outs where outs:
    "map (\<lambda>c. map_option (\<lambda>out. out @ [c]) (vAppendPostorder n ch (rn_i_id c))) (ch p) = map Some outs"
    "out = concat outs" by (auto simp: those_Some_iff)
  from arg_cong [OF outs(1), of length] have len: "length outs = length (ch p)" by simp
  have "\<exists>o1. vAppendPostorder n ch (rn_i_id (ch p ! k)) = Some o1 \<and> outs ! k = o1 @ [ch p ! k]"
    if k: "k < length (ch p)" for k
  proof -
    from arg_cong [OF outs(1), of "\<lambda>l. l ! k"] k len
    have "map_option (\<lambda>out. out @ [ch p ! k]) (vAppendPostorder n ch (rn_i_id (ch p ! k))) = Some (outs ! k)"
      by simp
    then show ?thesis by auto
  qed
  with that outs(2) len show ?thesis by blast
qed

text \<open>Every element's children are in \<open>S\<close> or stand before it.\<close>

fun closed_before :: "(int \<Rightarrow> StReplyNode list) \<Rightarrow> StReplyNode set \<Rightarrow> StReplyNode list \<Rightarrow> bool" where
  "closed_before ch S [] \<longleftrightarrow> True"
| "closed_before ch S (x # xs) \<longleftrightarrow> set (ch (rn_i_id x)) \<subseteq> S \<and> closed_before ch (insert x S) xs"

lemma closed_before_append [simp]:
  "closed_before ch S (a @ b) \<longleftrightarrow> closed_before ch S a \<and> closed_before ch (S \<union> set a) b"
  by (induction a arbitrary: S) auto

lemma closed_before_mono: "closed_before ch S a \<Longrightarrow> S \<subseteq> T \<Longrightarrow> closed_before ch T a"
proof (induction a arbitrary: S T)
  case (Cons x xs)
  from Cons.prems Cons.IH [of "insert x S" "insert x T"] show ?case by auto
qed simp

lemma closed_before_concat: "(\<forall>a\<in>set as. closed_before ch {} a) \<Longrightarrow> closed_before ch S (concat as)"
proof (induction as arbitrary: S)
  case (Cons a as)
  from Cons.prems closed_before_mono [of ch "{}" a S] Cons.IH [of "S \<union> set a"] show ?case by simp
qed simp

lemma postorder_closed:
  "vAppendPostorder n ch p = Some out \<Longrightarrow> set (ch p) \<subseteq> set out \<and> closed_before ch {} out \<and>
    (\<forall>x\<in>set out. \<exists>q. x \<in> set (ch q))"
proof (induction n arbitrary: p out)
  case (Suc n)
  from Suc.prems obtain outs where outs: "length outs = length (ch p)" "out = concat outs"
    "\<And>k. k < length (ch p) \<Longrightarrow> \<exists>o1. vAppendPostorder n ch (rn_i_id (ch p ! k)) = Some o1 \<and> outs ! k = o1 @ [ch p ! k]"
    by (rule postorder_steps) blast
  have each: "closed_before ch {} (outs ! k) \<and> ch p ! k \<in> set (outs ! k) \<and> (\<forall>x\<in>set (outs ! k). \<exists>q. x \<in> set (ch q))"
    if "k < length (ch p)" for k
  proof -
    from outs(3) [OF that] obtain o1 where o1: "vAppendPostorder n ch (rn_i_id (ch p ! k)) = Some o1"
      "outs ! k = o1 @ [ch p ! k]" by blast
    from that have "ch p ! k \<in> set (ch p)" by simp
    with Suc.IH [OF o1(1)] o1(2) show ?thesis by auto
  qed
  have "closed_before ch {} a \<and> (\<forall>x\<in>set a. \<exists>q. x \<in> set (ch q))" if "a \<in> set outs" for a
  proof -
    from that outs(1) obtain k where "k < length (ch p)" "a = outs ! k" by (metis in_set_conv_nth)
    with each show ?thesis by blast
  qed
  moreover have "set (ch p) \<subseteq> set (concat outs)"
    using each outs(1) by (fastforce simp: in_set_conv_nth)
  ultimately show ?case using outs(2) by (auto intro: closed_before_concat)
qed simp

lemma postorder_total:
  assumes "\<And>q c. c \<in> set (ch q) \<Longrightarrow> q < rn_i_id c \<and> rn_i_id c \<in> pc_id ` set cs"
  shows "id_rank cs p \<le> n \<Longrightarrow> \<exists>out. vAppendPostorder (Suc n) ch p = Some out"
proof (induction n arbitrary: p)
  case 0
  have "ch p = []"
  proof (rule ccontr)
    assume "ch p \<noteq> []"
    then obtain c where "c \<in> set (ch p)" by (cases "ch p") auto
    with assms [of c p] id_rank_less [of "rn_i_id c" cs p] 0 show False by simp
  qed
  then show ?case by simp
next
  case (Suc n)
  have "vAppendPostorder (Suc n) ch (rn_i_id c) \<noteq> None" if "c \<in> set (ch p)" for c
  proof -
    from assms [OF that] have "id_rank cs (rn_i_id c) < id_rank cs p" by (intro id_rank_less) auto
    with Suc.prems Suc.IH [of "rn_i_id c"] show ?thesis by auto
  qed
  then have "\<forall>c\<in>set (ch p). map_option (\<lambda>out. out @ [c]) (vAppendPostorder (Suc n) ch (rn_i_id c)) \<noteq> None"
    by auto
  from those_exists [OF this] show ?case by auto
qed

lemma mapChildren_iff:
  "x \<in> set (mapChildren i ns p) \<longleftrightarrow> x \<in> set ns \<and> coalesce i (rn_opt_reply_to x) = p"
  by (auto simp: mapChildren_def)

lemma live_reply_facts:
  "live_reply cs i d c \<Longrightarrow> c \<in> set cs \<and> \<not> pc_deleted c \<and> pc_replyto c \<noteq> None"
  by (induction rule: live_reply.induct) auto

lemma vecReplyNodesPostorder_iff:
  assumes "vecReplyNodesPostorder cs i = Some out"
  shows "x \<in> set out \<longleftrightarrow> (\<exists>d c. x = reply_node d c \<and> live_reply cs i d c)"
    and "out = xs @ reply_node d p # ys \<Longrightarrow> c \<in> set cs \<Longrightarrow> pc_replyto c = Some (pc_id p) \<Longrightarrow> \<not> pc_deleted c \<Longrightarrow>
      reply_node (d + 1) c \<in> set xs"
proof -
  from assms obtain ns where ns: "subtree cs i = Some ns"
    and post: "vAppendPostorder (Suc (length cs)) (mapChildren i ns) i = Some out"
    by (auto simp: vecReplyNodesPostorder_def split: option.splits)
  note spec = subtree_iff [OF ns] and pc = postorder_closed [OF post]
  show iff: "x \<in> set out \<longleftrightarrow> (\<exists>d c. x = reply_node d c \<and> live_reply cs i d c)" for x
  proof
    assume "x \<in> set out"
    with pc spec show "\<exists>d c. x = reply_node d c \<and> live_reply cs i d c"
      by (auto simp: mapChildren_iff)
  next
    assume "\<exists>d c. x = reply_node d c \<and> live_reply cs i d c"
    then obtain d c where x: "x = reply_node d c" and live: "live_reply cs i d c" by blast
    from live have "reply_node d c \<in> set out"
    proof (induction rule: live_reply.induct)
      case (direct c)
      then have "reply_node 0 c \<in> set (mapChildren i ns i)"
        by (auto simp: mapChildren_iff spec intro: live_reply.direct)
      with pc show ?case by blast
    next
      case (deeper d p c)
      then have "reply_node (d + 1) c \<in> set (mapChildren i ns (rn_i_id (reply_node d p)))"
        by (auto simp: mapChildren_iff spec intro: live_reply.deeper)
      moreover obtain xs ys where "out = xs @ reply_node d p # ys" using deeper.IH by (metis split_list)
      ultimately show ?case using pc by auto
    qed
    with x show "x \<in> set out" by simp
  qed
  assume out: "out = xs @ reply_node d p # ys" and c: "c \<in> set cs" "pc_replyto c = Some (pc_id p)" "\<not> pc_deleted c"
  from out iff [of "reply_node d p"] obtain d' p' where "reply_node d p = reply_node d' p'" "live_reply cs i d' p'"
    by auto
  then have live: "live_reply cs i d p'" "pc_id p' = pc_id p" by (auto simp: reply_node_def)
  with c have "live_reply cs i (d + 1) c" by (auto intro: live_reply.deeper)
  with c live have "reply_node (d + 1) c \<in> set (mapChildren i ns (pc_id p))"
    unfolding mapChildren_iff spec by auto
  with pc out show "reply_node (d + 1) c \<in> set xs" by auto
qed

lemma vecReplyNodesPostorder_total:
  assumes "replies_later cs"
  shows "\<exists>out. vecReplyNodesPostorder cs i = Some out"
proof -
  obtain ns where ns: "subtree cs i = Some ns" using subtree_total [OF assms] by blast
  have "q < rn_i_id c \<and> rn_i_id c \<in> pc_id ` set cs" if "c \<in> set (mapChildren i ns q)" for q c
    using that assms live_reply_facts [of cs i]
    by (fastforce simp: mapChildren_iff subtree_iff [OF ns] replies_later_def)
  from postorder_total [of "mapChildren i ns" cs i "length cs", OF this id_rank_le] ns
  show ?thesis by (auto simp: vecReplyNodesPostorder_def)
qed

subsection \<open>What a deletion does to the store\<close>

definition mark_deleted :: "int set \<Rightarrow> pg_comment list \<Rightarrow> pg_comment list" where
  "mark_deleted X = map (\<lambda>c. if pc_id c \<in> X then c\<lparr>pc_deleted := True\<rparr> else c)"

definition live_ids :: "pg_comment list \<Rightarrow> int set" where
  "live_ids cs = pc_id ` {c \<in> set cs. \<not> pc_deleted c}"

definition counts :: "pg \<Rightarrow> (int \<times> int) list" where
  "counts db = map (\<lambda>t. (pt_id t, pt_stat1 t)) (db_topics db)"

definition bonuses :: "pg \<Rightarrow> (int \<times> int option) list" where
  "bonuses db = map (\<lambda>r. (di_msgid r, di_bonus r)) (db_del_info db)"

definition freezes :: "pg \<Rightarrow> (int \<times> time option) list" where
  "freezes db = map (\<lambda>r. (pu_id r, pu_frozen_until r)) (db_users db)"

text \<open>What a user loses of a requested penalty: nothing while frozen.\<close>

definition charged :: "time \<Rightarrow> pg \<Rightarrow> int \<Rightarrow> int \<Rightarrow> int" where
  "charged now db a req = (if a \<noteq> I_ANONYMOUS_USER_ID \<and> (\<exists>r. user_of db a = Some r \<and> user_frozen now r) then 0 else req)"

lemma charged_cong:
  assumes "freezes db' = freezes db"
  shows "charged now db' a req = charged now db a req"
proof -
  have "map_of (freezes d) a = map_option pu_frozen_until (user_of d a)" for d
  proof -
    have "map_of (map (\<lambda>r. (pu_id r, pu_frozen_until r)) us) a = map_option pu_frozen_until (List.find (\<lambda>r. pu_id r = a) us)" for us :: "pg_user list"
      by (induction us) auto
    then show ?thesis by (simp add: freezes_def user_of_def)
  qed
  with assms have "map_option pu_frozen_until (user_of db' a) = map_option pu_frozen_until (user_of db a)" by metis
  then have "(\<exists>r. user_of db' a = Some r \<and> user_frozen now r) = (\<exists>r. user_of db a = Some r \<and> user_frozen now r)"
    by (cases "user_of db' a"; cases "user_of db a") (simp_all add: user_frozen_def)
  then show ?thesis by (simp add: charged_def)
qed

text \<open>
  \<open>del_step ids ps db db'\<close>: exactly the comments \<open>ids\<close> were deleted, all of them live before;
  each got a deletion record with the bonus applied to its author's score (\<open>ps\<close> lists author
  and bonus), and no other score changed.
\<close>

definition del_step :: "int list \<Rightarrow> (int \<times> int) list \<Rightarrow> pg \<Rightarrow> pg \<Rightarrow> bool" where
  "del_step ids ps db db' \<longleftrightarrow>
     length ps = length ids \<and> distinct ids \<and> set ids \<subseteq> live_ids (db_comments db) \<and>
     db_comments db' = mark_deleted (set ids) (db_comments db) \<and>
     bonuses db' = bonuses db @ zip ids (map (Some \<circ> snd) ps) \<and>
     scores db' = fold (\<lambda>(a, b). bump_score a b) ps (scores db) \<and>
     counts db' = counts db \<and> freezes db' = freezes db"

lemma mark_mark: "mark_deleted X (mark_deleted Y cs) = mark_deleted (Y \<union> X) cs"
  by (auto simp: mark_deleted_def)

lemma mark_none: "mark_deleted {} cs = cs"
  by (simp add: mark_deleted_def)

lemma live_ids_mark: "comments.keyed db \<Longrightarrow> live_ids (mark_deleted X (db_comments db)) = live_ids (db_comments db) - X"
  by (force simp: live_ids_def mark_deleted_def comments.keyed_def)

lemma keyed_mark: "db_comments db' = mark_deleted X (db_comments db) \<Longrightarrow> comments.keyed db' = comments.keyed db"
  by (auto simp: comments.keyed_def mark_deleted_def comp_def if_distrib cong: if_cong)

lemma del_step_refl: "del_step [] [] db db"
  by (simp add: del_step_def mark_none)

lemma del_step_trans:
  assumes "comments.keyed db" and "del_step ids ps db db1" and "del_step ids' ps' db1 db2"
  shows "del_step (ids @ ids') (ps @ ps') db db2"
proof -
  have "db_comments db1 = mark_deleted (set ids) (db_comments db)" using assms(2) by (simp add: del_step_def)
  with assms(1) have "live_ids (db_comments db1) = live_ids (db_comments db) - set ids"
    by (simp add: live_ids_mark)
  with assms(2,3) show ?thesis
    by (auto simp: del_step_def mark_mark)
qed

lemma content_stats: "content db' = content db \<Longrightarrow> scores db' = scores db \<and> db_comments db' = db_comments db \<and>
    bonuses db' = bonuses db \<and> counts db' = counts db"
  by (simp add: content_def bonuses_def counts_def)

lemma counts_touch [simp]: "counts (touch_topic now i db) = counts db"
  by (simp add: counts_def touch_topic_def update_where_def comp_def if_distrib cong: if_cong)

lemma delete_one_frame: "keeps (\<lambda>db. content db = c) (if bNotify then vNotifyDeleted now a b t i s else ret_eff ())"
  unfolding vNotifyDeleted_def by (intro keeps)

lemma notify_freezes:
  assumes "(if bNotify then vNotifyDeleted now a b t i s else ret_eff ()) db = (Inr (), db')"
  shows "freezes db' = freezes db"
proof -
  have "freezes db2 = freezes db1" if "insert_event e db1 = (Inr (), db2)" for e db1 db2
    using insert_event_Inr [OF that] by (simp add: freezes_def update_where_def comp_def if_distrib cong: if_cong)
  with assms show ?thesis
    by (auto simp: vNotifyDeleted_def bind_eff_Inr_iff fetch_one_def split: if_splits)
qed

lemma update_where_mark:
  "update_where (\<lambda>c. pc_id c = i \<and> \<not> pc_deleted c) (pc_deleted_update (\<lambda>_. True)) = mark_deleted {i}"
  by (rule ext) (auto simp: update_where_def mark_deleted_def)

lemma bDeleteOne_Inr:
  assumes "bDeleteOne now i a iBy s req t notify db = (Inr b, db')"
  shows "if i \<in> live_ids (db_comments db)
    then b \<and> del_step [i] [(a, charged now db a req)] db db' else \<not> b \<and> db' = db"
proof -
  let ?p = "\<lambda>c. pc_id c = i \<and> \<not> pc_deleted c"
  have live: "filter ?p (db_comments db) = [] \<longleftrightarrow> i \<notin> live_ids (db_comments db)"
    by (auto simp: live_ids_def filter_empty_conv)
  show ?thesis
  proof (cases "i \<in> live_ids (db_comments db)")
    case False
    then have none: "filter ?p (db_comments db) = []" by (simp add: live)
    then have "db_comments_update (update_where ?p f) db = db" for f
      using update_where_none [OF none, of f] by simp
    with assms none False show ?thesis
      by (simp add: bDeleteOne_def bind_eff_def exec_update_def)
  next
    case True
    let ?db1 = "db_comments_update (mark_deleted {i}) db"
    from assms True live obtain bonus db2 x db3 y db4 where
      eff: "iEffectiveBonus now a req ?db1 = (Inr bonus, db2)"
      and score: "(if bonus \<noteq> 0 then bind_eff (add_score a bonus) (\<lambda>_. ret_eff ()) else ret_eff ()) db2 = (Inr x, db3)"
      and ins: "insert_del_info now \<lparr>di_msgid = i, di_delby = iBy, di_reason = Some s, di_deldate = Some now,
        di_bonus = Some bonus\<rparr> db3 = (Inr y, db4)"
      and tail: "(if notify then vNotifyDeleted now a iBy t i s else ret_eff ()) db4 = (Inr (), db')"
      and b: "b"
      unfolding bDeleteOne_def
      by (auto simp: bind_eff_Inr_iff exec_update_def update_where_mark cong: if_cong)
    have db2: "db2 = ?db1" "bonus = charged now db a req"
      using eff by (auto simp: iEffectiveBonus_def fetch_one_def bind_eff_Inr_iff charged_def user_of_def ok_or_iff split: if_splits option.splits)
    have db3: "scores db3 = bump_score a bonus (scores db)" "db_comments db3 = mark_deleted {i} (db_comments db)"
      "db_del_info db3 = db_del_info db" "db_topics db3 = db_topics db"
      using score db2(1) scores_add_score [of a bonus ?db1]
      by (auto simp: bind_eff_Inr_iff add_score_Inr scores_def split: if_splits)
    have fr3: "freezes db3 = freezes db"
      using score db2(1)
      by (auto simp: bind_eff_Inr_iff add_score_Inr freezes_def update_where_def comp_def if_distrib cong: if_cong split: if_splits)
    have db4: "db4 = touch_topic now i (db_del_info_update (\<lambda>rs. rs @ [\<lparr>di_msgid = i, di_delby = iBy,
        di_reason = Some s, di_deldate = Some now, di_bonus = Some bonus\<rparr>]) db3)"
      using ins by (auto simp: insert_del_info_def bind_eff_def exec_insert_def split: if_splits)
    have "content db' = content db4"
      using keepsD [OF delete_one_frame _ tail] by blast
    moreover have "freezes db' = freezes db"
      using notify_freezes [OF tail] fr3 by (simp add: db4 freezes_def touch_topic_def)
    ultimately have "del_step [i] [(a, bonus)] db db'" using content_stats [of db' db4] True db3
      by (simp add: del_step_def db4) (simp add: touch_topic_def bonuses_def scores_def counts_def)
    with True b db2(2) show ?thesis by simp
  qed
qed

lemma charged_cases: "charged now db a req = 0 \<or> charged now db a req = req"
  by (simp add: charged_def)

text \<open>The penalty asked for a reply: two points at the first level, one at the second.\<close>

definition reply_charge :: "bool \<Rightarrow> int \<Rightarrow> int" where
  "reply_charge low d = (if low \<and> d = 0 then - 2 else if low \<and> d = 1 then - 1 else 0)"

lemma reply_charge_iff: "stReplyBonusAndReason low d = (req, s) \<Longrightarrow> req = reply_charge low d"
  by (auto simp: stReplyBonusAndReason_def reply_charge_def split: if_splits)

lemma delete_replies_Inr:
  "delete_replies now a t low nodes db = (Inr ids, db') \<Longrightarrow> comments.keyed db \<Longrightarrow>
    \<exists>ps. del_step ids ps db db' \<and> set ids = rn_i_id ` set nodes \<inter> live_ids (db_comments db) \<and>
      (\<forall>(x, b)\<in>set ps. b \<in> {0, -1, -2} \<and> (\<not> low \<longrightarrow> b = 0)) \<and>
      (\<forall>(k, x, b)\<in>set (zip ids ps). \<exists>n\<in>set nodes. k = rn_i_id n \<and> x = rn_i_author_id n \<and>
         b = charged now db x (reply_charge low (rn_i_depth n)))"
proof (induction nodes arbitrary: db ids)
  case Nil
  then show ?case by (intro exI [of _ "[]"]) (auto simp: del_step_refl)
next
  case (Cons n nodes)
  obtain req s where bs: "stReplyBonusAndReason low (rn_i_depth n) = (req, s)" by fastforce
  from Cons.prems(1) bs obtain b db1 ids' where
    one: "bDeleteOne now (rn_i_id n) (rn_i_author_id n) (ca_iUserId a) s req (ct_iTopicId t) (\<not> ct_bTopicExpired t) db = (Inr b, db1)"
    and rest: "delete_replies now a t low nodes db1 = (Inr ids', db')"
    and ids: "ids = (if b then rn_i_id n # ids' else ids')"
    by (auto simp: bind_eff_Inr_iff)
  have req: "req \<in> {0, -1, -2} \<and> (\<not> low \<longrightarrow> req = 0)"
    using bs by (auto simp: stReplyBonusAndReason_def split: if_splits)
  show ?case
  proof (cases "rn_i_id n \<in> live_ids (db_comments db)")
    case True
    define bonus where "bonus = charged now db (rn_i_author_id n) req"
    with True bDeleteOne_Inr [OF one] charged_cases [of now db "rn_i_author_id n" req] have b: "b" "bonus \<in> {0, req}"
      and step: "del_step [rn_i_id n] [(rn_i_author_id n, bonus)] db db1" by auto
    then have marked: "db_comments db1 = mark_deleted {rn_i_id n} (db_comments db)" by (simp add: del_step_def)
    with Cons.prems(2) have keyed: "comments.keyed db1" by (simp add: keyed_mark)
    from Cons.IH [OF rest keyed] obtain ps where ps: "del_step ids' ps db1 db'"
      "set ids' = rn_i_id ` set nodes \<inter> live_ids (db_comments db1)"
      "\<forall>(x, b)\<in>set ps. b \<in> {0, -1, -2} \<and> (\<not> low \<longrightarrow> b = 0)"
      "\<forall>(k, x, b)\<in>set (zip ids' ps). \<exists>n\<in>set nodes. k = rn_i_id n \<and> x = rn_i_author_id n \<and>
         b = charged now db1 x (reply_charge low (rn_i_depth n))" by blast
    have same: "charged now db1 x q = charged now db x q" for x q
      by (rule charged_cong) (use step in \<open>simp add: del_step_def\<close>)
    have "\<forall>(k, x, b)\<in>set (zip ids ((rn_i_author_id n, bonus) # ps)). \<exists>n\<in>set (n # nodes). k = rn_i_id n \<and> x = rn_i_author_id n \<and>
         b = charged now db x (reply_charge low (rn_i_depth n))"
      using ps(4) ids b(1) unfolding same by (auto simp: bonus_def reply_charge_iff [OF bs])
    moreover have "live_ids (db_comments db1) = live_ids (db_comments db) - {rn_i_id n}"
      using Cons.prems(2) marked by (simp add: live_ids_mark)
    then have "set ids = rn_i_id ` set (n # nodes) \<inter> live_ids (db_comments db)" using ps(2) True ids b(1) by auto
    moreover have "\<forall>(x, b)\<in>set ((rn_i_author_id n, bonus) # ps). b \<in> {0, -1, -2} \<and> (\<not> low \<longrightarrow> b = 0)"
      using ps(3) b(2) req by auto
    moreover from del_step_trans [OF Cons.prems(2) step ps(1)] ids b(1)
    have "del_step ids ((rn_i_author_id n, bonus) # ps) db db'" by simp
    ultimately show ?thesis by blast
  next
    case False
    with bDeleteOne_Inr [OF one] have "\<not> b" "db1 = db" by auto
    then obtain ps where "del_step ids ps db db'" "set ids = rn_i_id ` set nodes \<inter> live_ids (db_comments db)"
      "\<forall>(x, b)\<in>set ps. b \<in> {0, -1, -2} \<and> (\<not> low \<longrightarrow> b = 0)"
      "\<forall>(k, x, b)\<in>set (zip ids ps). \<exists>n\<in>set nodes. k = rn_i_id n \<and> x = rn_i_author_id n \<and>
         b = charged now db x (reply_charge low (rn_i_depth n))"
      using Cons.IH [of db ids] rest Cons.prems(2) ids by auto
    with False show ?thesis by (intro exI [of _ ps] conjI) (simp_all, fastforce)
  qed
qed

definition deletion_targets :: "StCommentDeleteActor \<Rightarrow> StCommentDeleteTarget \<Rightarrow> StDeleteCommentCommand \<Rightarrow> pg \<Rightarrow> int set" where
  "deletion_targets a t c db = insert (ct_iCommentId t)
     (if ca_bModerator a \<and> cc_bDeleteReplies c
      then {pc_id x |x d. live_reply (db_comments db) (ct_iCommentId t) d x} else {})"

text \<open>The second update of the statistics only touches \<open>stat3\<close>.\<close>

lemma subtract_comments_Inr:
  assumes "subtract_comments now i n db = (Inr x, db')"
  shows "counts db' = map (\<lambda>(k, m). (k, if k = i then m - n else m)) (counts db)
    \<and> scores db' = scores db \<and> db_comments db' = db_comments db \<and> bonuses db' = bonuses db"
proof -
  have "db' = db_topics_update (\<lambda>ts. update_where (\<lambda>x. pt_id x = i \<and> pt_stat3 x > pt_stat1 x) (\<lambda>x. x\<lparr>pt_stat3 := pt_stat1 x\<rparr>)
      (update_where (\<lambda>x. pt_id x = i) (\<lambda>x. x\<lparr>pt_stat1 := pt_stat1 x - n, pt_lastmod := now\<rparr>) ts)) db"
    using assms
    by (auto simp: subtract_comments_def bind_eff_Inr_iff exec_update_checked_def exec_update_def comp_def split: if_splits)
  then show ?thesis
    by (simp add: counts_def scores_def bonuses_def update_where_def)
qed

lemma vDeleteEvents_content: "keeps (\<lambda>db. content db = c) (vDeleteEvents ids)"
  unfolding vDeleteEvents_def by (intro keeps)

lemma finish_deletion_Inr:
  assumes "finish_deletion now i ids db = (Inr ids', db')"
  shows "ids' = ids \<and> counts db' = map (\<lambda>(k, m). (k, if k = i then m - int (length ids) else m)) (counts db)
    \<and> scores db' = scores db \<and> db_comments db' = db_comments db \<and> bonuses db' = bonuses db"
proof -
  from assms obtain x db1 where
    stats: "(if ids \<noteq> [] then subtract_comments now i (int (length ids)) else ret_eff ()) db = (Inr x, db1)"
    and events: "vDeleteEvents ids db1 = (Inr (), db')" and ids: "ids' = ids"
    by (auto simp: finish_deletion_def bind_eff_Inr_iff)
  have "content db' = content db1" using keepsD [OF vDeleteEvents_content _ events] by blast
  then have frame: "scores db' = scores db1 \<and> db_comments db' = db_comments db1 \<and> bonuses db' = bonuses db1 \<and> counts db' = counts db1"
    by (rule content_stats)
  show ?thesis
  proof (cases "ids = []")
    case True
    with stats frame ids show ?thesis by (simp add: split_def cong: if_cong)
  next
    case False
    with stats have "subtract_comments now i (int (length ids)) db = (Inr x, db1)" by simp
    with subtract_comments_Inr [OF this] frame ids show ?thesis by simp
  qed
qed

definition penalty_bounds :: "int \<Rightarrow> (int \<times> int) list \<Rightarrow> bool" where
  "penalty_bounds iPenalty ps \<longleftrightarrow> (\<forall>(x, b)\<in>set ps. b \<le> 0 \<and> (b = - iPenalty \<or> (2 < iPenalty \<and> - 2 \<le> b) \<or> b = 0))"

text \<open>
  Who is charged what for a deleted comment: the author of the target the penalty, the author of a live
  reply at some depth his share of it when it is above two.
\<close>

definition penalised :: "time \<Rightarrow> StCommentDeleteTarget \<Rightarrow> int \<Rightarrow> pg \<Rightarrow> int \<Rightarrow> int \<Rightarrow> int \<Rightarrow> bool" where
  "penalised now t iPenalty db k a b \<longleftrightarrow>
     k = ct_iCommentId t \<and> a = ct_iAuthorId t \<and> b = charged now db a (- iPenalty) \<or>
     (\<exists>d x. live_reply (db_comments db) (ct_iCommentId t) d x \<and> k = pc_id x \<and> a = pc_userid x \<and>
        b = charged now db a (reply_charge (2 < iPenalty) d))"

definition comment_delete_post ::
    "time \<Rightarrow> StCommentDeleteTarget \<Rightarrow> int set \<Rightarrow> int \<Rightarrow> int list \<Rightarrow> pg \<Rightarrow> pg \<Rightarrow> bool" where
  "comment_delete_post now t targets iPenalty ids db db' \<longleftrightarrow>
     distinct ids \<and> set ids = targets \<inter> live_ids (db_comments db) \<and>
     db_comments db' = mark_deleted (set ids) (db_comments db) \<and>
     counts db' = map (\<lambda>(k, n). (k, if k = ct_iTopicId t then n - int (length ids) else n)) (counts db) \<and>
     (\<exists>ps. length ps = length ids \<and> penalty_bounds iPenalty ps \<and>
        (\<forall>(k, a, b)\<in>set (zip ids ps). penalised now t iPenalty db k a b) \<and>
        bonuses db' = bonuses db @ zip ids (map (Some \<circ> snd) ps) \<and>
        scores db' = fold (\<lambda>(a, b). bump_score a b) ps (scores db))"

lemma delete_reply_tree_Inr:
  assumes tree: "delete_reply_tree now a t c db = (Inr ids, db')" and keyed: "comments.keyed db"
    and pen: "0 \<le> cc_iPenalty c" "cc_iPenalty c \<le> 20"
  obtains ps where "del_step ids ps db db'" "penalty_bounds (cc_iPenalty c) ps"
    "\<forall>(k, x, b)\<in>set (zip ids ps). penalised now t (cc_iPenalty c) db k x b"
    "insert (ct_iCommentId t) (set ids) \<inter> live_ids (db_comments db) =
      deletion_targets a t c db \<inter> live_ids (db_comments db)"
proof (cases "ca_bModerator a \<and> cc_bDeleteReplies c")
  case False
  with tree have "ids = []" "db' = db" by (auto simp: delete_reply_tree_def split: if_splits)
  moreover have "deletion_targets a t c db = {ct_iCommentId t}" using False by (auto simp: deletion_targets_def)
  ultimately show ?thesis using that [of "[]"] by (simp add: del_step_refl penalty_bounds_def)
next
  case True
  let ?low = "wrap_i32 (- cc_iPenalty c) < -2"
  from tree True obtain out where out: "vecReplyNodesPostorder (db_comments db) (ct_iCommentId t) = Some out"
    and loop: "delete_replies now a t ?low out db = (Inr ids, db')"
    by (auto simp: delete_reply_tree_def bind_eff_Inr_iff ok_or_iff)
  from delete_replies_Inr [OF loop keyed] obtain ps where ps: "del_step ids ps db db'"
    "set ids = rn_i_id ` set out \<inter> live_ids (db_comments db)"
    "\<forall>(x, b)\<in>set ps. b \<in> {0, -1, -2} \<and> (\<not> ?low \<longrightarrow> b = 0)"
    and who: "\<forall>(k, x, b)\<in>set (zip ids ps). \<exists>n\<in>set out. k = rn_i_id n \<and> x = rn_i_author_id n \<and>
         b = charged now db x (reply_charge ?low (rn_i_depth n))" by blast
  have "rn_i_id ` set out = {pc_id x |x d. live_reply (db_comments db) (ct_iCommentId t) d x}"
  proof (intro set_eqI iffI)
    fix k assume "k \<in> {pc_id x |x d. live_reply (db_comments db) (ct_iCommentId t) d x}"
    then obtain x d where "k = rn_i_id (reply_node d x)" "reply_node d x \<in> set out"
      using vecReplyNodesPostorder_iff(1) [OF out] by force
    then show "k \<in> rn_i_id ` set out" by blast
  qed (use vecReplyNodesPostorder_iff(1) [OF out] in force)
  with ps(2) True have "insert (ct_iCommentId t) (set ids) \<inter> live_ids (db_comments db) =
      deletion_targets a t c db \<inter> live_ids (db_comments db)"
    by (auto simp: deletion_targets_def)
  moreover have wrapped: "wrap_i32 (- cc_iPenalty c) = - cc_iPenalty c" using pen by (simp add: in_i32_def)
  have "penalised now t (cc_iPenalty c) db k x b" if "(k, x, b) \<in> set (zip ids ps)" for k x b
  proof -
    from who that obtain n where n: "n \<in> set out" "k = rn_i_id n" "x = rn_i_author_id n"
      "b = charged now db x (reply_charge ?low (rn_i_depth n))" by blast
    from n(1) obtain d y where "n = reply_node d y" "live_reply (db_comments db) (ct_iCommentId t) d y"
      using vecReplyNodesPostorder_iff(1) [OF out] by blast
    moreover have "?low = (2 < cc_iPenalty c)" unfolding wrapped by linarith
    ultimately show ?thesis unfolding penalised_def using n(2-4) by (intro disjI2 exI [of _ d] exI [of _ y]) simp
  qed
  then have "\<forall>(k, x, b)\<in>set (zip ids ps). penalised now t (cc_iPenalty c) db k x b" by blast
  moreover from ps(3) wrapped have "penalty_bounds (cc_iPenalty c) ps"
    by (fastforce simp: penalty_bounds_def)
  ultimately show ?thesis using that ps(1) by blast
qed

lemma comment_body_Inr:
  assumes keyed: "comments.keyed db" and pen: "0 \<le> cc_iPenalty c" "cc_iPenalty c \<le> 20"
    and run: "comment_delete_body now a t c db = (Inr ids, db')"
  shows "comment_delete_post now t (deletion_targets a t c db) (cc_iPenalty c) ids db db'
    \<and> (\<not> ca_bModerator a \<longrightarrow> (\<forall>x\<in>set (db_comments db). pc_replyto x = Some (ct_iCommentId t) \<longrightarrow> pc_deleted x))"
proof -
  let ?i = "ct_iCommentId t" and ?pen = "cc_iPenalty c"
  have root: "wrap_i32 (- ?pen) = - ?pen" using pen by (simp add: in_i32_def)
  have no_reply: "\<not> ca_bModerator a \<longrightarrow> (\<forall>x\<in>set (db_comments db). pc_replyto x = Some ?i \<longrightarrow> pc_deleted x)"
  proof (intro impI ballI)
    fix x assume h: "\<not> ca_bModerator a" "x \<in> set (db_comments db)" "pc_replyto x = Some ?i"
    show "pc_deleted x"
    proof (rule ccontr)
      assume "\<not> pc_deleted x"
      with h have "filter (\<lambda>c. pc_replyto c = Some ?i \<and> \<not> pc_deleted c) (db_comments db) \<noteq> []"
        by (auto simp: filter_empty_conv)
      with run h show False
        by (simp add: comment_delete_body_def bind_eff_def select_rows_def)
    qed
  qed
  from run obtain ids1 db1 b db2 where
    tree: "delete_reply_tree now a t c db = (Inr ids1, db1)"
    and one: "bDeleteOne now ?i (ct_iAuthorId t) (ca_iUserId a) (cc_sReason c) (- ?pen) (ct_iTopicId t) True db1 = (Inr b, db2)"
    and fin: "finish_deletion now (ct_iTopicId t) (if b then ids1 @ [?i] else ids1) db2 = (Inr ids, db')"
    unfolding comment_delete_body_def root
    by (auto simp: bind_eff_Inr_iff select_rows_def split: if_splits)
  obtain ps1 where step1: "del_step ids1 ps1 db db1" and bound1: "penalty_bounds ?pen ps1"
    and who1: "\<forall>(k, x, b)\<in>set (zip ids1 ps1). penalised now t ?pen db k x b"
    and set1: "insert ?i (set ids1) \<inter> live_ids (db_comments db) = deletion_targets a t c db \<inter> live_ids (db_comments db)"
    using delete_reply_tree_Inr [OF tree keyed pen] .
  have live1: "live_ids (db_comments db1) = live_ids (db_comments db) - set ids1"
    using step1 keyed by (simp add: del_step_def live_ids_mark)
  let ?ids = "if b then ids1 @ [?i] else ids1"
  obtain ps where step: "del_step ?ids ps db db2" and bound: "penalty_bounds ?pen ps"
    and who: "\<forall>(k, x, b)\<in>set (zip ?ids ps). penalised now t ?pen db k x b"
    and set: "set ?ids = deletion_targets a t c db \<inter> live_ids (db_comments db)"
  proof (cases "?i \<in> live_ids (db_comments db1)")
    case True
    define bonus where "bonus = charged now db (ct_iAuthorId t) (- ?pen)"
    have "charged now db1 (ct_iAuthorId t) (- ?pen) = bonus"
      unfolding bonus_def by (rule charged_cong) (use step1 in \<open>simp add: del_step_def\<close>)
    with True bDeleteOne_Inr [OF one] charged_cases [of now db "ct_iAuthorId t" "- ?pen"] have b: "b" "bonus \<in> {0, - ?pen}"
      and step2: "del_step [?i] [(ct_iAuthorId t, bonus)] db1 db2" by (auto simp: bonus_def)
    have "length ids1 = length ps1" using step1 by (simp add: del_step_def)
    then have "\<forall>(k, x, b)\<in>set (zip ?ids (ps1 @ [(ct_iAuthorId t, bonus)])). penalised now t ?pen db k x b"
      using who1 b(1) by (auto simp: penalised_def bonus_def)
    moreover
    from del_step_trans [OF keyed step1 step2] b(1)
    have "del_step ?ids (ps1 @ [(ct_iAuthorId t, bonus)]) db db2" by simp
    moreover have "penalty_bounds ?pen (ps1 @ [(ct_iAuthorId t, bonus)])"
      using bound1 b(2) pen by (auto simp: penalty_bounds_def)
    moreover have "set ?ids = deletion_targets a t c db \<inter> live_ids (db_comments db)"
      using b(1) True live1 set1 step1 by (auto simp: del_step_def)
    ultimately show ?thesis by (intro that)
  next
    case False
    with bDeleteOne_Inr [OF one] have b: "\<not> b" "db2 = db1" by auto
    moreover have "insert ?i (set ids1) \<inter> live_ids (db_comments db) = set ids1"
      using False step1 unfolding live1 del_step_def by blast
    then have "set ids1 = deletion_targets a t c db \<inter> live_ids (db_comments db)" using set1 by simp
    ultimately show ?thesis using that [of ps1] step1 bound1 who1 by simp
  qed
  have ids: "?ids = ids" using finish_deletion_Inr [OF fin] by simp
  from finish_deletion_Inr [OF fin [unfolded ids]] step [unfolded ids] bound who [unfolded ids] set [unfolded ids]
  have "comment_delete_post now t (deletion_targets a t c db) ?pen ids db db'"
    unfolding comment_delete_post_def del_step_def by (intro conjI exI [of _ ps]) simp_all
  with no_reply show ?thesis by blast
qed

text \<open>The walk over the replies of a comment always finishes when replies have larger ids than what
  they answer, and it yields each live reply at any depth - and nothing else - with the answers
  to every reply before the reply itself.\<close>

theorem postorder_contract:
  assumes "replies_later cs"
  shows "\<exists>out. vecReplyNodesPostorder cs i = Some out
    \<and> (\<forall>x. x \<in> set out \<longleftrightarrow> (\<exists>d c. x = reply_node d c \<and> live_reply cs i d c))
    \<and> (\<forall>xs d p ys c. out = xs @ reply_node d p # ys \<and> c \<in> set cs \<and> pc_replyto c = Some (pc_id p) \<and> \<not> pc_deleted c
        \<longrightarrow> reply_node (d + 1) c \<in> set xs)"
proof -
  obtain out where out: "vecReplyNodesPostorder cs i = Some out"
    using vecReplyNodesPostorder_total [OF assms] by blast
  with vecReplyNodesPostorder_iff [OF out] show ?thesis by blast
qed

definition ex_comment :: "int \<Rightarrow> int \<Rightarrow> int option \<Rightarrow> pg_comment" where
  "ex_comment i a r = \<lparr>pc_id = i, pc_topic = 5, pc_userid = a, pc_replyto = r, pc_deleted = False,
     pc_postdate = 1000, pc_postip = None, pc_ua_id = None, pc_title = [], pc_editor_id = None, pc_edit_date = None,
     pc_edit_count = Some 0, pc_reactions = []\<rparr>"

definition ex_thread :: "pg_comment list" where
  "ex_thread = [ex_comment 20 7 None, ex_comment 21 8 (Some 20), ex_comment 22 7 (Some 21)]"

theorem postorder_contract_witness:
  "\<exists>out. vecReplyNodesPostorder ex_thread 20 = Some out \<and> reply_node 1 (ex_comment 22 7 (Some 21)) \<in> set out"
proof -
  have later: "replies_later ex_thread" by (simp add: replies_later_def ex_thread_def ex_comment_def)
  have "live_reply ex_thread 20 0 (ex_comment 21 8 (Some 20))"
    by (rule live_reply.direct) (simp_all add: ex_thread_def ex_comment_def)
  then have "live_reply ex_thread 20 (0 + 1) (ex_comment 22 7 (Some 21))"
    by (rule live_reply.deeper) (simp_all add: ex_thread_def ex_comment_def)
  with postorder_contract [OF later, of 20] show ?thesis by auto
qed

lemma comment_delete_Inr:
  assumes "comment_repo_stDelete now a t c db = (Inr m, db')"
  shows "comment_delete_body now a t c db = (Inr (cd_vecDeletedIds m), db')"
  using assms by (auto simp: comment_repo_stDelete_def bind_eff_Inr_iff transaction_Inr)

text \<open>C10: The deletion transaction for comments deletes exactly the live comments among the target and -
  for a moderator who asked for it - all its live descendants, and reports each once; the
  topic's counter falls by their number.  Every deleted comment gets a record with its bonus: minus the penalty for the
  target, and, when the penalty exceeds two, minus two for a direct reply and minus one for an answer to one;
  nothing for deeper replies and for authors who are frozen.  Each bonus is added to the score of the author of that very comment (of the target: the one its row names),
  no other score changes, and an error changes nothing.\<close>

theorem comment_delete_effect:
  assumes "comments.keyed db" and "0 \<le> cc_iPenalty c" and "cc_iPenalty c \<le> 20"
    and "comment_repo_stDelete now a t c db = (r, db')"
  shows "case r of Inl e \<Rightarrow> db' = db
    | Inr m \<Rightarrow> comment_delete_post now t (deletion_targets a t c db) (cc_iPenalty c) (cd_vecDeletedIds m) db db'"
proof (cases r)
  case (Inl e)
  with assms(4) show ?thesis
    by (auto simp: comment_repo_stDelete_def bind_eff_Inl_iff transaction_err)
next
  case (Inr m)
  with assms(4) have "comment_delete_body now a t c db = (Inr (cd_vecDeletedIds m), db')"
    by (simp add: comment_delete_Inr)
  from comment_body_Inr [OF assms(1-3) this] Inr show ?thesis by simp
qed

text \<open>C11: Deleting leaves no orphans: after an author deleted a comment, or a moderator deleted one together
  with its replies, no live comment answers a comment deleted by that request.\<close>

theorem comment_delete_no_orphans:
  assumes "comments.keyed db" and "0 \<le> cc_iPenalty c" and "cc_iPenalty c \<le> 20"
    and "comment_repo_stDelete now a t c db = (Inr m, db')"
    and "ca_bModerator a \<longrightarrow> cc_bDeleteReplies c" and "\<not> ca_bModerator a \<longrightarrow> \<not> cc_bDeleteReplies c"
  shows "\<forall>x\<in>set (db_comments db'). \<not> pc_deleted x \<longrightarrow> pc_replyto x \<notin> Some ` set (cd_vecDeletedIds m)"
proof (intro ballI impI notI)
  fix x assume x: "x \<in> set (db_comments db')" "\<not> pc_deleted x" and rep: "pc_replyto x \<in> Some ` set (cd_vecDeletedIds m)"
  let ?i = "ct_iCommentId t" and ?ids = "cd_vecDeletedIds m"
  from comment_body_Inr [OF assms(1-3) comment_delete_Inr [OF assms(4)]]
  have post: "db_comments db' = mark_deleted (set ?ids) (db_comments db)"
    "set ?ids = deletion_targets a t c db \<inter> live_ids (db_comments db)"
    and none: "\<not> ca_bModerator a \<longrightarrow> (\<forall>x\<in>set (db_comments db). pc_replyto x = Some ?i \<longrightarrow> pc_deleted x)"
    by (simp_all add: comment_delete_post_def)
  from x post(1) have x0: "x \<in> set (db_comments db)" "pc_id x \<notin> set ?ids"
    by (auto simp: mark_deleted_def split: if_splits)
  from rep obtain p where p: "pc_replyto x = Some p" "p \<in> set ?ids" by auto
  show False
  proof (cases "ca_bModerator a")
    case False
    with assms(6) post(2) p(2) have "p = ?i" by (simp add: deletion_targets_def)
    with none False x0(1) p(1) x(2) show False by blast
  next
    case True
    from p(2) post(2) True assms(5) have "p = ?i \<or> (\<exists>y d. p = pc_id y \<and> live_reply (db_comments db) ?i d y)"
      by (auto simp: deletion_targets_def)
    then have "\<exists>d. live_reply (db_comments db) ?i d x"
    proof
      assume "p = ?i"
      with p(1) x0(1) x(2) show ?thesis by (blast intro: live_reply.direct)
    next
      assume "\<exists>y d. p = pc_id y \<and> live_reply (db_comments db) ?i d y"
      with p(1) x0(1) x(2) show ?thesis by (blast intro: live_reply.deeper)
    qed
    with True assms(5) have "pc_id x \<in> deletion_targets a t c db" by (auto simp: deletion_targets_def)
    moreover have "pc_id x \<in> live_ids (db_comments db)" using x0(1) x(2) by (auto simp: live_ids_def)
    ultimately show False using post(2) x0(2) by blast
  qed
qed

subsection \<open>Examples\<close>

definition ex_target :: StCommentDeleteTarget where
  "ex_target = \<lparr>ct_iCommentId = 20, ct_iTopicId = 5, ct_iAuthorId = 7, ct_sAuthorNick = u ''a'',
     ct_iAuthorScore = 100, ct_bDeleted = False, ct_bTopicDeleted = False, ct_bTopicExpired = False,
     ct_bTopicDraft = False, ct_bCommentsHidden = False, ct_bHasReplies = True, ct_dtPostdate = 1000,
     ct_optDeletedBy = None, ct_sPostIp = [], ct_iUserAgentId = 0, ct_sCanonicalTopicUrl = []\<rparr>"

definition ex_comment_db :: pg where
  "ex_comment_db = ex_db\<lparr>db_comments := ex_thread, db_topics := [ex_topic\<lparr>pt_stat1 := 3, pt_stat3 := 3\<rparr>]\<rparr>"

definition ex_comment_command :: StDeleteCommentCommand where
  "ex_comment_command = \<lparr>cc_iCommentId = 20, cc_sReason = u ''x'', cc_iPenalty = 5, cc_bDeleteReplies = True\<rparr>"

definition ex_comment_mod :: StCommentDeleteActor where
  "ex_comment_mod = \<lparr>ca_iUserId = 8, ca_bModerator = True\<rparr>"

lemma ex_walk: "vecReplyNodesPostorder ex_thread 20 =
    Some [reply_node 1 (ex_comment 22 7 (Some 21)), reply_node 0 (ex_comment 21 8 (Some 20))]"
  by (simp add: vecReplyNodesPostorder_def subtree_def reply_rows_def mapChildren_def ex_thread_def
      ex_comment_def reply_node_def numeral_eq_Suc)

lemma ex_comment_delete:
  "\<exists>db' next. comment_repo_stDelete 2000 ex_comment_mod ex_target ex_comment_command ex_comment_db
    = (Inr \<lparr>cd_vecDeletedIds = [22, 21, 20], cd_optNextCommentId = next\<rparr>, db')"
proof -
  let ?db = "ex_comment_db\<lparr>db_comments := ex_thread\<rparr>"
  have "vecReplyNodesPostorder (db_comments ex_comment_db) 20 =
    Some [reply_node 1 (ex_comment 22 7 (Some 21)), reply_node 0 (ex_comment 21 8 (Some 20))]"
    using ex_walk by (simp add: ex_comment_db_def)
  then show ?thesis
    by (simp add: comment_repo_stDelete_def transaction_def comment_delete_body_def delete_reply_tree_def
        ex_comment_mod_def ex_comment_command_def ex_target_def bind_eff_def stReplyBonusAndReason_def
        in_i32_def Let_def bDeleteOne_def exec_update_def ex_comment_db_def ex_thread_def ex_comment_def
        update_where_def iEffectiveBonus_def fetch_one_def I_ANONYMOUS_USER_ID_def ex_db_def ex_user_def
        user_frozen_def add_score_def exec_update_checked_def insert_del_info_def exec_insert_def
        user_of_def touch_topic_def vNotifyDeleted_def insert_event_def del_event_def topic_of_def comment_of_def
        ex_topic_def finish_deletion_def subtract_comments_def vDeleteEvents_def delete_events_def reply_node_def)
qed

lemma ex_comment_keyed: "comments.keyed ex_comment_db"
  by (simp add: comments.keyed_def ex_comment_db_def ex_thread_def ex_comment_def)

theorem comment_delete_effect_witness:
  "\<exists>db'. comment_delete_post 2000 ex_target (deletion_targets ex_comment_mod ex_target ex_comment_command ex_comment_db)
     5 [22, 21, 20] ex_comment_db db'"
proof -
  obtain db' next1 where run: "comment_repo_stDelete 2000 ex_comment_mod ex_target ex_comment_command ex_comment_db
    = (Inr \<lparr>cd_vecDeletedIds = [22, 21, 20], cd_optNextCommentId = next1\<rparr>, db')" using ex_comment_delete by blast
  show ?thesis
    using comment_delete_effect [OF ex_comment_keyed _ _ run] by (auto simp: ex_comment_command_def)
qed

theorem comment_delete_no_orphans_witness:
  "\<exists>db' :: pg. \<forall>x\<in>set (db_comments db'). \<not> pc_deleted x \<longrightarrow> pc_replyto x \<notin> Some ` {22, 21, 20}"
proof -
  obtain db' next1 where run: "comment_repo_stDelete 2000 ex_comment_mod ex_target ex_comment_command ex_comment_db
    = (Inr \<lparr>cd_vecDeletedIds = [22, 21, 20], cd_optNextCommentId = next1\<rparr>, db')" using ex_comment_delete by blast
  show ?thesis
    using comment_delete_no_orphans [OF ex_comment_keyed _ _ run]
    by (intro exI [of _ db']) (simp add: ex_comment_command_def ex_comment_mod_def)
qed

end
