(* ===== verification/User_Moderation.thy ===== *)
theory User_Moderation
  imports Comment_Deletion
begin

section \<open>Moderating users\<close>

text \<open>
  \<open>src/domain/user/moderation.rs\<close>, the service of \<open>src/application/user/mod.rs\<close> and the
  repository of \<open>src/infra/postgres/user_moderation_repository.rs\<close>: blocking, freezing,
  resetting profile fields, the audit log, and the mass deletion of a blocked user's posts.

  Parameters: the random password and its hash, \<open>rfc3339\<close> (chrono's formatting) and the
  time-zone operations of chrono-tz - \<open>tz_local\<close> (the wall clock and the offset of an
  instant), \<open>tz_from_local\<close> (what a wall clock means) and the calendar additions.
\<close>

subsection \<open>The model (src/domain/user/moderation.rs)\<close>

record StModerationUser =
  mu_iId :: int
  mu_sNick :: rstr
  mu_bModerator :: bool
  mu_bAdministrator :: bool
  mu_bAnonymous :: bool
  mu_bCorrector :: bool
  mu_bBlocked :: bool
  mu_iScore :: int

text \<open>Every mutation starts with the target and the acting user.\<close>

datatype EnUserModerationMutation =
    MBlock (mut_target: int) (mut_actor: int) rstr
  | MUnblock (mut_target: int) (mut_actor: int)
  | MScore50 (mut_target: int) (mut_actor: int)
  | MSetCorrector (mut_target: int) (mut_actor: int) bool
  | MResetPassword (mut_target: int) (mut_actor: int) rstr
  | MResetUserpic (mut_target: int) (mut_actor: int) bool
  | MRemoveUserInfo (mut_target: int) (mut_actor: int)
  | MRemoveTown (mut_target: int) (mut_actor: int)
  | MRemoveUrl (mut_target: int) (mut_actor: int)
  | MFreeze (mut_target: int) (mut_actor: int) rstr time bool
  | MBlockAndDelete (mut_target: int) (mut_actor: int) rstr

record StMassDeleteResult =
  md_vecTopicIds :: "int list"
  md_vecCommentIds :: "int list"
  md_vecSkippedCommentIds :: "int list"

text \<open>\<open>StUserModerationMutationResult\<close> is its only field.\<close>

type_synonym StUserModerationMutationResult = "StMassDeleteResult option"

record 'w TrUserModerationRepository =
  umr_optUser :: "int \<Rightarrow> ('w, app_error, StModerationUser option) eff"
  umr_stApply :: "EnUserModerationMutation \<Rightarrow> ('w, app_error, StUserModerationMutationResult) eff"

subsection \<open>Freezing terms (src/application/user/mod.rs)\<close>

datatype local_result = LrNone | LrSingle time int | LrAmbiguous "time \<times> int" "time \<times> int"

record tz_ops =
  tz_local :: "time \<Rightarrow> time \<times> int"
  tz_from_local :: "time \<Rightarrow> local_result"
  tz_add_days :: "time \<Rightarrow> nat \<Rightarrow> time option"
  tz_add_months :: "time \<Rightarrow> nat \<Rightarrow> time option"

text \<open>
  In the gap of a transition the wall clock is read with the offset valid before it: the
  first one found going back minute by minute, two days at most.
\<close>

fun gap_offset :: "tz_ops \<Rightarrow> time \<Rightarrow> nat \<Rightarrow> nat \<Rightarrow> int option" where
  "gap_offset tz dtLocal iMinutes 0 = None"
| "gap_offset tz dtLocal iMinutes (Suc n) =
     (case tz_from_local tz (dtLocal - minutes (int iMinutes)) of
        LrSingle _ off \<Rightarrow> Some off
      | LrAmbiguous _ (_, off) \<Rightarrow> Some off
      | LrNone \<Rightarrow> gap_offset tz dtLocal (iMinutes + 1) n)"

definition optResolveJavaLocalDateTime :: "tz_ops \<Rightarrow> time \<Rightarrow> int \<Rightarrow> time option" where
  "optResolveJavaLocalDateTime tz dtLocal iPreferredOffset =
     (case tz_from_local tz dtLocal of
        LrSingle t _ \<Rightarrow> Some t
      | LrAmbiguous (t1, off1) (t2, off2) \<Rightarrow>
          (if off1 = iPreferredOffset then Some t1
           else if off2 = iPreferredOffset then Some t2
           else Some (min t1 t2))
      | LrNone \<Rightarrow> map_option (\<lambda>off. dtLocal - seconds off) (gap_offset tz dtLocal 1 (48 * 60)))"

definition dtAddJavaCalendarDays :: "tz_ops \<Rightarrow> time \<Rightarrow> nat \<Rightarrow> time option" where
  "dtAddJavaCalendarDays tz dtNow iDays =
     (let (dtLocal, off) = tz_local tz dtNow in
      case tz_add_days tz dtLocal iDays of None \<Rightarrow> None
      | Some dtTarget \<Rightarrow> optResolveJavaLocalDateTime tz dtTarget off)"

definition dtAddJavaCalendarMonths :: "tz_ops \<Rightarrow> time \<Rightarrow> nat \<Rightarrow> time option" where
  "dtAddJavaCalendarMonths tz dtNow iMonths =
     (let (dtLocal, off) = tz_local tz dtNow in
      case tz_add_months tz dtLocal iMonths of None \<Rightarrow> None
      | Some dtTarget \<Rightarrow> optResolveJavaLocalDateTime tz dtTarget off)"

definition optFreezeUntilAt :: "tz_ops \<Rightarrow> rstr \<Rightarrow> time \<Rightarrow> (time \<times> bool) option" where
  "optFreezeUntilAt tz sShift dtNow =
     (let fixed = (\<lambda>d. Some (dtNow + d, False)) in
      let day = (\<lambda>n. map_option (\<lambda>t. (t, False)) (dtAddJavaCalendarDays tz dtNow n)) in
      let month = (\<lambda>n. map_option (\<lambda>t. (t, False)) (dtAddJavaCalendarMonths tz dtNow n)) in
      if sShift = ([1056, 1072, 1079, 1084, 1086, 1088, 1086, 1079, 1080, 1090, 1100] :: rstr) \<comment> \<open>Razmorozit\<close> then Some (dtNow, True)
      else if sShift = ([51, 48, 32, 1084, 1080, 1085, 1091, 1090] :: rstr) \<comment> \<open>30 minut\<close> then fixed (minutes 30)
      else if sShift = ([1095, 1072, 1089] :: rstr) \<comment> \<open>chas\<close> then fixed (hours 1)
      else if sShift = ([50, 32, 1095, 1072, 1089, 1072] :: rstr) \<comment> \<open>2 chasa\<close> then fixed (hours 2)
      else if sShift = ([51, 32, 1095, 1072, 1089, 1072] :: rstr) \<comment> \<open>3 chasa\<close> then fixed (hours 3)
      else if sShift = ([54, 32, 1095, 1072, 1089, 1086, 1074] :: rstr) \<comment> \<open>6 chasov\<close> then fixed (hours 6)
      else if sShift = ([57, 32, 1095, 1072, 1089, 1086, 1074] :: rstr) \<comment> \<open>9 chasov\<close> then fixed (hours 9)
      else if sShift = ([49, 50, 32, 1095, 1072, 1089, 1086, 1074] :: rstr) \<comment> \<open>12 chasov\<close> then fixed (hours 12)
      else if sShift = ([1089, 1091, 1090, 1082, 1080] :: rstr) \<comment> \<open>sutki\<close> then day 1
      else if sShift = ([1076, 1074, 1086, 1077, 32, 1089, 1091, 1090, 1086, 1082] :: rstr) \<comment> \<open>dvoe sutok\<close> then day 2
      else if sShift = ([51, 32, 1076, 1085, 1103] :: rstr) \<comment> \<open>3 dnya\<close> then day 3
      else if sShift = ([53, 32, 1076, 1085, 1077, 1081] :: rstr) \<comment> \<open>5 dnej\<close> then day 5
      else if sShift = ([1085, 1077, 1076, 1077, 1083, 1103] :: rstr) \<comment> \<open>nedelya\<close> then day 7
      else if sShift = ([1076, 1074, 1077, 32, 1085, 1077, 1076, 1077, 1083, 1080] :: rstr) \<comment> \<open>dve nedeli\<close> then day 14
      else if sShift = ([1084, 1077, 1089, 1103, 1094] :: rstr) \<comment> \<open>mesyats\<close> then month 1
      else if sShift = ([50, 32, 1084, 1077, 1089, 1103, 1094, 1072] :: rstr) \<comment> \<open>2 mesyatsa\<close> then month 2
      else if sShift = ([51, 32, 1084, 1077, 1089, 1103, 1094, 1072] :: rstr) \<comment> \<open>3 mesyatsa\<close> then month 3
      else None)"

subsection \<open>The service (src/application/user/mod.rs)\<close>

definition I_CORRECTOR_SCORE :: int where "I_CORRECTOR_SCORE = 200"

datatype EnUserModAction =
  ActBlock | ActUnblock | ActScore50 | ActToggleCorrector | ActResetPassword | ActRemoveUserInfo
  | ActRemoveTown | ActRemoveUrl | ActFreeze | ActBlockAndDelete

definition optFromForm :: "rstr \<Rightarrow> EnUserModAction option" where
  "optFromForm sAction =
     (if sAction = (u ''block'') then Some ActBlock
      else if sAction = (u ''unblock'') then Some ActUnblock
      else if sAction = (u ''score50'') then Some ActScore50
      else if sAction = (u ''toggle_corrector'') then Some ActToggleCorrector
      else if sAction = (u ''reset-password'') then Some ActResetPassword
      else if sAction = (u ''remove_userinfo'') then Some ActRemoveUserInfo
      else if sAction = (u ''remove_town'') then Some ActRemoveTown
      else if sAction = (u ''remove_url'') then Some ActRemoveUrl
      else if sAction = (u ''freeze'') then Some ActFreeze
      else if sAction = (u ''block-n-delete-comments'') then Some ActBlockAndDelete
      else None)"

record StUserModCommand =
  uc_iTargetUserId :: int
  uc_enAction :: EnUserModAction
  uc_optReason :: "rstr option"
  uc_optShift :: "rstr option"

datatype EnUserModOutcome = ProfileRedirect rstr | PasswordReset rstr | MassDelete StMassDeleteResult

definition bIsBlockable :: "StModerationUser \<Rightarrow> StUserSummary \<Rightarrow> bool" where
  "bIsBlockable stTarget stModerator \<longleftrightarrow>
     \<not> mu_bAnonymous stTarget \<and> us_canmod stModerator \<and> (\<not> mu_bModerator stTarget \<or> us_candel stModerator)"

definition bIsFreezable :: "StModerationUser \<Rightarrow> StUserSummary \<Rightarrow> bool" where
  "bIsFreezable stTarget stModerator \<longleftrightarrow> us_canmod stModerator \<and> \<not> mu_bModerator stTarget"

definition vRejectAnonymous :: "StModerationUser \<Rightarrow> app_error + unit" where
  "vRejectAnonymous stTarget = (if mu_bAnonymous stTarget then Inl Forbidden else Inr ())"

definition require :: "bool \<Rightarrow> app_error \<Rightarrow> app_error + unit" where
  "require b e = (if b then Inr () else Inl e)"

definition mutation_of ::
    "tz_ops \<Rightarrow> rstr \<Rightarrow> (rstr \<Rightarrow> rstr option) \<Rightarrow> StUserSummary \<Rightarrow> StModerationUser \<Rightarrow> StUserModCommand \<Rightarrow> time
      \<Rightarrow> app_error + EnUserModerationMutation" where
  "mutation_of tz sPassword hash stModerator stTarget c dtNow =
     (let t = mu_iId stTarget; m = us_id stModerator in
      case uc_enAction c of
        ActBlock \<Rightarrow>
          and_then (require (bIsBlockable stTarget stModerator) Forbidden) (\<lambda>_.
          and_then (require (\<not> mu_bBlocked stTarget) (BadRequest ([1055, 1086, 1083, 1100, 1079, 1086, 1074, 1072, 1090, 1077, 1083, 1100, 32, 1091, 1078, 1077, 32, 1073, 1083, 1086, 1082, 1080, 1088, 1086, 1074, 1072, 1085] :: rstr) \<comment> \<open>Polzovatel uzhe blokirovan\<close>)) (\<lambda>_.
          and_then (ok_or (Anyhow (u ''ban reason is NULL'')) (uc_optReason c)) (\<lambda>sReason.
          Inr (MBlock t m sReason))))
      | ActUnblock \<Rightarrow>
          and_then (require (bIsBlockable stTarget stModerator) Forbidden) (\<lambda>_. Inr (MUnblock t m))
      | ActScore50 \<Rightarrow>
          and_then (require (\<not> (mu_bBlocked stTarget \<or> mu_bAnonymous stTarget \<or> mu_iScore stTarget > 50)) Forbidden)
            (\<lambda>_. Inr (MScore50 t m))
      | ActToggleCorrector \<Rightarrow>
          and_then (require (\<not> mu_iScore stTarget < I_CORRECTOR_SCORE) Forbidden) (\<lambda>_.
          Inr (MSetCorrector t m (\<not> mu_bCorrector stTarget)))
      | ActResetPassword \<Rightarrow>
          and_then (require (\<not> mu_bAnonymous stTarget) Forbidden) (\<lambda>_.
          and_then (ok_or (Anyhow (u ''bcrypt'')) (hash sPassword)) (\<lambda>sHash. Inr (MResetPassword t m sHash)))
      | ActRemoveUserInfo \<Rightarrow> and_then (vRejectAnonymous stTarget) (\<lambda>_. Inr (MRemoveUserInfo t m))
      | ActRemoveTown \<Rightarrow> and_then (vRejectAnonymous stTarget) (\<lambda>_. Inr (MRemoveTown t m))
      | ActRemoveUrl \<Rightarrow> and_then (vRejectAnonymous stTarget) (\<lambda>_. Inr (MRemoveUrl t m))
      | ActFreeze \<Rightarrow>
          and_then (ok_or (BadRequest ([1053, 1077, 32, 1079, 1072, 1076, 1072, 1085, 1072, 32, 1087, 1088, 1080, 1095, 1080, 1085, 1072, 32, 1079, 1072, 1084, 1086, 1088, 1086, 1079, 1082, 1080] :: rstr) \<comment> \<open>Ne zadana prichina zamorozki\<close>) (uc_optReason c)) (\<lambda>sReason.
          and_then (require (\<not> utf16_len sReason > 255)
            (BadRequest ([1055, 1088, 1080, 1095, 1080, 1085, 1072, 32, 1089, 1083, 1080, 1096, 1082, 1086, 1084, 32, 1076, 1083, 1080, 1085, 1072, 1103, 44, 32, 1084, 1072, 1082, 1089, 1080, 1084, 1091, 1084, 32, 50, 53, 53, 32, 1073, 1072, 1081, 1090] :: rstr) \<comment> \<open>Prichina slishkom dlinaya, maksimum 255 bajt\<close>)) (\<lambda>_.
          and_then (ok_or (BadRequest ([1053, 1077, 32, 1079, 1072, 1076, 1072, 1085, 32, 1089, 1088, 1086, 1082, 32, 1079, 1072, 1084, 1086, 1088, 1086, 1079, 1082, 1080] :: rstr) \<comment> \<open>Ne zadan srok zamorozki\<close>) (uc_optShift c)) (\<lambda>sShift.
          and_then (ok_or (BadRequest ([1085, 1077, 1082, 1086, 1088, 1088, 1077, 1082, 1090, 1085, 1099, 1081, 32, 1089, 1088, 1086, 1082, 32, 1079, 1072, 1084, 1086, 1088, 1086, 1079, 1082, 1080] :: rstr) \<comment> \<open>nekorrektnyj srok zamorozki\<close>) (optFreezeUntilAt tz sShift dtNow)) (\<lambda>r.
          case r of (dtUntil, bDefrost) \<Rightarrow>
          and_then (require (bIsFreezable stTarget stModerator) Forbidden) (\<lambda>_.
          and_then (require (\<not> mu_bBlocked stTarget)
            (BadRequest ([1055, 1086, 1083, 1100, 1079, 1086, 1074, 1072, 1090, 1077, 1083, 1100, 32, 1073, 1083, 1086, 1082, 1080, 1088, 1086, 1074, 1072, 1085, 44, 32, 1077, 1075, 1086, 32, 1085, 1077, 1083, 1100, 1079, 1103, 32, 1079, 1072, 1084, 1086, 1088, 1086, 1079, 1080, 1090, 1100] :: rstr) \<comment> \<open>Polzovatel blokirovan, ego nelzya zamorozit\<close>)) (\<lambda>_.
          Inr (MFreeze t m sReason dtUntil bDefrost)))))))
      | ActBlockAndDelete \<Rightarrow>
          and_then (require (bIsBlockable stTarget stModerator) Forbidden) (\<lambda>_.
          and_then (require (\<not> mu_bBlocked stTarget) (BadRequest ([1055, 1086, 1083, 1100, 1079, 1086, 1074, 1072, 1090, 1077, 1083, 1100, 32, 1091, 1078, 1077, 32, 1073, 1083, 1086, 1082, 1080, 1088, 1086, 1074, 1072, 1085] :: rstr) \<comment> \<open>Polzovatel uzhe blokirovan\<close>)) (\<lambda>_.
          and_then (ok_or (Anyhow (u ''ban reason is NULL'')) (uc_optReason c)) (\<lambda>sReason.
          Inr (MBlockAndDelete t m sReason)))))"

definition no_posts :: StMassDeleteResult where
  "no_posts = \<lparr>md_vecTopicIds = [], md_vecCommentIds = [], md_vecSkippedCommentIds = []\<rparr>"

definition enExecute ::
    "tz_ops \<Rightarrow> rstr \<Rightarrow> (rstr \<Rightarrow> rstr option) \<Rightarrow> 'w TrUserModerationRepository \<Rightarrow> StUserSummary
      \<Rightarrow> StUserModCommand \<Rightarrow> time \<Rightarrow> ('w, app_error, EnUserModOutcome) eff" where
  "enExecute tz sPassword hash repo stModerator c dtNow =
     (if \<not> us_canmod stModerator then fail_eff Forbidden else
      bind_eff (umr_optUser repo (uc_iTargetUserId c)) (\<lambda>r.
      bind_eff (of_result (ok_or NotFound r)) (\<lambda>stTarget.
      bind_eff (of_result (mutation_of tz sPassword hash stModerator stTarget c dtNow)) (\<lambda>enMutation.
      bind_eff (umr_stApply repo enMutation) (\<lambda>stResult.
      ret_eff (case uc_enAction c of
          ActResetPassword \<Rightarrow> PasswordReset (mu_sNick stTarget)
        | ActBlockAndDelete \<Rightarrow> MassDelete (coalesce no_posts stResult)
        | _ \<Rightarrow> ProfileRedirect (mu_sNick stTarget)))))))"

definition sResetUserpic ::
    "'w TrUserModerationRepository \<Rightarrow> StUserSummary \<Rightarrow> int \<Rightarrow> ('w, app_error, rstr) eff" where
  "sResetUserpic repo stActor iTargetUserId =
     bind_eff (umr_optUser repo iTargetUserId) (\<lambda>r.
     bind_eff (of_result (ok_or NotFound r)) (\<lambda>stTarget.
     if us_id stActor \<noteq> mu_iId stTarget \<and> \<not> us_canmod stActor then fail_eff Forbidden else
     bind_eff (umr_stApply repo (MResetUserpic (mu_iId stTarget) (us_id stActor)
       (us_canmod stActor \<and> us_id stActor \<noteq> mu_iId stTarget \<and> \<not> mu_bModerator stTarget))) (\<lambda>_.
     ret_eff (mu_sNick stTarget))))"

subsection \<open>The repository (src/infra/postgres/user_moderation_repository.rs)\<close>

definition pg_optUser :: "int \<Rightarrow> StModerationUser option pg_eff" where
  "pg_optUser iUserId = (\<lambda>db. (Inr (map_option (\<lambda>r.
     \<lparr>mu_iId = pu_id r, mu_sNick = pu_nick r, mu_bModerator = pu_canmod r, mu_bAdministrator = pu_candel r,
      mu_bAnonymous = (coalesce [] (pu_passwd r) = []), mu_bCorrector = pu_corrector r,
      mu_bBlocked = pu_blocked r, mu_iScore = coalesce 0 (pu_score r)\<rparr>) (user_of db iUserId)), db))"

definition update_user :: "int \<Rightarrow> (pg_user \<Rightarrow> pg_user) \<Rightarrow> nat pg_eff" where
  "update_user i f = exec_update db_users db_users_update (\<lambda>r. pu_id r = i) f"

definition update_user_score :: "int \<Rightarrow> (pg_user \<Rightarrow> pg_user) \<Rightarrow> nat pg_eff" where
  "update_user_score i f =
     exec_update_checked db_users db_users_update (\<lambda>r. pu_id r = i) f (\<lambda>r. in_i32_opt (pu_score r))"

definition vLog :: "time \<Rightarrow> int \<Rightarrow> int \<Rightarrow> rstr \<Rightarrow> params \<Rightarrow> unit pg_eff" where
  "vLog now iTargetUserId iModeratorId sAction vecInfo =
     exec_insert db_user_log db_user_log_update
       (\<lambda>db r. user_of db (ul_userid r) \<noteq> None \<and> user_of db (ul_action_userid r) \<noteq> None)
       \<lparr>ul_userid = iTargetUserId, ul_action_userid = iModeratorId, ul_action_date = now,
        ul_action = sAction, ul_info = vecInfo\<rparr>"

definition vBlock :: "time \<Rightarrow> int \<Rightarrow> int \<Rightarrow> rstr \<Rightarrow> unit pg_eff" where
  "vBlock now t m sReason =
     bind_eff (update_user t (pu_blocked_update (\<lambda>_. True))) (\<lambda>_.
     bind_eff (exec_insert db_ban_info db_ban_info_update
       (\<lambda>db r. bi_userid r \<notin> bi_userid ` set (db_ban_info db) \<and> user_of db (bi_userid r) \<noteq> None
          \<and> user_of db (bi_ban_by r) \<noteq> None)
       \<lparr>bi_userid = t, bi_reason = sReason, bi_ban_by = m\<rparr>) (\<lambda>_.
     vLog now t m (u ''block_user'') [((u ''reason''), sReason)]))"

text \<open>The events of several topics or comments, as the mass deletion removes them.\<close>

definition mass_vDeleteTopicEvents :: "int list \<Rightarrow> unit pg_eff" where
  "mass_vDeleteTopicEvents ids =
     (if ids = [] then ret_eff ()
      else delete_events (\<lambda>e. (case ue_message_id e of None \<Rightarrow> False | Some i \<Rightarrow> i \<in> set ids)
        \<and> ue_type e \<in> {TAG, REF, REPLY, WATCH, REACTION, WARNING}))"

definition vDeleteCommentEvents :: "int list \<Rightarrow> unit pg_eff" where
  "vDeleteCommentEvents ids =
     (if ids = [] then ret_eff ()
      else delete_events (\<lambda>e. (case ue_comment_id e of None \<Rightarrow> False | Some i \<Rightarrow> i \<in> set ids)
        \<and> ue_type e \<in> {REPLY, WATCH, REF, REACTION, WARNING}))"

fun mass_delete_topics :: "int list \<Rightarrow> int list pg_eff" where
  "mass_delete_topics [] = ret_eff []"
| "mass_delete_topics (i # ids) =
     bind_eff (exec_update db_topics db_topics_update (\<lambda>t. pt_id t = i \<and> \<not> pt_deleted t)
       (\<lambda>t. t\<lparr>pt_deleted := True, pt_sticky := False\<rparr>)) (\<lambda>n.
     bind_eff (mass_delete_topics ids) (\<lambda>done.
     ret_eff (if n > 0 then i # done else done)))"

definition topic_of_comment :: "pg \<Rightarrow> int \<Rightarrow> int option" where
  "topic_of_comment db i = map_option pc_topic (comment_of db i)"

definition drop_comment_count :: "time \<Rightarrow> int \<Rightarrow> unit pg_eff" where
  "drop_comment_count now i =
     bind_eff (\<lambda>db. exec_update_checked db_topics db_topics_update (\<lambda>t. Some (pt_id t) = topic_of_comment db i)
       (\<lambda>t. t\<lparr>pt_stat1 := pt_stat1 t - 1, pt_lastmod := now\<rparr>) (\<lambda>t. in_i32 (pt_stat1 t)) db) (\<lambda>_.
     bind_eff (\<lambda>db. exec_update db_topics db_topics_update
       (\<lambda>t. Some (pt_id t) = topic_of_comment db i \<and> pt_stat3 t > pt_stat1 t)
       (\<lambda>t. t\<lparr>pt_stat3 := pt_stat1 t\<rparr>) db) (\<lambda>_. ret_eff ()))"

text \<open>The loop over the user's comments, newest first; yields the deleted and the skipped ids.\<close>

fun mass_delete_comments :: "time \<Rightarrow> int list \<Rightarrow> (int list \<times> int list) pg_eff" where
  "mass_delete_comments now [] = ret_eff ([], [])"
| "mass_delete_comments now (i # ids) =
     bind_eff (select_rows db_comments (\<lambda>c. pc_replyto c = Some i \<and> \<not> pc_deleted c)) (\<lambda>replies.
     if replies \<noteq> []
     then bind_eff (mass_delete_comments now ids) (\<lambda>(done, skipped). ret_eff (done, i # skipped))
     else
     bind_eff (exec_update db_comments db_comments_update (\<lambda>c. pc_id c = i \<and> \<not> pc_deleted c)
       (pc_deleted_update (\<lambda>_. True))) (\<lambda>n.
     bind_eff (if n > 0 then drop_comment_count now i else ret_eff ()) (\<lambda>_.
     bind_eff (mass_delete_comments now ids) (\<lambda>(done, skipped).
     ret_eff (if n > 0 then i # done else done, skipped)))))"

fun record_deletions :: "time \<Rightarrow> int \<Rightarrow> int list \<Rightarrow> unit pg_eff" where
  "record_deletions now m [] = ret_eff ()"
| "record_deletions now m (i # ids) =
     bind_eff (insert_del_info now \<lparr>di_msgid = i, di_delby = m,
       di_reason = Some ([1041, 1083, 1086, 1082, 1080, 1088, 1086, 1074, 1082, 1072, 32, 1087, 1086, 1083, 1100, 1079, 1086, 1074, 1072, 1090, 1077, 1083, 1103, 32, 1089, 32, 1091, 1076, 1072, 1083, 1077, 1085, 1080, 1077, 1084, 32, 1089, 1086, 1086, 1073, 1097, 1077, 1085, 1080, 1081] :: rstr) \<comment> \<open>Blokirovka polzovatelya s udaleniem soobshchenij\<close>, di_deldate = Some now,
       di_bonus = Some 0\<rparr>) (\<lambda>_. record_deletions now m ids)"

definition stMassDelete :: "time \<Rightarrow> int \<Rightarrow> int \<Rightarrow> StMassDeleteResult pg_eff" where
  "stMassDelete now t m =
     bind_eff (select_rows db_topics (\<lambda>r. pt_userid r = t \<and> \<not> pt_deleted r)) (\<lambda>topics.
     bind_eff (select_rows db_comments (\<lambda>r. pc_userid r = t \<and> \<not> pc_deleted r)) (\<lambda>comments.
     bind_eff (mass_delete_topics (map pt_id topics)) (\<lambda>vecTopicIds.
     bind_eff (mass_vDeleteTopicEvents vecTopicIds) (\<lambda>_.
     bind_eff (mass_delete_comments now (rev (sort (map pc_id comments)))) (\<lambda>(vecCommentIds, vecSkipped).
     bind_eff (vDeleteCommentEvents vecCommentIds) (\<lambda>_.
     bind_eff (record_deletions now m (vecTopicIds @ vecCommentIds)) (\<lambda>_.
     ret_eff \<lparr>md_vecTopicIds = vecTopicIds, md_vecCommentIds = vecCommentIds,
       md_vecSkippedCommentIds = vecSkipped\<rparr>)))))))"

text \<open>
  The arms that read a profile field under lock first, then clear it and log the old value:
  \<open>fetch_one\<close> fails for a missing user; an absent value changes nothing.
\<close>

definition clear_field ::
    "time \<Rightarrow> int \<Rightarrow> int \<Rightarrow> (pg_user \<Rightarrow> rstr option) \<Rightarrow> (rstr \<Rightarrow> bool) \<Rightarrow> (pg_user \<Rightarrow> pg_user) \<Rightarrow> int
      \<Rightarrow> rstr \<Rightarrow> (rstr \<Rightarrow> params) \<Rightarrow> unit pg_eff" where
  "clear_field now t m get present clear iDelta sAction info =
     bind_eff (fetch_one db_users (\<lambda>r. pu_id r = t)) (\<lambda>r.
     case get r of
       None \<Rightarrow> ret_eff ()
     | Some sOld \<Rightarrow>
         (if \<not> present sOld then ret_eff ()
          else bind_eff (update_user_score t (\<lambda>r. (clear r)\<lparr>pu_score := map_option (\<lambda>s. s + iDelta) (pu_score r)\<rparr>)) (\<lambda>_.
            vLog now t m sAction (info sOld))))"

definition apply_body ::
    "(time \<Rightarrow> rstr) \<Rightarrow> time \<Rightarrow> EnUserModerationMutation \<Rightarrow> StUserModerationMutationResult pg_eff" where
  "apply_body rfc3339 now mut =
     (case mut of
        MBlock t m sReason \<Rightarrow> bind_eff (vBlock now t m sReason) (\<lambda>_. ret_eff None)
      | MUnblock t m \<Rightarrow>
          bind_eff (update_user t (pu_blocked_update (\<lambda>_. False))) (\<lambda>_.
          bind_eff (exec_delete db_ban_info_update (\<lambda>b. bi_userid b = t)) (\<lambda>_.
          bind_eff (vLog now t m (u ''unblock_user'') []) (\<lambda>_. ret_eff None)))
      | MScore50 t m \<Rightarrow>
          bind_eff (exec_update db_users db_users_update
            (\<lambda>r. pu_id r = t \<and> (case pu_score r of None \<Rightarrow> False | Some s \<Rightarrow> s < 50))
            (\<lambda>r. r\<lparr>pu_score := map_option (max 50) (pu_score r),
                   pu_max_score := Some (case pu_max_score r of None \<Rightarrow> 50 | Some s \<Rightarrow> max s 50)\<rparr>)) (\<lambda>n.
          bind_eff (if n > 0 then vLog now t m (u ''score50'') [] else ret_eff ()) (\<lambda>_. ret_eff None))
      | MSetCorrector t m b \<Rightarrow>
          bind_eff (update_user t (pu_corrector_update (\<lambda>_. b))) (\<lambda>_.
          bind_eff (vLog now t m (if b then (u ''set_corrector'') else (u ''unset_corrector'')) []) (\<lambda>_. ret_eff None))
      | MResetPassword t m sHash \<Rightarrow>
          bind_eff (update_user t (\<lambda>r. r\<lparr>pu_passwd := Some sHash, pu_lostpwd := 0\<rparr>)) (\<lambda>_.
          bind_eff (vLog now t m (u ''reset_password'') []) (\<lambda>_. ret_eff None))
      | MResetUserpic t m bPenalty \<Rightarrow>
          bind_eff (clear_field now t m pu_photo (\<lambda>_. True) (pu_photo_update (\<lambda>_. None))
            (if bPenalty then -10 else 0) (u ''reset_userpic'')
            (\<lambda>s. ((u ''old_userpic''), s) # (if bPenalty then [((u ''bonus''), (u ''-10''))] else []))) (\<lambda>_. ret_eff None)
      | MRemoveUserInfo t m \<Rightarrow>
          bind_eff (clear_field now t m pu_userinfo (\<lambda>s. trim s \<noteq> []) (pu_userinfo_update (\<lambda>_. None))
            (-10) (u ''reset_info'') (\<lambda>s. [((u ''old_info''), s), ((u ''bonus''), (u ''-10''))])) (\<lambda>_. ret_eff None)
      | MRemoveTown t m \<Rightarrow>
          bind_eff (clear_field now t m pu_town (\<lambda>s. trim s \<noteq> []) (pu_town_update (\<lambda>_. None))
            (-10) (u ''reset_town'') (\<lambda>s. [((u ''old_town''), s), ((u ''bonus''), (u ''-10''))])) (\<lambda>_. ret_eff None)
      | MRemoveUrl t m \<Rightarrow>
          bind_eff (clear_field now t m pu_url (\<lambda>_. True) (pu_url_update (\<lambda>_. None))
            0 (u ''reset_url'') (\<lambda>s. [((u ''old_url''), s), ((u ''bonus''), (u ''0''))])) (\<lambda>_. ret_eff None)
      | MFreeze t m sReason dtUntil bDefrost \<Rightarrow>
          bind_eff (update_user t (\<lambda>r. r\<lparr>pu_frozen_until := Some dtUntil, pu_frozen_by := Some m,
            pu_freezing_reason := Some sReason\<rparr>)) (\<lambda>_.
          bind_eff (vLog now t m (if bDefrost then (u ''defrosted'') else (u ''frozen''))
            (((u ''reason''), sReason) # (if \<not> bDefrost then [((u ''until''), rfc3339 dtUntil)] else []))) (\<lambda>_. ret_eff None))
      | MBlockAndDelete t m sReason \<Rightarrow>
          bind_eff (vBlock now t m sReason) (\<lambda>_.
          bind_eff (stMassDelete now t m) (\<lambda>r. ret_eff (Some r))))"

definition user_stApply ::
    "(time \<Rightarrow> rstr) \<Rightarrow> time \<Rightarrow> EnUserModerationMutation \<Rightarrow> StUserModerationMutationResult pg_eff" where
  "user_stApply rfc3339 now mut = transaction (apply_body rfc3339 now mut)"

definition pg_user_moderation :: "(time \<Rightarrow> rstr) \<Rightarrow> time \<Rightarrow> 'q world TrUserModerationRepository" where
  "pg_user_moderation rfc3339 now =
     \<lparr>umr_optUser = (\<lambda>i. on_db (pg_optUser i)), umr_stApply = (\<lambda>m. on_db (user_stApply rfc3339 now m))\<rparr>"

subsection \<open>The policy\<close>

lemma require_iff [eff_simps]: "require b e = Inr x \<longleftrightarrow> b"
  by (simp add: require_def)

text \<open>What a mutation that reaches the repository promises about its target.\<close>

definition permitted ::
    "tz_ops \<Rightarrow> rstr \<Rightarrow> (rstr \<Rightarrow> rstr option) \<Rightarrow> StUserSummary \<Rightarrow> StModerationUser \<Rightarrow> StUserModCommand \<Rightarrow> time
      \<Rightarrow> EnUserModerationMutation \<Rightarrow> bool" where
  "permitted tz sPassword hash stModerator stTarget c now mut \<longleftrightarrow>
     mut_target mut = mu_iId stTarget \<and> mut_actor mut = us_id stModerator \<and>
     (let blockable = \<not> mu_bAnonymous stTarget \<and> (mu_bModerator stTarget \<longrightarrow> us_candel stModerator) in
      case mut of
        MBlock _ _ s \<Rightarrow> blockable \<and> \<not> mu_bBlocked stTarget \<and> uc_optReason c = Some s
      | MBlockAndDelete _ _ s \<Rightarrow> blockable \<and> \<not> mu_bBlocked stTarget \<and> uc_optReason c = Some s
      | MUnblock _ _ \<Rightarrow> blockable
      | MScore50 _ _ \<Rightarrow> \<not> mu_bBlocked stTarget \<and> \<not> mu_bAnonymous stTarget \<and> mu_iScore stTarget \<le> 50
      | MSetCorrector _ _ b \<Rightarrow> 200 \<le> mu_iScore stTarget \<and> b = (\<not> mu_bCorrector stTarget)
      | MResetPassword _ _ h \<Rightarrow> \<not> mu_bAnonymous stTarget \<and> hash sPassword = Some h
      | MRemoveUserInfo _ _ \<Rightarrow> \<not> mu_bAnonymous stTarget
      | MRemoveTown _ _ \<Rightarrow> \<not> mu_bAnonymous stTarget
      | MRemoveUrl _ _ \<Rightarrow> \<not> mu_bAnonymous stTarget
      | MFreeze _ _ s dtUntil bDefrost \<Rightarrow> \<not> mu_bModerator stTarget \<and> \<not> mu_bBlocked stTarget \<and> utf16_len s \<le> 255
          \<and> uc_optReason c = Some s
          \<and> (\<exists>sShift. uc_optShift c = Some sShift \<and> optFreezeUntilAt tz sShift now = Some (dtUntil, bDefrost))
      | MResetUserpic _ _ _ \<Rightarrow> False)"

lemma mutation_permitted:
  assumes "mutation_of tz pw hash m t c now = Inr mut" and "us_canmod m"
  shows "permitted tz pw hash m t c now mut"
  using assms
  by (cases "uc_enAction c")
    (auto simp: mutation_of_def permitted_def Let_def and_then_Inr_iff require_iff ok_or_iff bIsBlockable_def
      bIsFreezable_def vRejectAnonymous_def I_CORRECTOR_SCORE_def split: if_splits)

text \<open>A user is moderated only when the policy permits it: when the service succeeds, the actor is a
  moderator and the one mutation handed to the repository is about the target that was looked up
  and permitted for it - moderators are blocked by administrators only and never frozen, the
  anonymous account loses nothing, the reason of a freeze has at most 255 units; every refusal
  leaves the world as the look-up left it.\<close>

theorem user_mod_guard:
  assumes "enExecute tz pw hash repo m c now w = (r, w')"
    and "\<forall>mut v. snd (umr_stApply repo mut v) = v \<or> (\<exists>x. fst (umr_stApply repo mut v) = Inr x)"
  shows "case r of
      Inr out \<Rightarrow> us_canmod m \<and> (\<exists>t w1 mut res. umr_optUser repo (uc_iTargetUserId c) w = (Inr (Some t), w1)
        \<and> permitted tz pw hash m t c now mut \<and> umr_stApply repo mut w1 = (Inr res, w'))
    | Inl e \<Rightarrow> w' = w \<or> w' = snd (umr_optUser repo (uc_iTargetUserId c) w)"
proof (cases r)
  case (Inr out)
  with assms(1) obtain t w1 mut res where "us_canmod m" "umr_optUser repo (uc_iTargetUserId c) w = (Inr (Some t), w1)"
    "mutation_of tz pw hash m t c now = Inr mut" "umr_stApply repo mut w1 = (Inr res, w')"
    by (auto simp: enExecute_def bind_eff_Inr_iff ok_or_iff split: if_splits)
  with Inr show ?thesis by (auto dest: mutation_permitted)
next
  case (Inl e)
  obtain o1 w1 where look: "umr_optUser repo (uc_iTargetUserId c) w = (o1, w1)" by fastforce
  have "w' = w \<or> w' = w1"
  proof (cases "us_canmod m \<and> (\<exists>t mut. o1 = Inr (Some t) \<and> mutation_of tz pw hash m t c now = Inr mut)")
    case False
    with assms(1) look Inl show ?thesis
      by (cases o1) (auto simp: enExecute_def bind_eff_def ok_or_def of_result_def split: option.splits sum.splits if_splits)
  next
    case True
    then obtain t mut where t: "us_canmod m" "o1 = Inr (Some t)" "mutation_of tz pw hash m t c now = Inr mut" by blast
    with assms(1) look Inl have "\<exists>e1. umr_stApply repo mut w1 = (Inl e1, w')"
      by (auto simp: enExecute_def bind_eff_def of_result_def split: prod.splits sum.splits)
    with assms(2) show ?thesis by (metis fst_conv snd_conv sum.distinct(1))
  qed
  with Inl look show ?thesis by simp
qed

definition ex_user_db :: pg where
  "ex_user_db = ex_comment_db\<lparr>db_users := db_users ex_comment_db @ [ex_user 9]\<rparr>"

definition ex_usermod :: "EnUserModAction \<Rightarrow> int \<Rightarrow> StUserModCommand" where
  "ex_usermod a i = \<lparr>uc_iTargetUserId = i, uc_enAction = a, uc_optReason = Some (u ''spam''), uc_optShift = None\<rparr>"

definition ex_tz :: tz_ops where
  "ex_tz = \<lparr>tz_local = (\<lambda>t. (t, 0)), tz_from_local = (\<lambda>t. LrSingle t 0),
     tz_add_days = (\<lambda>t n. Some (t + days (int n))), tz_add_months = (\<lambda>t n. Some (t + days (30 * int n)))\<rparr>"

lemma user_stApply_undo: "snd (umr_stApply (pg_user_moderation rfc now) mut v) = v
    \<or> (\<exists>x. fst (umr_stApply (pg_user_moderation rfc now) mut v) = Inr x)"
  by (cases "apply_body rfc now mut (w_db v)"; cases "fst (apply_body rfc now mut (w_db v))")
    (auto simp: pg_user_moderation_def on_db_def user_stApply_def transaction_def)

theorem user_mod_guard_witness:
  "\<exists>t mut. permitted ex_tz [] Some ex_moderator t (ex_usermod ActUnblock 9) 2000 mut \<and> mut_target mut = 9"
proof -
  let ?w = "\<lparr>w_db = ex_user_db, w_queue = ()\<rparr> :: unit world"
  let ?repo = "pg_user_moderation (\<lambda>_. []) 2000 :: unit world TrUserModerationRepository"
  obtain r w' where run: "enExecute ex_tz [] Some ?repo ex_moderator (ex_usermod ActUnblock 9) 2000 ?w = (r, w')"
    by fastforce
  have "fst (enExecute ex_tz [] Some ?repo ex_moderator (ex_usermod ActUnblock 9) 2000 ?w) = Inr (ProfileRedirect (u ''n''))"
    by (simp add: enExecute_def ex_moderator_def ex_usermod_def pg_user_moderation_def bind_eff_def on_db_def
        pg_optUser_def user_of_def ex_user_db_def ex_comment_db_def ex_db_def ex_user_def mutation_of_def
        require_def bIsBlockable_def user_stApply_def transaction_def apply_body_def update_user_def
        exec_update_def update_where_def exec_delete_def vLog_def exec_insert_def)
  with run have r: "r = Inr (ProfileRedirect (u ''n''))" by simp
  have undo: "\<forall>mut v. snd (umr_stApply ?repo mut v) = v \<or> (\<exists>x. fst (umr_stApply ?repo mut v) = Inr x)"
    using user_stApply_undo by blast
  from user_mod_guard [OF run undo] r obtain t w1 mut where
    t: "umr_optUser ?repo 9 ?w = (Inr (Some t), w1)" "permitted ex_tz [] Some ex_moderator t (ex_usermod ActUnblock 9) 2000 mut"
    by (auto simp: ex_usermod_def)
  then have "mut_target mut = 9"
    by (auto simp: permitted_def pg_user_moderation_def on_db_def pg_optUser_def user_of_def ex_user_db_def
        ex_comment_db_def ex_db_def ex_user_def)
  with t(2) show ?thesis by blast
qed

subsection \<open>Mass deletion\<close>

text \<open>The topics as far as a mass deletion may change their flags.\<close>

definition topic_flags :: "pg \<Rightarrow> (int \<times> int \<times> bool \<times> bool) list" where
  "topic_flags db = map (\<lambda>x. (pt_id x, pt_userid x, pt_deleted x, pt_sticky x)) (db_topics db)"

lemma drop_comment_count_Inr:
  assumes "drop_comment_count now i db = (Inr x, db')"
  shows "counts db' = map (\<lambda>(k, n). (k, if Some k = topic_of_comment db i then n - 1 else n)) (counts db)
    \<and> db' = db\<lparr>db_topics := db_topics db'\<rparr> \<and> topic_flags db' = topic_flags db"
proof -
  have cm: "topic_of_comment (db_topics_update f db) i = topic_of_comment db i" for f
    by (simp add: topic_of_comment_def comment_of_def)
  have db': "db' = db_topics_update (\<lambda>ts. update_where (\<lambda>x. Some (pt_id x) = topic_of_comment db i \<and> pt_stat3 x > pt_stat1 x)
      (\<lambda>x. x\<lparr>pt_stat3 := pt_stat1 x\<rparr>)
      (update_where (\<lambda>x. Some (pt_id x) = topic_of_comment db i) (\<lambda>x. x\<lparr>pt_stat1 := pt_stat1 x - 1, pt_lastmod := now\<rparr>) ts)) db"
    using assms
    by (auto simp: drop_comment_count_def bind_eff_Inr_iff exec_update_checked_def exec_update_def comp_def cm split: if_splits)
  show ?thesis
    by (simp add: db' counts_def topic_flags_def update_where_def)
qed

definition mass_step :: "int list \<Rightarrow> int list \<Rightarrow> int list \<Rightarrow> pg \<Rightarrow> pg \<Rightarrow> bool" where
  "mass_step ids dn skipped db db' \<longleftrightarrow>
     distinct (dn @ skipped) \<and> set ids = set dn \<union> set skipped \<and>
     db_comments db' = mark_deleted (set dn) (db_comments db) \<and>
     counts db' = map (\<lambda>(k, n). (k, n - int (length (filter (\<lambda>i. topic_of_comment db i = Some k) dn)))) (counts db) \<and>
     topic_flags db' = topic_flags db \<and> db' = db\<lparr>db_topics := db_topics db', db_comments := db_comments db'\<rparr> \<and>
     (\<forall>x\<in>set (db_comments db'). \<not> pc_deleted x \<longrightarrow> pc_replyto x \<notin> Some ` set dn)"

lemma topic_of_comment_mark:
  assumes "db_comments db' = mark_deleted X (db_comments db)"
  shows "topic_of_comment db' i = topic_of_comment db i"
proof -
  have "map_option pc_topic (List.find (\<lambda>r. pc_id r = i) (mark_deleted X cs)) = map_option pc_topic (List.find (\<lambda>r. pc_id r = i) cs)"
    for cs by (induction cs) (auto simp: mark_deleted_def)
  then show ?thesis by (simp add: topic_of_comment_def comment_of_def assms)
qed

lemma mass_delete_comments_Inr:
  "mass_delete_comments now ids db = (Inr (dn, skipped), db') \<Longrightarrow> comments.keyed db \<Longrightarrow> distinct ids \<Longrightarrow>
    set ids \<subseteq> live_ids (db_comments db) \<Longrightarrow> mass_step ids dn skipped db db'"
proof (induction ids arbitrary: db dn skipped)
  case Nil
  then show ?case by (auto simp: mass_step_def mark_none split_def)
next
  case (Cons i ids)
  let ?live = "filter (\<lambda>c. pc_replyto c = Some i \<and> \<not> pc_deleted c) (db_comments db)"
  show ?case
  proof (cases "?live = []")
    case False
    with Cons.prems(1) obtain sk where rest: "mass_delete_comments now ids db = (Inr (dn, sk), db')"
      and sk: "skipped = i # sk"
      by (auto simp: bind_eff_Inr_iff select_rows_def)
    from Cons.IH [OF rest Cons.prems(2)] Cons.prems(3,4) have "mass_step ids dn sk db db'" by simp
    with Cons.prems(3) sk show ?thesis by (auto simp: mass_step_def)
  next
    case True
    let ?p = "\<lambda>c. pc_id c = i \<and> \<not> pc_deleted c"
    let ?db1 = "db_comments_update (mark_deleted {i}) db"
    from Cons.prems(4) have hit: "filter ?p (db_comments db) \<noteq> []"
      by (auto simp: live_ids_def filter_empty_conv)
    with Cons.prems(1) True obtain x db2 ds where
      drop1: "drop_comment_count now i ?db1 = (Inr x, db2)"
      and rest: "mass_delete_comments now ids db2 = (Inr (ds, skipped), db')" and ds: "dn = i # ds"
      by (auto simp: bind_eff_Inr_iff select_rows_def exec_update_def update_where_mark)
    from drop_comment_count_Inr [OF drop1] have db2: "db2 = ?db1\<lparr>db_topics := db_topics db2\<rparr>"
      and c2: "counts db2 = map (\<lambda>(k, n). (k, if Some k = topic_of_comment ?db1 i then n - 1 else n)) (counts ?db1)"
      and f2: "topic_flags db2 = topic_flags ?db1" by blast+
    have cm2: "db_comments db2 = mark_deleted {i} (db_comments db)" by (subst db2) simp
    have "mass_step ids ds skipped db2 db'"
    proof (rule Cons.IH [OF rest])
      show "comments.keyed db2" using keyed_mark [OF cm2] Cons.prems(2) by simp
      show "set ids \<subseteq> live_ids (db_comments db2)"
        using Cons.prems(2-4) by (auto simp: cm2 live_ids_mark)
    qed (use Cons.prems(3) in simp)
    then have st: "distinct (ds @ skipped)" "set ids = set ds \<union> set skipped"
      "db_comments db' = mark_deleted (set ds) (db_comments db2)"
      "counts db' = map (\<lambda>(k, n). (k, n - int (length (filter (\<lambda>j. topic_of_comment db2 j = Some k) ds)))) (counts db2)"
      "topic_flags db' = topic_flags db2" "db' = db2\<lparr>db_topics := db_topics db', db_comments := db_comments db'\<rparr>"
      "\<forall>x\<in>set (db_comments db'). \<not> pc_deleted x \<longrightarrow> pc_replyto x \<notin> Some ` set ds"
      unfolding mass_step_def by blast+
    have tc: "topic_of_comment db2 = topic_of_comment db" "topic_of_comment ?db1 = topic_of_comment db"
      using topic_of_comment_mark [OF cm2] topic_of_comment_mark [of ?db1 "{i}" db] by (simp_all add: fun_eq_iff)
    have old: "pc_replyto y \<noteq> Some i" if "y \<in> set (db_comments db)" "\<not> pc_deleted y" for y
      using True that unfolding filter_empty_conv by blast
    have "db_comments db' = mark_deleted (insert i (set ds)) (db_comments db)"
      by (simp add: st(3) cm2 mark_mark)
    then have noi: "pc_replyto x \<noteq> Some i" if "x \<in> set (db_comments db')" "\<not> pc_deleted x" for x
      using that old [of x] by (auto simp: mark_deleted_def split: if_splits)
    have cnt: "counts db' = map (\<lambda>(k, n). (k, n - int (length (filter (\<lambda>j. topic_of_comment db j = Some k) (i # ds))))) (counts db)"
      unfolding st(4) c2 tc by (auto simp: counts_def)
    have "db' = db\<lparr>db_topics := db_topics db', db_comments := db_comments db'\<rparr>"
      by (subst st(6), subst db2) simp
    moreover have "topic_flags db' = topic_flags db" using st(5) f2 by (simp add: topic_flags_def)
    moreover have "db_comments db' = mark_deleted (set dn) (db_comments db)"
      by (simp add: st(3) cm2 ds mark_mark)
    moreover have "\<forall>x\<in>set (db_comments db'). \<not> pc_deleted x \<longrightarrow> pc_replyto x \<notin> Some ` set dn"
      using st(7) noi by (auto simp: ds)
    moreover have "distinct (dn @ skipped)" "set (i # ids) = set dn \<union> set skipped"
      using st(1,2) Cons.prems(3) by (auto simp: ds)
    ultimately show ?thesis using cnt unfolding mass_step_def ds by blast
  qed
qed

text \<open>Newest first, and replies are newer: what is skipped keeps its live reply.\<close>

lemma mass_skipped_reply:
  "mass_delete_comments now ids db = (Inr (dn, skipped), db') \<Longrightarrow> comments.keyed db \<Longrightarrow> distinct ids \<Longrightarrow>
    set ids \<subseteq> live_ids (db_comments db) \<Longrightarrow> sorted_wrt (>) ids \<Longrightarrow> replies_later (db_comments db) \<Longrightarrow>
    i \<in> set skipped \<Longrightarrow> \<exists>x\<in>set (db_comments db'). \<not> pc_deleted x \<and> pc_replyto x = Some i"
proof (induction ids arbitrary: db dn skipped)
  case Nil
  then show ?case by simp
next
  case (Cons j ids)
  let ?live = "filter (\<lambda>c. pc_replyto c = Some j \<and> \<not> pc_deleted c) (db_comments db)"
  show ?case
  proof (cases "?live = []")
    case False
    with Cons.prems(1) obtain sk where rest: "mass_delete_comments now ids db = (Inr (dn, sk), db')"
      and sk: "skipped = j # sk"
      by (auto simp: bind_eff_Inr_iff select_rows_def)
    show ?thesis
    proof (cases "i = j")
      case True
      from False obtain x where x: "x \<in> set (db_comments db)" "pc_replyto x = Some j" "\<not> pc_deleted x"
        by (auto simp: filter_empty_conv)
      with Cons.prems(6) have "j < pc_id x" by (auto simp: replies_later_def)
      with Cons.prems(5) have "pc_id x \<notin> set ids" by auto
      moreover have step: "mass_step ids dn sk db db'"
        using mass_delete_comments_Inr [OF rest Cons.prems(2)] Cons.prems(3,4) by simp
      ultimately have "x \<in> set (db_comments db')"
        using x by (force simp: mass_step_def mark_deleted_def)
      with x True show ?thesis by blast
    next
      case False
      with Cons.IH [OF rest] Cons.prems sk show ?thesis by simp
    qed
  next
    case True
    let ?p = "\<lambda>c. pc_id c = j \<and> \<not> pc_deleted c"
    let ?db1 = "db_comments_update (mark_deleted {j}) db"
    from Cons.prems(4) have hit: "filter ?p (db_comments db) \<noteq> []"
      by (auto simp: live_ids_def filter_empty_conv)
    with Cons.prems(1) True obtain x db2 ds where
      drop1: "drop_comment_count now j ?db1 = (Inr x, db2)"
      and rest: "mass_delete_comments now ids db2 = (Inr (ds, skipped), db')"
      by (auto simp: bind_eff_Inr_iff select_rows_def exec_update_def update_where_mark)
    from drop_comment_count_Inr [OF drop1] have db2: "db2 = ?db1\<lparr>db_topics := db_topics db2\<rparr>" by blast
    have cm2: "db_comments db2 = mark_deleted {j} (db_comments db)" by (subst db2) simp
    have "comments.keyed db2" using keyed_mark [OF cm2] Cons.prems(2) by simp
    moreover have "set ids \<subseteq> live_ids (db_comments db2)"
      using Cons.prems(2-4) by (auto simp: cm2 live_ids_mark)
    moreover have "replies_later (db_comments db2)"
      using Cons.prems(6) by (auto simp: cm2 replies_later_def mark_deleted_def)
    ultimately show ?thesis using Cons.IH [OF rest] Cons.prems(3,5,7) by simp
  qed
qed

text \<open>The users without their unread counters, and the rest of a mass deletion.\<close>

definition users_profile :: "pg \<Rightarrow> pg_user list" where
  "users_profile db = map (\<lambda>r. r\<lparr>pu_unread_events := 0\<rparr>) (db_users db)"

definition audit :: "pg \<Rightarrow> pg_user list \<times> pg_user_log list" where
  "audit db = (users_profile db, db_user_log db)"

lemma delete_events_audit [keeps]: "keeps (\<lambda>db. content db = c \<and> audit db = d) (delete_events p)"
proof -
  have "audit db' = audit db" if "delete_events p db = (r, db')" for db r db'
    using that by (auto simp: delete_events_def recalculate_unread_def Let_def audit_def users_profile_def
        update_where_def split: if_splits)
  with delete_events_content show ?thesis by (fastforce simp: keeps_def)
qed

lemma mass_events_frame:
  "keeps (\<lambda>db. content db = c \<and> audit db = d) (mass_vDeleteTopicEvents ids)"
  "keeps (\<lambda>db. content db = c \<and> audit db = d) (vDeleteCommentEvents ids)"
  unfolding mass_vDeleteTopicEvents_def vDeleteCommentEvents_def by (intro keeps)+

lemma mass_delete_topics_Inr:
  "mass_delete_topics ids db = (Inr dn, db') \<Longrightarrow> distinct ids \<Longrightarrow>
    (\<forall>i\<in>set ids. \<exists>x\<in>set (db_topics db). pt_id x = i \<and> \<not> pt_deleted x) \<Longrightarrow>
    dn = ids \<and> db' = db\<lparr>db_topics := db_topics db'\<rparr> \<and> counts db' = counts db \<and>
    topic_flags db' = map (\<lambda>(k, a, d, st). if k \<in> set ids \<and> \<not> d then (k, a, True, False) else (k, a, d, st)) (topic_flags db)"
proof (induction ids arbitrary: db dn)
  case Nil
  then show ?case by (simp add: split_def)
next
  case (Cons i ids)
  let ?f = "\<lambda>t. t\<lparr>pt_deleted := True, pt_sticky := False\<rparr>"
  let ?db1 = "db_topics_update (update_where (\<lambda>t. pt_id t = i \<and> \<not> pt_deleted t) ?f) db"
  from Cons.prems(3) have hit: "filter (\<lambda>t. pt_id t = i \<and> \<not> pt_deleted t) (db_topics db) \<noteq> []"
    by (auto simp: filter_empty_conv)
  with Cons.prems(1) obtain ds where rest: "mass_delete_topics ids ?db1 = (Inr ds, db')" and dn: "dn = i # ds"
    by (auto simp: bind_eff_Inr_iff exec_update_def)
  have "\<forall>j\<in>set ids. \<exists>x\<in>set (db_topics ?db1). pt_id x = j \<and> \<not> pt_deleted x"
    using Cons.prems(2,3) by (force simp: update_where_def)
  with Cons.IH [OF rest] Cons.prems(2) have ih: "ds = ids" "db' = ?db1\<lparr>db_topics := db_topics db'\<rparr>" "counts db' = counts ?db1"
    "topic_flags db' = map (\<lambda>(k, a, d, st). if k \<in> set ids \<and> \<not> d then (k, a, True, False) else (k, a, d, st)) (topic_flags ?db1)"
    by auto
  have "db' = db\<lparr>db_topics := db_topics db'\<rparr>" by (subst ih(2)) simp
  moreover have "counts db' = counts db" using ih(3) by (simp add: counts_def update_where_def)
  moreover have "topic_flags db' = map (\<lambda>(k, a, d, st). if k \<in> set (i # ids) \<and> \<not> d then (k, a, True, False) else (k, a, d, st)) (topic_flags db)"
    unfolding ih(4) by (auto simp: topic_flags_def update_where_def)
  ultimately show ?case using dn ih(1) by simp
qed

definition post_rows :: "pg \<Rightarrow> (pg_user list \<times> pg_user_log list) \<times> (int \<times> int option) list \<times> pg_comment list
    \<times> (int \<times> int) list \<times> (int \<times> int \<times> bool \<times> bool) list \<times> pg_event list \<times> pg_ip_block list" where
  "post_rows db = (audit db, scores db, db_comments db, counts db, topic_flags db, db_events db, db_b_ips db)"

lemma insert_del_info_Inr:
  assumes "insert_del_info now r db = (Inr x, db')"
  shows "bonuses db' = bonuses db @ [(di_msgid r, di_bonus r)] \<and> post_rows db' = post_rows db"
proof -
  have "db' = touch_topic now (di_msgid r) (db_del_info_update (\<lambda>rs. rs @ [r]) db)"
    using assms by (auto simp: insert_del_info_def bind_eff_def exec_insert_def split: if_splits)
  then show ?thesis
    by (auto simp: post_rows_def bonuses_def audit_def users_profile_def scores_def counts_def touch_topic_def
        topic_flags_def update_where_def)
qed

lemma record_deletions_Inr:
  "record_deletions now m ids db = (Inr x, db') \<Longrightarrow>
    bonuses db' = bonuses db @ map (\<lambda>i. (i, Some 0)) ids \<and> post_rows db' = post_rows db"
  by (induction ids arbitrary: db) (auto simp: bind_eff_Inr_iff dest!: insert_del_info_Inr)

text \<open>
  The posts after a mass deletion of the topics \<open>P\<close> and the comments \<open>Q\<close>: \<open>T\<close> and \<open>C\<close> are
  deleted, \<open>S\<close> is skipped.
\<close>

definition mass_posts :: "(pg_topic \<Rightarrow> bool) \<Rightarrow> (pg_comment \<Rightarrow> bool) \<Rightarrow> int list \<Rightarrow> int list \<Rightarrow> int list \<Rightarrow> pg \<Rightarrow> pg \<Rightarrow> bool" where
  "mass_posts P Q T C S db db' \<longleftrightarrow>
     set T = {pt_id x |x. x \<in> set (db_topics db) \<and> P x} \<and>
     distinct (C @ S) \<and>
     set C \<union> set S = {pc_id x |x. x \<in> set (db_comments db) \<and> Q x} \<and>
     db_comments db' = mark_deleted (set C) (db_comments db) \<and>
     topic_flags db' = map (\<lambda>(k, a, d, st). if k \<in> set T \<and> \<not> d then (k, a, True, False) else (k, a, d, st))
       (topic_flags db) \<and>
     counts db' = map (\<lambda>(k, n). (k, n - int (length (filter (\<lambda>i. topic_of_comment db i = Some k) C)))) (counts db) \<and>
     scores db' = scores db"

text \<open>No orphans: a live comment never answers a deleted one, a skipped one has a live answer.\<close>

definition no_orphans :: "int list \<Rightarrow> int list \<Rightarrow> pg \<Rightarrow> pg \<Rightarrow> bool" where
  "no_orphans C S db db' \<longleftrightarrow>
     (\<forall>x\<in>set (db_comments db'). \<not> pc_deleted x \<longrightarrow> pc_replyto x \<notin> Some ` set C) \<and>
     (replies_later (db_comments db) \<longrightarrow> (\<forall>i\<in>set S. \<exists>x\<in>set (db_comments db'). \<not> pc_deleted x \<and> pc_replyto x = Some i))"

definition mass_delete_post :: "int \<Rightarrow> StMassDeleteResult \<Rightarrow> pg \<Rightarrow> pg \<Rightarrow> bool" where
  "mass_delete_post t r db db' \<longleftrightarrow>
     set (md_vecTopicIds r) = {pt_id x |x. x \<in> set (db_topics db) \<and> pt_userid x = t \<and> \<not> pt_deleted x} \<and>
     distinct (md_vecCommentIds r @ md_vecSkippedCommentIds r) \<and>
     set (md_vecCommentIds r) \<union> set (md_vecSkippedCommentIds r) =
       {pc_id x |x. x \<in> set (db_comments db) \<and> pc_userid x = t \<and> \<not> pc_deleted x} \<and>
     db_comments db' = mark_deleted (set (md_vecCommentIds r)) (db_comments db) \<and>
     topic_flags db' = map (\<lambda>(k, a, d, st). if k \<in> set (md_vecTopicIds r) \<and> \<not> d then (k, a, True, False) else (k, a, d, st))
       (topic_flags db) \<and>
     counts db' = map (\<lambda>(k, n). (k, n - int (length (filter (\<lambda>i. topic_of_comment db i = Some k) (md_vecCommentIds r)))))
       (counts db) \<and>
     bonuses db' = bonuses db @ map (\<lambda>i. (i, Some 0)) (md_vecTopicIds r @ md_vecCommentIds r) \<and>
     scores db' = scores db"

lemma content_frame_mass: "content db' = content db \<Longrightarrow> scores db' = scores db \<and> db_topics db' = db_topics db \<and>
    db_comments db' = db_comments db \<and> bonuses db' = bonuses db \<and> counts db' = counts db \<and> topic_flags db' = topic_flags db"
  by (simp add: content_def bonuses_def counts_def topic_flags_def)

lemma only_posts:
  assumes "db' = db\<lparr>db_topics := db_topics db', db_comments := db_comments db'\<rparr>"
  shows "scores db' = scores db \<and> bonuses db' = bonuses db \<and> audit db' = audit db"
  by (subst (1 2 3) assms) (simp add: scores_def bonuses_def audit_def users_profile_def)

lemma mass_step_events: "mass_step ids C S db db' \<Longrightarrow> db_events db' = db_events db"
  unfolding mass_step_def by (elim conjE) (erule ssubst [where P = "\<lambda>d. db_events d = _"], simp)

text \<open>The loops of a mass deletion, between them statements on events only.\<close>

lemma mass_core:
  assumes keyed: "comments.keyed db" "topics.keyed db"
    and P: "\<And>x. P x \<Longrightarrow> \<not> pt_deleted x" and Q: "\<And>x. Q x \<Longrightarrow> \<not> pc_deleted x"
    and tops: "mass_delete_topics (map pt_id (filter P (db_topics db))) db = (Inr T, db1)"
    and f2: "content db2 = content db1 \<and> audit db2 = audit db1"
    and coms: "mass_delete_comments now (rev (sort (map pc_id (filter Q (db_comments db))))) db2 = (Inr (C, S), db3)"
    and f4: "content db4 = content db3 \<and> audit db4 = audit db3"
  shows "T = map pt_id (filter P (db_topics db)) \<and> mass_posts P Q T C S db db4 \<and> bonuses db4 = bonuses db \<and>
    audit db4 = audit db \<and> no_orphans C S db db4 \<and> db_events db1 = db_events db \<and> db_events db3 = db_events db2"
proof -
  let ?tl = "map pt_id (filter P (db_topics db))"
  let ?cl = "map pc_id (filter Q (db_comments db))"
  let ?ids = "rev (sort ?cl)"
  have dt: "distinct ?tl" and dc: "distinct ?cl"
    using keyed by (auto simp: comments.keyed_def topics.keyed_def distinct_map intro: inj_on_subset)
  have t1: "T = ?tl" "db1 = db\<lparr>db_topics := db_topics db1\<rparr>" "counts db1 = counts db"
    "topic_flags db1 = map (\<lambda>(k, a, d, st). if k \<in> set ?tl \<and> \<not> d then (k, a, True, False) else (k, a, d, st)) (topic_flags db)"
    using mass_delete_topics_Inr [OF tops dt] P by auto
  have c1: "db_comments db1 = db_comments db" by (subst t1(2)) simp
  have o1: "scores db1 = scores db \<and> bonuses db1 = bonuses db \<and> audit db1 = audit db"
    by (rule only_posts, subst t1(2)) (simp add: c1)
  from f2 have c2: "db_comments db2 = db_comments db" using c1 by (simp add: content_def)
  have live: "comments.keyed db2" "set ?ids \<subseteq> live_ids (db_comments db2)" "distinct ?ids"
    using keyed(1) c2 Q dc by (auto simp: comments.keyed_def live_ids_def)
  have step: "mass_step ?ids C S db2 db3" by (rule mass_delete_comments_Inr [OF coms live(1,3,2)])
  then have o3: "scores db3 = scores db2 \<and> bonuses db3 = bonuses db2 \<and> audit db3 = audit db2"
    unfolding mass_step_def by (elim conjE) (rule only_posts)
  have tc: "topic_of_comment db2 = topic_of_comment db"
    by (simp add: fun_eq_iff topic_of_comment_def comment_of_def c2)
  note fr = content_frame_mass [OF conjunct1 [OF f2]] content_frame_mass [OF conjunct1 [OF f4]]
  have ids: "set ?ids = {pc_id x |x. x \<in> set (db_comments db) \<and> Q x}" by auto
  have cs: "db_comments db4 = db_comments db3" using fr by simp
  have "mass_posts P Q T C S db db4"
    unfolding mass_posts_def using step ids fr o1 o3 t1 by (auto simp: mass_step_def tc c2)
  moreover have "audit db4 = audit db" "bonuses db4 = bonuses db" using f4 o3 f2 o1 fr by simp_all
  moreover have "\<exists>x\<in>set (db_comments db4). \<not> pc_deleted x \<and> pc_replyto x = Some i"
    if "replies_later (db_comments db)" "i \<in> set S" for i
    unfolding cs
    by (rule mass_skipped_reply [OF coms live(1,3,2)])
      (use dc that c2 strict_sorted_iff [of "sort ?cl"] in \<open>simp_all add: sorted_wrt_rev\<close>)
  moreover have "\<forall>x\<in>set (db_comments db4). \<not> pc_deleted x \<longrightarrow> pc_replyto x \<notin> Some ` set C"
    using step by (simp add: cs mass_step_def)
  moreover have "db_events db1 = db_events db" by (subst t1(2)) simp
  ultimately show ?thesis using t1(1) mass_step_events [OF step] by (simp add: no_orphans_def)
qed

lemma mass_delete_post_iff:
  "mass_delete_post t r db db' \<longleftrightarrow>
     mass_posts (\<lambda>x. pt_userid x = t \<and> \<not> pt_deleted x) (\<lambda>x. pc_userid x = t \<and> \<not> pc_deleted x)
       (md_vecTopicIds r) (md_vecCommentIds r) (md_vecSkippedCommentIds r) db db' \<and>
     bonuses db' = bonuses db @ map (\<lambda>i. (i, Some 0)) (md_vecTopicIds r @ md_vecCommentIds r)"
  unfolding mass_delete_post_def mass_posts_def by blast

lemma mass_posts_rows: "post_rows db2 = post_rows db1 \<Longrightarrow> mass_posts P Q T C S db db2 = mass_posts P Q T C S db db1 \<and>
    no_orphans C S db db2 = no_orphans C S db db1 \<and> audit db2 = audit db1"
  by (simp add: post_rows_def mass_posts_def no_orphans_def)

lemma stMassDelete_Inr:
  assumes run: "stMassDelete now t m db = (Inr r, db')" and keyed: "comments.keyed db" "topics.keyed db"
  shows "mass_delete_post t r db db' \<and> audit db' = audit db
    \<and> no_orphans (md_vecCommentIds r) (md_vecSkippedCommentIds r) db db'"
proof -
  let ?P = "\<lambda>r. pt_userid r = t \<and> \<not> pt_deleted r" and ?Q = "\<lambda>r. pc_userid r = t \<and> \<not> pc_deleted r"
  from run obtain T C S db1 db2 db3 db4 where
    tops: "mass_delete_topics (map pt_id (filter ?P (db_topics db))) db = (Inr T, db1)"
    and ev1: "mass_vDeleteTopicEvents T db1 = (Inr (), db2)"
    and coms: "mass_delete_comments now (rev (sort (map pc_id (filter ?Q (db_comments db))))) db2 = (Inr (C, S), db3)"
    and ev2: "vDeleteCommentEvents C db3 = (Inr (), db4)"
    and rec: "record_deletions now m (T @ C) db4 = (Inr (), db')"
    and r: "r = \<lparr>md_vecTopicIds = T, md_vecCommentIds = C, md_vecSkippedCommentIds = S\<rparr>"
    by (auto simp: stMassDelete_def bind_eff_Inr_iff select_rows_def)
  have "content db2 = content db1 \<and> audit db2 = audit db1" "content db4 = content db3 \<and> audit db4 = audit db3"
    using keepsD [OF mass_events_frame(1) _ ev1] keepsD [OF mass_events_frame(2) _ ev2] by blast+
  from mass_core [OF keyed _ _ tops this(1) coms this(2)]
  have core: "mass_posts ?P ?Q T C S db db4" "bonuses db4 = bonuses db" "audit db4 = audit db" "no_orphans C S db db4"
    by auto
  note rec' = record_deletions_Inr [OF rec]
  with mass_posts_rows [of db' db4 ?P ?Q T C S db] core
  show ?thesis unfolding mass_delete_post_iff by (simp add: r)
qed

lemma mass_delete_post_cong:
  assumes "content db1 = content db"
  shows "mass_delete_post t r db1 db' = mass_delete_post t r db db'"
proof -
  have "topic_of_comment db1 = topic_of_comment db"
    using assms by (simp add: fun_eq_iff topic_of_comment_def comment_of_def content_def)
  with content_frame_mass [OF assms] show ?thesis by (simp add: mass_delete_post_def)
qed

lemma profile_update:
  assumes "\<And>r n. f (r\<lparr>pu_unread_events := n\<rparr>) = (f r)\<lparr>pu_unread_events := n\<rparr>" and "\<And>r n. p (r\<lparr>pu_unread_events := n\<rparr>) = p r"
  shows "users_profile (db_users_update (update_where p f) db) = update_where p f (users_profile db)"
  using assms by (simp add: users_profile_def update_where_def)

lemma vLog_Inr:
  "vLog now t m a info db = (Inr x, db') \<longleftrightarrow>
     user_of db t \<noteq> None \<and> user_of db m \<noteq> None \<and>
     db' = db_user_log_update (\<lambda>ls. ls @ [\<lparr>ul_userid = t, ul_action_userid = m, ul_action_date = now,
       ul_action = a, ul_info = info\<rparr>]) db"
  by (auto simp: vLog_def exec_insert_def)

lemma vBlock_Inr:
  assumes "vBlock now t m s db = (Inr x, db')"
  shows "content db' = content db"
    and "users_profile db' = update_where (\<lambda>r. pu_id r = t) (pu_blocked_update (\<lambda>_. True)) (users_profile db)"
    and "db_user_log db' = db_user_log db @ [\<lparr>ul_userid = t, ul_action_userid = m, ul_action_date = now,
           ul_action = (u ''block_user''), ul_info = [((u ''reason''), s)]\<rparr>]"
proof -
  let ?f = "db_users_update (update_where (\<lambda>r. pu_id r = t) (pu_blocked_update (\<lambda>_. True)))"
  from assms obtain ban where db': "db' = db_user_log_update (\<lambda>ls. ls @ [\<lparr>ul_userid = t, ul_action_userid = m,
      ul_action_date = now, ul_action = (u ''block_user''), ul_info = [((u ''reason''), s)]\<rparr>]) (db_ban_info_update ban (?f db))"
    by (auto simp: vBlock_def bind_eff_Inr_iff update_user_def exec_update_def exec_insert_def vLog_Inr split: if_splits)
  have "users_profile db' = users_profile (?f db)" by (simp add: db' users_profile_def)
  also have "\<dots> = update_where (\<lambda>r. pu_id r = t) (pu_blocked_update (\<lambda>_. True)) (users_profile db)"
    by (rule profile_update) simp_all
  finally show "users_profile db' = update_where (\<lambda>r. pu_id r = t) (pu_blocked_update (\<lambda>_. True)) (users_profile db)" .
  show "content db' = content db" by (simp add: db' content_def scores_def scores_other)
  show "db_user_log db' = db_user_log db @ [\<lparr>ul_userid = t, ul_action_userid = m, ul_action_date = now,
           ul_action = (u ''block_user''), ul_info = [((u ''reason''), s)]\<rparr>]" by (simp add: db')
qed

lemma mass_delete_run:
  assumes "user_stApply rfc now (MBlockAndDelete t m s) db = (Inr x, db')"
  obtains res db1 where "x = Some res" "vBlock now t m s db = (Inr (), db1)" "stMassDelete now t m db1 = (Inr res, db')"
  using assms by (auto simp: user_stApply_def transaction_Inr apply_body_def bind_eff_Inr_iff)

lemma content_keyed: "content db1 = content db \<Longrightarrow> comments.keyed db1 = comments.keyed db \<and> topics.keyed db1 = topics.keyed db"
  by (simp add: content_def comments.keyed_def topics.keyed_def)

text \<open>C22: Blocking a user together with his posts is one transaction.  On success the user is blocked, all
  his live topics are deleted and unpinned, and his live comments split into those deleted and
  those reported as skipped; exactly these rows change their flags, the comment counter of each
  topic falls by the number of its deleted comments, every deletion is recorded without a
  penalty, and no score changes.  An error changes nothing.\<close>

theorem mass_delete_effect:
  assumes "comments.keyed db" and "topics.keyed db"
    and "user_stApply rfc now (MBlockAndDelete t m s) db = (r, db')"
  shows "case r of Inl e \<Rightarrow> db' = db
    | Inr x \<Rightarrow> \<exists>res. x = Some res \<and> mass_delete_post t res db db'
        \<and> (\<forall>y\<in>set (db_users db'). pu_id y = t \<longrightarrow> pu_blocked y)"
proof (cases r)
  case (Inl e)
  with assms(3) show ?thesis by (auto simp: user_stApply_def transaction_err)
next
  case (Inr x)
  obtain res db1 where x: "x = Some res" and blk: "vBlock now t m s db = (Inr (), db1)"
    and del: "stMassDelete now t m db1 = (Inr res, db')"
    using mass_delete_run assms(3) Inr by metis
  note cont = vBlock_Inr(1) [OF blk]
  have "comments.keyed db1" "topics.keyed db1" using content_keyed [OF cont] assms(1,2) by simp_all
  from stMassDelete_Inr [OF del this] have post: "mass_delete_post t res db db'" and "audit db' = audit db1"
    by (simp_all add: mass_delete_post_cong [OF cont])
  then have prof: "users_profile db' = update_where (\<lambda>r. pu_id r = t) (pu_blocked_update (\<lambda>_. True)) (users_profile db)"
    by (simp add: audit_def vBlock_Inr(2) [OF blk])
  have "pu_blocked y" if "y \<in> set (db_users db')" "pu_id y = t" for y
  proof -
    from that(1) have "y\<lparr>pu_unread_events := 0\<rparr> \<in> set (users_profile db')" by (simp add: users_profile_def)
    with that(2) show ?thesis unfolding prof by (auto simp: update_where_def dest: arg_cong [where f = pu_blocked] split: if_splits)
  qed
  with post x Inr show ?thesis by simp
qed

text \<open>C23: A mass deletion leaves no orphans: no live comment answers a comment it deleted, and when replies
  have larger ids than what they answer, each comment it skipped still has a live answer.\<close>

theorem mass_delete_no_orphans:
  assumes "comments.keyed db" and "topics.keyed db"
    and "user_stApply rfc now (MBlockAndDelete t m s) db = (Inr (Some res), db')"
  shows "(\<forall>x\<in>set (db_comments db'). \<not> pc_deleted x \<longrightarrow> pc_replyto x \<notin> Some ` set (md_vecCommentIds res))
    \<and> (replies_later (db_comments db) \<longrightarrow> (\<forall>i\<in>set (md_vecSkippedCommentIds res).
         \<exists>x\<in>set (db_comments db'). \<not> pc_deleted x \<and> pc_replyto x = Some i))"
proof -
  obtain db1 where blk: "vBlock now t m s db = (Inr (), db1)" and del: "stMassDelete now t m db1 = (Inr res, db')"
    using mass_delete_run [OF assms(3)] by blast
  note cont = vBlock_Inr(1) [OF blk]
  have "comments.keyed db1" "topics.keyed db1" "db_comments db1 = db_comments db"
    using content_keyed [OF cont] cont assms(1,2) by (simp_all add: content_def)
  with stMassDelete_Inr [OF del] show ?thesis by (simp add: no_orphans_def)
qed

lemma ex_mass_delete:
  "fst (user_stApply (\<lambda>_. []) 2000 (MBlockAndDelete 7 8 (u ''spam'')) ex_user_db) =
    Inr (Some \<lparr>md_vecTopicIds = [5], md_vecCommentIds = [22], md_vecSkippedCommentIds = [20]\<rparr>)"
  by (simp add: user_stApply_def transaction_def apply_body_def bind_eff_def vBlock_def update_user_def exec_update_def
      exec_insert_def vLog_def stMassDelete_def select_rows_def ex_user_db_def ex_comment_db_def ex_db_def ex_user_def
      ex_thread_def ex_comment_def ex_topic_def update_where_def user_of_def mass_vDeleteTopicEvents_def delete_events_def
      drop_comment_count_def exec_update_checked_def topic_of_comment_def comment_of_def vDeleteCommentEvents_def
      insert_del_info_def touch_topic_def in_i32_def Let_def)

lemma ex_user_keyed: "comments.keyed ex_user_db" "topics.keyed ex_user_db"
  by (simp_all add: comments.keyed_def topics.keyed_def ex_user_db_def ex_comment_db_def ex_thread_def ex_comment_def ex_topic_def)

theorem mass_delete_effect_witness:
  "\<exists>db'. mass_delete_post 7 \<lparr>md_vecTopicIds = [5], md_vecCommentIds = [22], md_vecSkippedCommentIds = [20]\<rparr> ex_user_db db'"
proof -
  obtain r db' where run: "user_stApply (\<lambda>_. []) 2000 (MBlockAndDelete 7 8 (u ''spam'')) ex_user_db = (r, db')" by fastforce
  with ex_mass_delete have "r = Inr (Some \<lparr>md_vecTopicIds = [5], md_vecCommentIds = [22], md_vecSkippedCommentIds = [20]\<rparr>)"
    by simp
  with mass_delete_effect [OF ex_user_keyed run] show ?thesis by auto
qed

theorem mass_delete_no_orphans_witness:
  "\<exists>db' :: pg. \<exists>x\<in>set (db_comments db'). \<not> pc_deleted x \<and> pc_replyto x = Some 20"
proof -
  let ?res = "\<lparr>md_vecTopicIds = [5], md_vecCommentIds = [22], md_vecSkippedCommentIds = [20]\<rparr>"
  obtain db' where run: "user_stApply (\<lambda>_. []) 2000 (MBlockAndDelete 7 8 (u ''spam'')) ex_user_db = (Inr (Some ?res), db')"
    using ex_mass_delete by (metis prod.collapse)
  have "replies_later (db_comments ex_user_db)"
    by (simp add: replies_later_def ex_user_db_def ex_comment_db_def ex_thread_def ex_comment_def)
  with mass_delete_no_orphans [OF ex_user_keyed run] show ?thesis by auto
qed

subsection \<open>The other mutations\<close>

definition has_text :: "rstr option \<Rightarrow> bool" where
  "has_text x = (case x of None \<Rightarrow> False | Some s \<Rightarrow> trim s \<noteq> [])"

definition lose_points :: "int \<Rightarrow> pg_user \<Rightarrow> pg_user" where
  "lose_points n = pu_score_update (map_option (\<lambda>s. s - n))"

text \<open>The target's row after a mutation, as the moderator is promised it.\<close>

definition profile_after :: "EnUserModerationMutation \<Rightarrow> pg_user \<Rightarrow> pg_user" where
  "profile_after mut r =
     (case mut of
        MBlock _ _ _ \<Rightarrow> r\<lparr>pu_blocked := True\<rparr>
      | MBlockAndDelete _ _ _ \<Rightarrow> r\<lparr>pu_blocked := True\<rparr>
      | MUnblock _ _ \<Rightarrow> r\<lparr>pu_blocked := False\<rparr>
      | MScore50 _ _ \<Rightarrow> (if \<exists>s. pu_score r = Some s \<and> s < 50
          then r\<lparr>pu_score := Some 50, pu_max_score := Some (max 50 (coalesce 50 (pu_max_score r)))\<rparr> else r)
      | MSetCorrector _ _ b \<Rightarrow> r\<lparr>pu_corrector := b\<rparr>
      | MResetPassword _ _ h \<Rightarrow> r\<lparr>pu_passwd := Some h, pu_lostpwd := 0\<rparr>
      | MResetUserpic _ _ b \<Rightarrow> (if pu_photo r = None then r else lose_points (if b then 10 else 0) (r\<lparr>pu_photo := None\<rparr>))
      | MRemoveUserInfo _ _ \<Rightarrow> (if has_text (pu_userinfo r) then lose_points 10 (r\<lparr>pu_userinfo := None\<rparr>) else r)
      | MRemoveTown _ _ \<Rightarrow> (if has_text (pu_town r) then lose_points 10 (r\<lparr>pu_town := None\<rparr>) else r)
      | MRemoveUrl _ _ \<Rightarrow> r\<lparr>pu_url := None\<rparr>
      | MFreeze _ _ s d _ \<Rightarrow> r\<lparr>pu_frozen_until := Some d, pu_frozen_by := Some (mut_actor mut), pu_freezing_reason := Some s\<rparr>)"

definition is_mass_delete :: "EnUserModerationMutation \<Rightarrow> bool" where
  "is_mass_delete mut = (case mut of MBlockAndDelete _ _ _ \<Rightarrow> True | _ \<Rightarrow> False)"

text \<open>One log entry about the target by the actor, or nothing happened at all.\<close>

definition audited :: "EnUserModerationMutation \<Rightarrow> time \<Rightarrow> pg \<Rightarrow> pg \<Rightarrow> bool" where
  "audited mut now db db' \<longleftrightarrow> db' = db \<or> (\<exists>a info. db_user_log db' = db_user_log db @
     [\<lparr>ul_userid = mut_target mut, ul_action_userid = mut_actor mut, ul_action_date = now, ul_action = a, ul_info = info\<rparr>])"

definition others :: "pg \<Rightarrow> pg_topic list \<times> pg_comment list \<times> pg_msgbase list \<times> pg_del_info list \<times> pg_event list \<times> pg_warning list" where
  "others db = (db_topics db, db_comments db, db_msgbase db, db_del_info db, db_events db, db_warnings db)"

definition apply_spec :: "EnUserModerationMutation \<Rightarrow> time \<Rightarrow> pg \<Rightarrow> pg \<Rightarrow> bool" where
  "apply_spec mut now db db' \<longleftrightarrow>
     users_profile db' = update_where (\<lambda>r. pu_id r = mut_target mut) (profile_after mut) (users_profile db) \<and>
     audited mut now db db' \<and> (is_mass_delete mut \<or> others db' = others db)"

lemma profile_after_unread: "profile_after mut (r\<lparr>pu_unread_events := n\<rparr>) = (profile_after mut r)\<lparr>pu_unread_events := n\<rparr>"
  by (cases mut) (auto simp: profile_after_def lose_points_def)

lemma update_where_cong: "(\<And>r. r \<in> set rs \<Longrightarrow> p r \<Longrightarrow> f r = g r) \<Longrightarrow> update_where p f rs = update_where p g rs"
  by (simp add: update_where_def)

lemma update_where_id: "(\<And>r. r \<in> set rs \<Longrightarrow> p r \<Longrightarrow> f r = r) \<Longrightarrow> update_where p f rs = rs"
  by (simp add: update_where_def map_idI)

lemma keyed_row:
  assumes "users.keyed db" and "user_of db t = Some r" and "r' \<in> set (db_users db)" and "pu_id r' = t"
  shows "r' = r"
  using users.find_key_iff [OF assms(1), of t r'] assms(2-4) by (simp add: user_of_def)

lemma audited_log [simp]:
  "mut_target mut = t \<Longrightarrow> mut_actor mut = m \<Longrightarrow>
    audited mut now db (db_user_log_update (\<lambda>ls. ls @ [\<lparr>ul_userid = t, ul_action_userid = m, ul_action_date = now,
      ul_action = a, ul_info = info\<rparr>]) (db_users_update f db))"
  "audited mut now db db"
  by (simp_all add: audited_def)

lemma spec_of_users:
  assumes "db_users db' = update_where (\<lambda>r. pu_id r = mut_target mut) (profile_after mut) (db_users db)"
    and "audited mut now db db'" and "is_mass_delete mut \<or> others db' = others db"
  shows "apply_spec mut now db db'"
proof -
  have "users_profile db' = users_profile (db_users_update (update_where (\<lambda>r. pu_id r = mut_target mut) (profile_after mut)) db)"
    by (simp add: users_profile_def assms(1))
  also have "\<dots> = update_where (\<lambda>r. pu_id r = mut_target mut) (profile_after mut) (users_profile db)"
    by (rule profile_update) (simp_all add: profile_after_unread)
  finally show ?thesis using assms(2,3) by (simp add: apply_spec_def)
qed

text \<open>An update of the target's row followed by its log entry.\<close>

lemma spec_update_log:
  assumes "vLog now t m a info (db_users_update (update_where (\<lambda>r. pu_id r = t) f) db) = (Inr x, db')"
    and "mut_target mut = t" "mut_actor mut = m"
    and "\<And>r. r \<in> set (db_users db) \<Longrightarrow> pu_id r = t \<Longrightarrow> f r = profile_after mut r"
  shows "apply_spec mut now db db'"
proof (rule spec_of_users)
  show "db_users db' = update_where (\<lambda>r. pu_id r = mut_target mut) (profile_after mut) (db_users db)"
    using assms update_where_cong [of "db_users db" "\<lambda>r. pu_id r = t" f "profile_after mut"] by (simp add: vLog_Inr)
  show "audited mut now db db'" using assms(1-3) by (auto simp: vLog_Inr)
  show "is_mass_delete mut \<or> others db' = others db" using assms(1) by (auto simp: vLog_Inr others_def)
qed

lemma spec_unchanged:
  assumes "\<And>r. r \<in> set (db_users db) \<Longrightarrow> pu_id r = mut_target mut \<Longrightarrow> profile_after mut r = r"
  shows "apply_spec mut now db db"
  by (rule spec_of_users) (simp_all add: update_where_id assms)

lemma clear_field_spec:
  assumes run: "clear_field now t m get present clear d a info db = (Inr x, db')" and keyed: "users.keyed db"
    and mut: "mut_target mut = t" "mut_actor mut = m"
    and skip: "\<And>r. get r = None \<or> (\<exists>s. get r = Some s \<and> \<not> present s) \<Longrightarrow> profile_after mut r = r"
    and change: "\<And>r s. get r = Some s \<Longrightarrow> present s \<Longrightarrow>
      (clear r)\<lparr>pu_score := map_option (\<lambda>s. s + d) (pu_score r)\<rparr> = profile_after mut r"
  shows "apply_spec mut now db db'"
proof -
  let ?f = "\<lambda>r. (clear r)\<lparr>pu_score := map_option (\<lambda>s. s + d) (pu_score r)\<rparr>"
  from run obtain r where r: "user_of db t = Some r"
    by (auto simp: clear_field_def bind_eff_Inr_iff fetch_one_def ok_or_iff user_of_def)
  note only = keyed_row [OF keyed r]
  show ?thesis
  proof (cases "\<exists>s. get r = Some s \<and> present s")
    case False
    then have "get r = None \<or> (\<exists>s. get r = Some s \<and> \<not> present s)" by auto
    then have "profile_after mut r = r" by (rule skip)
    moreover have "db' = db"
      using run r False by (auto simp: clear_field_def bind_eff_Inr_iff fetch_one_def ok_or_iff user_of_def split: option.splits if_splits)
    ultimately show ?thesis using only mut(1) by (auto intro: spec_unchanged)
  next
    case True
    then obtain s where s: "get r = Some s" "present s" by blast
    with run r have "vLog now t m a (info s) (db_users_update (update_where (\<lambda>r. pu_id r = t) ?f) db) = (Inr x, db')"
      by (auto simp: clear_field_def bind_eff_Inr_iff fetch_one_def user_of_def update_user_score_def
          exec_update_checked_def exec_update_def split: if_splits)
    then show ?thesis
      by (rule spec_update_log [OF _ mut]) (use only change s in auto)
  qed
qed

lemmas apply_unfold = user_stApply_def transaction_Inr apply_body_def bind_eff_Inr_iff

lemma score50_spec:
  assumes run: "apply_body rfc now (MScore50 t m) db = (Inr x, db')" and keyed: "users.keyed db"
  shows "apply_spec (MScore50 t m) now db db'"
proof -
  let ?p = "\<lambda>r. pu_id r = t \<and> (case pu_score r of None \<Rightarrow> False | Some s \<Rightarrow> s < 50)"
  let ?f = "\<lambda>r. r\<lparr>pu_score := map_option (max 50) (pu_score r),
                   pu_max_score := Some (case pu_max_score r of None \<Rightarrow> 50 | Some s \<Rightarrow> max s 50)\<rparr>"
  have f: "?f r = profile_after (MScore50 t m) r" if "?p r" for r
    using that by (cases "pu_score r"; cases "pu_max_score r") (auto simp: profile_after_def max_def)
  have same: "profile_after (MScore50 t m) r = r" if "pu_id r = t" "\<not> ?p r" for r
    using that by (auto simp: profile_after_def)
  have users: "update_where ?p ?f = update_where (\<lambda>r. pu_id r = t) (profile_after (MScore50 t m))"
    using f same by (auto simp: update_where_def fun_eq_iff)
  show ?thesis
  proof (cases "filter ?p (db_users db) = []")
    case True
    from update_where_none [OF True] have "db_users_update (update_where ?p ?f) db = db" by simp
    with run True have "db' = db" by (auto simp: apply_body_def bind_eff_Inr_iff exec_update_def)
    then show ?thesis using True same by (auto simp: filter_empty_conv intro!: spec_unchanged)
  next
    case False
    with run have "vLog now t m (u ''score50'') [] (db_users_update (update_where (\<lambda>r. pu_id r = t) (profile_after (MScore50 t m))) db) = (Inr (), db')"
      by (auto simp: apply_body_def bind_eff_Inr_iff exec_update_def users)
    then show ?thesis by (rule spec_update_log) simp_all
  qed
qed

text \<open>C14: Each moderation of a user refines its abstract specification: the target's row becomes
  \<open>profile_after\<close> of it - the flag, the freeze, the cleared field with its ten points - and no
  other user's row changes but for unread counters; unless nothing happened at all, exactly one
  audit record by the actor about the target is written; only the mass deletion touches posts
  or events, and an error changes nothing.\<close>

theorem user_apply_effect:
  assumes "pg_ok db" and "user_stApply rfc now mut db = (r, db')"
  shows "case r of Inl e \<Rightarrow> db' = db | Inr x \<Rightarrow> apply_spec mut now db db'"
proof (cases r)
  case (Inl e)
  with assms(2) show ?thesis by (auto simp: user_stApply_def transaction_err)
next
  case (Inr x)
  with assms(2) have run: "apply_body rfc now mut db = (Inr x, db')" by (simp add: user_stApply_def transaction_Inr)
  have keyed: "users.keyed db" "comments.keyed db" "topics.keyed db" using assms(1) by (simp_all add: pg_ok_def)
  note upd = bind_eff_Inr_iff update_user_def exec_update_def apply_body_def
  have "apply_spec mut now db db'"
  proof (cases mut)
    case (MBlock t m s)
    with run vBlock_Inr [of now t m s db "()" db'] show ?thesis
      by (auto simp: apply_body_def bind_eff_Inr_iff apply_spec_def audited_def profile_after_def update_where_def
          is_mass_delete_def others_def vBlock_def update_user_def exec_update_def exec_insert_def vLog_Inr split: if_splits)
  next
    case (MUnblock t m)
    with run show ?thesis
      by (auto simp: upd exec_delete_def vLog_Inr audited_def others_def profile_after_def update_where_def
          intro!: spec_of_users)
  next
    case (MScore50 t m)
    with run score50_spec keyed(1) show ?thesis by blast
  next
    case (MSetCorrector t m b)
    with run show ?thesis by (auto simp: upd profile_after_def elim!: spec_update_log)
  next
    case (MResetPassword t m h)
    with run show ?thesis by (auto simp: upd profile_after_def elim!: spec_update_log)
  next
    case (MResetUserpic t m b)
    with run show ?thesis
      by (auto simp: bind_eff_Inr_iff apply_body_def profile_after_def lose_points_def comp_def
          elim!: clear_field_spec [OF _ keyed(1)])
  next
    case (MRemoveUserInfo t m)
    with run show ?thesis
      by (auto simp: bind_eff_Inr_iff apply_body_def profile_after_def lose_points_def has_text_def comp_def
          elim!: clear_field_spec [OF _ keyed(1)])
  next
    case (MRemoveTown t m)
    with run show ?thesis
      by (auto simp: bind_eff_Inr_iff apply_body_def profile_after_def lose_points_def has_text_def comp_def
          elim!: clear_field_spec [OF _ keyed(1)])
  next
    case (MRemoveUrl t m)
    with run show ?thesis
      by (auto simp: bind_eff_Inr_iff apply_body_def profile_after_def option.map_ident
          elim!: clear_field_spec [OF _ keyed(1)])
  next
    case (MFreeze t m s d b)
    with run show ?thesis by (auto simp: upd profile_after_def elim!: spec_update_log)
  next
    case (MBlockAndDelete t m s)
    with run obtain res db1 where blk: "vBlock now t m s db = (Inr (), db1)" and del: "stMassDelete now t m db1 = (Inr res, db')"
      by (auto simp: apply_body_def bind_eff_Inr_iff)
    have "comments.keyed db1" "topics.keyed db1" using content_keyed [OF vBlock_Inr(1) [OF blk]] keyed by simp_all
    from stMassDelete_Inr [OF del this] have "audit db' = audit db1" by blast
    with vBlock_Inr(2,3) [OF blk] MBlockAndDelete show ?thesis
      by (auto simp: apply_spec_def audit_def audited_def profile_after_def is_mass_delete_def update_where_def)
  qed
  with Inr show ?thesis by simp
qed

lemma ex_user_ok: "pg_ok ex_user_db"
  using ex_user_keyed
  by (simp add: pg_ok_def users.keyed_def del_info.keyed_def ex_user_db_def ex_comment_db_def ex_db_def ex_user_def in_i32_def)

theorem user_apply_effect_witness:
  "\<exists>db'. apply_spec (MFreeze 7 8 (u ''hot'') 9000 False) 2000 ex_user_db db' \<and> db' \<noteq> ex_user_db"
proof -
  let ?mut = "MFreeze 7 8 (u ''hot'') 9000 False"
  obtain r db' where run: "user_stApply (\<lambda>_. []) 2000 ?mut ex_user_db = (r, db')" by fastforce
  have r: "r = Inr None" and db': "db_user_log db' \<noteq> []"
    using run by (auto simp: user_stApply_def transaction_def apply_body_def bind_eff_def update_user_def exec_update_def
        vLog_def exec_insert_def ex_user_db_def ex_comment_db_def ex_db_def ex_user_def update_where_def user_of_def
        split: if_splits)
  have "db_user_log ex_user_db = []" by (simp add: ex_user_db_def ex_comment_db_def ex_db_def)
  with db' user_apply_effect [OF ex_user_ok run] r show ?thesis by auto
qed

end
