(* ===== verification/Warnings.thy ===== *)
theory Warnings
  imports Topic_Options
begin

section \<open>Warnings about topics and comments\<close>

text \<open>
  \<open>src/domain/warning/model.rs\<close>, the service of \<open>src/application/warning/mod.rs\<close> and the
  repository of \<open>src/infra/postgres/warning_repository.rs\<close>: who may notify the moderators
  about what, whom the notification reaches, and the counter of open warnings of a topic.
\<close>

subsection \<open>The model (src/domain/warning)\<close>

datatype EnWarningType = WRule | WTag | WSpelling | WGroup

definition optFromId :: "rstr \<Rightarrow> EnWarningType option" where
  "optFromId sValue =
     (if sValue = (u ''rule'') then Some WRule
      else if sValue = (u ''tag'') then Some WTag
      else if sValue = (u ''spelling'') then Some WSpelling
      else if sValue = (u ''group'') then Some WGroup
      else None)"

fun warning_sId :: "EnWarningType \<Rightarrow> rstr" where
  "warning_sId WRule = (u ''rule'')"
| "warning_sId WTag = (u ''tag'')"
| "warning_sId WSpelling = (u ''spelling'')"
| "warning_sId WGroup = (u ''group'')"

fun warning_sName :: "EnWarningType \<Rightarrow> rstr" where
  "warning_sName WRule = ([1053, 1072, 1088, 1091, 1096, 1077, 1085, 1080, 1077, 32, 1087, 1088, 1072, 1074, 1080, 1083] :: rstr) \<comment> \<open>Narushenie pravil\<close>"
| "warning_sName WTag = ([1053, 1077, 1082, 1086, 1088, 1088, 1077, 1082, 1090, 1085, 1099, 1077, 32, 1090, 1077, 1075, 1080] :: rstr) \<comment> \<open>Nekorrektnye tegi\<close>"
| "warning_sName WSpelling = ([1054, 1087, 1077, 1095, 1072, 1090, 1082, 1072, 32, 1080, 1083, 1080, 32, 1092, 1086, 1088, 1084, 1072, 1090, 1080, 1088, 1086, 1074, 1072, 1085, 1080, 1077] :: rstr) \<comment> \<open>Opechatka ili formatirovanie\<close>"
| "warning_sName WGroup = ([1053, 1077, 1082, 1086, 1088, 1088, 1077, 1082, 1090, 1085, 1072, 1103, 32, 1075, 1088, 1091, 1087, 1087, 1072, 32, 1080, 1083, 1080, 32, 1088, 1072, 1079, 1076, 1077, 1083] :: rstr) \<comment> \<open>Nekorrektnaya gruppa ili razdel\<close>"

record StWarningTopic =
  wt_iId :: int
  wt_iAuthorId :: int
  wt_bDeleted :: bool
  wt_bDraft :: bool
  wt_iPostScore :: int
  wt_bExpired :: bool
  wt_bPremoderated :: bool
  wt_bCommitted :: bool
  wt_sGroupUrl :: rstr
  wt_sSectionPrefix :: rstr

definition sTopicUrl :: "StWarningTopic \<Rightarrow> rstr" where
  "sTopicUrl t = (u ''/'') @ wt_sSectionPrefix t @ (u ''/'') @ wt_sGroupUrl t @ (u ''/'') @ show_int (wt_iId t)"

record StWarningRecord =
  wr_iTopicId :: int
  wr_optCommentId :: "int option"

record StCreateWarningMutation =
  wm_iTopicId :: int
  wm_optCommentId :: "int option"
  wm_iAuthorId :: int
  wm_sMessage :: rstr
  wm_enWarningType :: EnWarningType

record StClearWarningMutation =
  wc_iWarningId :: int
  wc_iActorId :: int
  wc_iTopicId :: int
  wc_optCommentId :: "int option"

record 'w TrWarningRepository =
  twr_optTopic :: "int \<Rightarrow> ('w, app_error, StWarningTopic option) eff"
  twr_optCommentDeleted :: "int \<Rightarrow> int \<Rightarrow> ('w, app_error, bool option) eff"
  twr_bUserFrozen :: "int \<Rightarrow> ('w, app_error, bool) eff"
  twr_iRecentWarnings :: "int \<Rightarrow> ('w, app_error, int) eff"
  twr_iCreate :: "StCreateWarningMutation \<Rightarrow> ('w, app_error, int) eff"
  twr_optWarning :: "int \<Rightarrow> ('w, app_error, StWarningRecord option) eff"
  twr_vClear :: "StClearWarningMutation \<Rightarrow> ('w, app_error, unit) eff"

subsection \<open>The service (src/application/warning/mod.rs)\<close>

definition I_MAX_WARNINGS_PER_HOUR :: int where "I_MAX_WARNINGS_PER_HOUR = 5"
definition I_HIDE_COMMENTS_POST_SCORE :: int where "I_HIDE_COMMENTS_POST_SCORE = 10002"

record StWarningContext =
  wx_bPremoderated :: bool
  wx_sTopicUrl :: rstr
  wx_vecEligibilityErrors :: "rstr list"

record StWarningPresentation =
  wp_stContext :: StWarningContext
  wp_vecTypes :: "EnWarningType list"
  wp_vecErrors :: "rstr list"

record StCreateWarningCommand =
  wd_iTopicId :: int
  wd_optCommentId :: "int option"
  wd_optText :: "rstr option"
  wd_optWarningType :: "rstr option"
  wd_optRuleType :: "rstr option"

datatype EnCreateWarningOutcome = Validation StWarningPresentation | Created rstr

definition vCheckView :: "StUserSummary \<Rightarrow> StWarningTopic \<Rightarrow> app_error + unit" where
  "vCheckView stUser stTopic =
     (if wt_iPostScore stTopic = I_HIDE_COMMENTS_POST_SCORE then Inl Forbidden
      else if wt_bPremoderated stTopic \<and> \<not> wt_bCommitted stTopic \<and> wt_iAuthorId stTopic \<noteq> us_id stUser
        \<and> \<not> us_canmod stUser \<and> \<not> us_corrector stUser then Inl Forbidden
      else Inr ())"

definition vecWarningTypes :: "bool \<Rightarrow> int option \<Rightarrow> EnWarningType list" where
  "vecWarningTypes bPremoderated optCommentId =
     (if optCommentId \<noteq> None then [WRule]
      else if bPremoderated then [WRule, WSpelling, WTag, WGroup]
      else [WRule, WTag, WGroup])"

definition eligibility_errors :: "StUserSummary \<Rightarrow> bool \<Rightarrow> StWarningTopic \<Rightarrow> bool \<Rightarrow> rstr list" where
  "eligibility_errors stUser bFrozen stTopic bCommentDeleted =
     (let bCanPostWarning = (\<not> (wt_bDeleted stTopic \<or> wt_bDraft stTopic \<or> wt_bExpired stTopic \<or> bCommentDeleted
            \<or> coalesce 0 (us_score stUser) < 50 \<or> bFrozen))
      in (if \<not> bCanPostWarning then [([1042, 1099, 32, 1085, 1077, 32, 1084, 1086, 1078, 1077, 1090, 1077, 32, 1086, 1090, 1087, 1088, 1072, 1074, 1080, 1090, 1100, 32, 1091, 1074, 1077, 1076, 1086, 1084, 1083, 1077, 1085, 1080, 1077] :: rstr) \<comment> \<open>Vy ne mozhete otpravit uvedomlenie\<close>] else []) @
         (if wt_bDeleted stTopic then [([1058, 1086, 1087, 1080, 1082, 32, 1091, 1076, 1072, 1083, 1077, 1085] :: rstr) \<comment> \<open>Topik udalen\<close>] else []) @
         (if wt_bExpired stTopic then [([1058, 1086, 1087, 1080, 1082, 32, 1087, 1077, 1088, 1077, 1084, 1077, 1097, 1077, 1085, 32, 1074, 32, 1072, 1088, 1093, 1080, 1074] :: rstr) \<comment> \<open>Topik peremeshchen v arkhiv\<close>] else []) @
         (if bCommentDeleted then [([1050, 1086, 1084, 1084, 1077, 1085, 1090, 1072, 1088, 1080, 1081, 32, 1091, 1076, 1072, 1083, 1077, 1085] :: rstr) \<comment> \<open>Kommentarij udalen\<close>] else []))"

definition warning_stContext ::
    "'w TrWarningRepository \<Rightarrow> StUserSummary \<Rightarrow> int \<Rightarrow> int option \<Rightarrow> ('w, app_error, StWarningContext) eff" where
  "warning_stContext repo stUser iTopicId optCommentId =
     bind_eff (twr_bUserFrozen repo (us_id stUser)) (\<lambda>bFrozen.
     bind_eff (twr_optTopic repo iTopicId) (\<lambda>r.
     bind_eff (of_result (ok_or NotFound r)) (\<lambda>stTopic.
     bind_eff (of_result (vCheckView stUser stTopic)) (\<lambda>_.
     bind_eff (case optCommentId of
         None \<Rightarrow> ret_eff False
       | Some iCommentId \<Rightarrow>
           bind_eff (twr_optCommentDeleted repo iTopicId iCommentId) (\<lambda>o1.
           of_result (ok_or NotFound o1))) (\<lambda>bCommentDeleted.
     ret_eff \<lparr>wx_bPremoderated = wt_bPremoderated stTopic, wx_sTopicUrl = sTopicUrl stTopic,
       wx_vecEligibilityErrors = eligibility_errors stUser bFrozen stTopic bCommentDeleted\<rparr>)))))"

text \<open>The hourly limit, asked only when nothing else is wrong; shared by form and submission.\<close>

definition with_hourly_limit ::
    "'w TrWarningRepository \<Rightarrow> StUserSummary \<Rightarrow> rstr list \<Rightarrow> ('w, app_error, rstr list) eff" where
  "with_hourly_limit repo stUser errs =
     (if errs = [] then
        bind_eff (twr_iRecentWarnings repo (us_id stUser)) (\<lambda>n.
        ret_eff (if n \<ge> I_MAX_WARNINGS_PER_HOUR
                 then [([1042, 1099, 32, 1085, 1077, 32, 1084, 1086, 1078, 1077, 1090, 1077, 32, 1086, 1090, 1087, 1088, 1072, 1074, 1080, 1090, 1100, 32, 1073, 1086, 1083, 1077, 1077, 32, 53, 32, 1091, 1074, 1077, 1076, 1086, 1084, 1083, 1077, 1085, 1080, 1081, 32, 1074, 32, 1095, 1072, 1089] :: rstr) \<comment> \<open>Vy ne mozhete otpravit bolee 5 uvedomlenij v chas\<close>] else []))
      else ret_eff errs)"

definition warning_stPrepare where
  "warning_stPrepare repo stUser iTopicId optCommentId =
     bind_eff (warning_stContext repo stUser iTopicId optCommentId) (\<lambda>stContext.
     bind_eff (with_hourly_limit repo stUser (wx_vecEligibilityErrors stContext)) (\<lambda>vecErrors.
     ret_eff \<lparr>wp_stContext = stContext,
       wp_vecTypes = vecWarningTypes (wx_bPremoderated stContext) optCommentId, wp_vecErrors = vecErrors\<rparr>))"

definition chosen_type :: "StCreateWarningCommand \<Rightarrow> EnWarningType list \<Rightarrow> EnWarningType option" where
  "chosen_type c vecTypes =
     or_else (case wd_optWarningType c of None \<Rightarrow> None | Some s \<Rightarrow> optFromId s)
       (if length vecTypes = 1 then Some (vecTypes ! 0) else None)"

definition field_errors :: "EnWarningType option \<Rightarrow> EnWarningType list \<Rightarrow> rstr \<Rightarrow> rstr \<Rightarrow> rstr list" where
  "field_errors optType vecTypes sText sRuleType =
     (let bHasText = (trim sText \<noteq> []); bHasRuleType = (trim sRuleType \<noteq> []) in
      (if optType \<noteq> Some WRule \<and> bHasRuleType
       then [([1055, 1091, 1085, 1082, 1090, 32, 1087, 1088, 1072, 1074, 1080, 1083, 32, 1084, 1086, 1078, 1085, 1086, 32, 1074, 1099, 1073, 1088, 1072, 1090, 1100, 32, 1090, 1086, 1083, 1100, 1082, 1086, 32, 1087, 1088, 1080, 32, 1091, 1074, 1077, 1076, 1086, 1084, 1083, 1077, 1085, 1080, 1080, 32, 1086, 32, 1085, 1072, 1088, 1091, 1096, 1077, 1085, 1080, 1080] :: rstr) \<comment> \<open>Punkt pravil mozhno vybrat tolko pri uvedomlenii o narushenii\<close>] else []) @
      (if \<not> (case optType of None \<Rightarrow> False | Some k \<Rightarrow> k \<in> set vecTypes) then [([1053, 1077, 32, 1074, 1099, 1073, 1088, 1072, 1085, 32, 1090, 1080, 1087, 32, 1091, 1074, 1077, 1076, 1086, 1084, 1083, 1077, 1085, 1080, 1103] :: rstr) \<comment> \<open>Ne vybran tip uvedomleniya\<close>] else []) @
      (if \<not> bHasText \<and> \<not> bHasRuleType then [([1047, 1072, 1087, 1086, 1083, 1085, 1080, 1090, 1077, 32, 1082, 1086, 1084, 1084, 1077, 1085, 1090, 1072, 1088, 1080, 1081] :: rstr) \<comment> \<open>Zapolnite kommentarij\<close>] else []) @
      (if bHasText \<and> utf16_len sText > 256 then [([1057, 1086, 1086, 1073, 1097, 1077, 1085, 1080, 1077, 32, 1085, 1077, 32, 1084, 1086, 1078, 1077, 1090, 32, 1073, 1099, 1090, 1100, 32, 1073, 1086, 1083, 1077, 1077, 32, 50, 53, 54, 32, 1089, 1080, 1084, 1074, 1086, 1083, 1086, 1074] :: rstr) \<comment> \<open>Soobshchenie ne mozhet byt bolee 256 simvolov\<close>] else []))"

definition warning_message :: "rstr \<Rightarrow> rstr \<Rightarrow> rstr" where
  "warning_message sText sRuleType =
     (if trim sRuleType = [] then sText
      else if trim sText = [] then sRuleType
      else (u ''['') @ sRuleType @ (u ''] '') @ sText)"

definition warning_enCreate ::
    "'w TrWarningRepository \<Rightarrow> StUserSummary \<Rightarrow> StCreateWarningCommand
      \<Rightarrow> ('w, app_error, EnCreateWarningOutcome) eff" where
  "warning_enCreate repo stUser c =
     (let optCommentId = (case wd_optCommentId c of None \<Rightarrow> None | Some i \<Rightarrow> if i \<noteq> 0 then Some i else None) in
      bind_eff (warning_stContext repo stUser (wd_iTopicId c) optCommentId) (\<lambda>stContext.
      let vecTypes = vecWarningTypes (wx_bPremoderated stContext) optCommentId;
          sText = coalesce [] (wd_optText c);
          sRuleType = coalesce [] (wd_optRuleType c);
          optType = chosen_type c vecTypes
      in
      bind_eff (with_hourly_limit repo stUser (wx_vecEligibilityErrors stContext)) (\<lambda>errs.
      let vecErrors = errs @ field_errors optType vecTypes sText sRuleType in
      if vecErrors \<noteq> []
      then ret_eff (Validation \<lparr>wp_stContext = stContext, wp_vecTypes = vecTypes, wp_vecErrors = vecErrors\<rparr>)
      else
      bind_eff (twr_iCreate repo \<lparr>wm_iTopicId = wd_iTopicId c, wm_optCommentId = optCommentId,
          wm_iAuthorId = us_id stUser, wm_sMessage = warning_message sText sRuleType,
          wm_enWarningType = the optType\<rparr>) (\<lambda>_.
      ret_eff (Created (case optCommentId of
          Some i \<Rightarrow> wx_sTopicUrl stContext @ (u ''#comment-'') @ show_int i
        | None \<Rightarrow> wx_sTopicUrl stContext))))))"

definition warning_sClear ::
    "'w TrWarningRepository \<Rightarrow> StUserSummary \<Rightarrow> int \<Rightarrow> ('w, app_error, rstr) eff" where
  "warning_sClear repo stUser iWarningId =
     (if \<not> us_canmod stUser \<and> \<not> us_corrector stUser then fail_eff Forbidden else
      bind_eff (twr_optWarning repo iWarningId) (\<lambda>r.
      bind_eff (of_result (ok_or NotFound r)) (\<lambda>stWarning.
      bind_eff (twr_optTopic repo (wr_iTopicId stWarning)) (\<lambda>r.
      bind_eff (of_result (ok_or NotFound r)) (\<lambda>stTopic.
      bind_eff (twr_vClear repo \<lparr>wc_iWarningId = iWarningId, wc_iActorId = us_id stUser,
          wc_iTopicId = wr_iTopicId stWarning, wc_optCommentId = wr_optCommentId stWarning\<rparr>) (\<lambda>_.
      ret_eff (case wr_optCommentId stWarning of
          Some i \<Rightarrow> sTopicUrl stTopic @ (u ''#comment-'') @ show_int i
        | None \<Rightarrow> sTopicUrl stTopic)))))))"

subsection \<open>The repository (src/infra/postgres/warning_repository.rs)\<close>

definition warning_optTopic :: "(rstr \<Rightarrow> rstr) \<Rightarrow> time \<Rightarrow> int \<Rightarrow> StWarningTopic option pg_eff" where
  "warning_optTopic lower now iTopicId = (\<lambda>db.
     (Inr (map_option (\<lambda>(t, g, s).
        \<lparr>wt_iId = iTopicId, wt_iAuthorId = pt_userid t, wt_bDeleted = pt_deleted t, wt_bDraft = pt_draft t,
         wt_iPostScore = coalesce (- 9999) (pt_postscore t), wt_bExpired = topic_expired now s t,
         wt_bPremoderated = ps_moderate s, wt_bCommitted = pt_moderate t, wt_sGroupUrl = pg_urlname g,
         wt_sSectionPrefix = section_prefix lower (ps_id s) (ps_name s)\<rparr>) (topic_join db iTopicId)), db))"

definition optCommentDeleted :: "int \<Rightarrow> int \<Rightarrow> bool option pg_eff" where
  "optCommentDeleted iTopicId iCommentId =
     bind_eff (fetch_optional db_comments (\<lambda>c. pc_id c = iCommentId \<and> pc_topic c = iTopicId)) (\<lambda>r.
     ret_eff (map_option pc_deleted r))"

definition bUserFrozen :: "time \<Rightarrow> int \<Rightarrow> bool pg_eff" where
  "bUserFrozen now iUserId =
     bind_eff (fetch_one db_users (\<lambda>r. pu_id r = iUserId)) (\<lambda>r. ret_eff (user_frozen now r))"

definition iRecentWarnings :: "time \<Rightarrow> int \<Rightarrow> int pg_eff" where
  "iRecentWarnings now iUserId =
     bind_eff (select_rows db_warnings (\<lambda>w. mw_postdate w > now - hours 1 \<and> mw_author w = iUserId)) (\<lambda>rs.
     ret_eff (int (length rs)))"

text \<open>The number of distinct authors of a topic's open rule warnings.\<close>

definition open_rule_warning :: "int \<Rightarrow> pg_warning \<Rightarrow> bool" where
  "open_rule_warning iTopicId w \<longleftrightarrow>
     mw_topic w = iTopicId \<and> mw_comment w = None \<and> mw_closed_by w = None \<and> mw_type w = (u ''rule'')"

definition warning_authors :: "pg \<Rightarrow> int \<Rightarrow> int" where
  "warning_authors db iTopicId = int (card (mw_author ` {w \<in> set (db_warnings db). open_rule_warning iTopicId w}))"

definition vUpdateTopicWarnings :: "time \<Rightarrow> int \<Rightarrow> unit pg_eff" where
  "vUpdateTopicWarnings now iTopicId = (\<lambda>db.
     (Inr (), db_topics_update (update_where (\<lambda>t. pt_id t = iTopicId)
        (\<lambda>t. t\<lparr>pt_lastmod := now, pt_open_warnings := warning_authors db (pt_id t)\<rparr>)) db))"

definition warning_row :: "time \<Rightarrow> int \<Rightarrow> StCreateWarningMutation \<Rightarrow> pg_warning" where
  "warning_row now iId m =
     \<lparr>mw_id = iId, mw_topic = wm_iTopicId m, mw_comment = wm_optCommentId m, mw_postdate = now,
      mw_author = wm_iAuthorId m, mw_message = wm_sMessage m, mw_type = warning_sId (wm_enWarningType m),
      mw_closed_by = None, mw_closed_when = None\<rparr>"

definition insert_warning :: "time \<Rightarrow> StCreateWarningMutation \<Rightarrow> int pg_eff" where
  "insert_warning now m = (\<lambda>db.
     let iId = db_warning_seq db in
     if iId \<notin> mw_id ` set (db_warnings db) \<and> topic_of db (wm_iTopicId m) \<noteq> None \<and> user_of db (wm_iAuthorId m) \<noteq> None
        \<and> (case wm_optCommentId m of None \<Rightarrow> True | Some c \<Rightarrow> comment_of db c \<noteq> None)
     then (Inr iId, db\<lparr>db_warnings := db_warnings db @ [warning_row now iId m], db_warning_seq := iId + 1\<rparr>)
     else (Inl db_failure, db))"

definition warning_recipients :: "time \<Rightarrow> EnWarningType \<Rightarrow> pg_user list \<Rightarrow> int list" where
  "warning_recipients now k rs =
     (let bNotifyCorrectors = (k = WTag \<or> k = WSpelling) in
      sort (map pu_id (filter (\<lambda>r. (pu_canmod r \<or> bNotifyCorrectors \<and> pu_corrector r) \<and>
        (case pu_lastlogin r of None \<Rightarrow> False | Some d \<Rightarrow> now - days 30 < d)) rs)))"

definition warning_event :: "StCreateWarningMutation \<Rightarrow> int \<Rightarrow> int \<Rightarrow> pg_event" where
  "warning_event m iWarningId iRecipientId =
     \<lparr>ue_id = 0, ue_userid = iRecipientId, ue_type = WARNING, ue_private = True,
      ue_message_id = Some (wm_iTopicId m), ue_comment_id = wm_optCommentId m,
      ue_message = Some ((u ''['') @ warning_sName (wm_enWarningType m) @ (u ''] '') @ wm_sMessage m),
      ue_unread = True, ue_origin_user = Some (wm_iAuthorId m), ue_warning_id = Some iWarningId\<rparr>"

fun notify_all :: "StCreateWarningMutation \<Rightarrow> int \<Rightarrow> int list \<Rightarrow> unit pg_eff" where
  "notify_all m iWarningId [] = ret_eff ()"
| "notify_all m iWarningId (r # rs) =
     bind_eff (insert_event (warning_event m iWarningId r)) (\<lambda>_. notify_all m iWarningId rs)"

definition warning_iCreate :: "time \<Rightarrow> StCreateWarningMutation \<Rightarrow> int pg_eff" where
  "warning_iCreate now m = transaction (
     bind_eff (insert_warning now m) (\<lambda>iWarningId.
     bind_eff (\<lambda>db. (Inr (warning_recipients now (wm_enWarningType m) (db_users db)), db)) (\<lambda>vecRecipients.
     bind_eff (notify_all m iWarningId vecRecipients) (\<lambda>_.
     bind_eff (if vecRecipients \<noteq> [] then recalculate_unread vecRecipients else ret_eff ()) (\<lambda>_.
     bind_eff (if wm_optCommentId m = None then vUpdateTopicWarnings now (wm_iTopicId m) else ret_eff ()) (\<lambda>_.
     ret_eff iWarningId))))))"

definition pg_optWarning :: "int \<Rightarrow> StWarningRecord option pg_eff" where
  "pg_optWarning iWarningId =
     bind_eff (fetch_optional db_warnings (\<lambda>w. mw_id w = iWarningId)) (\<lambda>r.
     ret_eff (map_option (\<lambda>w. \<lparr>wr_iTopicId = mw_topic w, wr_optCommentId = mw_comment w\<rparr>) r))"

definition warning_vClear :: "time \<Rightarrow> StClearWarningMutation \<Rightarrow> unit pg_eff" where
  "warning_vClear now m = transaction (
     bind_eff (exec_update db_warnings db_warnings_update
       (\<lambda>w. mw_id w = wc_iWarningId m \<and> mw_closed_by w = None)
       (\<lambda>w. w\<lparr>mw_closed_by := Some (wc_iActorId m), mw_closed_when := Some now\<rparr>)) (\<lambda>_.
     if wc_optCommentId m = None then vUpdateTopicWarnings now (wc_iTopicId m) else ret_eff ()))"

definition pg_warning_repo :: "(rstr \<Rightarrow> rstr) \<Rightarrow> time \<Rightarrow> 'q world TrWarningRepository" where
  "pg_warning_repo lower now =
     \<lparr>twr_optTopic = (\<lambda>i. on_db (warning_optTopic lower now i)),
      twr_optCommentDeleted = (\<lambda>t c. on_db (optCommentDeleted t c)),
      twr_bUserFrozen = (\<lambda>i. on_db (bUserFrozen now i)), twr_iRecentWarnings = (\<lambda>i. on_db (iRecentWarnings now i)),
      twr_iCreate = (\<lambda>m. on_db (warning_iCreate now m)), twr_optWarning = (\<lambda>i. on_db (pg_optWarning i)),
      twr_vClear = (\<lambda>m. on_db (warning_vClear now m))\<rparr>"

subsection \<open>The counter of open warnings\<close>

definition open_warnings_ok :: "pg \<Rightarrow> bool" where
  "open_warnings_ok db \<longleftrightarrow> (\<forall>t\<in>set (db_topics db). pt_open_warnings t = warning_authors db (pt_id t))"

lemma warning_authors_cong:
  assumes "{w \<in> set (db_warnings db'). open_rule_warning i w} = {w \<in> set (db_warnings db). open_rule_warning i w}"
  shows "warning_authors db' i = warning_authors db i"
  using assms by (simp add: warning_authors_def)

lemma notify_all_frame: "keeps (\<lambda>db. content db = c) (notify_all m i rs)"
  by (induction rs) (simp_all only: notify_all.simps keeps)

lemma open_warnings_frame: "content db' = content db \<Longrightarrow> open_warnings_ok db' = open_warnings_ok db"
  by (simp add: content_def open_warnings_ok_def warning_authors_def)

text \<open>Refreshing one topic repairs the counter when only that topic's warnings changed.\<close>

lemma vUpdateTopicWarnings_ok:
  assumes "\<forall>t\<in>set (db_topics db). pt_id t \<noteq> i \<longrightarrow> pt_open_warnings t = warning_authors db (pt_id t)"
    and "vUpdateTopicWarnings now i db = (r, db')"
  shows "open_warnings_ok db'"
  using assms by (auto simp: vUpdateTopicWarnings_def open_warnings_ok_def warning_authors_def update_where_def)

lemma insert_warning_authors:
  assumes "insert_warning now m db = (Inr i, db')" and "k \<noteq> wm_iTopicId m \<or> wm_optCommentId m \<noteq> None"
  shows "warning_authors db' k = warning_authors db k"
  using assms
  by (intro warning_authors_cong) (auto simp: insert_warning_def Let_def warning_row_def open_rule_warning_def split: if_splits)

lemma close_warning_authors:
  assumes "\<forall>w\<in>set (db_warnings db). mw_id w = i \<longrightarrow> mw_topic w \<noteq> k \<or> mw_comment w \<noteq> None"
  shows "warning_authors (db_warnings_update (update_where (\<lambda>w. mw_id w = i \<and> mw_closed_by w = None)
      (\<lambda>w. w\<lparr>mw_closed_by := Some a, mw_closed_when := Some now\<rparr>)) db) k = warning_authors db k"
  using assms
  by (intro warning_authors_cong) (auto simp: update_where_def open_rule_warning_def split: if_splits)

text \<open>C29: The counter of open warnings of every topic is the number of distinct people with an open rule
  warning about the topic itself: issuing a warning of any kind, on a topic or a comment, and
  closing one keep it so, failed attempts included.\<close>

theorem warnings_counter_invariant:
  assumes ok: "open_warnings_ok db"
  shows "(warning_iCreate now m db = (r, db') \<longrightarrow> open_warnings_ok db')
    \<and> (warning_vClear now c db = (r', db'') \<and>
        (\<forall>w\<in>set (db_warnings db). mw_id w = wc_iWarningId c \<longrightarrow> mw_topic w = wc_iTopicId c \<and> mw_comment w = wc_optCommentId c)
       \<longrightarrow> open_warnings_ok db'')"
proof (intro conjI impI)
  assume run: "warning_iCreate now m db = (r, db')"
  show "open_warnings_ok db'"
  proof (cases r)
    case (Inl e)
    with run ok show ?thesis by (auto simp: warning_iCreate_def transaction_err)
  next
    case (Inr i)
    let ?rs = "\<lambda>db. warning_recipients now (wm_enWarningType m) (db_users db)"
    from run Inr obtain iId db1 db2 db3 where ins: "insert_warning now m db = (Inr iId, db1)"
      and loop: "notify_all m iId (?rs db1) db1 = (Inr (), db2)"
      and cnt: "(if ?rs db1 \<noteq> [] then recalculate_unread (?rs db1) else ret_eff ()) db2 = (Inr (), db3)"
      and fin: "(if wm_optCommentId m = None then vUpdateTopicWarnings now (wm_iTopicId m) else ret_eff ()) db3 = (Inr (), db')"
      by (auto simp: warning_iCreate_def transaction_Inr bind_eff_Inr_iff cong: if_cong)
    have "content db2 = content db1" using keepsD [OF notify_all_frame _ loop] by blast
    moreover have "content db3 = content db2" using cnt by (auto split: if_splits)
    ultimately have frame: "db_topics db3 = db_topics db1" "db_warnings db3 = db_warnings db1" by (simp_all add: content_def)
    then have auth: "warning_authors db3 k = warning_authors db1 k" for k by (simp add: warning_authors_def)
    have topics: "db_topics db1 = db_topics db" using ins by (auto simp: insert_warning_def Let_def split: if_splits)
    show ?thesis
    proof (cases "wm_optCommentId m = None")
      case True
      with ok insert_warning_authors [OF ins] show ?thesis
        using fin by (intro vUpdateTopicWarnings_ok [of db3]) (auto simp: auth frame topics open_warnings_ok_def)
    next
      case False
      with fin have db': "db' = db3" by simp
      from False ok insert_warning_authors [OF ins] show ?thesis
        unfolding db' by (simp add: open_warnings_ok_def auth frame topics)
    qed
  qed
next
  assume "warning_vClear now c db = (r', db'') \<and>
    (\<forall>w\<in>set (db_warnings db). mw_id w = wc_iWarningId c \<longrightarrow> mw_topic w = wc_iTopicId c \<and> mw_comment w = wc_optCommentId c)"
  then have run: "warning_vClear now c db = (r', db'')"
    and same: "\<forall>w\<in>set (db_warnings db). mw_id w = wc_iWarningId c \<longrightarrow> mw_topic w = wc_iTopicId c \<and> mw_comment w = wc_optCommentId c"
    by auto
  show "open_warnings_ok db''"
  proof (cases r')
    case (Inl e)
    with run ok show ?thesis by (auto simp: warning_vClear_def transaction_err)
  next
    case (Inr x)
    let ?db1 = "db_warnings_update (update_where (\<lambda>w. mw_id w = wc_iWarningId c \<and> mw_closed_by w = None)
      (\<lambda>w. w\<lparr>mw_closed_by := Some (wc_iActorId c), mw_closed_when := Some now\<rparr>)) db"
    from run Inr have fin: "(if wc_optCommentId c = None then vUpdateTopicWarnings now (wc_iTopicId c) else ret_eff ()) ?db1 = (Inr x, db'')"
      by (auto simp: warning_vClear_def transaction_Inr bind_eff_Inr_iff exec_update_def)
    have auth: "warning_authors ?db1 k = warning_authors db k" if "k \<noteq> wc_iTopicId c \<or> wc_optCommentId c \<noteq> None" for k
      by (rule close_warning_authors) (use same that in auto)
    show ?thesis
    proof (cases "wc_optCommentId c = None")
      case True
      with ok auth fin show ?thesis
        by (intro vUpdateTopicWarnings_ok [of ?db1]) (auto simp: open_warnings_ok_def)
    next
      case False
      with fin have db'': "db'' = ?db1" by simp
      from False ok auth show ?thesis unfolding db'' by (simp add: open_warnings_ok_def)
    qed
  qed
qed

theorem warnings_counter_invariant_witness:
  "\<exists>r db'. warning_iCreate 2000 \<lparr>wm_iTopicId = 5, wm_optCommentId = None, wm_iAuthorId = 7, wm_sMessage = u ''x'',
      wm_enWarningType = WRule\<rparr> ex_db = (r, db') \<and> open_warnings_ok db'"
proof -
  have ok: "open_warnings_ok ex_db" by (simp add: open_warnings_ok_def warning_authors_def ex_db_def ex_topic_def)
  obtain r db' where run: "warning_iCreate 2000 \<lparr>wm_iTopicId = 5, wm_optCommentId = None, wm_iAuthorId = 7,
    wm_sMessage = u ''x'', wm_enWarningType = WRule\<rparr> ex_db = (r, db')" by fastforce
  with warnings_counter_invariant [OF ok] show ?thesis by blast
qed

subsection \<open>Who may warn\<close>

lemma eligibility_nil:
  "eligibility_errors usr frozen t cd = [] \<longleftrightarrow>
     \<not> wt_bDeleted t \<and> \<not> wt_bDraft t \<and> \<not> wt_bExpired t \<and> \<not> cd \<and> 50 \<le> coalesce 0 (us_score usr) \<and> \<not> frozen"
  by (auto simp: eligibility_errors_def Let_def)

lemma field_errors_nil:
  "field_errors k types sText sRule = [] \<longleftrightarrow>
     (k = Some WRule \<or> trim sRule = []) \<and> (\<exists>x\<in>set types. k = Some x) \<and> (trim sText \<noteq> [] \<or> trim sRule \<noteq> [])
     \<and> (trim sText \<noteq> [] \<longrightarrow> utf16_len sText \<le> 256)"
  by (cases k) (auto simp: field_errors_def Let_def)

definition real_comment :: "StCreateWarningCommand \<Rightarrow> int option" where
  "real_comment c = (case wd_optCommentId c of None \<Rightarrow> None | Some i \<Rightarrow> if i \<noteq> 0 then Some i else None)"

lemma stContext_Inr:
  assumes "twr_bUserFrozen repo (us_id usr) w = (Inr frozen, w)" "twr_optTopic repo i w = (Inr topic, w)"
    "\<And>k. twr_optCommentDeleted repo i k w = (Inr (cs k), w)"
    and "warning_stContext repo usr i oc w = (Inr ctx, w1)"
  shows "\<exists>t cd. w1 = w \<and> topic = Some t \<and> vCheckView usr t = Inr () \<and>
    (case oc of None \<Rightarrow> cd = False | Some k \<Rightarrow> cs k = Some cd) \<and>
    wx_bPremoderated ctx = wt_bPremoderated t \<and> wx_vecEligibilityErrors ctx = eligibility_errors usr frozen t cd"
  using assms
  by (cases oc) (auto simp: warning_stContext_def bind_eff_Inr_iff ok_or_iff)

lemma with_hourly_limit_Inr:
  assumes "twr_iRecentWarnings repo (us_id usr) w = (Inr n, w)"
    and "with_hourly_limit repo usr errs w = (Inr errs', w1)"
  shows "w1 = w \<and> (errs' = [] \<longleftrightarrow> errs = [] \<and> n < 5)"
  using assms
  by (auto simp: with_hourly_limit_def bind_eff_Inr_iff I_MAX_WARNINGS_PER_HOUR_def split: if_splits)

text \<open>A warning is only issued by somebody whose score is at least 50 and who is not frozen, about a
  topic they can see that is neither deleted, nor a draft, nor archived, about a comment only when it is
  there and not deleted, fewer than five an hour, of a type offered for that place, naming a
  rule only for a rule violation, and with a text of at most 256 UTF-16 units; a rejected form
  leaves the world untouched.\<close>

theorem warning_created_valid:
  assumes reads: "twr_bUserFrozen repo (us_id usr) w = (Inr frozen, w)"
    "twr_optTopic repo (wd_iTopicId c) w = (Inr topic, w)"
    "\<And>i. twr_optCommentDeleted repo (wd_iTopicId c) i w = (Inr (cs i), w)"
    "twr_iRecentWarnings repo (us_id usr) w = (Inr n, w)"
    and run: "warning_enCreate repo usr c w = (Inr out, w')"
  shows "case out of Validation p \<Rightarrow> w' = w \<and> wp_vecErrors p \<noteq> []
    | Created l \<Rightarrow>
        (\<exists>t k. topic = Some t \<and> vCheckView usr t = Inr () \<and> \<not> wt_bDeleted t \<and> \<not> wt_bDraft t \<and> \<not> wt_bExpired t
          \<and> 50 \<le> coalesce 0 (us_score usr) \<and> \<not> frozen \<and> n < 5
          \<and> (\<forall>i. real_comment c = Some i \<longrightarrow> cs i = Some False)
          \<and> k \<in> set (vecWarningTypes (wt_bPremoderated t) (real_comment c))
          \<and> (k = WRule \<or> trim (coalesce [] (wd_optRuleType c)) = [])
          \<and> (trim (coalesce [] (wd_optText c)) \<noteq> [] \<longrightarrow> utf16_len (coalesce [] (wd_optText c)) \<le> 256)
          \<and> (\<exists>i. twr_iCreate repo \<lparr>wm_iTopicId = wd_iTopicId c, wm_optCommentId = real_comment c,
               wm_iAuthorId = us_id usr,
               wm_sMessage = warning_message (coalesce [] (wd_optText c)) (coalesce [] (wd_optRuleType c)),
               wm_enWarningType = k\<rparr> w = (Inr i, w')))"
proof -
  let ?oc = "real_comment c" and ?text = "coalesce [] (wd_optText c)" and ?rule = "coalesce [] (wd_optRuleType c)"
  from run obtain ctx w1 errs w2 where
    ctx: "warning_stContext repo usr (wd_iTopicId c) ?oc w = (Inr ctx, w1)"
    and lim: "with_hourly_limit repo usr (wx_vecEligibilityErrors ctx) w1 = (Inr errs, w2)"
    and rest: "(let vecTypes = vecWarningTypes (wx_bPremoderated ctx) ?oc; k = chosen_type c vecTypes;
          vecErrors = errs @ field_errors k vecTypes ?text ?rule in
        if vecErrors \<noteq> [] then ret_eff (Validation \<lparr>wp_stContext = ctx, wp_vecTypes = vecTypes, wp_vecErrors = vecErrors\<rparr>)
        else bind_eff (twr_iCreate repo \<lparr>wm_iTopicId = wd_iTopicId c, wm_optCommentId = ?oc, wm_iAuthorId = us_id usr,
            wm_sMessage = warning_message ?text ?rule, wm_enWarningType = the k\<rparr>) (\<lambda>_.
          ret_eff (Created (case ?oc of Some i \<Rightarrow> wx_sTopicUrl ctx @ (u ''#comment-'') @ show_int i | None \<Rightarrow> wx_sTopicUrl ctx))))
        w2 = (Inr out, w')"
    unfolding warning_enCreate_def Let_def real_comment_def [symmetric] by (auto simp only: bind_eff_Inr_iff)
  from stContext_Inr [OF reads(1-3) ctx] obtain t cd where t: "w1 = w" "topic = Some t" "vCheckView usr t = Inr ()"
    "case ?oc of None \<Rightarrow> cd = False | Some i \<Rightarrow> cs i = Some cd"
    "wx_bPremoderated ctx = wt_bPremoderated t" "wx_vecEligibilityErrors ctx = eligibility_errors usr frozen t cd"
    by blast
  from with_hourly_limit_Inr [OF reads(4)] lim t(1,6)
  have lim': "w2 = w" "errs = [] \<longleftrightarrow> eligibility_errors usr frozen t cd = [] \<and> n < 5" by auto
  let ?types = "vecWarningTypes (wt_bPremoderated t) ?oc"
  let ?k = "chosen_type c ?types"
  show ?thesis
  proof (cases "errs @ field_errors ?k ?types ?text ?rule = []")
    case False
    with rest lim'(1) t(5) show ?thesis by (auto simp: Let_def)
  next
    case True
    then have nil: "errs = []" "field_errors ?k ?types ?text ?rule = []" by auto
    then obtain k where k: "?k = Some k" "k \<in> set ?types" "k = WRule \<or> trim ?rule = []"
      "trim ?text \<noteq> [] \<longrightarrow> utf16_len ?text \<le> 256" unfolding field_errors_nil by auto
    from rest nil lim'(1) t(5) k(1) obtain i where
      "twr_iCreate repo \<lparr>wm_iTopicId = wd_iTopicId c, wm_optCommentId = ?oc, wm_iAuthorId = us_id usr,
         wm_sMessage = warning_message ?text ?rule, wm_enWarningType = k\<rparr> w = (Inr i, w')"
      and out: "\<exists>l. out = Created l"
      by (auto simp: Let_def bind_eff_Inr_iff)
    moreover have "\<forall>i. ?oc = Some i \<longrightarrow> cs i = Some False"
      using t(4) nil(1) lim'(2) by (auto simp: eligibility_nil)
    ultimately have "\<exists>t k. topic = Some t \<and> vCheckView usr t = Inr () \<and> \<not> wt_bDeleted t \<and> \<not> wt_bDraft t \<and> \<not> wt_bExpired t
          \<and> 50 \<le> coalesce 0 (us_score usr) \<and> \<not> frozen \<and> n < 5
          \<and> (\<forall>i. real_comment c = Some i \<longrightarrow> cs i = Some False)
          \<and> k \<in> set (vecWarningTypes (wt_bPremoderated t) (real_comment c))
          \<and> (k = WRule \<or> trim ?rule = [])
          \<and> (trim ?text \<noteq> [] \<longrightarrow> utf16_len ?text \<le> 256)
          \<and> (\<exists>i. twr_iCreate repo \<lparr>wm_iTopicId = wd_iTopicId c, wm_optCommentId = real_comment c,
               wm_iAuthorId = us_id usr, wm_sMessage = warning_message ?text ?rule, wm_enWarningType = k\<rparr> w = (Inr i, w'))"
      using t(2,3) k(2-4) nil(1) lim'(2) unfolding eligibility_nil
      by (intro exI [of _ t] exI [of _ k] conjI) simp_all
    note res = this
    from out obtain l where "out = Created l" by blast
    then show ?thesis using res by (simp only: EnCreateWarningOutcome.case)
  qed
qed

definition ex_warner :: StUserSummary where
  "ex_warner = \<lparr>us_id = 7, us_nick = u ''n'', us_score = Some 100, us_canmod = False, us_candel = False,
     us_corrector = False, us_blocked = None, us_name = None,
     us_max_score = Some 500, us_photo = None, us_town = None, us_regdate = None, us_userinfo = None\<rparr>"

definition ex_warning :: StCreateWarningCommand where
  "ex_warning = \<lparr>wd_iTopicId = 5, wd_optCommentId = Some 0, wd_optText = Some (u ''x''),
     wd_optWarningType = Some (u ''tag''), wd_optRuleType = None\<rparr>"

definition ex_warning_repo :: "int TrWarningRepository" where
  "ex_warning_repo =
     \<lparr>twr_optTopic = (\<lambda>i. ret_eff (Some \<lparr>wt_iId = i, wt_iAuthorId = 9, wt_bDeleted = False, wt_bDraft = False,
        wt_iPostScore = 0, wt_bExpired = False, wt_bPremoderated = False, wt_bCommitted = False,
        wt_sGroupUrl = u ''general'', wt_sSectionPrefix = u ''forum''\<rparr>)),
      twr_optCommentDeleted = (\<lambda>_ _. ret_eff None), twr_bUserFrozen = (\<lambda>_. ret_eff False),
      twr_iRecentWarnings = (\<lambda>_. ret_eff 4), twr_iCreate = (\<lambda>_ n. (Inr n, n + 1)),
      twr_optWarning = (\<lambda>_. ret_eff None), twr_vClear = (\<lambda>_. ret_eff ())\<rparr>"

theorem warning_created_valid_witness:
  "\<exists>k. k \<in> set (vecWarningTypes False None) \<and> 
    (\<exists>i. twr_iCreate ex_warning_repo \<lparr>wm_iTopicId = 5, wm_optCommentId = None, wm_iAuthorId = 7,
       wm_sMessage = warning_message (u ''x'') [], wm_enWarningType = k\<rparr> 1 = (Inr i, 2))"
proof -
  have run: "\<exists>l. warning_enCreate ex_warning_repo ex_warner ex_warning 1 = (Inr (Created l), 2)"
    by (simp add: warning_enCreate_def warning_stContext_def ex_warning_repo_def bind_eff_def ex_warner_def
        ex_warning_def vCheckView_def I_HIDE_COMMENTS_POST_SCORE_def eligibility_errors_def with_hourly_limit_def
        I_MAX_WARNINGS_PER_HOUR_def field_errors_def chosen_type_def optFromId_def vecWarningTypes_def trim_def
        trim_by_def is_whitespace_def)
  then obtain l where run: "warning_enCreate ex_warning_repo ex_warner ex_warning 1 = (Inr (Created l), 2)" by blast
  have comment: "real_comment ex_warning = None" by (simp add: real_comment_def ex_warning_def)
  have "case Created l of Validation p \<Rightarrow> (2 :: int) = 1 \<and> wp_vecErrors p \<noteq> [] | Created l' \<Rightarrow>
      (\<exists>k. k \<in> set (vecWarningTypes False None) \<and> 
        (\<exists>i. twr_iCreate ex_warning_repo \<lparr>wm_iTopicId = 5, wm_optCommentId = None, wm_iAuthorId = 7,
          wm_sMessage = warning_message (u ''x'') [], wm_enWarningType = k\<rparr> 1 = (Inr i, 2)))"
    using warning_created_valid [OF _ _ _ _ run, where frozen = False and n = 4 and cs = "\<lambda>_. None"
        and topic = "Some \<lparr>wt_iId = 5, wt_iAuthorId = 9, wt_bDeleted = False, wt_bDraft = False,
        wt_iPostScore = 0, wt_bExpired = False, wt_bPremoderated = False, wt_bCommitted = False,
        wt_sGroupUrl = u ''general'', wt_sSectionPrefix = u ''forum''\<rparr>"]
    by (simp add: ex_warning_repo_def comment) (auto simp: ex_warning_def ex_warner_def)
  then show ?thesis by simp
qed

end
