(* ===== verification/Posting_Store.thy ===== *)
theory Posting_Store
  imports Topic_Posting Store
begin

section \<open>The posting policy on the store\<close>

text \<open>
  \<open>src/infra/postgres/add_topic_repository.rs\<close>: what the posting services ask the database -
  the level of a group, the freeze, the address block, the recent topics and the slow mode -
  and what their decisions come to on a store.

  \<open>inet\<close> is PostgreSQL's cast of text to \<open>inet\<close>, as canonical text; a failing cast fails the
  statement.
\<close>

definition inet_or_fail :: "(rstr \<Rightarrow> rstr option) \<Rightarrow> rstr \<Rightarrow> (rstr \<Rightarrow> 'a pg_eff) \<Rightarrow> 'a pg_eff" where
  "inet_or_fail inet s f = (case inet s of None \<Rightarrow> fail_eff db_failure | Some ip \<Rightarrow> f ip)"

lemma inet_or_fail_Inr [eff_simps]:
  "inet_or_fail inet s f db = (Inr a, db') \<longleftrightarrow> (\<exists>ip. inet s = Some ip \<and> f ip db = (Inr a, db'))"
  by (auto simp: inet_or_fail_def fail_eff_def split: option.splits)

subsection \<open>The repository\<close>

definition pg_optGroupTopicRestriction :: "int \<Rightarrow> int option pg_eff" where
  "pg_optGroupTopicRestriction iGroupId = (\<lambda>db.
     (Inr (case List.find (\<lambda>g. pg_id g = iGroupId) (db_groups db) of None \<Rightarrow> None
        | Some g \<Rightarrow> (case List.find (\<lambda>s. ps_id s = pg_sect g) (db_sections db) of None \<Rightarrow> None
          | Some s \<Rightarrow> Some (max (coalesce (- 9999) (pg_restrict_topics g)) (coalesce (- 9999) (ps_restrict_topics s))))), db))"

definition pg_bIsUserFrozen :: "time \<Rightarrow> int \<Rightarrow> bool pg_eff" where
  "pg_bIsUserFrozen now iUserId =
     bind_eff (fetch_one db_users (\<lambda>r. pu_id r = iUserId)) (\<lambda>r. ret_eff (user_frozen now r))"

definition ip_block_of :: "pg \<Rightarrow> rstr \<Rightarrow> pg_ip_block option" where
  "ip_block_of db ip = List.find (\<lambda>b. pb_ip b = ip) (db_b_ips db)"

definition block_active :: "time \<Rightarrow> pg_ip_block \<Rightarrow> bool" where
  "block_active now b = (case pb_ban_date b of None \<Rightarrow> True | Some d \<Rightarrow> now < d)"

definition pg_stIpBlockInfo :: "(rstr \<Rightarrow> rstr option) \<Rightarrow> time \<Rightarrow> rstr \<Rightarrow> StIpBlockInfo pg_eff" where
  "pg_stIpBlockInfo inet now sIp = inet_or_fail inet sIp (\<lambda>ip db.
     (Inr (case ip_block_of db ip of
        Some b \<Rightarrow> \<lparr>ip_bBlocked = block_active now b,
          ip_bAllowRegisteredPosting = (\<not> block_active now b \<or> coalesce False (pb_allow_posting b))\<rparr>
      | None \<Rightarrow> StIpBlockInfo_default), db))"

definition I32_MAX :: int where "I32_MAX = 2147483647"

text \<open>The topics of the last day that count: no drafts, no topics the author deleted himself.\<close>

definition recent_topic :: "time \<Rightarrow> pg \<Rightarrow> int \<Rightarrow> int \<Rightarrow> pg_topic \<Rightarrow> bool" where
  "recent_topic now db iUserId iSectionId t \<longleftrightarrow>
     pt_userid t = iUserId \<and> now - hours 24 \<le> pt_postdate t \<and> \<not> pt_draft t \<and>
     \<not> (pt_deleted t \<and> (case del_info_of db (pt_id t) of None \<Rightarrow> True | Some d \<Rightarrow> di_delby d = pt_userid t)) \<and>
     (\<exists>g\<in>set (db_groups db). pg_id g = pt_groupid t \<and> pg_sect g = iSectionId)"

definition pg_iCountRecentTopics :: "time \<Rightarrow> int \<Rightarrow> int \<Rightarrow> int pg_eff" where
  "pg_iCountRecentTopics now iUserId iSectionId = (\<lambda>db.
     (Inr (min (int (length (filter (recent_topic now db iUserId iSectionId) (db_topics db)))) I32_MAX), db))"

definition recent_score_sum :: "time \<Rightarrow> pg \<Rightarrow> int \<Rightarrow> int" where
  "recent_score_sum now db iUserId =
     sum_list (map (\<lambda>d. coalesce 0 (di_bonus d)) (filter (\<lambda>d.
       (case di_deldate d of None \<Rightarrow> False | Some t \<Rightarrow> now - days 3 < t) \<and>
       (di_msgid d \<in> pc_id ` {c \<in> set (db_comments db). pc_userid c = iUserId}
        \<or> di_msgid d \<in> pt_id ` {t \<in> set (db_topics db). pt_userid t = iUserId})) (db_del_info db)))"

definition pg_stSlowModeInfo :: "time \<Rightarrow> int \<Rightarrow> StSlowModeInfo pg_eff" where
  "pg_stSlowModeInfo now iUserId =
     bind_eff (fetch_one db_users (\<lambda>r. pu_id r = iUserId)) (\<lambda>r db.
       (Inr \<lparr>sm_bCurrentlyFrozen = user_frozen now r, sm_bFrozenWithinThreeDays = user_frozen (now - days 3) r,
         sm_iRecentScoreLoss = min \<bar>recent_score_sum now db iUserId\<bar> I32_MAX\<rparr>, db))"

definition pg_add_topic :: "(rstr \<Rightarrow> rstr option) \<Rightarrow> time \<Rightarrow> 'q world TrAddTopicRepository" where
  "pg_add_topic inet now =
     \<lparr>ar_optGroupTopicRestriction = (\<lambda>i. on_db (pg_optGroupTopicRestriction i)),
      ar_bIsUserFrozen = (\<lambda>i. on_db (pg_bIsUserFrozen now i)),
      ar_stIpBlockInfo = (\<lambda>s. on_db (pg_stIpBlockInfo inet now s)),
      ar_iCountRecentTopics = (\<lambda>i s. on_db (pg_iCountRecentTopics now i s)),
      ar_stSlowModeInfo = (\<lambda>i. on_db (pg_stSlowModeInfo now i))\<rparr>"

subsection \<open>What the checks decide on a store\<close>

lemma find_filter: "List.find p xs = (case filter p xs of [] \<Rightarrow> None | x # _ \<Rightarrow> Some x)"
  by (induction xs) auto

definition store_frozen :: "time \<Rightarrow> pg \<Rightarrow> StAddTopicActor \<Rightarrow> bool" where
  "store_frozen now db a = (case aa_optUserId a of None \<Rightarrow> False
     | Some i \<Rightarrow> (case user_of db i of None \<Rightarrow> False | Some r \<Rightarrow> user_frozen now r))"

definition group_level :: "pg \<Rightarrow> int \<Rightarrow> int option" where
  "group_level db g = (case pg_optGroupTopicRestriction g db of (r, _) \<Rightarrow> (case r of Inr x \<Rightarrow> x | Inl _ \<Rightarrow> None))"

text \<open>An address stops a post while its block is active, for whom the block does not exempt.\<close>

definition address_open :: "time \<Rightarrow> pg \<Rightarrow> rstr \<Rightarrow> StAddTopicActor \<Rightarrow> bool" where
  "address_open now db ip a = (case ip_block_of db ip of None \<Rightarrow> True
     | Some b \<Rightarrow> block_active now b \<longrightarrow> coalesce False (pb_allow_posting b) \<and> \<not> aa_bAnonymous a \<and>
         \<not> aa_bBlocked a \<and> 50 \<le> aa_iScore a)"

lemma address_open_iff:
  assumes "pg_stIpBlockInfo inet now sIp db = (Inr b, db')"
  shows "\<exists>ip. inet sIp = Some ip \<and> db' = db \<and> ip_allows a b = address_open now db ip a"
proof -
  from assms obtain ip where ip: "inet sIp = Some ip" by (auto simp: pg_stIpBlockInfo_def inet_or_fail_Inr)
  with assms have "db' = db \<and> ip_allows a b = address_open now db ip a"
    by (cases "ip_block_of db ip")
      (auto simp: pg_stIpBlockInfo_def inet_or_fail_def ip_allows_def address_open_def StIpBlockInfo_default_def)
  with ip show ?thesis by blast
qed

lemma frozen_reads:
  "(case aa_optUserId a of Some i \<Rightarrow> on_db (pg_bIsUserFrozen now i) | None \<Rightarrow> ret_eff False) w = (Inr f, w') \<Longrightarrow>
    w' = w \<and> f = store_frozen now (w_db w) a"
  by (auto simp: store_frozen_def pg_bIsUserFrozen_def eff_simps fetch_one_def ok_or_iff user_of_def ret_eff_def
      split: option.splits)

lemma group_check_spec_lemma:
  assumes "optCheckGroup (pg_add_topic inet now) iGroupId a sIp w = (Inr p, w')"
  shows "w' = w \<and> (case p of None \<Rightarrow> group_level (w_db w) iGroupId = None
    | Some perm \<Rightarrow> \<exists>level ip. group_level (w_db w) iGroupId = Some level \<and> inet sIp = Some ip \<and>
        (bPermitted perm \<longleftrightarrow> \<not> store_frozen now (w_db w) a \<and> may_post_level a level \<and> address_open now (w_db w) ip a))"
proof -
  from assms obtain r w1 where r: "on_db (pg_optGroupTopicRestriction iGroupId) w = (Inr r, w1)"
    and rest: "(case r of None \<Rightarrow> ret_eff None
       | Some level \<Rightarrow> bind_eff (case aa_optUserId a of Some i \<Rightarrow> on_db (pg_bIsUserFrozen now i) | None \<Rightarrow> ret_eff False) (\<lambda>f.
           bind_eff (on_db (pg_stIpBlockInfo inet now sIp)) (\<lambda>b. ret_eff (Some (stCheckAddTopic a f b level))))) w1 = (Inr p, w')"
    unfolding optCheckGroup_def pg_add_topic_def TrAddTopicRepository.simps bind_eff_Inr_iff [of "on_db _"] by blast
  from r have w1: "w1 = w" and lvl: "group_level (w_db w) iGroupId = r"
    by (auto simp: on_db_def pg_optGroupTopicRestriction_def group_level_def split: prod.splits)
  show ?thesis
  proof (cases r)
    case None
    with rest w1 lvl show ?thesis by (simp add: ret_eff_def)
  next
    case (Some level)
    with rest w1 obtain f w2 b where f: "(case aa_optUserId a of Some i \<Rightarrow> on_db (pg_bIsUserFrozen now i) | None \<Rightarrow> ret_eff False) w = (Inr f, w2)"
      and b: "on_db (pg_stIpBlockInfo inet now sIp) w2 = (Inr b, w')"
      and p: "p = Some (stCheckAddTopic a f b level)"
      by (auto simp: bind_eff_Inr_iff ret_eff_def)
    from frozen_reads [OF f] have f': "w2 = w" "f = store_frozen now (w_db w) a" by simp_all
    with b obtain db' where "pg_stIpBlockInfo inet now sIp (w_db w) = (Inr b, db')" "w' = w\<lparr>w_db := db'\<rparr>"
      by (auto simp: on_db_iff)
    with address_open_iff [of inet now sIp "w_db w" b db' a] obtain ip where "inet sIp = Some ip" "w' = w"
      "ip_allows a b = address_open now (w_db w) ip a" by auto
    with f'(2) Some lvl p show ?thesis by (simp add: check_permits_iff)
  qed
qed

text \<open>Whether somebody may start a topic in a group is decided by the store alone: the check reads
  without changing anything and permits exactly when the user is not frozen, the stricter of the
  group's and its section's level admits the actor, and the address has no active block - or one
  that lets registered users post and the actor is one with at least 50 points who is not
  blocked.\<close>

theorem group_check_spec:
  assumes "optCheckGroup (pg_add_topic inet now) iGroupId a sIp w = (Inr p, w')"
  shows "w' = w \<and> (case p of None \<Rightarrow> group_level (w_db w) iGroupId = None
    | Some perm \<Rightarrow> \<exists>level ip. group_level (w_db w) iGroupId = Some level \<and> inet sIp = Some ip \<and>
        (bPermitted perm \<longleftrightarrow> \<not> store_frozen now (w_db w) a \<and> may_post_level a level \<and> address_open now (w_db w) ip a))"
  by (rule group_check_spec_lemma [OF assms])

definition ex_post_db :: pg where
  "ex_post_db = \<lparr>db_users = [\<lparr>pu_id = 7, pu_nick = u ''n'', pu_passwd = Some (u ''x''), pu_url = None, pu_photo = None,
     pu_town = None, pu_userinfo = None, pu_canmod = False, pu_candel = False, pu_corrector = False,
     pu_blocked = False, pu_score = Some 500, pu_max_score = Some 500, pu_unread_events = 0,
     pu_lastlogin = None, pu_lostpwd = 0, pu_frozen_until = None, pu_frozen_by = None,
     pu_freezing_reason = None, pu_name = None, pu_email = None, pu_new_email = None, pu_regdate = None,
     pu_activated = True, pu_token_generation = None\<rparr>], db_topics = [], db_comments = [], db_msgbase = [],
     db_groups = [\<lparr>pg_id = 10, pg_title = u ''General'', pg_urlname = u ''general'', pg_sect = 2, pg_resolvable = True,
       pg_restrict_topics = Some 100, pg_restrict_comments = - 9999, pg_stat3 = 0\<rparr>],
     db_sections = [\<lparr>ps_id = 2, ps_name = u ''Forum'', ps_moderate = False, ps_imagepost = False,
       ps_imageallowed = False, ps_havelink = True, ps_vote = None, ps_before = (\<lambda>t. t - days 365),
       ps_restrict_topics = Some (- 50)\<rparr>],
     db_del_info = [], db_events = [], db_event_seq = 1, db_warnings = [], db_warning_seq = 1,
     db_ban_info = [], db_user_log = [], db_b_ips = [],
     db_msg_seq = 100, db_memories = [], db_ignore_list = [], db_edit_info = [], db_edit_seq = 1, db_user_agents = [],
     db_agent_seq = 1, db_user_settings = [], db_reactions_log = [], db_polls = [], db_polls_variants = [], db_vote_users = [],
     db_poll_seq = 1, db_variant_seq = 1, db_tags_values = [], db_tag_seq = 1, db_tags_synonyms = [], db_tags = [], db_user_tags = [],
     db_topic_notified = [], db_images = [], db_image_seq = 1\<rparr>"

definition ex_banned_db :: pg where
  "ex_banned_db = ex_post_db\<lparr>db_b_ips := [\<lparr>pb_ip = u ''1.2.3.4'', pb_mod_id = 8, pb_date = 1000, pb_reason = None,
     pb_ban_date = Some 5000, pb_allow_posting = Some False, pb_captcha_required = None\<rparr>]\<rparr>"

definition ex_post_actor :: StAddTopicActor where
  "ex_post_actor = ex_actor\<lparr>aa_iScore := 500\<rparr>"

theorem group_check_spec_witness:
  "\<not> address_open 4999 ex_banned_db (u ''1.2.3.4'') ex_post_actor \<and> address_open 5000 ex_banned_db (u ''1.2.3.4'') ex_post_actor"
proof -
  have run: "optCheckGroup (pg_add_topic Some t) 10 ex_post_actor (u ''1.2.3.4'') \<lparr>w_db = ex_banned_db, w_queue = ()\<rparr>
      = (Inr (Some (if t < 5000 then Some ([1087, 1086, 1089, 1090, 1080, 1085, 1075, 32, 1089, 32, 1101, 1090, 1086, 1075, 1086, 32, 73, 80, 32, 1072, 1076, 1088, 1077, 1089, 1072, 32, 1079, 1072, 1073, 1083, 1086, 1082, 1080, 1088, 1086, 1074, 1072, 1085] :: rstr) \<comment> \<open>posting s etogo IP adresa zablokirovan\<close> else None)), \<lparr>w_db = ex_banned_db, w_queue = ()\<rparr>)" for t
    by (simp add: optCheckGroup_def pg_add_topic_def bind_eff_def on_db_def pg_optGroupTopicRestriction_def
        pg_bIsUserFrozen_def pg_stIpBlockInfo_def inet_or_fail_def fetch_one_def ip_block_of_def block_active_def
        ex_banned_db_def ex_post_db_def ex_post_actor_def ex_actor_def posting_defs postscore_defs user_frozen_def
        StIpBlockInfo_default_def)
  have "\<not> store_frozen t ex_banned_db ex_post_actor" for t
    by (simp add: store_frozen_def user_of_def ex_post_actor_def ex_actor_def ex_banned_db_def ex_post_db_def user_frozen_def)
  with group_check_spec [OF run [of 4999]] group_check_spec [OF run [of 5000]] show ?thesis
    by (auto simp: bPermitted_def)
qed

end
