(* ===== verification/Address_Deletion.thy ===== *)
theory Address_Deletion
  imports User_Moderation Posting_Store Binding
begin

section \<open>Mass deletion by address\<close>

text \<open>
  \<open>/delip.jsp\<close> and \<open>/banip.jsp\<close>: the model of \<open>src/domain/admin/ip_mass_delete.rs\<close>, the service
  of \<open>src/application/admin/ip_mass_delete.rs\<close>, the repository of
  \<open>src/infra/postgres/ip_mass_delete_repository.rs\<close> and the handlers of \<open>src/routes/admin.rs\<close>.

  Blocking the address and deleting its posts are two commits; the messages to the search
  queue come after both.  Parameters: \<open>inet\<close> (PostgreSQL's cast) and \<open>add_months\<close> (chrono's
  \<open>checked_add_months\<close>).
\<close>

subsection \<open>The model (src/domain/admin/ip_mass_delete.rs)\<close>

record StIpMassDeleteActor =
  ia_iUserId :: int
  ia_bModerator :: bool

record StIpBanCommand =
  ib_sIp :: rstr
  ib_sReason :: rstr
  ib_optBanUntil :: "time option"
  ib_bAllowPosting :: bool
  ib_bCaptchaRequired :: bool

record StIpMassDeleteCommand =
  im_sIp :: rstr
  im_dtCutoff :: time
  im_sReason :: rstr
  im_optBan :: "StIpBanCommand option"

record StIpMassDeleteResult =
  ir_vecDeletedTopicIds :: "int list"
  ir_vecDeletedCommentIds :: "int list"
  ir_vecSkippedCommentIds :: "int list"

record 'w TrIpMassDeleteRepository =
  imr_vBlockIp :: "int \<Rightarrow> StIpBanCommand \<Rightarrow> ('w, app_error, unit) eff"
  imr_stDeleteByIp :: "int \<Rightarrow> StIpMassDeleteCommand \<Rightarrow> ('w, app_error, StIpMassDeleteResult) eff"

subsection \<open>The service (src/application/admin/ip_mass_delete.rs)\<close>

fun ip_queue_topics :: "'w TrTopicReindexQueue \<Rightarrow> int list \<Rightarrow> ('w, app_error, unit) eff" where
  "ip_queue_topics q [] = ret_eff ()"
| "ip_queue_topics q (i # ids) = bind_eff (trq_vUpdateMessage q i True) (\<lambda>_. ip_queue_topics q ids)"

definition ip_stExecute ::
    "'w TrIpMassDeleteRepository \<Rightarrow> 'w TrTopicReindexQueue \<Rightarrow> 'w TrCommentReindexQueue \<Rightarrow> StIpMassDeleteActor
      \<Rightarrow> StIpMassDeleteCommand \<Rightarrow> ('w, app_error, StIpMassDeleteResult) eff" where
  "ip_stExecute repo qt qc stActor c =
     (if \<not> ia_bModerator stActor then fail_eff Forbidden else
      bind_eff (case im_optBan c of None \<Rightarrow> ret_eff () | Some b \<Rightarrow> imr_vBlockIp repo (ia_iUserId stActor) b) (\<lambda>_.
      bind_eff (imr_stDeleteByIp repo (ia_iUserId stActor) c) (\<lambda>r.
      bind_eff (ip_queue_topics qt (ir_vecDeletedTopicIds r)) (\<lambda>_.
      bind_eff (crq_vUpdateComments qc (ir_vecDeletedCommentIds r)) (\<lambda>_. ret_eff r)))))"

subsection \<open>The repository (src/infra/postgres/ip_mass_delete_repository.rs)\<close>

text \<open>\<open>INSERT .. ON CONFLICT(ip) DO UPDATE\<close>.\<close>

definition ip_block_row :: "time \<Rightarrow> int \<Rightarrow> StIpBanCommand \<Rightarrow> rstr \<Rightarrow> pg_ip_block" where
  "ip_block_row now m b ip = \<lparr>pb_ip = ip, pb_mod_id = m, pb_date = now, pb_reason = Some (ib_sReason b),
     pb_ban_date = ib_optBanUntil b, pb_allow_posting = Some (ib_bAllowPosting b),
     pb_captcha_required = Some (ib_bCaptchaRequired b)\<rparr>"

definition upsert_ip_block :: "pg_ip_block \<Rightarrow> unit pg_eff" where
  "upsert_ip_block r = (\<lambda>db. (Inr (), db_b_ips_update (\<lambda>rs.
     if pb_ip r \<in> pb_ip ` set rs then update_where (\<lambda>x. pb_ip x = pb_ip r) (\<lambda>_. r) rs else rs @ [r]) db))"

definition pg_vBlockIp :: "(rstr \<Rightarrow> rstr option) \<Rightarrow> time \<Rightarrow> int \<Rightarrow> StIpBanCommand \<Rightarrow> unit pg_eff" where
  "pg_vBlockIp inet now m b = inet_or_fail inet (ib_sIp b) (\<lambda>ip. upsert_ip_block (ip_block_row now m b ip))"

fun ip_delete_topics :: "int list \<Rightarrow> int list pg_eff" where
  "ip_delete_topics [] = ret_eff []"
| "ip_delete_topics (i # ids) =
     bind_eff (exec_update db_topics db_topics_update (\<lambda>t. pt_id t = i \<and> \<not> pt_deleted t)
       (\<lambda>t. t\<lparr>pt_deleted := True, pt_sticky := False\<rparr>)) (\<lambda>n.
     bind_eff (ip_delete_topics ids) (\<lambda>deleted.
     ret_eff (if n \<noteq> 0 then i # deleted else deleted)))"

definition ip_drop_count :: "time \<Rightarrow> int \<Rightarrow> unit pg_eff" where
  "ip_drop_count now i =
     bind_eff (\<lambda>db. exec_update_checked db_topics db_topics_update (\<lambda>t. Some (pt_id t) = topic_of_comment db i)
       (\<lambda>t. t\<lparr>pt_stat1 := pt_stat1 t - 1, pt_lastmod := now\<rparr>) (\<lambda>t. in_i32 (pt_stat1 t)) db) (\<lambda>_.
     bind_eff (\<lambda>db. exec_update db_topics db_topics_update
       (\<lambda>t. Some (pt_id t) = topic_of_comment db i \<and> pt_stat3 t > pt_stat1 t)
       (\<lambda>t. t\<lparr>pt_stat3 := pt_stat1 t\<rparr>) db) (\<lambda>_. ret_eff ()))"

fun ip_delete_comments :: "time \<Rightarrow> int list \<Rightarrow> (int list \<times> int list) pg_eff" where
  "ip_delete_comments now [] = ret_eff ([], [])"
| "ip_delete_comments now (i # ids) =
     bind_eff (select_rows db_comments (\<lambda>c. pc_replyto c = Some i \<and> \<not> pc_deleted c)) (\<lambda>replies.
     if length replies \<noteq> 0
     then bind_eff (ip_delete_comments now ids) (\<lambda>(deleted, skipped). ret_eff (deleted, i # skipped))
     else
     bind_eff (exec_update db_comments db_comments_update (\<lambda>c. pc_id c = i \<and> \<not> pc_deleted c)
       (pc_deleted_update (\<lambda>_. True))) (\<lambda>n.
     if n = 0 then ip_delete_comments now ids
     else
     bind_eff (ip_drop_count now i) (\<lambda>_.
     bind_eff (ip_delete_comments now ids) (\<lambda>(deleted, skipped). ret_eff (i # deleted, skipped)))))"

fun ip_record_deletions :: "time \<Rightarrow> int \<Rightarrow> rstr \<Rightarrow> int list \<Rightarrow> unit pg_eff" where
  "ip_record_deletions now m sReason [] = ret_eff ()"
| "ip_record_deletions now m sReason (i # ids) =
     bind_eff (insert_del_info now \<lparr>di_msgid = i, di_delby = m, di_reason = Some sReason,
       di_deldate = Some now, di_bonus = Some 0\<rparr>) (\<lambda>_. ip_record_deletions now m sReason ids)"

definition ip_vDeleteTopicEvents :: "int list \<Rightarrow> unit pg_eff" where
  "ip_vDeleteTopicEvents ids =
     (if ids = [] then ret_eff ()
      else delete_events (\<lambda>e. (case ue_message_id e of None \<Rightarrow> False | Some i \<Rightarrow> i \<in> set ids)
        \<and> ue_type e \<in> {TAG, REF, REPLY, WATCH, REACTION, WARNING}))"

definition ip_vDeleteCommentEvents :: "int list \<Rightarrow> unit pg_eff" where
  "ip_vDeleteCommentEvents ids =
     (if ids = [] then ret_eff ()
      else delete_events (\<lambda>e. (case ue_comment_id e of None \<Rightarrow> False | Some i \<Rightarrow> i \<in> set ids)
        \<and> ue_type e \<in> {REPLY, WATCH, REF, REACTION, WARNING}))"

text \<open>Authors that are told: neither the moderator nor the anonymous account, and not frozen.\<close>

definition told :: "time \<Rightarrow> int \<Rightarrow> pg \<Rightarrow> int \<Rightarrow> bool" where
  "told now m db i \<longleftrightarrow> i \<noteq> m \<and> i \<noteq> I_ANONYMOUS_USER_ID \<and>
     (case user_of db i of None \<Rightarrow> False
      | Some r \<Rightarrow> (case pu_frozen_until r of None \<Rightarrow> True | Some d \<Rightarrow> d < now))"

definition deletion_notice :: "int \<Rightarrow> int \<Rightarrow> int option \<Rightarrow> rstr \<Rightarrow> pg_event" where
  "deletion_notice iUser iTopic optComment sReason =
     \<lparr>ue_id = 0, ue_userid = iUser, ue_type = DEL, ue_private = True, ue_message_id = Some iTopic,
      ue_comment_id = optComment, ue_message = Some sReason, ue_unread = True, ue_origin_user = None,
      ue_warning_id = None\<rparr>"

definition vNotifyDeletedTopics :: "time \<Rightarrow> int list \<Rightarrow> int \<Rightarrow> rstr \<Rightarrow> unit pg_eff" where
  "vNotifyDeletedTopics now ids m sReason = (\<lambda>db.
     if ids = [] then (Inr (), db)
     else insert_events (map (\<lambda>t. deletion_notice (pt_userid t) (pt_id t) None sReason)
       (filter (\<lambda>t. pt_id t \<in> set ids \<and> told now m db (pt_userid t)) (db_topics db))) db)"

definition vNotifyDeletedComments :: "time \<Rightarrow> int list \<Rightarrow> int \<Rightarrow> rstr \<Rightarrow> unit pg_eff" where
  "vNotifyDeletedComments now ids m sReason = (\<lambda>db.
     if ids = [] then (Inr (), db)
     else insert_events (map (\<lambda>c. deletion_notice (pc_userid c) (pc_topic c) (Some (pc_id c)) sReason)
       (filter (\<lambda>c. pc_id c \<in> set ids \<and> told now m db (pc_userid c)) (db_comments db))) db)"

definition ip_topic :: "rstr \<Rightarrow> time \<Rightarrow> pg_topic \<Rightarrow> bool" where
  "ip_topic ip cutoff t \<longleftrightarrow> pt_postip t = Some ip \<and> \<not> pt_deleted t \<and> cutoff < pt_postdate t"

definition ip_comment :: "rstr \<Rightarrow> time \<Rightarrow> pg_comment \<Rightarrow> bool" where
  "ip_comment ip cutoff c \<longleftrightarrow> pc_postip c = Some ip \<and> \<not> pc_deleted c \<and> cutoff < pc_postdate c"

definition ip_delete_body :: "(rstr \<Rightarrow> rstr option) \<Rightarrow> time \<Rightarrow> int \<Rightarrow> StIpMassDeleteCommand \<Rightarrow> StIpMassDeleteResult pg_eff" where
  "ip_delete_body inet now m c = inet_or_fail inet (im_sIp c) (\<lambda>ip.
     bind_eff (select_rows db_topics (ip_topic ip (im_dtCutoff c))) (\<lambda>topics.
     bind_eff (select_rows db_comments (ip_comment ip (im_dtCutoff c))) (\<lambda>comments.
     bind_eff (ip_delete_topics (map pt_id topics)) (\<lambda>vecTopicIds.
     bind_eff (ip_vDeleteTopicEvents vecTopicIds) (\<lambda>_.
     bind_eff (ip_delete_comments now (rev (sort (map pc_id comments)))) (\<lambda>(vecCommentIds, vecSkipped).
     bind_eff (ip_vDeleteCommentEvents vecCommentIds) (\<lambda>_.
     bind_eff (ip_record_deletions now m (im_sReason c) (vecCommentIds @ vecTopicIds)) (\<lambda>_.
     bind_eff (vNotifyDeletedTopics now vecTopicIds m (im_sReason c)) (\<lambda>_.
     bind_eff (vNotifyDeletedComments now vecCommentIds m (im_sReason c)) (\<lambda>_.
     ret_eff \<lparr>ir_vecDeletedTopicIds = vecTopicIds, ir_vecDeletedCommentIds = vecCommentIds,
       ir_vecSkippedCommentIds = vecSkipped\<rparr>))))))))))"

definition pg_stDeleteByIp :: "(rstr \<Rightarrow> rstr option) \<Rightarrow> time \<Rightarrow> int \<Rightarrow> StIpMassDeleteCommand \<Rightarrow> StIpMassDeleteResult pg_eff" where
  "pg_stDeleteByIp inet now m c = transaction (ip_delete_body inet now m c)"

definition pg_ip_mass_delete :: "(rstr \<Rightarrow> rstr option) \<Rightarrow> time \<Rightarrow> 'q world TrIpMassDeleteRepository" where
  "pg_ip_mass_delete inet now = \<lparr>imr_vBlockIp = (\<lambda>m b. on_db (pg_vBlockIp inet now m b)),
     imr_stDeleteByIp = (\<lambda>m c. on_db (pg_stDeleteByIp inet now m c))\<rparr>"

subsection \<open>The handlers (src/routes/admin.rs)\<close>

definition require_moderator :: "StUserSummary option \<Rightarrow> app_error + StUserSummary" where
  "require_moderator user = (case user of None \<Rightarrow> Inl Forbidden
     | Some r \<Rightarrow> (if us_canmod r then Inr r else Inl Forbidden))"

definition require_admin :: "StUserSummary option \<Rightarrow> app_error + StUserSummary" where
  "require_admin user = (case user of None \<Rightarrow> Inl Forbidden
     | Some r \<Rightarrow> (if us_candel r then Inr r else Inl Forbidden))"

definition dtAddCalendarMonths :: "(time \<Rightarrow> nat \<Rightarrow> time option) \<Rightarrow> time \<Rightarrow> nat \<Rightarrow> app_error + time" where
  "dtAddCalendarMonths add_months dtNow iMonths =
     ok_or (Anyhow (u ''ban expiry is out of range'')) (add_months dtNow iMonths)"

text \<open>The duration of a ban: \<open>None\<close> is for ever; a ban until now is none.\<close>

definition optBanIpUntil :: "(time \<Rightarrow> nat \<Rightarrow> time option) \<Rightarrow> rstr \<Rightarrow> rstr option \<Rightarrow> time \<Rightarrow> app_error + time option" where
  "optBanIpUntil add_months sTime optBanDays dtNow =
     (let month = (\<lambda>n. and_then (dtAddCalendarMonths add_months dtNow n) (\<lambda>t. Inr (Some t))) in
      if sTime = (u ''hour'') then Inr (Some (dtNow + hours 1))
      else if sTime = (u ''day'') then Inr (Some (dtNow + days 1))
      else if sTime = (u ''month'') then month 1
      else if sTime = (u ''3month'') then month 3
      else if sTime = (u ''6month'') then month 6
      else if sTime = (u ''custom'') then
        and_then (ok_or (Anyhow ([82, 101, 113, 117, 105, 114, 101, 100, 32, 105, 110, 116, 32, 112, 97, 114, 97, 109, 101, 116, 101, 114, 32, 39, 98, 97, 110, 95, 100, 97, 121, 115, 39, 32, 105, 115, 32, 109, 105, 115, 115, 105, 110, 103] :: rstr) \<comment> \<open>Required int parameter (apostrophe)ban_days(apostrophe) is missing\<close>) optBanDays) (\<lambda>sDays.
        and_then (ok_or (Anyhow ([82, 101, 113, 117, 105, 114, 101, 100, 32, 105, 110, 116, 32, 112, 97, 114, 97, 109, 101, 116, 101, 114, 32, 39, 98, 97, 110, 95, 100, 97, 121, 115, 39, 32, 105, 115, 32, 105, 110, 118, 97, 108, 105, 100] :: rstr) \<comment> \<open>Required int parameter (apostrophe)ban_days(apostrophe) is invalid\<close>) (parse_i64 sDays)) (\<lambda>iDays.
        if iDays \<le> 0 \<or> iDays > 180 then Inl (stUserError (u ''Invalid days count''))
        else Inr (Some (dtNow + days iDays))))
      else if sTime = (u ''unlim'') then Inr None
      else if sTime = (u ''remove'') then Inr (Some dtNow)
      else Inl (stUserError (u ''Invalid count'')))"

record BanIpForm =
  bf_ip :: rstr
  bf_reason :: rstr
  bf_time :: rstr
  bf_ban_days :: "rstr option"
  bf_allow_posting :: bool
  bf_captcha_required :: bool

text \<open>\<open>ban_ip\<close> redirects to the page of the address; the statement is the one of \<open>vBlockIp\<close>.\<close>

definition routes_ban_ip ::
    "(rstr \<Rightarrow> rstr option) \<Rightarrow> (time \<Rightarrow> nat \<Rightarrow> time option) \<Rightarrow> (rstr \<Rightarrow> rstr) \<Rightarrow> time \<Rightarrow> StUserSummary option \<Rightarrow> BanIpForm
      \<Rightarrow> rstr pg_eff" where
  "routes_ban_ip inet add_months url_encode now user form =
     bind_eff (of_result (require_moderator user)) (\<lambda>moderator.
     bind_eff (of_result (optBanIpUntil add_months (bf_time form) (bf_ban_days form) now)) (\<lambda>ban_to.
     bind_eff (inet_or_fail inet (bf_ip form) (\<lambda>ip. upsert_ip_block
       \<lparr>pb_ip = ip, pb_mod_id = us_id moderator, pb_date = now, pb_reason = Some (bf_reason form), pb_ban_date = ban_to,
        pb_allow_posting = Some (bf_allow_posting form), pb_captcha_required = Some (bf_captcha_required form)\<rparr>)) (\<lambda>_.
     ret_eff ((u ''/sameip.jsp?ip='') @ url_encode (bf_ip form)))))"

record DelIpForm =
  df_reason :: rstr
  df_ip :: rstr
  df_time :: rstr
  df_ban_time :: "rstr option"
  df_ban_mode :: "rstr option"

definition stBindDelIpForm :: "params \<Rightarrow> app_error + DelIpForm" where
  "stBindDelIpForm ps =
     (let sRequired = (\<lambda>sName. ok_or (BadParameter (([82, 101, 113, 117, 105, 114, 101, 100, 32, 114, 101, 113, 117, 101, 115, 116, 32, 112, 97, 114, 97, 109, 101, 116, 101, 114, 32, 39] :: rstr) \<comment> \<open>Required request parameter (apostrophe)\<close> @ sName
            @ ([39, 32, 102, 111, 114, 32, 109, 101, 116, 104, 111, 100, 32, 112, 97, 114, 97, 109, 101, 116, 101, 114, 32, 116, 121, 112, 101, 32, 83, 116, 114, 105, 110, 103, 32, 105, 115, 32, 110, 111, 116, 32, 112, 114, 101, 115, 101, 110, 116] :: rstr) \<comment> \<open>(apostrophe) for method parameter type String is not present\<close>)) (form_get ps sName)) in
      and_then (sRequired (u ''reason'')) (\<lambda>reason.
      and_then (sRequired (u ''ip'')) (\<lambda>ip.
      and_then (sRequired (u ''time'')) (\<lambda>sTime.
      Inr \<lparr>df_reason = reason, df_ip = ip, df_time = sTime, df_ban_time = form_get ps (u ''ban_time''),
        df_ban_mode = form_get ps (u ''ban_mode'')\<rparr>))))"

definition optDelIpLookback :: "rstr \<Rightarrow> time option" where
  "optDelIpLookback sTime =
     (if sTime = (u ''hour'') then Some (hours 1)
      else if sTime = (u ''day'') then Some (days 1)
      else if sTime = (u ''3day'') then Some (days 3)
      else if sTime = (u ''5day'') then Some (days 5)
      else None)"

definition optDelIpBanUntil :: "(time \<Rightarrow> nat \<Rightarrow> time option) \<Rightarrow> rstr \<Rightarrow> time \<Rightarrow> app_error + time option option" where
  "optDelIpBanUntil add_months sBanTime dtNow =
     (let month = (\<lambda>n. and_then (dtAddCalendarMonths add_months dtNow n) (\<lambda>t. Inr (Some (Some t)))) in
      if sBanTime = (u ''hour'') then Inr (Some (Some (dtNow + hours 1)))
      else if sBanTime = (u ''day'') then Inr (Some (Some (dtNow + days 1)))
      else if sBanTime = (u ''month'') then month 1
      else if sBanTime = (u ''3month'') then month 3
      else if sBanTime = (u ''6month'') then month 6
      else if sBanTime = (u ''unlim'') then Inr (Some None)
      else if sBanTime = (u ''remove'') then Inr (Some (Some dtNow))
      else Inr None)"

datatype del_ip_response = DelIpUserError rstr | DelIpPage time rstr nat nat "int list"

definition trunc_ms :: "time \<Rightarrow> time" where
  "trunc_ms t = t div 1000 * 1000"

text \<open>The ban the form asks for: \<open>Inr None\<close> is a duration the handler does not know.\<close>

definition del_ip_ban :: "(time \<Rightarrow> nat \<Rightarrow> time option) \<Rightarrow> time \<Rightarrow> DelIpForm \<Rightarrow> app_error + StIpBanCommand option option" where
  "del_ip_ban add_months now form =
     (case df_ban_time form of None \<Rightarrow> Inr (Some None)
      | Some ban_time \<Rightarrow>
          and_then (optDelIpBanUntil add_months ban_time now) (\<lambda>r. case r of None \<Rightarrow> Inr None
          | Some optBanUntil \<Rightarrow>
              (let (bAllowPosting, bCaptchaRequired) =
                 (if df_ban_mode form = Some (u ''anonymous_and_captcha'') then (True, True)
                  else if df_ban_mode form = Some (u ''anonymous_only'') then (True, False)
                  else (False, False))
               in Inr (Some (Some \<lparr>ib_sIp = df_ip form, ib_sReason = df_reason form, ib_optBanUntil = optBanUntil,
                    ib_bAllowPosting = bAllowPosting, ib_bCaptchaRequired = bCaptchaRequired\<rparr>)))))"

text \<open>The handler after the parameters have been read; the two readings of the clock are one.\<close>

definition routes_del_ip ::
    "(time \<Rightarrow> nat \<Rightarrow> time option) \<Rightarrow> 'w TrIpMassDeleteRepository \<Rightarrow> 'w TrTopicReindexQueue \<Rightarrow> 'w TrCommentReindexQueue
      \<Rightarrow> time \<Rightarrow> StUserSummary option \<Rightarrow> params \<Rightarrow> ('w, app_error, del_ip_response) eff" where
  "routes_del_ip add_months repo qt qc now user ps =
     bind_eff (of_result (stBindDelIpForm ps)) (\<lambda>form.
     bind_eff (of_result (require_moderator user)) (\<lambda>moderator.
     case optDelIpLookback (df_time form) of
       None \<Rightarrow> ret_eff (DelIpUserError (u ''Invalid count''))
     | Some dtLookback \<Rightarrow>
         (let dtCutoff = trunc_ms now - dtLookback in
          bind_eff (of_result (del_ip_ban add_months now form)) (\<lambda>r. case r of
            None \<Rightarrow> ret_eff (DelIpUserError (u ''Invalid count''))
          | Some optBan \<Rightarrow>
              bind_eff (ip_stExecute repo qt qc \<lparr>ia_iUserId = us_id moderator, ia_bModerator = us_canmod moderator\<rparr>
                \<lparr>im_sIp = df_ip form, im_dtCutoff = dtCutoff, im_sReason = df_reason form, im_optBan = optBan\<rparr>) (\<lambda>res.
              ret_eff (DelIpPage dtCutoff (df_ip form) (length (ir_vecDeletedTopicIds res))
                (length (ir_vecDeletedCommentIds res)) (ir_vecSkippedCommentIds res)))))))"

subsection \<open>The loops are those of the deletion by author\<close>

lemma bind_ret: "bind_eff m ret_eff = m"
  by (auto simp: bind_eff_def ret_eff_def fun_eq_iff split: prod.splits sum.splits)

lemma ip_topics_eq: "ip_delete_topics = mass_delete_topics"
proof
  show "ip_delete_topics ids = mass_delete_topics ids" for ids
    by (induction ids) simp_all
qed

lemma ip_drop_eq: "ip_drop_count = drop_comment_count"
  by (simp add: fun_eq_iff ip_drop_count_def drop_comment_count_def)

lemma ip_comments_eq: "ip_delete_comments now = mass_delete_comments now"
proof
  show "ip_delete_comments now ids = mass_delete_comments now ids" for ids
  proof (induction ids)
    case (Cons i ids)
    have step: "(if n = 0 then m else bind_eff d (\<lambda>_. bind_eff m (\<lambda>(x, y). ret_eff (i # x, y)))) =
        bind_eff (if 0 < n then d else ret_eff ()) (\<lambda>_. bind_eff m (\<lambda>(x, y). ret_eff (if 0 < n then i # x else x, y)))"
      for n :: nat and m :: "(int list \<times> int list) pg_eff" and d :: "unit pg_eff"
      using bind_ret [of m] by (auto simp: fun_eq_iff)
    show ?case by (simp add: Cons ip_drop_eq step cong: if_cong)
  qed simp
qed

lemma ip_events_eq: "ip_vDeleteTopicEvents = mass_vDeleteTopicEvents" "ip_vDeleteCommentEvents = vDeleteCommentEvents"
  by (simp_all add: fun_eq_iff ip_vDeleteTopicEvents_def mass_vDeleteTopicEvents_def ip_vDeleteCommentEvents_def
      vDeleteCommentEvents_def)

lemma ip_record_Inr:
  "ip_record_deletions now m s ids db = (Inr x, db') \<Longrightarrow>
    bonuses db' = bonuses db @ map (\<lambda>i. (i, Some 0)) ids \<and> post_rows db' = post_rows db"
  by (induction ids arbitrary: db) (auto simp: bind_eff_Inr_iff dest!: insert_del_info_Inr)

subsection \<open>Events of the deleted posts\<close>

definition anonymise :: "pg_event \<Rightarrow> pg_event" where
  "anonymise e = e\<lparr>ue_id := 0\<rparr>"

definition about_posts :: "int list \<Rightarrow> int list \<Rightarrow> pg_event \<Rightarrow> bool" where
  "about_posts T C e \<longleftrightarrow>
     (case ue_message_id e of None \<Rightarrow> False | Some i \<Rightarrow> i \<in> set T) \<and> ue_type e \<in> {TAG, REF, REPLY, WATCH, REACTION, WARNING}
     \<or> (case ue_comment_id e of None \<Rightarrow> False | Some i \<Rightarrow> i \<in> set C) \<and> ue_type e \<in> {REPLY, WATCH, REF, REACTION, WARNING}"

definition topic_notices :: "time \<Rightarrow> int \<Rightarrow> rstr \<Rightarrow> int list \<Rightarrow> pg \<Rightarrow> pg_event list" where
  "topic_notices now m s T db = map (\<lambda>t. deletion_notice (pt_userid t) (pt_id t) None s)
     (filter (\<lambda>t. pt_id t \<in> set T \<and> told now m db (pt_userid t)) (db_topics db))"

definition comment_notices :: "time \<Rightarrow> int \<Rightarrow> rstr \<Rightarrow> int list \<Rightarrow> pg \<Rightarrow> pg_event list" where
  "comment_notices now m s C db = map (\<lambda>c. deletion_notice (pc_userid c) (pc_topic c) (Some (pc_id c)) s)
     (filter (\<lambda>c. pc_id c \<in> set C \<and> told now m db (pc_userid c)) (db_comments db))"

text \<open>
  Afterwards nobody holds an event about a deleted post but the notices to its author; all
  other events are as before.
\<close>

definition events_after :: "time \<Rightarrow> int \<Rightarrow> rstr \<Rightarrow> int list \<Rightarrow> int list \<Rightarrow> pg \<Rightarrow> pg \<Rightarrow> bool" where
  "events_after now m s T C db db' \<longleftrightarrow> (\<exists>ns. db_events db' = filter (\<lambda>e. \<not> about_posts T C e) (db_events db) @ ns \<and>
     map anonymise ns = topic_notices now m s T db @ comment_notices now m s C db)"

lemma delete_events_events: "delete_events p db = (r, db') \<Longrightarrow> db_events db' = filter (\<lambda>e. \<not> p e) (db_events db)"
  by (auto simp: delete_events_def recalculate_unread_def Let_def split: if_splits)

lemma mass_events_events:
  "mass_vDeleteTopicEvents T db = (Inr x, db1) \<Longrightarrow> db_events db1 = filter (\<lambda>e. \<not> about_posts T [] e) (db_events db)"
  "vDeleteCommentEvents C db = (Inr x, db1) \<Longrightarrow> db_events db1 = filter (\<lambda>e. \<not> about_posts [] C e) (db_events db)"
  by (auto simp: mass_vDeleteTopicEvents_def vDeleteCommentEvents_def about_posts_def dest!: delete_events_events
      split: if_splits option.splits intro!: filter_cong)

lemma insert_event_audit: "insert_event e db = (Inr x, db') \<Longrightarrow> audit db' = audit db"
  by (auto dest!: insert_event_Inr simp: audit_def users_profile_def update_where_def)

lemma insert_events_Inr:
  "insert_events es db = (Inr x, db') \<Longrightarrow> audit db' = audit db \<and> content db' = content db \<and>
    (\<exists>ns. db_events db' = db_events db @ ns \<and> map anonymise ns = map anonymise es)"
proof (induction es arbitrary: db)
  case (Cons e es)
  from Cons.prems obtain y db1 where e: "insert_event e db = (Inr y, db1)" and es: "insert_events es db1 = (Inr x, db')"
    by (auto simp: bind_eff_Inr_iff)
  obtain ns where ns: "db_events db' = db_events db1 @ ns" "map anonymise ns = map anonymise es"
    and fr: "audit db' = audit db1" "content db' = content db1" using Cons.IH [OF es] by blast
  have "db_events db1 = db_events db @ [e\<lparr>ue_id := db_event_seq db\<rparr>]"
    using insert_event_Inr [OF e] by simp
  with ns have "db_events db' = db_events db @ (e\<lparr>ue_id := db_event_seq db\<rparr> # ns)"
    "map anonymise (e\<lparr>ue_id := db_event_seq db\<rparr> # ns) = map anonymise (e # es)"
    by (simp_all add: anonymise_def)
  with fr insert_event_audit [OF e] insert_event_content [OF e] show ?case by metis
qed simp

lemma told_audit:
  assumes "audit db' = audit db"
  shows "told now m db' = told now m db"
proof -
  have "map_option (\<lambda>r. r\<lparr>pu_unread_events := 0\<rparr>) (user_of db i) = List.find (\<lambda>r. pu_id r = i) (users_profile db)" for db i
  proof -
    have "map_option (\<lambda>r. r\<lparr>pu_unread_events := 0\<rparr>) (List.find (\<lambda>r. pu_id r = i) rs)
        = List.find (\<lambda>r. pu_id r = i) (map (\<lambda>r. r\<lparr>pu_unread_events := 0\<rparr>) rs)" for rs
      by (induction rs) simp_all
    then show ?thesis by (simp add: user_of_def users_profile_def)
  qed
  with assms have eq: "map_option (\<lambda>r. r\<lparr>pu_unread_events := 0\<rparr>) (user_of db' i) = map_option (\<lambda>r. r\<lparr>pu_unread_events := 0\<rparr>) (user_of db i)" for i
    by (simp add: audit_def)
  have frz: "map_option pu_frozen_until (user_of db' i) = map_option pu_frozen_until (user_of db i)" for i
    using arg_cong [OF eq [of i], of "map_option pu_frozen_until"] by (simp add: option.map_comp comp_def)
  have "(case user_of db' i of None \<Rightarrow> False | Some r \<Rightarrow> (case pu_frozen_until r of None \<Rightarrow> True | Some d \<Rightarrow> d < now))
      = (case user_of db i of None \<Rightarrow> False | Some r \<Rightarrow> (case pu_frozen_until r of None \<Rightarrow> True | Some d \<Rightarrow> d < now))" for i
    using frz [of i] by (cases "user_of db' i"; cases "user_of db i") simp_all
  then show ?thesis by (simp add: fun_eq_iff told_def)
qed

lemma notices_stable:
  assumes "audit db' = audit db"
  shows "topic_flags db' = map (\<lambda>(k, a, d, st). (k, a, g (k, a, d, st))) (topic_flags db) \<Longrightarrow>
      topic_notices now m s T db' = topic_notices now m s T db"
    and "db_comments db' = mark_deleted X (db_comments db) \<Longrightarrow> comment_notices now m s C db' = comment_notices now m s C db"
proof -
  have tn: "topic_notices now m s T db = map (\<lambda>(k, a). deletion_notice a k None s)
      (filter (\<lambda>(k, a). k \<in> set T \<and> told now m db a) (map (\<lambda>(k, a, _). (k, a)) (topic_flags db)))" for db
    by (simp add: topic_notices_def topic_flags_def filter_map comp_def)
  show "topic_notices now m s T db' = topic_notices now m s T db"
    if "topic_flags db' = map (\<lambda>(k, a, d, st). (k, a, g (k, a, d, st))) (topic_flags db)"
    unfolding tn told_audit [OF assms] that by (simp add: comp_def split_def)
  have cn: "map (\<lambda>c. deletion_notice (pc_userid c) (pc_topic c) (Some (pc_id c)) s)
      (filter (\<lambda>c. pc_id c \<in> set C \<and> P (pc_userid c)) (mark_deleted X cs))
    = map (\<lambda>c. deletion_notice (pc_userid c) (pc_topic c) (Some (pc_id c)) s) (filter (\<lambda>c. pc_id c \<in> set C \<and> P (pc_userid c)) cs)"
    for P cs by (induction cs) (auto simp: mark_deleted_def)
  show "comment_notices now m s C db' = comment_notices now m s C db" if "db_comments db' = mark_deleted X (db_comments db)"
    unfolding comment_notices_def told_audit [OF assms] that cn ..
qed

subsection \<open>The deletion\<close>

definition ip_delete_post :: "time \<Rightarrow> int \<Rightarrow> StIpMassDeleteCommand \<Rightarrow> rstr \<Rightarrow> StIpMassDeleteResult \<Rightarrow> pg \<Rightarrow> pg \<Rightarrow> bool" where
  "ip_delete_post now m c ip res db db' \<longleftrightarrow>
     (let T = ir_vecDeletedTopicIds res; C = ir_vecDeletedCommentIds res; S = ir_vecSkippedCommentIds res in
      mass_posts (ip_topic ip (im_dtCutoff c)) (ip_comment ip (im_dtCutoff c)) T C S db db' \<and>
      no_orphans C S db db' \<and> bonuses db' = bonuses db @ map (\<lambda>i. (i, Some 0)) (C @ T) \<and>
      audit db' = audit db \<and> events_after now m (im_sReason c) T C db db')"

lemma vNotify_Inr:
  "vNotifyDeletedTopics now T m s db = (Inr x, db') \<Longrightarrow> audit db' = audit db \<and> content db' = content db \<and>
    (\<exists>ns. db_events db' = db_events db @ ns \<and> map anonymise ns = topic_notices now m s T db)"
  "vNotifyDeletedComments now C m s db = (Inr x, db') \<Longrightarrow> audit db' = audit db \<and> content db' = content db \<and>
    (\<exists>ns. db_events db' = db_events db @ ns \<and> map anonymise ns = comment_notices now m s C db)"
  by (auto simp: vNotifyDeletedTopics_def vNotifyDeletedComments_def topic_notices_def comment_notices_def
      comp_def anonymise_def deletion_notice_def dest!: insert_events_Inr split: if_splits)

lemma about_split: "about_posts T C e \<longleftrightarrow> about_posts T [] e \<or> about_posts [] C e"
  by (auto simp: about_posts_def split: option.splits)

lemma ip_delete_Inr:
  assumes run: "ip_delete_body inet now m c db = (Inr res, db')" and keyed: "comments.keyed db" "topics.keyed db"
  shows "\<exists>ip. inet (im_sIp c) = Some ip \<and> ip_delete_post now m c ip res db db'"
proof -
  from run obtain ip T C S db1 db2 db3 db4 db5 db6 where ip: "inet (im_sIp c) = Some ip"
    and tops: "mass_delete_topics (map pt_id (filter (ip_topic ip (im_dtCutoff c)) (db_topics db))) db = (Inr T, db1)"
    and ev1: "mass_vDeleteTopicEvents T db1 = (Inr (), db2)"
    and coms: "mass_delete_comments now (rev (sort (map pc_id (filter (ip_comment ip (im_dtCutoff c)) (db_comments db))))) db2
      = (Inr (C, S), db3)"
    and ev2: "vDeleteCommentEvents C db3 = (Inr (), db4)"
    and rec: "ip_record_deletions now m (im_sReason c) (C @ T) db4 = (Inr (), db5)"
    and n1: "vNotifyDeletedTopics now T m (im_sReason c) db5 = (Inr (), db6)"
    and n2: "vNotifyDeletedComments now C m (im_sReason c) db6 = (Inr (), db')"
    and res: "res = \<lparr>ir_vecDeletedTopicIds = T, ir_vecDeletedCommentIds = C, ir_vecSkippedCommentIds = S\<rparr>"
    by (auto simp: ip_delete_body_def inet_or_fail_Inr bind_eff_Inr_iff select_rows_def ip_topics_eq ip_comments_eq ip_events_eq)
  let ?P = "ip_topic ip (im_dtCutoff c)" and ?Q = "ip_comment ip (im_dtCutoff c)"
  have f: "content db2 = content db1 \<and> audit db2 = audit db1" "content db4 = content db3 \<and> audit db4 = audit db3"
    using keepsD [OF mass_events_frame(1) _ ev1] keepsD [OF mass_events_frame(2) _ ev2] by blast+
  have core: "mass_posts ?P ?Q T C S db db4" "bonuses db4 = bonuses db" "audit db4 = audit db" "no_orphans C S db db4"
    and e: "db_events db1 = db_events db" "db_events db3 = db_events db2"
    using mass_core [OF keyed _ _ tops f(1) coms f(2)] by (auto simp: ip_topic_def ip_comment_def)
  note r5 = ip_record_Inr [OF rec] and r6 = vNotify_Inr(1) [OF n1] and r7 = vNotify_Inr(2) [OF n2]
  have cm4: "db_comments db4 = mark_deleted (set C) (db_comments db)" using core(1) by (simp add: mass_posts_def)
  have tf4: "topic_flags db4 = map (\<lambda>(k, a, d, st). if k \<in> set T \<and> \<not> d then (k, a, True, False) else (k, a, d, st)) (topic_flags db)"
    using core(1) by (simp add: mass_posts_def)
  note fr = content_frame_mass [OF conjunct1 [OF conjunct2 [OF r6]]] content_frame_mass [OF conjunct1 [OF conjunct2 [OF r7]]]
  have rows: "audit db' = audit db" "db_comments db' = db_comments db4" "scores db' = scores db4" "counts db' = counts db4"
    "topic_flags db' = topic_flags db4" "bonuses db' = bonuses db4 @ map (\<lambda>i. (i, Some 0)) (C @ T)"
    and a5: "audit db5 = audit db" "audit db6 = audit db" "topic_flags db5 = topic_flags db4" "db_comments db6 = db_comments db4"
    using r5 r6 r7 fr core(3) by (simp_all add: post_rows_def)
  have posts: "mass_posts ?P ?Q T C S db db' \<and> no_orphans C S db db'"
    using core(1,4) rows by (simp add: mass_posts_def no_orphans_def)
  have "db_events db5 = filter (\<lambda>e. \<not> about_posts T C e) (db_events db)"
    using r5 mass_events_events(1) [OF ev1] mass_events_events(2) [OF ev2] e
    by (subst about_split) (simp add: post_rows_def conj_commute)
  moreover have "topic_notices now m (im_sReason c) T db5 = topic_notices now m (im_sReason c) T db"
    by (rule notices_stable(1) [OF a5(1), where g = "\<lambda>(k, a, d, st). if k \<in> set T \<and> \<not> d then (True, False) else (d, st)"])
      (auto simp: a5(3) tf4)
  moreover have "comment_notices now m (im_sReason c) C db6 = comment_notices now m (im_sReason c) C db"
    by (rule notices_stable(2) [OF a5(2)]) (simp add: a5(4) cm4)
  ultimately have "events_after now m (im_sReason c) T C db db'"
    using r6 r7 unfolding events_after_def by (metis (no_types, lifting) append.assoc map_append)
  with posts rows(1,6) core(2) ip show ?thesis by (auto simp: ip_delete_post_def res Let_def)
qed

text \<open>C24: Deleting by address is one transaction.  On success exactly the live topics and comments posted
  from the address after the cutoff are taken: the topics are deleted and unpinned, the comments
  split into deleted and skipped, comment counters fall by the deleted ones, each deletion is
  recorded without a penalty, no score or profile changes; every event about a deleted post goes,
  and each author except the moderator, the anonymous account and the frozen gets one notice per
  deleted post.  No live comment answers a deleted one.  An error changes nothing.\<close>

theorem ip_delete_effect:
  assumes "comments.keyed db" and "topics.keyed db" and "pg_stDeleteByIp inet now m c db = (r, db')"
  shows "case r of Inl e \<Rightarrow> db' = db
    | Inr res \<Rightarrow> \<exists>ip. inet (im_sIp c) = Some ip \<and> ip_delete_post now m c ip res db db'"
  using assms ip_delete_Inr [of inet now m c db _ db']
  by (cases r) (auto simp: pg_stDeleteByIp_def transaction_err transaction_Inr)

definition ex_ip_db :: pg where
  "ex_ip_db = ex_user_db\<lparr>db_comments := map (\<lambda>x. x\<lparr>pc_postip := Some (u ''10.0.0.9''), pc_postdate := 1500\<rparr>) (db_comments ex_user_db)\<rparr>"

definition ex_ip_command :: StIpMassDeleteCommand where
  "ex_ip_command = \<lparr>im_sIp = u ''10.0.0.9'', im_dtCutoff = 1000, im_sReason = u ''spam'', im_optBan = None\<rparr>"

lemma ex_ip_run: "fst (pg_stDeleteByIp Some 2000 8 ex_ip_command ex_ip_db) =
    Inr \<lparr>ir_vecDeletedTopicIds = [], ir_vecDeletedCommentIds = [22, 21, 20], ir_vecSkippedCommentIds = []\<rparr>"
  by (simp add: pg_stDeleteByIp_def transaction_def ip_delete_body_def inet_or_fail_def bind_eff_def select_rows_def
      ex_ip_db_def ex_ip_command_def ex_user_db_def ex_comment_db_def ex_db_def ex_user_def ex_thread_def ex_comment_def
      ex_topic_def ip_topic_def ip_comment_def update_where_def user_of_def ip_vDeleteTopicEvents_def delete_events_def
      ip_drop_count_def exec_update_def exec_update_checked_def topic_of_comment_def comment_of_def ip_vDeleteCommentEvents_def
      insert_del_info_def exec_insert_def touch_topic_def in_i32_def Let_def vNotifyDeletedTopics_def
      vNotifyDeletedComments_def told_def deletion_notice_def insert_event_def I_ANONYMOUS_USER_ID_def topic_of_def)

theorem ip_delete_effect_witness:
  "\<exists>db'. ip_delete_post 2000 8 ex_ip_command (u ''10.0.0.9'')
     \<lparr>ir_vecDeletedTopicIds = [], ir_vecDeletedCommentIds = [22, 21, 20], ir_vecSkippedCommentIds = []\<rparr> ex_ip_db db'"
proof -
  have keyed: "comments.keyed ex_ip_db" "topics.keyed ex_ip_db"
    using ex_user_keyed by (simp_all add: ex_ip_db_def comments.keyed_def topics.keyed_def comp_def)
  obtain r db' where run: "pg_stDeleteByIp Some 2000 8 ex_ip_command ex_ip_db = (r, db')" by fastforce
  with ip_delete_effect [OF keyed run] ex_ip_run show ?thesis by (auto simp: ex_ip_command_def)
qed

subsection \<open>Two commits\<close>

lemma ip_queue_keeps:
  assumes "\<And>i b. keeps_db (trq_vUpdateMessage qt i b)"
  shows "ip_queue_topics qt ids w = (r, w') \<Longrightarrow> w_db w' = w_db w"
proof (induction ids arbitrary: w)
  case (Cons i ids)
  obtain x w1 where one: "trq_vUpdateMessage qt i True w = (x, w1)" by fastforce
  from keeps_dbD [OF assms one] Cons.prems Cons.IH [of w1] show ?case
    by (cases x) (auto simp: one)
qed simp

definition ban_store :: "(rstr \<Rightarrow> rstr option) \<Rightarrow> time \<Rightarrow> int \<Rightarrow> StIpMassDeleteCommand \<Rightarrow> pg \<Rightarrow> (app_error + unit) \<times> pg" where
  "ban_store inet now m c db = (case im_optBan c of None \<Rightarrow> (Inr (), db) | Some b \<Rightarrow> pg_vBlockIp inet now m b db)"

text \<open>What is committed of a request by a moderator.\<close>

definition delip_commits :: "(rstr \<Rightarrow> rstr option) \<Rightarrow> time \<Rightarrow> int \<Rightarrow> StIpMassDeleteCommand \<Rightarrow> pg
    \<Rightarrow> app_error + StIpMassDeleteResult \<Rightarrow> pg \<Rightarrow> bool" where
  "delip_commits inet now m c db r db' \<longleftrightarrow>
     (case ban_store inet now m c db of (Inl e, _) \<Rightarrow> r = Inl e \<and> db' = db
      | (Inr _, db1) \<Rightarrow> (case pg_stDeleteByIp inet now m c db1 of
          (Inl e, _) \<Rightarrow> r = Inl e \<and> db' = db1
        | (Inr res, db2) \<Rightarrow> db' = db2 \<and> (case r of Inl e \<Rightarrow> True | Inr res' \<Rightarrow> res' = res)))"

lemma vBlockIp_Inl: "pg_vBlockIp inet now m b db = (Inl e, db') \<Longrightarrow> db' = db"
  by (auto simp: pg_vBlockIp_def inet_or_fail_def upsert_ip_block_def split: option.splits)

text \<open>A deletion by address is two commits, in this order: the ban, then the posts.  Anybody but a
  moderator changes nothing; a failing ban changes nothing; when the deletion fails the ban
  stands alone; and once the posts are deleted no failure of the search queue brings them back.\<close>

theorem delip_two_commits:
  assumes "ip_stExecute (pg_ip_mass_delete inet now) qt qc a c w = (r, w')"
    and "\<And>i b. keeps_db (trq_vUpdateMessage qt i b)" and "\<And>ids. keeps_db (crq_vUpdateComments qc ids)"
  shows "if ia_bModerator a then delip_commits inet now (ia_iUserId a) c (w_db w) r (w_db w')
    else r = Inl Forbidden \<and> w' = w"
proof (cases "ia_bModerator a")
  case False
  with assms(1) show ?thesis by (simp add: ip_stExecute_def)
next
  case mod: True
  let ?m = "ia_iUserId a"
  let ?rest = "\<lambda>_. bind_eff (on_db (pg_stDeleteByIp inet now ?m c)) (\<lambda>r.
      bind_eff (ip_queue_topics qt (ir_vecDeletedTopicIds r)) (\<lambda>_.
      bind_eff (crq_vUpdateComments qc (ir_vecDeletedCommentIds r)) (\<lambda>_. ret_eff r)))"
  have run: "bind_eff (on_db (ban_store inet now ?m c)) ?rest w = (r, w')"
    using assms(1) mod
    by (cases "im_optBan c") (simp_all add: ip_stExecute_def pg_ip_mass_delete_def ban_store_def on_db_def bind_eff_def)
  obtain b db1 where ban: "ban_store inet now ?m c (w_db w) = (b, db1)" by fastforce
  show ?thesis
  proof (cases b)
    case (Inl e)
    with ban have "db1 = w_db w" by (auto simp: ban_store_def dest: vBlockIp_Inl split: option.splits)
    with run ban Inl mod show ?thesis by (auto simp: bind_eff_def on_db_def delip_commits_def)
  next
    case (Inr x)
    obtain d db2 where del: "pg_stDeleteByIp inet now ?m c db1 = (d, db2)" by fastforce
    show ?thesis
    proof (cases d)
      case (Inl e)
      with del have "db2 = db1" by (auto simp: pg_stDeleteByIp_def transaction_err)
      with run ban \<open>b = Inr x\<close> del Inl mod show ?thesis by (auto simp: bind_eff_def on_db_def delip_commits_def)
    next
      case (Inr res)
      with run ban \<open>b = Inr x\<close> del have "bind_eff (ip_queue_topics qt (ir_vecDeletedTopicIds res)) (\<lambda>_.
          bind_eff (crq_vUpdateComments qc (ir_vecDeletedCommentIds res)) (\<lambda>_. ret_eff res)) (w\<lparr>w_db := db2\<rparr>) = (r, w')"
        by (simp add: bind_eff_def on_db_def)
      then have "w_db w' = db2 \<and> (case r of Inl e \<Rightarrow> True | Inr res' \<Rightarrow> res' = res)"
        by (cases r) (auto simp: bind_eff_Inl_iff bind_eff_Inr_iff
            dest!: ip_queue_keeps [OF assms(2)] keeps_dbD [OF assms(3)])
      with ban \<open>b = Inr x\<close> del Inr mod show ?thesis by (simp add: delip_commits_def)
    qed
  qed
qed

definition ex_delip_queue :: "bool \<Rightarrow> unit world TrTopicReindexQueue" where
  "ex_delip_queue broken = \<lparr>trq_vUpdateMessage = (\<lambda>i b w. if broken then (Inl (Anyhow (u ''queue'')), w) else (Inr (), w))\<rparr>"

definition ex_delip_comments :: "unit world TrCommentReindexQueue" where
  "ex_delip_comments = \<lparr>crq_vUpdateComments = (\<lambda>ids w. (Inl (Anyhow (u ''queue'')), w))\<rparr>"

theorem delip_two_commits_witness:
  "\<exists>r db'. delip_commits Some 2000 8 ex_ip_command ex_ip_db r db' \<and> (\<exists>x\<in>set (db_comments db'). pc_id x = 22 \<and> pc_deleted x)"
proof -
  let ?a = "\<lparr>ia_iUserId = 8, ia_bModerator = True\<rparr>"
  obtain r w' where run: "ip_stExecute (pg_ip_mass_delete Some 2000) (ex_delip_queue True) ex_delip_comments ?a ex_ip_command
    \<lparr>w_db = ex_ip_db, w_queue = ()\<rparr> = (r, w')" by fastforce
  have com: "delip_commits Some 2000 8 ex_ip_command ex_ip_db r (w_db w')"
    using delip_two_commits [OF run] by (simp add: keeps_db_def ex_delip_queue_def ex_delip_comments_def)
  obtain db2 where del: "pg_stDeleteByIp Some 2000 8 ex_ip_command ex_ip_db =
      (Inr \<lparr>ir_vecDeletedTopicIds = [], ir_vecDeletedCommentIds = [22, 21, 20], ir_vecSkippedCommentIds = []\<rparr>, db2)"
    using ex_ip_run by (metis prod.collapse)
  have keyed: "comments.keyed ex_ip_db" "topics.keyed ex_ip_db"
    using ex_user_keyed by (simp_all add: ex_ip_db_def comments.keyed_def topics.keyed_def comp_def)
  from del have "ip_delete_body Some 2000 8 ex_ip_command ex_ip_db =
      (Inr \<lparr>ir_vecDeletedTopicIds = [], ir_vecDeletedCommentIds = [22, 21, 20], ir_vecSkippedCommentIds = []\<rparr>, db2)"
    unfolding pg_stDeleteByIp_def transaction_Inr .
  from ip_delete_Inr [OF this keyed] have "db_comments db2 = mark_deleted {22, 21, 20} (db_comments ex_ip_db)"
    unfolding ip_delete_post_def mass_posts_def Let_def by (elim exE conjE) simp
  moreover have "w_db w' = db2" using com del by (simp add: delip_commits_def ban_store_def ex_ip_command_def)
  ultimately have "\<exists>x\<in>set (db_comments (w_db w')). pc_id x = 22 \<and> pc_deleted x"
    by (simp add: ex_ip_db_def ex_user_db_def ex_comment_db_def ex_thread_def ex_comment_def mark_deleted_def)
  with com show ?thesis by blast
qed

subsection \<open>Blocks\<close>

lemma find_replaced:
  "pb_ip r \<noteq> ip \<Longrightarrow> List.find (\<lambda>b. pb_ip b = ip) (update_where (\<lambda>x. pb_ip x = pb_ip r) (\<lambda>_. r) rs) = List.find (\<lambda>b. pb_ip b = ip) rs"
  "k \<in> pb_ip ` set rs \<Longrightarrow> pb_ip r = k \<Longrightarrow> List.find (\<lambda>b. pb_ip b = k) (update_where (\<lambda>x. pb_ip x = k) (\<lambda>_. r) rs) = Some r"
  unfolding update_where_def by (induction rs) auto

lemma find_appended:
  "k \<notin> pb_ip ` set rs \<Longrightarrow> pb_ip r = k \<Longrightarrow> List.find (\<lambda>b. pb_ip b = k) (rs @ [r]) = Some r"
  "pb_ip r \<noteq> ip \<Longrightarrow> List.find (\<lambda>b. pb_ip b = ip) (rs @ [r]) = List.find (\<lambda>b. pb_ip b = ip) rs"
  by (induction rs) auto

lemma upsert_of:
  assumes "upsert_ip_block r db = (Inr (), db')"
  shows "ip_block_of db' ip = (if ip = pb_ip r then Some r else ip_block_of db ip)"
  using assms find_replaced [where rs = "db_b_ips db" and r = r] find_appended [where rs = "db_b_ips db" and r = r]
  by (auto simp: upsert_ip_block_def ip_block_of_def)

lemma vBlockIp_of:
  assumes "pg_vBlockIp inet now m b db = (Inr (), db')" and "inet (ib_sIp b) = Some ip"
  shows "ip_block_of db' ip = Some (ip_block_row now m b ip)"
  using assms upsert_of [of "ip_block_row now m b ip" db db' ip]
  by (auto simp: pg_vBlockIp_def inet_or_fail_def ip_block_row_def)

end
