(* ===== verification/Store_Invariants.thy ===== *)
theory Store_Invariants
  imports Store
begin

section \<open>Invariants of the store\<close>

text \<open>
  \<open>store_invariant\<close> is what a property of the store must promise about the single statements
  for every operation composed of them to keep it: rows keep their keys, scores stay in range,
  events come and go with the unread counters, a new comment takes the next number of the
  sequence and answers a comment of its topic.  The rules derived from it follow the code's
  control flow together with the collection \<open>keeps\<close>.  Four invariants provide it: unread
  counters, keys and scores, the threads, and the table of blocked addresses as it is.
\<close>

text \<open>A comment answers one of the same topic that is already there, or none.\<close>

definition well_answered :: "pg \<Rightarrow> pg_comment \<Rightarrow> bool" where
  "well_answered db c \<longleftrightarrow> (\<forall>p. pc_replyto c = Some p \<longrightarrow> (\<exists>d\<in>set (db_comments db). pc_id d = p \<and> pc_topic d = pc_topic c))"

locale store_invariant =
  fixes I :: "pg \<Rightarrow> bool"
  assumes topics_inv: "(\<And>r. pt_id (f r) = pt_id r) \<Longrightarrow> I db \<Longrightarrow> I (db_topics_update (update_where p f) db)"
    and comments_inv: "(\<And>r. (pc_id (g r), pc_topic (g r), pc_replyto (g r)) = (pc_id r, pc_topic r, pc_replyto r)) \<Longrightarrow> I db \<Longrightarrow>
      I (db_comments_update (update_where q g) db)"
    and users_inv: "(\<And>r. pu_id (h r) = pu_id r) \<Longrightarrow> (\<And>r. pu_unread_events (h r) = pu_unread_events r) \<Longrightarrow>
      (\<And>r. r \<in> set (db_users db) \<Longrightarrow> s r \<Longrightarrow> in_i32_opt (pu_score r) \<Longrightarrow> in_i32_opt (pu_score (h r))) \<Longrightarrow>
      I db \<Longrightarrow> I (db_users_update (update_where s h) db)"
    and add_deletion_inv: "di_msgid d \<notin> di_msgid ` set (db_del_info db) \<Longrightarrow> I db \<Longrightarrow> I (db_del_info_update (\<lambda>rs. rs @ [d]) db)"
    and drop_deletion_inv: "I db \<Longrightarrow> I (db_del_info_update (filter k) db)"
    and insert_event_inv: "ue_unread e \<Longrightarrow> I db \<Longrightarrow> insert_event e db = (Inr x, db') \<Longrightarrow> I db'"
    and delete_events_inv: "I db \<Longrightarrow> delete_events v db = (Inr x, db') \<Longrightarrow> I db'"
    and recalculate_inv: "I db \<Longrightarrow> recalculate_unread ids db = (Inr x, db') \<Longrightarrow> I db'"
    and add_comment_inv: "I db0 \<Longrightarrow> pc_id c = db_msg_seq db0 \<Longrightarrow> well_answered db0 c \<Longrightarrow> I db \<Longrightarrow> db_comments db = db_comments db0 \<Longrightarrow>
      db_msg_seq db = db_msg_seq db0 + 1 \<Longrightarrow> pc_id c \<notin> pc_id ` set (db_comments db) \<Longrightarrow> I (db_comments_update (\<lambda>rs. rs @ [c]) db)"
    and other_inv: "I db \<Longrightarrow> I (db_msgbase_update f1 db)" "I db \<Longrightarrow> I (db_warnings_update f2 db)"
      "I db \<Longrightarrow> I (db_warning_seq_update f3 db)" "I db \<Longrightarrow> I (db_ban_info_update f4 db)" "I db \<Longrightarrow> I (db_user_log_update f5 db)"
      "I db \<Longrightarrow> I (db_msg_seq_update (\<lambda>n. n + 1) db)"
      "I db \<Longrightarrow> I (db_memories_update h1 db)"
      "I db \<Longrightarrow> I (db_ignore_list_update h2 db)"
      "I db \<Longrightarrow> I (db_edit_info_update h3 db)"
      "I db \<Longrightarrow> I (db_edit_seq_update h4 db)"
      "I db \<Longrightarrow> I (db_user_agents_update h5 db)"
      "I db \<Longrightarrow> I (db_agent_seq_update h6 db)"
      "I db \<Longrightarrow> I (db_user_settings_update h7 db)"
      "I db \<Longrightarrow> I (db_reactions_log_update h8 db)"
      "I db \<Longrightarrow> I (db_polls_update h9 db)"
      "I db \<Longrightarrow> I (db_polls_variants_update h10 db)"
      "I db \<Longrightarrow> I (db_vote_users_update h11 db)"
      "I db \<Longrightarrow> I (db_groups_update h12 db)"
      "I db \<Longrightarrow> I (db_poll_seq_update k0 db)"
      "I db \<Longrightarrow> I (db_variant_seq_update k1 db)"
      "I db \<Longrightarrow> I (db_tags_values_update k2 db)"
      "I db \<Longrightarrow> I (db_tag_seq_update k3 db)"
      "I db \<Longrightarrow> I (db_tags_synonyms_update k4 db)"
      "I db \<Longrightarrow> I (db_tags_update k5 db)"
      "I db \<Longrightarrow> I (db_user_tags_update k6 db)"
      "I db \<Longrightarrow> I (db_topic_notified_update k7 db)"
      "I db \<Longrightarrow> I (db_images_update k8 db)"
      "I db \<Longrightarrow> I (db_image_seq_update k9 db)"
begin

lemma keeps_topics:
  assumes "\<And>r. pt_id (f r) = pt_id r"
  shows "keeps I (exec_update db_topics db_topics_update p f)"
    and "keeps I (exec_update_checked db_topics db_topics_update p f ok)"
    and "keeps I (\<lambda>db. exec_update db_topics db_topics_update (pp db) f db)"
    and "keeps I (\<lambda>db. exec_update_checked db_topics db_topics_update (pp db) f ok db)"
    and "keeps I (\<lambda>db. if b db then exec_update db_topics db_topics_update p f db else (Inl e, db))"
  using topics_inv [OF assms] by (auto simp: keeps_def exec_update_def exec_update_checked_def split: if_splits)

lemma keeps_comments:
  "(\<And>r. (pc_id (f r), pc_topic (f r), pc_replyto (f r)) = (pc_id r, pc_topic r, pc_replyto r)) \<Longrightarrow>
    keeps I (exec_update db_comments db_comments_update p f)"
  by (rule keeps_update) (rule comments_inv)

lemma keeps_users:
  assumes "\<And>r. pu_id (f r) = pu_id r" and "\<And>r. pu_unread_events (f r) = pu_unread_events r"
    and "\<And>r. in_i32_opt (pu_score r) \<Longrightarrow> in_i32_opt (pu_score (f r))"
  shows "keeps I (exec_update db_users db_users_update p f)"
    and "keeps I (exec_update_checked db_users db_users_update p f ok)"
  using assms by (auto intro!: keeps_update users_inv)

lemma keeps_scores:
  assumes "\<And>r. pu_id (f r) = pu_id r" and "\<And>r. pu_unread_events (f r) = pu_unread_events r"
  shows "keeps I (exec_update_checked db_users db_users_update p f (\<lambda>r. in_i32_opt (pu_score r)))"
  unfolding keeps_def exec_update_checked_def exec_update_def
  by (auto simp: list_all_iff intro!: users_inv assms split: if_splits)

lemma keeps_add_score: "keeps I (add_score i d)"
  unfolding add_score_def by (rule keeps_scores) simp_all

lemma keeps_insert_del_info: "keeps I (insert_del_info now r)"
  by (auto simp: keeps_def insert_del_info_def touch_topic_def bind_eff_Inr_iff exec_insert_def
      intro!: topics_inv add_deletion_inv split: if_splits)

lemma keeps_delete_del_info: "keeps I (delete_del_info now i)"
  by (auto simp: keeps_def delete_del_info_def touch_topic_def Let_def intro!: topics_inv drop_deletion_inv)

lemma keeps_events:
  "ue_unread e \<Longrightarrow> keeps I (insert_event e)" "keeps I (delete_events v)" "keeps I (recalculate_unread ids)"
  unfolding keeps_def using insert_event_inv delete_events_inv recalculate_inv by blast+

lemma keeps_insert_events: "list_all ue_unread es \<Longrightarrow> keeps I (insert_events es)"
proof (induction es)
  case (Cons e es)
  then show ?case unfolding insert_events.simps by (intro keeps keeps_events) simp_all
qed (simp add: keeps)

lemma keeps_other:
  "keeps I (exec_update db_msgbase db_msgbase_update p1 g1)" "keeps I (exec_update db_warnings db_warnings_update p2 g2)"
  "keeps I (exec_insert db_ban_info db_ban_info_update ok1 b)" "keeps I (exec_delete db_ban_info_update p3)"
  "keeps I (exec_insert db_user_log db_user_log_update ok2 l)"
  by ((rule keeps_update keeps_delete keeps_insert), simp add: other_inv)+

lemma keeps_read: "keeps I (\<lambda>db. (f db, db))"
  by (simp add: keeps_def)

lemmas inv_rules = keeps keeps_topics keeps_comments keeps_users keeps_scores keeps_add_score keeps_insert_del_info
  keeps_delete_del_info keeps_events keeps_insert_events keeps_other keeps_read

end

subsection \<open>Unread counters\<close>

text \<open>The unread counter of every user counts that user's unread events.\<close>

definition unread_ok :: "pg \<Rightarrow> bool" where
  "unread_ok db \<longleftrightarrow> (\<forall>r\<in>set (db_users db). pu_unread_events r = int (unread_count db (pu_id r)))"

lemma unread_ok_other [simp]:
  "unread_ok (db_topics_update f db) = unread_ok db"
  "unread_ok (db_comments_update f2 db) = unread_ok db"
  "unread_ok (db_msgbase_update f3 db) = unread_ok db"
  "unread_ok (db_del_info_update f4 db) = unread_ok db"
  "unread_ok (db_warnings_update f5 db) = unread_ok db"
  "unread_ok (db_warning_seq_update f6 db) = unread_ok db"
  "unread_ok (db_ban_info_update f7 db) = unread_ok db"
  "unread_ok (db_user_log_update f8 db) = unread_ok db"
  "unread_ok (db_b_ips_update f9 db) = unread_ok db"
  "unread_ok (db_msg_seq_update h0 db) = unread_ok db"
  "unread_ok (db_memories_update h1 db) = unread_ok db"
  "unread_ok (db_ignore_list_update h2 db) = unread_ok db"
  "unread_ok (db_edit_info_update h3 db) = unread_ok db"
  "unread_ok (db_edit_seq_update h4 db) = unread_ok db"
  "unread_ok (db_user_agents_update h5 db) = unread_ok db"
  "unread_ok (db_agent_seq_update h6 db) = unread_ok db"
  "unread_ok (db_user_settings_update h7 db) = unread_ok db"
  "unread_ok (db_reactions_log_update h8 db) = unread_ok db"
  "unread_ok (db_polls_update h9 db) = unread_ok db"
  "unread_ok (db_polls_variants_update h10 db) = unread_ok db"
  "unread_ok (db_vote_users_update h11 db) = unread_ok db"
  "unread_ok (db_groups_update h12 db) = unread_ok db"
  "unread_ok (db_poll_seq_update k0 db) = unread_ok db"
  "unread_ok (db_variant_seq_update k1 db) = unread_ok db"
  "unread_ok (db_tags_values_update k2 db) = unread_ok db"
  "unread_ok (db_tag_seq_update k3 db) = unread_ok db"
  "unread_ok (db_tags_synonyms_update k4 db) = unread_ok db"
  "unread_ok (db_tags_update k5 db) = unread_ok db"
  "unread_ok (db_user_tags_update k6 db) = unread_ok db"
  "unread_ok (db_topic_notified_update k7 db) = unread_ok db"
  "unread_ok (db_images_update k8 db) = unread_ok db"
  "unread_ok (db_image_seq_update k9 db) = unread_ok db"
  by (simp_all add: unread_ok_def unread_count_def)

lemma unread_ok_users:
  assumes "\<And>r. pu_id (f r) = pu_id r" and "\<And>r. pu_unread_events (f r) = pu_unread_events r"
  shows "unread_ok db \<Longrightarrow> unread_ok (db_users_update (update_where p f) db)"
  using assms by (auto simp: unread_ok_def unread_count_def update_where_def)

lemma unread_insert_event:
  assumes "ue_unread e"
  shows "keeps unread_ok (insert_event e)"
  unfolding keeps_def
proof (intro allI impI)
  fix db a db'
  assume ok: "unread_ok db" and run: "insert_event e db = (Inr a, db')"
  show "unread_ok db'"
    unfolding insert_event_Inr [OF run] unread_ok_def
  proof
    fix r'
    assume "r' \<in> set (db_users (db_users_update (update_where (\<lambda>r. pu_id r = ue_userid e) (pu_unread_events_update (\<lambda>n. n + 1)))
      (db\<lparr>db_events := db_events db @ [e\<lparr>ue_id := db_event_seq db\<rparr>], db_event_seq := db_event_seq db + 1\<rparr>)))"
    then obtain r where r: "r \<in> set (db_users db)"
      and r': "r' = (if pu_id r = ue_userid e then pu_unread_events_update (\<lambda>n. n + 1) r else r)"
      by (auto simp: update_where_def)
    from ok r have "pu_unread_events r = int (unread_count db (pu_id r))" by (simp add: unread_ok_def)
    with r' assms show "pu_unread_events r' = int (unread_count (db_users_update (update_where (\<lambda>r. pu_id r = ue_userid e)
        (pu_unread_events_update (\<lambda>n. n + 1)))
      (db\<lparr>db_events := db_events db @ [e\<lparr>ue_id := db_event_seq db\<rparr>], db_event_seq := db_event_seq db + 1\<rparr>)) (pu_id r'))"
      by (auto simp: unread_count_def)
  qed
qed

lemma unread_recalculate:
  assumes "\<And>r. r \<in> set (db_users db) \<Longrightarrow> pu_id r \<notin> set ids \<Longrightarrow> pu_unread_events r = int (unread_count db (pu_id r))"
    and "recalculate_unread ids db = (x, db')"
  shows "unread_ok db'"
  using assms by (auto simp: recalculate_unread_def unread_ok_def unread_count_def update_where_def)

lemma unread_recalculate_keeps: "keeps unread_ok (recalculate_unread ids)"
  unfolding keeps_def
proof (intro allI impI)
  fix db a db'
  assume "unread_ok db" and "recalculate_unread ids db = (Inr a, db')"
  then show "unread_ok db'" by (intro unread_recalculate [of db ids]) (auto simp: unread_ok_def)
qed

lemma unread_count_delete:
  "(\<And>e. e \<in> set (db_events db) \<Longrightarrow> p e \<Longrightarrow> ue_userid e \<noteq> i) \<Longrightarrow>
    unread_count (db_events_update (filter (\<lambda>e. \<not> p e)) db) i = unread_count db i"
  by (auto simp: unread_count_def intro!: arg_cong [where f = length] filter_cong)

lemma unread_delete_events: "keeps unread_ok (delete_events p)"
  unfolding keeps_def
proof (intro allI impI)
  fix db a db'
  assume ok: "unread_ok db" and run: "delete_events p db = (Inr a, db')"
  let ?ids = "remdups (map ue_userid (filter p (db_events db)))"
  let ?d = "db_events_update (filter (\<lambda>e. \<not> p e)) db"
  have same: "pu_unread_events r = int (unread_count ?d (pu_id r))"
    if "r \<in> set (db_users db)" "pu_id r \<notin> set ?ids" for r
  proof -
    have "unread_count ?d (pu_id r) = unread_count db (pu_id r)"
      by (rule unread_count_delete) (use that in \<open>auto simp: image_iff\<close>)
    with ok that show ?thesis by (simp add: unread_ok_def)
  qed
  show "unread_ok db'"
  proof (cases "?ids = []")
    case True
    with run have "db' = ?d" by (simp add: delete_events_def Let_def)
    with same True show ?thesis by (simp add: unread_ok_def)
  next
    case False
    with run have "recalculate_unread ?ids ?d = (Inr a, db')" by (simp add: delete_events_def Let_def)
    with same show ?thesis by (intro unread_recalculate [of ?d ?ids]) auto
  qed
qed

interpretation unread: store_invariant unread_ok
proof unfold_locales
  fix e db x db'
  assume "ue_unread e" "unread_ok db" "insert_event e db = (Inr x, db')"
  then show "unread_ok db'" using unread_insert_event [of e] by (auto simp: keeps_def)
next
  fix db v x db'
  assume "unread_ok db" "delete_events v db = (Inr x, db')"
  then show "unread_ok db'" using unread_delete_events [of v] by (auto simp: keeps_def)
next
  fix db ids x db'
  assume "unread_ok db" "recalculate_unread ids db = (Inr x, db')"
  then show "unread_ok db'" using unread_recalculate_keeps [of ids] by (auto simp: keeps_def)
qed (simp_all add: unread_ok_users)

subsection \<open>Keys and scores\<close>

lemma pg_ok_other [simp]:
  "pg_ok (db_msgbase_update f3 db) = pg_ok db"
  "pg_ok (db_warnings_update f5 db) = pg_ok db"
  "pg_ok (db_warning_seq_update f6 db) = pg_ok db"
  "pg_ok (db_ban_info_update f7 db) = pg_ok db"
  "pg_ok (db_user_log_update f8 db) = pg_ok db"
  "pg_ok (db_b_ips_update f11 db) = pg_ok db"
  "pg_ok (db_msg_seq_update h0 db) = pg_ok db"
  "pg_ok (db_memories_update h1 db) = pg_ok db"
  "pg_ok (db_ignore_list_update h2 db) = pg_ok db"
  "pg_ok (db_edit_info_update h3 db) = pg_ok db"
  "pg_ok (db_edit_seq_update h4 db) = pg_ok db"
  "pg_ok (db_user_agents_update h5 db) = pg_ok db"
  "pg_ok (db_agent_seq_update h6 db) = pg_ok db"
  "pg_ok (db_user_settings_update h7 db) = pg_ok db"
  "pg_ok (db_reactions_log_update h8 db) = pg_ok db"
  "pg_ok (db_polls_update h9 db) = pg_ok db"
  "pg_ok (db_polls_variants_update h10 db) = pg_ok db"
  "pg_ok (db_vote_users_update h11 db) = pg_ok db"
  "pg_ok (db_groups_update h12 db) = pg_ok db"
  "pg_ok (db_poll_seq_update k0 db) = pg_ok db"
  "pg_ok (db_variant_seq_update k1 db) = pg_ok db"
  "pg_ok (db_tags_values_update k2 db) = pg_ok db"
  "pg_ok (db_tag_seq_update k3 db) = pg_ok db"
  "pg_ok (db_tags_synonyms_update k4 db) = pg_ok db"
  "pg_ok (db_tags_update k5 db) = pg_ok db"
  "pg_ok (db_user_tags_update k6 db) = pg_ok db"
  "pg_ok (db_topic_notified_update k7 db) = pg_ok db"
  "pg_ok (db_images_update k8 db) = pg_ok db"
  "pg_ok (db_image_seq_update k9 db) = pg_ok db"
  "pg_ok (db_events_update f9 db) = pg_ok db"
  "pg_ok (db_event_seq_update f10 db) = pg_ok db"
  by (simp_all add: pg_ok_def users.keyed_def topics.keyed_def comments.keyed_def del_info.keyed_def)

lemma map_update_where: "(\<And>r. k (f r) = k r) \<Longrightarrow> map k (update_where p f rs) = map k rs"
  by (simp add: update_where_def)

lemma pg_ok_topics: "(\<And>r. pt_id (f r) = pt_id r) \<Longrightarrow> pg_ok (db_topics_update (update_where p f) db) = pg_ok db"
  by (simp add: pg_ok_def users.keyed_def topics.keyed_def comments.keyed_def del_info.keyed_def map_update_where)

lemma pg_ok_comments: "(\<And>r. pc_id (f r) = pc_id r) \<Longrightarrow> pg_ok (db_comments_update (update_where p f) db) = pg_ok db"
  by (simp add: pg_ok_def users.keyed_def topics.keyed_def comments.keyed_def del_info.keyed_def map_update_where)

lemma pg_ok_users:
  assumes "\<And>r. pu_id (f r) = pu_id r"
    and "\<And>r. r \<in> set (db_users db) \<Longrightarrow> p r \<Longrightarrow> in_i32_opt (pu_score r) \<Longrightarrow> in_i32_opt (pu_score (f r))"
  shows "pg_ok db \<Longrightarrow> pg_ok (db_users_update (update_where p f) db)"
proof -
  assume ok: "pg_ok db"
  then have "list_all (\<lambda>r. in_i32_opt (pu_score r)) (update_where p f (db_users db))"
    using assms(2) by (auto simp: pg_ok_def list_all_iff update_where_def)
  with ok show ?thesis
    by (simp add: pg_ok_def users.keyed_def topics.keyed_def comments.keyed_def del_info.keyed_def
        map_update_where assms(1))
qed

interpretation well_formed: store_invariant pg_ok
proof unfold_locales
  fix c :: pg_comment and db db0 :: pg
  assume "pc_id c \<notin> pc_id ` set (db_comments db)" "pg_ok db"
  then show "pg_ok (db_comments_update (\<lambda>rs. rs @ [c]) db)"
    by (simp add: pg_ok_def users.keyed_def topics.keyed_def comments.keyed_def del_info.keyed_def)
next
  fix d :: pg_del_info and db :: pg
  assume "di_msgid d \<notin> di_msgid ` set (db_del_info db)" "pg_ok db"
  then show "pg_ok (db_del_info_update (\<lambda>rs. rs @ [d]) db)"
    by (simp add: pg_ok_def users.keyed_def topics.keyed_def comments.keyed_def del_info.keyed_def)
next
  fix k :: "pg_del_info \<Rightarrow> bool" and db :: pg
  assume "pg_ok db"
  then show "pg_ok (db_del_info_update (filter k) db)"
    by (simp add: pg_ok_def users.keyed_def topics.keyed_def comments.keyed_def del_info.keyed_def distinct_map_filter)
next
  fix e db x db'
  assume "pg_ok db" "insert_event e db = (Inr x, db')"
  then show "pg_ok db'" by (auto dest!: insert_event_Inr intro!: pg_ok_users)
next
  fix db v x db'
  assume "pg_ok db" "delete_events v db = (Inr x, db')"
  then show "pg_ok db'"
    by (auto simp: delete_events_def Let_def recalculate_unread_def intro!: pg_ok_users split: if_splits)
next
  fix db ids x db'
  assume "pg_ok db" "recalculate_unread ids db = (Inr x, db')"
  then show "pg_ok db'" by (auto simp: recalculate_unread_def intro!: pg_ok_users)
qed (simp_all add: pg_ok_topics pg_ok_comments pg_ok_users)

subsection \<open>Blocked addresses\<close>

interpretation blocks: store_invariant "\<lambda>db. db_b_ips db = B" for B
proof unfold_locales
  fix e db x db'
  assume "db_b_ips db = B" "insert_event e db = (Inr x, db')"
  then show "db_b_ips db' = B" by (auto dest!: insert_event_Inr)
next
  fix db v x db'
  assume "db_b_ips db = B" "delete_events v db = (Inr x, db')"
  then show "db_b_ips db' = B" by (auto simp: delete_events_def Let_def recalculate_unread_def split: if_splits)
next
  fix db ids x db'
  assume "db_b_ips db = B" "recalculate_unread ids db = (Inr x, db')"
  then show "db_b_ips db' = B" by (auto simp: recalculate_unread_def)
qed simp_all

subsection \<open>Threads\<close>

text \<open>A comment answers an earlier one of the same topic, and the sequence is ahead of all.\<close>

definition threads_ok :: "pg \<Rightarrow> bool" where
  "threads_ok db \<longleftrightarrow> (\<forall>c\<in>set (db_comments db). pc_id c < db_msg_seq db \<and> well_answered db c \<and> (\<forall>p. pc_replyto c = Some p \<longrightarrow> p < pc_id c))"

definition comment_links :: "pg \<Rightarrow> (int \<times> int \<times> int option) list" where
  "comment_links db = map (\<lambda>c. (pc_id c, pc_topic c, pc_replyto c)) (db_comments db)"

lemma threads_ok_links: "threads_ok db \<longleftrightarrow> (\<forall>(i, t, r)\<in>set (comment_links db). i < db_msg_seq db \<and>
    (\<forall>p. r = Some p \<longrightarrow> p < i \<and> (\<exists>q. (p, t, q) \<in> set (comment_links db))))"
  unfolding threads_ok_def well_answered_def comment_links_def by (auto simp: image_iff; metis)

lemma threads_ok_same: "comment_links db' = comment_links db \<Longrightarrow> db_msg_seq db' = db_msg_seq db \<Longrightarrow> threads_ok db' = threads_ok db"
  by (simp add: threads_ok_links)

lemma threads_ok_comments:
  assumes "\<And>r. (pc_id (f r), pc_topic (f r), pc_replyto (f r)) = (pc_id r, pc_topic r, pc_replyto r)"
  shows "threads_ok (db_comments_update (update_where p f) db) = threads_ok db"
  by (rule threads_ok_same) (use assms in \<open>simp_all add: comment_links_def update_where_def\<close>)

lemma threads_ok_add:
  assumes "threads_ok db0" "pc_id c = db_msg_seq db0" "well_answered db0 c" "db_comments db = db_comments db0"
    "db_msg_seq db = db_msg_seq db0 + 1"
  shows "threads_ok (db_comments_update (\<lambda>rs. rs @ [c]) db)"
  using assms by (fastforce simp: threads_ok_def well_answered_def)

interpretation threads: store_invariant threads_ok
proof unfold_locales
  fix c :: pg_comment and db db0 :: pg
  assume "threads_ok db0" "pc_id c = db_msg_seq db0" "well_answered db0 c" "db_comments db = db_comments db0" "db_msg_seq db = db_msg_seq db0 + 1"
  then show "threads_ok (db_comments_update (\<lambda>rs. rs @ [c]) db)" by (rule threads_ok_add)
next
  fix e db x db'
  assume "threads_ok db" "insert_event e db = (Inr x, db')"
  from insert_event_Inr [OF this(2)] show "threads_ok db'"
    by (subst threads_ok_same [of db' db]) (use \<open>threads_ok db\<close> in \<open>simp_all add: comment_links_def\<close>)
next
  fix db v x db'
  assume "threads_ok db" "delete_events v db = (Inr x, db')"
  then show "threads_ok db'"
    by (auto simp: delete_events_def Let_def recalculate_unread_def threads_ok_def well_answered_def split: if_splits)
next
  fix db ids x db'
  assume "threads_ok db" "recalculate_unread ids db = (Inr x, db')"
  then show "threads_ok db'" by (auto simp: recalculate_unread_def threads_ok_def well_answered_def)
next
  fix db :: pg
  assume "threads_ok db"
  then show "threads_ok (db_msg_seq_update (\<lambda>n. n + 1) db)" by (auto simp: threads_ok_def well_answered_def)
qed (simp_all add: threads_ok_comments, simp_all add: threads_ok_def well_answered_def)

end
