(* ===== verification/Bytes.thy ===== *)
theory Bytes
  imports Prelude "HOL-Library.Word"
begin

unbundle bit_operations_syntax

section \<open>Bytes, UTF-8 and hexadecimal digests\<close>

text \<open>
  Rust strings are UTF-8; the security code hashes, compares and truncates their bytes.
  \<open>utf8\<close> is \<open>str::as_bytes\<close>, \<open>from_utf8\<close> is \<open>String::from_utf8\<close> (which refuses overlong
  forms, surrogates and values past \<open>10FFFF\<close>), \<open>hex\<close> the rendering of a digest with \<open>{b:02x}\<close>.
\<close>

type_synonym byte = "8 word"

definition is_scalar :: "rchar \<Rightarrow> bool" where
  "is_scalar c \<longleftrightarrow> c < 1114112 \<and> \<not> (55296 \<le> c \<and> c \<le> 57343)"

abbreviation is_str :: "rstr \<Rightarrow> bool" where
  "is_str s \<equiv> \<forall>c\<in>set s. is_scalar c"

definition utf8_char :: "rchar \<Rightarrow> byte list" where
  "utf8_char c =
     (if c < 128 then [of_nat c]
      else if c < 2048 then [of_nat (192 + c div 64), of_nat (128 + c mod 64)]
      else if c < 65536 then [of_nat (224 + c div 4096), of_nat (128 + c div 64 mod 64), of_nat (128 + c mod 64)]
      else [of_nat (240 + c div 262144), of_nat (128 + c div 4096 mod 64), of_nat (128 + c div 64 mod 64),
            of_nat (128 + c mod 64)])"

definition utf8 :: "rstr \<Rightarrow> byte list" where
  "utf8 s = concat (map utf8_char s)"

lemma utf8_simps [simp]:
  "utf8 [] = []" "utf8 (c # s) = utf8_char c @ utf8 s" "utf8 (s @ t) = utf8 s @ utf8 t"
  by (simp_all add: utf8_def)

lemma length_utf8_char: "length (utf8_char c) = utf8_width c"
  by (simp add: utf8_char_def utf8_width_def)

lemma length_utf8: "length (utf8 s) = utf8_len s"
  by (induction s) (simp_all add: length_utf8_char)

text \<open>The length a lead byte announces, and the value of such a sequence.\<close>

definition utf8_lead :: "byte \<Rightarrow> nat" where
  "utf8_lead b = (let n = unat b in
     if n < 128 then 1 else if n < 192 then 0 else if n < 224 then 2 else if n < 240 then 3 else if n < 248 then 4 else 0)"

fun utf8_value :: "byte list \<Rightarrow> rchar" where
  "utf8_value [a] = unat a"
| "utf8_value [a, b] = (unat a - 192) * 64 + (unat b - 128)"
| "utf8_value [a, b, c] = (unat a - 224) * 4096 + (unat b - 128) * 64 + (unat c - 128)"
| "utf8_value [a, b, c, d] = (unat a - 240) * 262144 + (unat b - 128) * 4096 + (unat c - 128) * 64 + (unat d - 128)"
| "utf8_value _ = 0"

text \<open>Comparing with the encoding of the value refuses overlong forms and stray bytes.\<close>

function from_utf8 :: "byte list \<Rightarrow> rstr option" where
  "from_utf8 bs =
     (case bs of [] \<Rightarrow> Some []
      | b # _ \<Rightarrow>
          (let k = utf8_lead b; c = utf8_value (take k bs) in
           if k = 0 \<or> \<not> is_scalar c \<or> utf8_char c \<noteq> take k bs then None
           else map_option (Cons c) (from_utf8 (drop k bs))))"
  by pat_completeness auto
termination
  by (relation "measure length") auto

declare from_utf8.simps [simp del]

lemma unat_byte: "n < 256 \<Longrightarrow> unat (of_nat n :: byte) = n"
  by (simp add: unat_of_nat take_bit_eq_mod)

lemma unat_cont: "unat (of_nat (128 + n mod 64) :: byte) = 128 + n mod 64"
  by (rule unat_byte) (simp add: less_le_trans [OF mod_less_divisor])

lemma scalar_bounds:
  "is_scalar c \<Longrightarrow> c < 1114112"
  by (simp add: is_scalar_def)

lemma div_mod_64: "(c::nat) div 64 * 64 + c mod 64 = c"
  by simp

lemma split_64:
  fixes c :: nat
  shows "c div 4096 * 4096 + c div 64 mod 64 * 64 + c mod 64 = c"
    and "c div 262144 * 262144 + c div 4096 mod 64 * 4096 + c div 64 mod 64 * 64 + c mod 64 = c"
proof -
  have a: "c div 4096 = c div 64 div 64" "c div 262144 = c div 64 div 64 div 64"
    by (simp_all add: div_mult2_eq [symmetric])
  have "c div 64 div 64 * 64 + c div 64 mod 64 = c div 64" "c div 64 * 64 + c mod 64 = c" by simp_all
  then show one: "c div 4096 * 4096 + c div 64 mod 64 * 64 + c mod 64 = c" unfolding a by linarith
  have "c div 64 div 64 div 64 * 64 + c div 64 div 64 mod 64 = c div 64 div 64" by simp
  with one show "c div 262144 * 262144 + c div 4096 mod 64 * 4096 + c div 64 mod 64 * 64 + c mod 64 = c"
    unfolding a by linarith
qed

lemma div_bounds:
  fixes c :: nat
  assumes "c < 1114112"
  shows "c mod 64 < 64" "c div 64 mod 64 < 64" "c div 4096 mod 64 < 64" "c < 2048 \<Longrightarrow> c div 64 < 32"
    "c < 65536 \<Longrightarrow> c div 4096 < 16" "c div 262144 < 5"
  using assms by (simp_all add: less_mult_imp_div_less)

lemma utf8_lead_char:
  assumes "is_scalar c"
  shows "utf8_lead (hd (utf8_char c)) = length (utf8_char c)"
proof -
  have c: "c < 1114112" using assms by (rule scalar_bounds)
  show ?thesis
    using div_bounds [OF c]
    by (auto simp: utf8_char_def utf8_lead_def unat_byte Let_def simp del: of_nat_add)
qed

lemma utf8_value_char:
  assumes "is_scalar c"
  shows "utf8_value (utf8_char c) = c"
proof -
  have c: "c < 1114112" using assms by (rule scalar_bounds)
  show ?thesis
    using div_bounds [OF c] split_64 [of c] div_mod_64 [of c]
    by (auto simp: utf8_char_def unat_byte unat_cont simp del: of_nat_add)
qed

lemma utf8_char_nonempty [simp]: "utf8_char c \<noteq> []"
  by (simp add: utf8_char_def)

lemma from_utf8_utf8: "is_str s \<Longrightarrow> from_utf8 (utf8 s) = Some s"
proof (induction s)
  case Nil
  show ?case by (subst from_utf8.simps) simp
next
  case (Cons c s)
  then have c: "is_scalar c" by simp
  obtain b bs where b: "utf8_char c = b # bs" by (cases "utf8_char c") auto
  have "utf8_lead b = length (utf8_char c)" using utf8_lead_char [OF c] b by simp
  then have step: "take (utf8_lead b) (utf8 (c # s)) = utf8_char c" "drop (utf8_lead b) (utf8 (c # s)) = utf8 s"
    "utf8_lead b \<noteq> 0" by (simp_all add: b)
  have "utf8 (c # s) = b # bs @ utf8 s" by (simp add: b)
  then have "from_utf8 (utf8 (c # s)) = map_option (Cons c) (from_utf8 (utf8 s))"
    using step c by (subst from_utf8.simps) (simp add: utf8_value_char Let_def del: utf8_simps)
  with Cons show ?case by simp
qed

lemma from_utf8_Some: "from_utf8 bs = Some s \<Longrightarrow> utf8 s = bs \<and> is_str s"
proof (induction bs arbitrary: s rule: from_utf8.induct)
  case (1 bs)
  show ?case
  proof (cases bs)
    case Nil
    with 1(2) show ?thesis by (subst (asm) from_utf8.simps) simp
  next
    case (Cons b t)
    let ?k = "utf8_lead b" let ?c = "utf8_value (take ?k bs)"
    from 1(2) Cons obtain s' where ok: "?k \<noteq> 0" "is_scalar ?c" "utf8_char ?c = take ?k bs"
      and s': "from_utf8 (drop ?k bs) = Some s'" "s = ?c # s'"
      by (subst (asm) from_utf8.simps) (auto simp: Let_def split: if_splits)
    have "utf8 s' = drop ?k bs \<and> is_str s'" by (rule 1(1) [OF Cons refl refl]) (use ok s' in auto)
    then have "utf8 s = take ?k bs @ drop ?k bs \<and> is_str s" using ok s'(2) by auto
    then show ?thesis by simp
  qed
qed

lemma utf8_inj: "is_str s \<Longrightarrow> is_str t \<Longrightarrow> utf8 s = utf8 t \<Longrightarrow> s = t"
  by (metis from_utf8_utf8 option.inject)

text \<open>ASCII texts are their own bytes.\<close>

lemma utf8_ascii: "\<forall>c\<in>set s. c < 128 \<Longrightarrow> utf8 s = map of_nat s"
  by (induction s) (simp_all add: utf8_char_def)

subsection \<open>Hexadecimal rendering\<close>

definition hex_digit :: "nat \<Rightarrow> rchar" where
  "hex_digit n = (if n < 10 then 48 + n else 87 + n)"

definition hex :: "byte list \<Rightarrow> rstr" where
  "hex bs = concat (map (\<lambda>b. [hex_digit (unat b div 16), hex_digit (unat b mod 16)]) bs)"

lemma hex_simps [simp]:
  "hex [] = []" "hex (b # bs) = hex_digit (unat b div 16) # hex_digit (unat b mod 16) # hex bs"
  by (simp_all add: hex_def)

lemma hex_digit_inj: "m < 16 \<Longrightarrow> n < 16 \<Longrightarrow> hex_digit m = hex_digit n \<Longrightarrow> m = n"
  by (auto simp: hex_digit_def split: if_splits)

lemma unat_byte_less: "unat (b :: byte) < 256"
  using unsigned_less [of b] by simp

lemma unat_eq_eq: "unat (a :: byte) = unat b \<Longrightarrow> a = b"
  by (rule word_unat_eq_iff [THEN iffD2])

lemma hex_inj: "hex as = hex bs \<Longrightarrow> as = bs"
proof (induction as arbitrary: bs)
  case Nil
  then show ?case by (cases bs) auto
next
  case (Cons a as)
  then obtain b bs' where bs: "bs = b # bs'" by (cases bs) auto
  have lt: "unat a div 16 < 16" "unat b div 16 < 16" "unat a mod 16 < 16" "unat b mod 16 < 16"
    using unat_byte_less [of a] unat_byte_less [of b] by (simp_all add: less_mult_imp_div_less)
  from Cons.prems bs have "unat a div 16 = unat b div 16" "unat a mod 16 = unat b mod 16"
    using hex_digit_inj lt by auto
  then have "unat a = unat b" by (metis div_mult_mod_eq)
  then have "a = b" by (rule unat_eq_eq)
  with Cons bs show ?case by simp
qed

lemma hex_digit_alnum: "n < 16 \<Longrightarrow> is_ascii_alphanumeric (hex_digit n)"
  by (auto simp: hex_digit_def is_ascii_alphanumeric_def is_ascii_digit_def)

lemma hex_chars: "c \<in> set (hex bs) \<Longrightarrow> is_ascii_alphanumeric c"
proof (induction bs)
  case (Cons b bs)
  have "unat b div 16 < 16" using unat_byte_less [of b] by (simp add: less_mult_imp_div_less)
  with Cons show ?case by (auto intro: hex_digit_alnum)
qed simp

lemma alnum_ascii: "is_ascii_alphanumeric c \<Longrightarrow> c < 128"
  by (auto simp: is_ascii_alphanumeric_def is_ascii_digit_def)

lemma alnum_scalar: "is_ascii_alphanumeric c \<Longrightarrow> is_scalar c"
  by (auto simp: is_ascii_alphanumeric_def is_ascii_digit_def is_scalar_def)

lemma is_str_show_int: "is_str (show_int x)"
  by (auto simp: is_ascii_digit_def is_scalar_def dest!: show_int_chars)

end
