(* ===== verification/Security.thy ===== *)
theory Security
  imports Bytes
begin

section \<open>Security primitives (src/security.rs)\<close>

text \<open>
  The functions of \<open>src/security.rs\<close>: paths outside the session layer, the password encoder,
  constant-time comparison, the remember-me cookie of Spring Security, the client address
  behind trusted proxies and the secret tokens of registration and password reset.

  Hash functions, ciphers, Base64, percent-encoding and address parsing are libraries and
  therefore parameters, collected in \<open>token_codec\<close>, \<open>password_codec\<close> and \<open>secret_codec\<close>.
  What the code needs of them is stated by \<open>codec_ok\<close> and \<open>sealing_ok\<close>.
\<close>

subsection \<open>Paths without a session\<close>

definition bSpringSecurityIgnoredPath :: "rstr \<Rightarrow> bool" where
  "bSpringSecurityIgnoredPath sPath \<longleftrightarrow>
     list_ex (\<lambda>p. starts_with p sPath)
       [(u ''/css/''), (u ''/img/''), (u ''/js/''), (u ''/tango/''), (u ''/tango-auto/''), (u ''/tango-light/''), (u ''/waltz/''), (u ''/white/''),
        (u ''/zomg_ponies/''), (u ''/white2/''), (u ''/black/''), (u ''/adv/''), (u ''/fontello/''), (u ''/font/'')]
     \<or> (case sPath of [] \<Rightarrow> False | c # sName \<Rightarrow> c = 47 \<and> 47 \<notin> set sName)
        \<and> (ends_with (u ''.css'') sPath \<or> ends_with (u ''.ico'') sPath)"

subsection \<open>Comparison\<close>

definition constant_time_eq :: "byte list \<Rightarrow> byte list \<Rightarrow> bool" where
  "constant_time_eq expected supplied =
     (if length expected \<noteq> length supplied then False
      else fold (\<lambda>(a, b) acc. acc OR (a XOR b)) (zip expected supplied) 0 = 0)"

definition verify_hash :: "rstr \<Rightarrow> rstr \<Rightarrow> bool" where
  "verify_hash expected supplied =
     (if utf8_len expected \<noteq> utf8_len supplied then False
      else fold (\<lambda>(a, b) acc. acc OR (a XOR b)) (zip (utf8 expected) (utf8 supplied)) 0 = 0)"

subsection \<open>Passwords\<close>

definition bHasJavaMinimumLength :: "rstr \<Rightarrow> nat \<Rightarrow> bool" where
  "bHasJavaMinimumLength sRaw iMinimum \<longleftrightarrow> iMinimum \<le> utf16_len sRaw"

text \<open>The loop that steps back over continuation bytes.\<close>

fun step_back :: "byte list \<Rightarrow> nat \<Rightarrow> nat" where
  "step_back bytes 0 = 0"
| "step_back bytes (Suc e) =
     (if bytes ! Suc e AND 0xC0 = 0x80 then step_back bytes e else Suc e)"

text \<open>\<open>lossy\<close> is what \<open>from_utf8_lossy\<close> makes of bytes that are not UTF-8.\<close>

definition truncate_for_bcrypt :: "(byte list \<Rightarrow> rstr) \<Rightarrow> rstr \<Rightarrow> rstr" where
  "truncate_for_bcrypt lossy raw =
     (let bytes = utf8 raw in
      if length bytes \<le> 72 then raw
      else (let cut = take (step_back bytes 72) bytes in
            case from_utf8 cut of Some s \<Rightarrow> s | None \<Rightarrow> lossy cut))"

definition is_bcrypt :: "rstr \<Rightarrow> bool" where
  "is_bcrypt encoded \<longleftrightarrow> starts_with (u ''$2a$'') encoded \<or> starts_with (u ''$2b$'') encoded \<or> starts_with (u ''$2y$'') encoded"

record password_codec =
  pc_lossy :: "byte list \<Rightarrow> rstr"
  pc_nfc :: "rstr \<Rightarrow> rstr"
  pc_md5 :: "byte list \<Rightarrow> byte list"
  pc_b64_decode :: "rstr \<Rightarrow> byte list option"
  pc_bcrypt_verify :: "rstr \<Rightarrow> rstr \<Rightarrow> bool option"
  pc_bcrypt_hash :: "rstr \<Rightarrow> rstr option"

definition verify_legacy_jasypt :: "password_codec \<Rightarrow> rstr \<Rightarrow> rstr \<Rightarrow> bool" where
  "verify_legacy_jasypt c raw encoded =
     (case pc_b64_decode c encoded of None \<Rightarrow> False
      | Some stored \<Rightarrow>
          if length stored \<noteq> 24 then False
          else (let actual = (pc_md5 c ^^ 999) (pc_md5 c (take 8 stored @ utf8 (pc_nfc c raw)))
                in constant_time_eq (drop 8 stored) actual))"

definition password_verify :: "password_codec \<Rightarrow> rstr \<Rightarrow> rstr \<Rightarrow> bool" where
  "password_verify c raw encoded =
     (if raw = [] \<or> encoded = [] then False
      else if is_bcrypt encoded
        then (case pc_bcrypt_verify c (truncate_for_bcrypt (pc_lossy c) raw) encoded of None \<Rightarrow> False | Some b \<Rightarrow> b)
        else verify_legacy_jasypt c raw encoded)"

definition password_hash :: "password_codec \<Rightarrow> rstr \<Rightarrow> rstr option" where
  "password_hash c raw = pc_bcrypt_hash c (truncate_for_bcrypt (pc_lossy c) raw)"

subsection \<open>The remember-me cookie\<close>

datatype EnAlgorithm = Md5 | Sha256

fun sJavaName :: "EnAlgorithm \<Rightarrow> rstr" where
  "sJavaName Md5 = (u ''MD5'')"
| "sJavaName Sha256 = (u ''SHA256'')"

definition optFromJavaName :: "rstr \<Rightarrow> EnAlgorithm option" where
  "optFromJavaName sName =
     (if sName = (u ''MD5'') then Some Md5 else if sName = (u ''SHA256'') then Some Sha256 else None)"

record StToken =
  tk_sUsername :: rstr
  tk_iExpiryMillis :: int
  tk_enAlgorithm :: EnAlgorithm
  tk_sSignature :: rstr

record token_codec =
  tc_md5 :: "byte list \<Rightarrow> byte list"
  tc_sha256 :: "byte list \<Rightarrow> byte list"
  tc_b64_nopad_encode :: "byte list \<Rightarrow> rstr"
  tc_b64_nopad_decode :: "rstr \<Rightarrow> byte list option"
  tc_b64_decode :: "rstr \<Rightarrow> byte list option"
  tc_url_encode :: "rstr \<Rightarrow> rstr"
  tc_url_decode :: "rstr \<Rightarrow> rstr option"

definition sJavaUrlEncode :: "token_codec \<Rightarrow> rstr \<Rightarrow> rstr" where
  "sJavaUrlEncode c sValue = replace_str (u ''%20'') (u ''+'') (tc_url_encode c sValue)"

definition optJavaUrlDecode :: "token_codec \<Rightarrow> rstr \<Rightarrow> rstr option" where
  "optJavaUrlDecode c sValue = tc_url_decode c (replace_str (u ''+'') (u '' '') sValue)"

text \<open>The signed text, then its digest.\<close>

definition signed_text :: "int \<Rightarrow> rstr \<Rightarrow> rstr \<Rightarrow> rstr \<Rightarrow> int \<Rightarrow> rstr" where
  "signed_text iExpiryMillis sUsername sPasswordHash sSecret iTokenGeneration =
     sUsername @ (u '':'') @ show_int iExpiryMillis @ (u '':'') @ sPasswordHash @ (u '':'') @ sSecret
       @ (if iTokenGeneration > 0 then (u '':'') @ show_int iTokenGeneration else [])"

definition sMakeSignature :: "token_codec \<Rightarrow> int \<Rightarrow> rstr \<Rightarrow> rstr \<Rightarrow> rstr \<Rightarrow> int \<Rightarrow> EnAlgorithm \<Rightarrow> rstr" where
  "sMakeSignature c iExpiryMillis sUsername sPasswordHash sSecret iTokenGeneration enAlgorithm =
     (let sData = utf8 (signed_text iExpiryMillis sUsername sPasswordHash sSecret iTokenGeneration)
      in hex (case enAlgorithm of Md5 \<Rightarrow> tc_md5 c sData | Sha256 \<Rightarrow> tc_sha256 c sData))"

definition remember_sEncode :: "token_codec \<Rightarrow> rstr \<Rightarrow> int \<Rightarrow> rstr \<Rightarrow> rstr \<Rightarrow> int \<Rightarrow> rstr" where
  "remember_sEncode c sUsername iExpiryMillis sPasswordHash sSecret iTokenGeneration =
     (let sSignature = sMakeSignature c iExpiryMillis sUsername sPasswordHash sSecret iTokenGeneration Sha256;
          sPlain = join_with (u '':'') (map (sJavaUrlEncode c)
            [sUsername, show_int iExpiryMillis, sJavaName Sha256, sSignature])
      in tc_b64_nopad_encode c (utf8 sPlain))"

text \<open>\<open>collect::<Option<Vec<_>>>\<close>.\<close>

fun collect_some :: "'a option list \<Rightarrow> 'a list option" where
  "collect_some [] = Some []"
| "collect_some (x # xs) = (case x of None \<Rightarrow> None | Some a \<Rightarrow> map_option (Cons a) (collect_some xs))"

definition token_of_parts :: "rstr list \<Rightarrow> StToken option" where
  "token_of_parts vecParts =
     (let mk = (\<lambda>u1 e1 alg sg. map_option
        (\<lambda>i. \<lparr>tk_sUsername = u1, tk_iExpiryMillis = i, tk_enAlgorithm = alg, tk_sSignature = sg\<rparr>) (parse_i64 e1))
      in case vecParts of
           [u1, e1, sg] \<Rightarrow> mk u1 e1 Md5 sg
         | [u1, e1, alg, sg] \<Rightarrow> Option.bind (optFromJavaName alg) (\<lambda>a. mk u1 e1 a sg)
         | _ \<Rightarrow> None)"

definition remember_optDecode :: "token_codec \<Rightarrow> rstr \<Rightarrow> StToken option" where
  "remember_optDecode c sCookie =
     Option.bind (or_else (tc_b64_nopad_decode c sCookie) (tc_b64_decode c sCookie)) (\<lambda>vecRaw.
     Option.bind (from_utf8 vecRaw) (\<lambda>sPlain.
     Option.bind (collect_some (map (optJavaUrlDecode c) (split_on 58 sPlain))) token_of_parts))"

definition remember_bVerify :: "token_codec \<Rightarrow> StToken \<Rightarrow> rstr \<Rightarrow> rstr \<Rightarrow> int \<Rightarrow> int \<Rightarrow> bool" where
  "remember_bVerify c stToken sPasswordHash sSecret iTokenGeneration iNowMillis =
     (if tk_iExpiryMillis stToken < iNowMillis then False
      else constant_time_eq
        (utf8 (sMakeSignature c (tk_iExpiryMillis stToken) (tk_sUsername stToken) sPasswordHash sSecret
           iTokenGeneration (tk_enAlgorithm stToken)))
        (utf8 (tk_sSignature stToken)))"

subsection \<open>The client behind the proxies\<close>

text \<open>
  A trusted network is its membership test, \<open>parse\<close> is \<open>str::parse::<IpAddr>\<close>; the forwarded
  value is the first \<open>x-forwarded-for\<close> header when it is visible ASCII.
\<close>

definition bTrustedProxy :: "'ip \<Rightarrow> ('ip \<Rightarrow> bool) list \<Rightarrow> bool" where
  "bTrustedProxy stIp vecTrusted \<longleftrightarrow> list_ex (\<lambda>n. n stIp) vecTrusted"

fun client_walk :: "(rstr \<Rightarrow> 'ip option) \<Rightarrow> ('ip \<Rightarrow> bool) list \<Rightarrow> 'ip \<Rightarrow> rstr list \<Rightarrow> 'ip" where
  "client_walk parse vecTrusted stCurrent [] = stCurrent"
| "client_walk parse vecTrusted stCurrent (sCandidate # rest) =
     (if \<not> bTrustedProxy stCurrent vecTrusted then stCurrent
      else (case parse sCandidate of None \<Rightarrow> stCurrent
            | Some stCandidate \<Rightarrow> client_walk parse vecTrusted stCandidate rest))"

definition stClientIp :: "(rstr \<Rightarrow> 'ip option) \<Rightarrow> 'ip \<Rightarrow> rstr option \<Rightarrow> ('ip \<Rightarrow> bool) list \<Rightarrow> 'ip" where
  "stClientIp parse stPeerIp optForwarded vecTrusted =
     (if \<not> bTrustedProxy stPeerIp vecTrusted then stPeerIp
      else (case optForwarded of None \<Rightarrow> stPeerIp
            | Some sForwarded \<Rightarrow> client_walk parse vecTrusted stPeerIp (map trim (rev (split_on 44 sForwarded)))))"

definition is_secure_request :: "rstr option \<Rightarrow> 'ip option \<Rightarrow> ('ip \<Rightarrow> bool) list \<Rightarrow> bool" where
  "is_secure_request optForwardedProto optPeerIp vecTrusted \<longleftrightarrow>
     (case optPeerIp of None \<Rightarrow> False | Some stPeerIp \<Rightarrow> bTrustedProxy stPeerIp vecTrusted)
     \<and> (case optForwardedProto of None \<Rightarrow> False | Some v \<Rightarrow> eq_ignore_ascii_case v (u ''https''))"

subsection \<open>Secret tokens\<close>

record secret_codec =
  sc_hmac :: "byte list \<Rightarrow> byte list \<Rightarrow> byte list"
  sc_derive_key :: "byte list \<Rightarrow> byte list \<Rightarrow> byte list"
  sc_seal :: "byte list \<Rightarrow> byte list \<Rightarrow> byte list \<Rightarrow> byte list"
  sc_open :: "byte list \<Rightarrow> byte list \<Rightarrow> byte list \<Rightarrow> byte list option"
  sc_b64_encode :: "byte list \<Rightarrow> rstr"
  sc_b64_decode :: "rstr \<Rightarrow> byte list option"

definition hmac_sha256_hex :: "secret_codec \<Rightarrow> rstr \<Rightarrow> rstr \<Rightarrow> rstr" where
  "hmac_sha256_hex c secret payload = hex (sc_hmac c (utf8 secret) (utf8 payload))"

text \<open>The random salt and initialisation vector are arguments; \<open>None\<close> is a failing random source.\<close>

definition encrypt_java_secret ::
    "secret_codec \<Rightarrow> byte list option \<Rightarrow> byte list option \<Rightarrow> rstr \<Rightarrow> rstr \<Rightarrow> rstr + rstr" where
  "encrypt_java_secret c optSalt optIv secret plaintext =
     (case optSalt of None \<Rightarrow> Inl (u ''system random source error'') | Some salt \<Rightarrow>
     (case optIv of None \<Rightarrow> Inl (u ''system random source error'') | Some iv \<Rightarrow>
       (let ciphertext = sc_seal c (sc_derive_key c (utf8 secret) salt) iv (utf8 plaintext)
        in Inr (sc_b64_encode c (salt @ iv @ ciphertext)))))"

definition decrypt_java_secret :: "secret_codec \<Rightarrow> rstr \<Rightarrow> rstr \<Rightarrow> rstr option" where
  "decrypt_java_secret c secret encoded =
     Option.bind (sc_b64_decode c encoded) (\<lambda>data.
     if length data < 16 + 12 + 16 then None
     else (let salt = take 16 data; iv = take 12 (drop 16 data); ciphertext = drop 28 data in
           Option.bind (sc_open c (sc_derive_key c (utf8 secret) salt) iv ciphertext) from_utf8))"

definition strip_prefix :: "rstr \<Rightarrow> rstr \<Rightarrow> rstr option" where
  "strip_prefix p s = (if starts_with p s then Some (drop (length p) s) else None)"

definition sec_make_register_permit ::
    "secret_codec \<Rightarrow> byte list option \<Rightarrow> byte list option \<Rightarrow> rstr \<Rightarrow> int \<Rightarrow> rstr + rstr" where
  "sec_make_register_permit c optSalt optIv secret now_millis =
     (let expiry = wrap_i64 (now_millis + 3600000)
      in encrypt_java_secret c optSalt optIv secret ((u ''permit:'') @ show_int expiry))"

definition sec_check_register_permit :: "secret_codec \<Rightarrow> rstr \<Rightarrow> rstr \<Rightarrow> int \<Rightarrow> bool" where
  "sec_check_register_permit c secret permit now_millis =
     (case decrypt_java_secret c secret permit of None \<Rightarrow> False
      | Some plaintext \<Rightarrow>
          (case Option.bind (strip_prefix (u ''permit:'') plaintext) parse_i64 of None \<Rightarrow> False
           | Some expiry \<Rightarrow> now_millis < expiry))"

definition activation_code :: "secret_codec \<Rightarrow> rstr \<Rightarrow> rstr \<Rightarrow> rstr \<Rightarrow> int \<Rightarrow> rstr" where
  "activation_code c secret nick email regdate_millis =
     hmac_sha256_hex c secret (nick @ (u '':'') @ email @ (u '':'') @ show_int regdate_millis @ (u '':activate''))"

definition verify_activation_code :: "secret_codec \<Rightarrow> rstr \<Rightarrow> rstr \<Rightarrow> rstr \<Rightarrow> int \<Rightarrow> rstr \<Rightarrow> bool" where
  "verify_activation_code c secret nick email regdate_millis code =
     verify_hash (activation_code c secret nick email regdate_millis) code"

definition reset_code :: "secret_codec \<Rightarrow> rstr \<Rightarrow> rstr \<Rightarrow> rstr \<Rightarrow> int \<Rightarrow> rstr" where
  "reset_code c secret nick email reset_millis =
     hmac_sha256_hex c secret (nick @ (u '':'') @ email @ (u '':'') @ show_int reset_millis @ (u '':reset''))"

definition verify_reset_code :: "secret_codec \<Rightarrow> rstr \<Rightarrow> rstr \<Rightarrow> rstr \<Rightarrow> int \<Rightarrow> rstr \<Rightarrow> bool" where
  "verify_reset_code c secret nick email reset_millis code =
     verify_hash (reset_code c secret nick email reset_millis) code"

subsection \<open>What the libraries promise\<close>

text \<open>
  Percent-encoding (RFC 3986, upper-case digits, everything but unreserved characters
  escaped) and its decoding of well-formed texts; a Base64 decoder inverts its encoder.
\<close>

definition unreserved :: "rchar \<Rightarrow> bool" where
  "unreserved c \<longleftrightarrow> is_ascii_alphanumeric c \<or> c \<in> {45, 46, 95, 126}"

definition upper_hex :: "nat \<Rightarrow> rchar" where
  "upper_hex n = (if n < 10 then 48 + n else 55 + n)"

definition pct_byte :: "byte \<Rightarrow> rstr" where
  "pct_byte b = (if unreserved (unat b) then [unat b] else [37, upper_hex (unat b div 16), upper_hex (unat b mod 16)])"

definition pct_encode :: "rstr \<Rightarrow> rstr" where
  "pct_encode s = concat (map pct_byte (utf8 s))"

definition hex_value :: "rchar \<Rightarrow> nat option" where
  "hex_value c = (if 48 \<le> c \<and> c \<le> 57 then Some (c - 48) else if 65 \<le> c \<and> c \<le> 70 then Some (c - 55)
     else if 97 \<le> c \<and> c \<le> 102 then Some (c - 87) else None)"

fun pct_decode :: "rstr \<Rightarrow> byte list option" where
  "pct_decode [] = Some []"
| "pct_decode (c # t) =
     (if c \<noteq> 37 then map_option (append (utf8_char c)) (pct_decode t)
      else (case t of a # b # r \<Rightarrow>
          (case (hex_value a, hex_value b) of
             (Some m, Some n) \<Rightarrow> map_option (Cons (of_nat (16 * m + n))) (pct_decode r)
           | _ \<Rightarrow> None)
        | _ \<Rightarrow> None))"

definition codec_ok :: "token_codec \<Rightarrow> bool" where
  "codec_ok c \<longleftrightarrow> (\<forall>s. is_str s \<longrightarrow> tc_url_encode c s = pct_encode s)
     \<and> (\<forall>t bs. pct_decode t = Some bs \<longrightarrow> tc_url_decode c t = from_utf8 bs)
     \<and> (\<forall>t s. tc_url_decode c t = Some s \<longrightarrow> is_str s)
     \<and> (\<forall>bs. tc_b64_nopad_decode c (tc_b64_nopad_encode c bs) = Some bs)"

definition sealing_ok :: "secret_codec \<Rightarrow> bool" where
  "sealing_ok c \<longleftrightarrow> (\<forall>k n m. sc_open c k n (sc_seal c k n m) = Some m \<and> length (sc_seal c k n m) = length m + 16)
     \<and> (\<forall>bs. sc_b64_decode c (sc_b64_encode c bs) = Some bs)"

subsection \<open>Comparison is equality\<close>

lemma or_xor_zero: "x OR (a XOR b) = (0::byte) \<longleftrightarrow> x = 0 \<and> a = b"
  by (auto simp: bit_eq_iff bit_simps)

lemma or_xor_fold:
  "length as = length bs \<Longrightarrow>
    fold (\<lambda>(a, b) acc. acc OR (a XOR b)) (zip as bs) x = (0::byte) \<longleftrightarrow> x = 0 \<and> as = bs"
  by (induction as bs arbitrary: x rule: list_induct2) (auto simp: or_xor_zero)

lemma constant_time_eq_iff: "constant_time_eq as bs \<longleftrightarrow> as = bs"
  by (auto simp: constant_time_eq_def or_xor_fold)

lemma verify_hash_iff:
  assumes "is_str s" and "is_str t"
  shows "verify_hash s t \<longleftrightarrow> s = t"
proof -
  have "verify_hash s t \<longleftrightarrow> utf8 s = utf8 t"
    by (auto simp: verify_hash_def or_xor_fold length_utf8 [symmetric])
  with utf8_inj [OF assms] show ?thesis by blast
qed

text \<open>The two constant-time comparisons decide plain equality: of byte strings of
  any length, and of the texts whose UTF-8 bytes they fold over.\<close>

theorem constant_time_is_equality:
  assumes "is_str s" and "is_str t"
  shows "(constant_time_eq as bs \<longleftrightarrow> as = bs) \<and> (verify_hash s t \<longleftrightarrow> s = t)"
  using constant_time_eq_iff verify_hash_iff [OF assms] by blast

theorem constant_time_is_equality_witness:
  "\<not> constant_time_eq [1, 2] [1, 3] \<and> verify_hash (u ''ab'') (u ''ab'') \<and> \<not> verify_hash (u ''ab'') (u ''abc'')"
  using constant_time_is_equality [of "(u ''ab'')" "(u ''ab'')" "[1, 2]" "[1, 3]"]
    constant_time_is_equality [of "(u ''ab'')" "(u ''abc'')" "[1, 2]" "[1, 3]"]
  by (simp add: is_scalar_def)

subsection \<open>Truncation for bcrypt\<close>

definition is_cont :: "byte \<Rightarrow> bool" where
  "is_cont b \<longleftrightarrow> b AND 0xC0 = 0x80"

lemma is_cont_table: "list_all (\<lambda>n. is_cont (of_nat n) \<longleftrightarrow> 128 \<le> n \<and> n < 192) [0..<256]"
  by code_simp

lemma is_cont_of_nat: "n < 256 \<Longrightarrow> is_cont (of_nat n) \<longleftrightarrow> 128 \<le> n \<and> n < 192"
  using is_cont_table by (simp add: list_all_iff)

lemma cont_bytes:
  assumes "is_scalar c" and "i < length (utf8_char c)"
  shows "is_cont (utf8_char c ! i) \<longleftrightarrow> i \<noteq> 0"
proof -
  have c: "c < 1114112" using assms(1) by (rule scalar_bounds)
  have cont: "is_cont (of_nat (128 + n mod 64))" for n
    by (subst is_cont_of_nat) (simp_all add: less_le_trans [OF mod_less_divisor])
  have "i = 0 \<or> i = 1 \<or> i = 2 \<or> i = 3"
    using assms(2) by (auto simp: utf8_char_def split: if_splits)
  then show ?thesis
    using div_bounds [OF c] assms(2) cont
    by (elim disjE) (auto simp: utf8_char_def is_cont_of_nat simp del: of_nat_add)
qed

lemma step_back_stops:
  assumes "k \<le> e" and "\<forall>i. k < i \<and> i \<le> e \<longrightarrow> is_cont (bytes ! i)" and "k = 0 \<or> \<not> is_cont (bytes ! k)"
  shows "step_back bytes e = k"
  using assms by (induction e) (auto simp: le_Suc_eq is_cont_def)

lemma cut_point:
  "N < utf8_len s \<Longrightarrow> \<exists>a c r. s = a @ c # r \<and> utf8_len a \<le> N \<and> N < utf8_len a + utf8_width c"
proof (induction s arbitrary: N)
  case (Cons x s)
  show ?case
  proof (cases "N < utf8_width x")
    case True
    then show ?thesis by (metis append_Nil utf8_len_simps(1) add_0 le0)
  next
    case False
    with Cons.prems have "N - utf8_width x < utf8_len s" by simp
    then obtain a c r where "s = a @ c # r" "utf8_len a \<le> N - utf8_width x" "N - utf8_width x < utf8_len a + utf8_width c"
      using Cons.IH by blast
    then have "x # s = (x # a) @ c # r \<and> utf8_len (x # a) \<le> N \<and> N < utf8_len (x # a) + utf8_width c"
      using False by (simp, linarith)
    then show ?thesis by blast
  qed
qed simp

lemma step_back_boundary:
  assumes "is_str (a @ c # r)" and "utf8_len a \<le> N" and "N < utf8_len a + utf8_width c"
  shows "step_back (utf8 (a @ c # r)) N = utf8_len a"
proof (rule step_back_stops)
  have at: "utf8 (a @ c # r) ! (utf8_len a + j) = utf8_char c ! j" if "j < utf8_width c" for j
    using that by (simp add: nth_append length_utf8 length_utf8_char)
  have c: "is_scalar c" using assms(1) by simp
  show "\<forall>i. utf8_len a < i \<and> i \<le> N \<longrightarrow> is_cont (utf8 (a @ c # r) ! i)"
  proof (intro allI impI)
    fix i assume i: "utf8_len a < i \<and> i \<le> N"
    then have j: "i - utf8_len a < utf8_width c" "i - utf8_len a \<noteq> 0" using assms(3) by auto
    then have "is_cont (utf8_char c ! (i - utf8_len a))" using cont_bytes [OF c] by (simp add: length_utf8_char)
    with at [OF j(1)] i show "is_cont (utf8 (a @ c # r) ! i)" by simp
  qed
  have "0 < utf8_width c" by (simp add: utf8_width_def)
  then have "\<not> is_cont (utf8_char c ! 0)" using cont_bytes [OF c, of 0] by (simp add: length_utf8_char)
  then show "utf8_len a = 0 \<or> \<not> is_cont (utf8 (a @ c # r) ! utf8_len a)" using at [of 0] \<open>0 < utf8_width c\<close> by simp
qed (rule assms(2))

text \<open>C40: What bcrypt hashes is the longest prefix of whole characters of the password that
  fits 72 bytes: a password within the limit is unchanged, a longer one is cut so that its next
  character would not fit, and no character is split or replaced.\<close>

theorem bcrypt_truncation:
  assumes "is_str raw"
  shows "if utf8_len raw \<le> 72 then truncate_for_bcrypt lossy raw = raw
    else \<exists>c r. raw = truncate_for_bcrypt lossy raw @ c # r \<and> utf8_len (truncate_for_bcrypt lossy raw) \<le> 72
      \<and> 72 < utf8_len (truncate_for_bcrypt lossy raw) + utf8_width c"
proof (cases "utf8_len raw \<le> 72")
  case False
  then obtain a c r where raw: "raw = a @ c # r" and fit: "utf8_len a \<le> 72" "72 < utf8_len a + utf8_width c"
    using cut_point [of 72 raw] by auto
  have "step_back (utf8 raw) 72 = utf8_len a" unfolding raw by (rule step_back_boundary [OF _ fit]) (use assms raw in simp)
  moreover have "take (utf8_len a) (utf8 raw) = utf8 a" by (simp add: raw length_utf8)
  moreover have "from_utf8 (utf8 a) = Some a" using assms raw by (simp add: from_utf8_utf8)
  ultimately have "truncate_for_bcrypt lossy raw = a"
    using False by (simp add: truncate_for_bcrypt_def Let_def length_utf8)
  with False raw fit show ?thesis by auto
qed (simp add: truncate_for_bcrypt_def Let_def length_utf8)

theorem bcrypt_truncation_witness:
  "truncate_for_bcrypt (\<lambda>_. []) (u ''secret'') = (u ''secret'')
   \<and> utf8_len (truncate_for_bcrypt (\<lambda>_. []) (replicate 40 1103)) \<le> 72"
  using bcrypt_truncation [of "(u ''secret'')" "\<lambda>_. []"] bcrypt_truncation [of "replicate 40 1103" "\<lambda>_. []"]
  by (auto simp: is_scalar_def utf8_len_def utf8_width_def sum_list_replicate)

subsection \<open>The cookie survives the browser\<close>

lemma upper_hex_facts:
  assumes "n < 16"
  shows "hex_value (upper_hex n) = Some n" "is_ascii_alphanumeric (upper_hex n)" "upper_hex n \<noteq> 37"
    "upper_hex n = 50 \<longleftrightarrow> n = 2" "upper_hex n = 48 \<longleftrightarrow> n = 0"
  using assms by (auto simp: upper_hex_def hex_value_def is_ascii_alphanumeric_def is_ascii_digit_def)

lemma unreserved_facts: "unreserved c \<Longrightarrow> c < 128 \<and> c \<noteq> 32 \<and> c \<noteq> 37 \<and> c \<noteq> 43 \<and> c \<noteq> 58"
  by (auto simp: unreserved_def is_ascii_alphanumeric_def is_ascii_digit_def)

lemma nibbles: "unat (b :: byte) div 16 < 16" "unat b mod 16 < 16" "16 * (unat b div 16) + unat b mod 16 = unat b"
  using unat_byte_less [of b] by (simp_all add: less_mult_imp_div_less)

definition plus_byte :: "byte \<Rightarrow> rstr" where
  "plus_byte b = (if unat b = 32 then [43] else pct_byte b)"

definition space_byte :: "byte \<Rightarrow> rstr" where
  "space_byte b = (if unat b = 32 then [32] else pct_byte b)"

lemma replace_pct_byte:
  "replace_str (u ''%20'') (u ''+'') (pct_byte b @ t) = plus_byte b @ replace_str (u ''%20'') (u ''+'') t"
proof (cases "unreserved (unat b)")
  case True
  with unreserved_facts [OF True] show ?thesis by (simp add: pct_byte_def plus_byte_def)
next
  case False
  have "upper_hex (unat b div 16) = 50 \<and> upper_hex (unat b mod 16) = 48 \<longleftrightarrow> unat b = 32"
    using nibbles [of b] upper_hex_facts by auto
  then show ?thesis
    using False upper_hex_facts(3) nibbles [of b] by (simp add: pct_byte_def plus_byte_def)
qed

lemma replace_pct: "replace_str (u ''%20'') (u ''+'') (concat (map pct_byte bs)) = concat (map plus_byte bs)"
  by (induction bs) (simp_all only: replace_pct_byte list.map concat.simps replace_str_simps(1))

lemma pct_byte_chars: "x \<in> set (pct_byte b) \<Longrightarrow> (unreserved x \<or> x = 37)"
  using upper_hex_facts(2) nibbles [of b] by (auto simp: pct_byte_def unreserved_def split: if_splits)

lemma replace_plus: "replace_str (u ''+'') (u '' '') (concat (map plus_byte bs)) = concat (map space_byte bs)"
proof -
  have keep: "concat (map (\<lambda>x. if x = 43 then [32] else [x]) t) = t" if "43 \<notin> set t" for t :: rstr
    using that by (induction t) auto
  have "43 \<notin> set (pct_byte b)" for b using pct_byte_chars unreserved_facts by fastforce
  then have "concat (map (\<lambda>x. if x = 43 then [32] else [x]) (plus_byte b)) = space_byte b" for b
    by (simp add: plus_byte_def space_byte_def keep)
  then show ?thesis by (induction bs) (simp_all add: replace_char_flat)
qed

lemma pct_decode_byte: "pct_decode (space_byte b @ t) = map_option (Cons b) (pct_decode t)"
proof -
  have low: "utf8_char n = [of_nat n]" if "n < 128" for n using that by (simp add: utf8_char_def)
  consider "unat b = 32" | "unat b \<noteq> 32" "unreserved (unat b)" | "unat b \<noteq> 32" "\<not> unreserved (unat b)" by blast
  then show ?thesis
  proof cases
    case 1
    then have "b = 32" by (intro unat_eq_eq) simp
    with 1 show ?thesis by (cases "pct_decode t") (simp_all add: space_byte_def low)
  next
    case 2
    with unreserved_facts [OF 2(2)] show ?thesis
      by (cases "pct_decode t") (simp_all add: space_byte_def pct_byte_def low)
  next
    case 3
    have "of_nat (16 * (unat b div 16) + unat b mod 16) = b" unfolding nibbles(3) by simp
    with 3 show ?thesis
      by (simp add: space_byte_def pct_byte_def upper_hex_facts nibbles del: of_nat_add)
  qed
qed

lemma pct_decode_spaces: "pct_decode (concat (map space_byte bs)) = Some bs"
  by (induction bs) (simp_all add: pct_decode_byte)

lemma java_url_roundtrip:
  assumes "codec_ok c" and "is_str s"
  shows "optJavaUrlDecode c (sJavaUrlEncode c s) = Some s"
proof -
  have "sJavaUrlEncode c s = concat (map plus_byte (utf8 s))"
    using assms by (simp add: sJavaUrlEncode_def codec_ok_def pct_encode_def replace_pct del: u_simps)
  then have "optJavaUrlDecode c (sJavaUrlEncode c s) = tc_url_decode c (concat (map space_byte (utf8 s)))"
    by (simp add: optJavaUrlDecode_def replace_plus del: u_simps)
  also have "\<dots> = from_utf8 (utf8 s)" using assms(1) pct_decode_spaces by (simp add: codec_ok_def)
  finally show ?thesis using assms(2) by (simp add: from_utf8_utf8)
qed

lemma java_url_chars:
  assumes "codec_ok c" and "is_str s" and "x \<in> set (sJavaUrlEncode c s)"
  shows "unreserved x \<or> x = 37 \<or> x = 43"
proof -
  have "x \<in> set (concat (map plus_byte (utf8 s)))"
    using assms by (simp add: sJavaUrlEncode_def codec_ok_def pct_encode_def replace_pct del: u_simps)
  then show ?thesis using pct_byte_chars by (auto simp: plus_byte_def split: if_splits)
qed

definition issued :: "token_codec \<Rightarrow> rstr \<Rightarrow> int \<Rightarrow> rstr \<Rightarrow> rstr \<Rightarrow> int \<Rightarrow> StToken" where
  "issued c user expiry hash secret gen =
     \<lparr>tk_sUsername = user, tk_iExpiryMillis = expiry, tk_enAlgorithm = Sha256,
      tk_sSignature = sMakeSignature c expiry user hash secret gen Sha256\<rparr>"

lemma is_str_signature: "is_str (sMakeSignature c e us h se g a)"
  by (auto simp: sMakeSignature_def Let_def dest!: hex_chars alnum_scalar)

lemma collect_some_map: "\<forall>s\<in>set ss. f (g s) = Some s \<Longrightarrow> collect_some (map f (map g ss)) = Some ss"
  by (induction ss) auto

lemma decode_encode:
  assumes ok: "codec_ok c" and user: "is_str user" and expiry: "in_i64 expiry"
  shows "remember_optDecode c (remember_sEncode c user expiry hash secret gen) = Some (issued c user expiry hash secret gen)"
proof -
  define sg where "sg = sMakeSignature c expiry user hash secret gen Sha256"
  define parts where "parts = [user, show_int expiry, sJavaName Sha256, sg]"
  define plain where "plain = join_with (u '':'') (map (sJavaUrlEncode c) parts)"
  have strs: "is_str s" if "s \<in> set parts" for s
    using that user is_str_show_int [of expiry] is_str_signature [of c expiry user hash secret gen Sha256]
    by (auto simp: parts_def sg_def is_scalar_def)
  have chars: "unreserved x \<or> x = 37 \<or> x = 43" if "x \<in> set (sJavaUrlEncode c s)" "s \<in> set parts" for x s
    using java_url_chars [OF ok strs] that by blast
  have "is_scalar x" if "x \<in> set plain" for x
  proof -
    have "x = 58 \<or> (\<exists>s\<in>set parts. x \<in> set (sJavaUrlEncode c s))"
      using that by (auto simp: plain_def parts_def)
    then have "x < 128" using chars unreserved_facts by fastforce
    then show ?thesis by (simp add: is_scalar_def)
  qed
  then have utf: "from_utf8 (utf8 plain) = Some plain" by (intro from_utf8_utf8) blast
  have "split_on 58 (join_with [58] (map (sJavaUrlEncode c) parts)) = map (sJavaUrlEncode c) parts"
  proof (rule split_on_join)
    show "\<forall>p\<in>set (map (sJavaUrlEncode c) parts). 58 \<notin> set p"
      using chars unreserved_facts by fastforce
  qed (simp add: parts_def)
  then have split: "split_on 58 plain = map (sJavaUrlEncode c) parts" by (simp add: plain_def)
  have dec: "collect_some (map (optJavaUrlDecode c) (map (sJavaUrlEncode c) parts)) = Some parts"
    by (rule collect_some_map) (use java_url_roundtrip [OF ok strs] in blast)
  have "remember_sEncode c user expiry hash secret gen = tc_b64_nopad_encode c (utf8 plain)"
    by (simp add: remember_sEncode_def Let_def plain_def parts_def sg_def)
  moreover have "tc_b64_nopad_decode c (tc_b64_nopad_encode c (utf8 plain)) = Some (utf8 plain)"
    using ok by (simp add: codec_ok_def)
  ultimately have "remember_optDecode c (remember_sEncode c user expiry hash secret gen) = token_of_parts parts"
    using utf split dec by (simp add: remember_optDecode_def del: list.map map_map)
  also have "\<dots> = Some (issued c user expiry hash secret gen)"
    by (simp add: token_of_parts_def parts_def issued_def sg_def optFromJavaName_def parse_i64_show expiry)
  finally show ?thesis .
qed

lemma verify_issued:
  "remember_bVerify c (issued c user expiry hash secret gen) hash' secret gen' now \<longleftrightarrow>
     now \<le> expiry \<and> sMakeSignature c expiry user hash secret gen Sha256 = sMakeSignature c expiry user hash' secret gen' Sha256"
proof -
  have "utf8 (sMakeSignature c expiry user hash' secret gen' Sha256) = utf8 (sMakeSignature c expiry user hash secret gen Sha256)
      \<longleftrightarrow> sMakeSignature c expiry user hash' secret gen' Sha256 = sMakeSignature c expiry user hash secret gen Sha256"
    using utf8_inj is_str_signature by metis
  then show ?thesis by (auto simp: remember_bVerify_def issued_def constant_time_eq_iff)
qed

text \<open>C36: A remember-me cookie is read back as it was issued, for every user name and expiry,
  with spaces, colons and non-ASCII characters in the name: the decoded token carries the name, the
  expiry, SHA-256 and the signature, and it verifies against the unchanged account exactly until it
  expires.\<close>

theorem remember_me_roundtrip:
  assumes "codec_ok c" and "is_str user" and "in_i64 expiry"
  shows "\<exists>t. remember_optDecode c (remember_sEncode c user expiry hash secret gen) = Some t
    \<and> tk_sUsername t = user \<and> tk_iExpiryMillis t = expiry \<and> tk_enAlgorithm t = Sha256
    \<and> (\<forall>now. remember_bVerify c t hash secret gen now \<longleftrightarrow> now \<le> expiry)"
  using decode_encode [OF assms, of hash secret gen] verify_issued [of c user expiry hash secret gen hash gen]
  by (simp add: issued_def)

text \<open>
  A library that satisfies the promises: percent-encoding as defined above, Base64 replaced by
  the identity on byte values and digests that are the message itself.
\<close>

definition ex_codec :: token_codec where
  "ex_codec = \<lparr>tc_md5 = id, tc_sha256 = id, tc_b64_nopad_encode = map unat, tc_b64_nopad_decode = (\<lambda>s. Some (map of_nat s)),
     tc_b64_decode = (\<lambda>_. None), tc_url_encode = pct_encode,
     tc_url_decode = (\<lambda>t. case pct_decode t of Some bs \<Rightarrow> from_utf8 bs | None \<Rightarrow> None)\<rparr>"

lemma ex_codec_ok: "codec_ok ex_codec"
  using from_utf8_Some by (auto simp: codec_ok_def ex_codec_def comp_def split: option.splits)

theorem remember_me_roundtrip_witness:
  "\<exists>t. remember_optDecode ex_codec (remember_sEncode ex_codec (1103 # (u ''a b:c'')) 5000 (u ''h'') (u ''s'') 2) = Some t
     \<and> tk_sUsername t = 1103 # (u ''a b:c'') \<and> remember_bVerify ex_codec t (u ''h'') (u ''s'') 2 5000"
  using remember_me_roundtrip [OF ex_codec_ok, of "1103 # (u ''a b:c'')" 5000 "(u ''h'')" "(u ''s'')" 2]
  by (auto simp: is_scalar_def in_i64_def)

subsection \<open>The cookie is bound to the password and the session generation\<close>

lemma split_delim_eq:
  assumes "d \<notin> set a" and "d \<notin> set b"
  shows "a @ d # s = b @ d # t \<longleftrightarrow> a = b \<and> s = t"
  using assms
proof (induction a arbitrary: b)
  case Nil
  then show ?case by (cases b) auto
next
  case (Cons x a)
  then show ?case by (cases b) auto
qed

lemma signed_text_inj:
  assumes "58 \<notin> set hash" and "58 \<notin> set hash'"
  shows "signed_text e us hash secret gen = signed_text e us hash' secret gen' \<longleftrightarrow>
    hash = hash' \<and> (gen = gen' \<or> gen \<le> 0 \<and> gen' \<le> 0)"
  by (auto simp: signed_text_def split_delim_eq [OF assms] dest: inj_show_int)

definition no_collision :: "('a \<Rightarrow> 'b) \<Rightarrow> 'a \<Rightarrow> 'a \<Rightarrow> bool" where
  "no_collision h x y \<longleftrightarrow> (h x = h y \<longrightarrow> x = y)"

lemma verify_issued_iff:
  assumes "is_str user" "is_str hash" "is_str hash'" "is_str secret" and "58 \<notin> set hash" "58 \<notin> set hash'"
    and "no_collision (tc_sha256 c) (utf8 (signed_text expiry user hash secret gen)) (utf8 (signed_text expiry user hash' secret gen'))"
  shows "remember_bVerify c (issued c user expiry hash secret gen) hash' secret gen' now \<longleftrightarrow>
    now \<le> expiry \<and> hash' = hash \<and> (gen' = gen \<or> gen \<le> 0 \<and> gen' \<le> 0)"
proof -
  have str: "is_str (signed_text expiry user h secret g)" if "is_str h" for h g
    using that assms(1,4) is_str_show_int by (auto simp: signed_text_def is_scalar_def)
  have "sMakeSignature c expiry user hash secret gen Sha256 = sMakeSignature c expiry user hash' secret gen' Sha256
      \<longleftrightarrow> signed_text expiry user hash secret gen = signed_text expiry user hash' secret gen'"
    using assms(7) utf8_inj [OF str [OF assms(2)] str [OF assms(3)]] hex_inj
    by (fastforce simp: sMakeSignature_def Let_def no_collision_def)
  then show ?thesis unfolding verify_issued signed_text_inj [OF assms(5,6)] by auto
qed

text \<open>A cookie issued for one password hash and session generation is accepted for the same
  user only with that very hash and generation (generations up to zero count as one), so changing the
  password or ending all sessions revokes it, provided SHA-256 does not collide on the two signed
  texts.\<close>

theorem remember_me_bound:
  assumes "codec_ok c" and "in_i64 expiry" and "is_str user" "is_str hash" "is_str hash'" "is_str secret"
    and "58 \<notin> set hash" "58 \<notin> set hash'"
    and "no_collision (tc_sha256 c) (utf8 (signed_text expiry user hash secret gen)) (utf8 (signed_text expiry user hash' secret gen'))"
    and "remember_optDecode c (remember_sEncode c user expiry hash secret gen) = Some t"
  shows "remember_bVerify c t hash' secret gen' now \<longleftrightarrow>
    now \<le> expiry \<and> hash' = hash \<and> (gen' = gen \<or> gen \<le> 0 \<and> gen' \<le> 0)"
proof -
  have "t = issued c user expiry hash secret gen"
    using assms(10) decode_encode [OF assms(1,3,2)] by simp
  then show ?thesis using verify_issued_iff [OF assms(3-9)] by simp
qed

theorem remember_me_bound_witness:
  "\<exists>t. remember_optDecode ex_codec (remember_sEncode ex_codec (u ''alice'') 5000 (u ''h'') (u ''s'') 2) = Some t
     \<and> \<not> remember_bVerify ex_codec t (u ''h'') (u ''s'') 3 100"
proof -
  have "in_i64 5000" "is_str (u ''alice'')" "is_str (u ''h'')" "is_str (u ''s'')" "(58::rchar) \<notin> set (u ''h'')"
    by (simp_all add: in_i64_def is_scalar_def)
  moreover from decode_encode [OF ex_codec_ok this(2,1), of "(u ''h'')" "(u ''s'')" 2]
  obtain t where "remember_optDecode ex_codec (remember_sEncode ex_codec (u ''alice'') 5000 (u ''h'') (u ''s'') 2) = Some t" by blast
  moreover have "no_collision (tc_sha256 ex_codec) x y" for x y by (simp add: no_collision_def ex_codec_def)
  ultimately show ?thesis
    using remember_me_bound [OF ex_codec_ok, of 5000 "(u ''alice'')" "(u ''h'')" "(u ''h'')" "(u ''s'')" 2 3 t 100] by simp
qed

subsection \<open>The client address cannot be forged\<close>

lemma split_on_append: "split_on d (s @ d # t) = split_on d s @ split_on d t"
  by (induction s) (auto split: list.splits simp: append_eq_Cons_conv)

lemma walk_stops:
  "\<not> bTrustedProxy (client_walk parse T cur xs) T \<Longrightarrow> client_walk parse T cur (xs @ ys) = client_walk parse T cur xs"
proof (induction xs arbitrary: cur)
  case Nil
  then show ?case by (cases ys) auto
next
  case (Cons x xs)
  then show ?case by (auto split: option.splits)
qed

lemma walk_path:
  "client_walk parse T cur xs = cur \<or> bTrustedProxy cur T \<and> (\<exists>x\<in>set xs. parse x = Some (client_walk parse T cur xs))"
proof (induction xs arbitrary: cur)
  case (Cons x xs)
  show ?case
  proof (cases "parse x")
    case (Some y)
    then show ?thesis using Cons.IH [of y] by auto
  qed simp
qed simp

text \<open>The client address follows the forwarding chain from the TCP peer through trusted proxies
  only.  With an untrusted peer the header is ignored; an address other than the peer is one the
  chain names; and once the walk has met an untrusted address, whatever a client wrote further left
  in the header does not change it.\<close>

theorem client_ip_unspoofable:
  assumes "\<not> bTrustedProxy (stClientIp parse peer (Some chain) T) T"
  shows "stClientIp parse peer (Some (forged @ (u '','') @ chain)) T = stClientIp parse peer (Some chain) T
    \<and> (stClientIp parse peer (Some chain) T = peer
       \<or> bTrustedProxy peer T \<and> (\<exists>s\<in>set (split_on 44 chain). parse (trim s) = Some (stClientIp parse peer (Some chain) T)))"
proof
  show "stClientIp parse peer (Some (forged @ (u '','') @ chain)) T = stClientIp parse peer (Some chain) T"
    using assms by (auto simp: stClientIp_def split_on_append walk_stops split: if_splits)
  show "stClientIp parse peer (Some chain) T = peer
    \<or> bTrustedProxy peer T \<and> (\<exists>s\<in>set (split_on 44 chain). parse (trim s) = Some (stClientIp parse peer (Some chain) T))"
    using walk_path [of parse T peer "map trim (rev (split_on 44 chain))"] by (auto simp: stClientIp_def)
qed

theorem client_ip_unspoofable_witness:
  "stClientIp parse_i32 1 (Some ((u ''7'') @ (u '','') @ (u ''5, 2''))) [\<lambda>n. n < 3] = 5"
  using client_ip_unspoofable [of parse_i32 1 "(u ''5, 2'')" "[\<lambda>n. n < 3]" "(u ''7'')"]
  by (simp add: stClientIp_def bTrustedProxy_def trim_def trim_by_def is_whitespace_def parse_i32_def parse_signed_def
      in_i32_def is_ascii_digit_def)

subsection \<open>The registration permit\<close>

lemma strip_prefix_append: "strip_prefix p (p @ s) = Some s"
  by (simp add: strip_prefix_def starts_with_def)

lemma permit_opens:
  assumes "sealing_ok c" and "length salt = 16" and "length iv = 12" and "is_str text"
    and "encrypt_java_secret c (Some salt) (Some iv) secret text = Inr p"
  shows "decrypt_java_secret c secret p = Some text"
proof -
  let ?s = "sc_seal c (sc_derive_key c (utf8 secret) salt) iv (utf8 text)"
  have p: "p = sc_b64_encode c (salt @ iv @ ?s)"
    using assms(5) by (simp add: encrypt_java_secret_def Let_def)
  have "length ?s \<ge> 16" and "sc_open c (sc_derive_key c (utf8 secret) salt) iv ?s = Some (utf8 text)"
    using assms(1) by (simp_all add: sealing_ok_def)
  then show ?thesis
    using assms(1-4) by (simp add: decrypt_java_secret_def p sealing_ok_def from_utf8_utf8)
qed

text \<open>A registration permit opens with the secret it was sealed with and is good for exactly
  one hour: it is accepted strictly before, and refused from, the instant 3600000 ms after it was
  made; without random bytes no permit is made.\<close>

theorem register_permit_window:
  assumes "sealing_ok c" and "in_i64 (now + 3600000)"
    and "\<forall>s. optSalt = Some s \<longrightarrow> length s = 16" and "\<forall>v. optIv = Some v \<longrightarrow> length v = 12"
  shows "case sec_make_register_permit c optSalt optIv secret now of
      Inl e \<Rightarrow> optSalt = None \<or> optIv = None
    | Inr p \<Rightarrow> (\<forall>later. sec_check_register_permit c secret p later \<longleftrightarrow> later < now + 3600000)"
proof (cases "sec_make_register_permit c optSalt optIv secret now")
  case (Inl e)
  then show ?thesis by (auto simp: sec_make_register_permit_def encrypt_java_secret_def Let_def split: option.splits)
next
  case (Inr p)
  then obtain salt iv where some: "optSalt = Some salt" "optIv = Some iv"
    by (auto simp: sec_make_register_permit_def encrypt_java_secret_def Let_def split: option.splits)
  let ?text = "(u ''permit:'') @ show_int (now + 3600000)"
  have "is_str ?text" using is_str_show_int [of "now + 3600000"] by (auto simp: is_scalar_def)
  moreover have "encrypt_java_secret c (Some salt) (Some iv) secret ?text = Inr p"
    using Inr assms(2) some by (simp add: sec_make_register_permit_def Let_def)
  ultimately have "decrypt_java_secret c secret p = Some ?text"
    using assms(1,3,4) some by (intro permit_opens) auto
  then have "sec_check_register_permit c secret p later \<longleftrightarrow> later < now + 3600000" for later
    using assms(2) by (simp add: sec_check_register_permit_def strip_prefix_append parse_i64_show del: u_simps)
  then show ?thesis by (simp add: Inr)
qed

definition ex_secret_codec :: secret_codec where
  "ex_secret_codec = \<lparr>sc_hmac = append, sc_derive_key = append, sc_seal = (\<lambda>_ _ m. replicate 16 0 @ m),
     sc_open = (\<lambda>_ _ m. Some (drop 16 m)), sc_b64_encode = map unat, sc_b64_decode = (\<lambda>s. Some (map of_nat s))\<rparr>"

theorem register_permit_window_witness:
  "case sec_make_register_permit ex_secret_codec (Some (replicate 16 1)) (Some (replicate 12 2)) (u ''s'') 1000 of
      Inl e \<Rightarrow> False | Inr p \<Rightarrow> sec_check_register_permit ex_secret_codec (u ''s'') p 3600999
        \<and> \<not> sec_check_register_permit ex_secret_codec (u ''s'') p 3601000"
proof -
  have "sealing_ok ex_secret_codec" by (simp add: sealing_ok_def ex_secret_codec_def comp_def)
  then show ?thesis
    using register_permit_window [of ex_secret_codec 1000 "Some (replicate 16 1)" "Some (replicate 12 2)" "(u ''s'')"]
    by (auto simp: in_i64_def split: sum.splits)
qed

end
