(* ===== verification/Login.thy ===== *)
theory Login
  imports Posting_Store Security Topic_Options
begin

section \<open>Sessions, logins and posting identities\<close>

text \<open>
  \<open>src/application/auth/mod.rs\<close>: the cache of failed logins, the CAPTCHA check and the author of
  a post; \<open>src/auth.rs\<close>: the user of a request, the remember-me lookup and the password check;
  \<open>src/routes/auth.rs\<close>: login, logout and ending all sessions.

  The state is the users table (theory Store) and the cache.  Unicode lower-casing, the
  database function \<open>normalize_email\<close>, the CAPTCHA service and the cast to \<open>inet\<close> are
  parameters.  The random delay of the responses is not modelled.
\<close>

subsection \<open>The failed-login cache\<close>

record StLoginAttemptState =
  la_mapIp :: "rstr \<rightharpoonup> time"
  la_mapUser :: "rstr \<rightharpoonup> time"

record CLoginAttemptCache =
  lc_stState :: StLoginAttemptState
  lc_dtTtl :: time
  lc_iMaxKeys :: nat

definition CLoginAttemptCache_default :: CLoginAttemptCache where
  "CLoginAttemptCache_default = \<lparr>lc_stState = \<lparr>la_mapIp = Map.empty, la_mapUser = Map.empty\<rparr>,
     lc_dtTtl = minutes 30, lc_iMaxKeys = 1000000\<rparr>"

text \<open>\<open>oldest\<close> is the key \<open>min_by_key\<close> finds in the iteration order of the hash map.\<close>

definition vPrune :: "((rstr \<rightharpoonup> time) \<Rightarrow> rstr option) \<Rightarrow> (rstr \<rightharpoonup> time) \<Rightarrow> time \<Rightarrow> nat \<Rightarrow> (rstr \<rightharpoonup> time)" where
  "vPrune oldest mapValues dtNow iMaxKeys =
     (let m = (\<lambda>k. case mapValues k of Some dtDeadline \<Rightarrow> if dtNow < dtDeadline then Some dtDeadline else None | None \<Rightarrow> None)
      in if iMaxKeys \<le> card (dom m) then (case oldest m of Some sOldest \<Rightarrow> m(sOldest := None) | None \<Rightarrow> m) else m)"

definition bRequireForIp :: "CLoginAttemptCache \<Rightarrow> rstr \<Rightarrow> time \<Rightarrow> bool" where
  "bRequireForIp c sIp dtNow = (case la_mapIp (lc_stState c) sIp of None \<Rightarrow> False | Some dtDeadline \<Rightarrow> dtNow < dtDeadline)"

definition bRequireForUser :: "(rstr \<Rightarrow> rstr) \<Rightarrow> CLoginAttemptCache \<Rightarrow> rstr \<Rightarrow> time \<Rightarrow> bool" where
  "bRequireForUser to_lower c sUser dtNow =
     (case la_mapUser (lc_stState c) (to_lower sUser) of None \<Rightarrow> False | Some dtDeadline \<Rightarrow> dtNow < dtDeadline)"

definition vRecordFailedAttempt ::
    "(rstr \<Rightarrow> rstr) \<Rightarrow> ((rstr \<rightharpoonup> time) \<Rightarrow> rstr option) \<Rightarrow> rstr \<Rightarrow> rstr \<Rightarrow> time \<Rightarrow> CLoginAttemptCache \<Rightarrow> CLoginAttemptCache" where
  "vRecordFailedAttempt to_lower oldest sIp sUser dtNow c =
     (let dtDeadline = dtNow + lc_dtTtl c;
          ips = vPrune oldest (la_mapIp (lc_stState c)) dtNow (lc_iMaxKeys c);
          users = vPrune oldest (la_mapUser (lc_stState c)) dtNow (lc_iMaxKeys c)
      in c\<lparr>lc_stState := \<lparr>la_mapIp = ips(sIp \<mapsto> dtDeadline), la_mapUser = users(to_lower sUser \<mapsto> dtDeadline)\<rparr>\<rparr>)"

subsection \<open>The CAPTCHA check\<close>

record StCaptchaConfig =
  cc_enable_dev_bypasses :: bool
  cc_captcha_private_key :: "rstr option"
  cc_captcha_public_key :: "rstr option"

text \<open>\<open>post\<close> is the request to the verification service: a failure text, or its answer.\<close>

record StCaptchaResponse =
  cr_success :: bool
  cr_vecErrorCodes :: "rstr list"

definition sValidateCaptcha ::
    "(params \<Rightarrow> rstr + StCaptchaResponse) \<Rightarrow> StCaptchaConfig \<Rightarrow> rstr option \<Rightarrow> rstr \<Rightarrow> rstr + unit" where
  "sValidateCaptcha post cfg optResponse sRemoteIp =
     (case optResponse of None \<Rightarrow> Inl ([1050, 1086, 1076, 32, 1087, 1088, 1086, 1074, 1077, 1088, 1082, 1080, 32, 1079, 1072, 1097, 1080, 1090, 1099, 32, 1086, 1090, 32, 1088, 1086, 1073, 1086, 1090, 1086, 1074, 32, 1085, 1077, 32, 1091, 1082, 1072, 1079, 1072, 1085] :: rstr) \<comment> \<open>Kod proverki zashchity ot robotov ne ukazan\<close>
      | Some sResponse \<Rightarrow>
          if cc_enable_dev_bypasses cfg \<and> sResponse = (u ''dev-captcha'') then Inr ()
          else
     (case cc_captcha_private_key cfg of None \<Rightarrow> Inl (u ''Unable to check captcha: CAPTCHA_PRIVATE_KEY is not configured'')
      | Some sPrivateKey \<Rightarrow>
     (case cc_captcha_public_key cfg of None \<Rightarrow> Inl (u ''Unable to check captcha: CAPTCHA_PUBLIC_KEY is not configured'')
      | Some sPublicKey \<Rightarrow>
     (case post [((u ''secret''), sPrivateKey), ((u ''response''), sResponse), ((u ''remoteip''), sRemoteIp), ((u ''sitekey''), sPublicKey)] of
        Inl stError \<Rightarrow> Inl ((u ''Unable to check captcha: '') @ stError)
      | Inr stResponse \<Rightarrow>
          if cr_success stResponse then Inr ()
          else Inl (([1050, 1086, 1076, 32, 1087, 1088, 1086, 1074, 1077, 1088, 1082, 1080, 32, 1079, 1072, 1097, 1080, 1090, 1099, 32, 1086, 1090, 32, 1088, 1086, 1073, 1086, 1090, 1086, 1074, 32, 1085, 1077, 32, 1089, 1086, 1074, 1087, 1072, 1076, 1072, 1077, 1090, 32, 40] :: rstr) \<comment> \<open>Kod proverki zashchity ot robotov ne sovpadaet (\<close> @ join_with (u '','') (cr_vecErrorCodes stResponse) @ (u '')''))))))"

subsection \<open>The author of a post\<close>

record StPostingIdentity =
  id_stUser :: StUserSummary
  id_bAuthorized :: bool

record StPostingResolution =
  rs_stIdentity :: StPostingIdentity
  rs_optError :: "rstr option"

text \<open>The projection both lookups share; the anonymous one has no corrector right.\<close>

definition summary_of :: "time \<Rightarrow> pg_user \<Rightarrow> StUserSummary" where
  "summary_of now r = \<lparr>us_id = pu_id r, us_nick = pu_nick r, us_score = pu_score r, us_canmod = pu_canmod r,
     us_candel = pu_candel r, us_corrector = (pu_corrector r \<and> \<not> user_frozen now r), us_blocked = Some (pu_blocked r),
     us_name = pu_name r, us_max_score = pu_max_score r, us_photo = pu_photo r, us_town = pu_town r,
     us_regdate = pu_regdate r, us_userinfo = pu_userinfo r\<rparr>"

definition stLoadPostingUser :: "time \<Rightarrow> rstr \<Rightarrow> StUserSummary option pg_eff" where
  "stLoadPostingUser now sNick =
     bind_eff (fetch_optional db_users (\<lambda>r. pu_nick r = sNick)) (\<lambda>r. ret_eff (map_option (summary_of now) r))"

definition first_row :: "'r list \<Rightarrow> 'r option" where
  "first_row rs = (case rs of [] \<Rightarrow> None | r # _ \<Rightarrow> Some r)"

definition stAnonymousPostingIdentity :: "time \<Rightarrow> StPostingIdentity pg_eff" where
  "stAnonymousPostingIdentity now =
     bind_eff (select_rows db_users (\<lambda>r. pu_nick r = (u ''anonymous'') \<and> coalesce [] (pu_passwd r) = [])) (\<lambda>rows.
     (case first_row (sort_key pu_id rows) of
        None \<Rightarrow> fail_eff (Anyhow (u ''canonical password-less anonymous user is missing''))
      | Some r \<Rightarrow> ret_eff \<lparr>id_stUser = (summary_of now r)\<lparr>us_corrector := False\<rparr>, id_bAuthorized = False\<rparr>))"

definition quoted :: "rstr \<Rightarrow> rstr \<Rightarrow> rstr" where
  "quoted s t = s @ [34] @ t @ [34]"

definition stResolvePostingIdentity ::
    "password_codec \<Rightarrow> time \<Rightarrow> StUserSummary option \<Rightarrow> rstr option \<Rightarrow> rstr option \<Rightarrow> StPostingResolution pg_eff" where
  "stResolvePostingIdentity pw now optSessionUser optNick optPassword =
     (case optSessionUser of
        Some stUser \<Rightarrow> ret_eff \<lparr>rs_stIdentity = \<lparr>id_stUser = stUser, id_bAuthorized = True\<rparr>, rs_optError = None\<rparr>
      | None \<Rightarrow>
     bind_eff (stAnonymousPostingIdentity now) (\<lambda>stAnonymous.
     let sNick = coalesce (u ''anonymous'') optNick;
         failed = (\<lambda>sError. ret_eff \<lparr>rs_stIdentity = stAnonymous, rs_optError = Some sError\<rparr>) in
     if sNick = [] \<or> sNick = us_nick (id_stUser stAnonymous)
     then ret_eff \<lparr>rs_stIdentity = stAnonymous, rs_optError = None\<rparr>
     else
     bind_eff (stLoadPostingUser now sNick) (\<lambda>optUser. case optUser of
        None \<Rightarrow> failed (quoted ([1055, 1086, 1083, 1100, 1079, 1086, 1074, 1072, 1090, 1077, 1083, 1100, 32] :: rstr) \<comment> \<open>Polzovatel \<close> sNick @ ([32, 1085, 1077, 32, 1085, 1072, 1081, 1076, 1077, 1085] :: rstr) \<comment> \<open> ne najden\<close>)
      | Some stUser \<Rightarrow>
     bind_eff (fetch_one db_users (\<lambda>r. pu_id r = us_id stUser)) (\<lambda>r.
     if pu_blocked r \<or> \<not> pu_activated r
     then failed (quoted ([1055, 1086, 1083, 1100, 1079, 1086, 1074, 1072, 1090, 1077, 1083, 1100, 32] :: rstr) \<comment> \<open>Polzovatel \<close> (us_nick stUser) @ ([32, 1079, 1072, 1073, 1083, 1086, 1082, 1080, 1088, 1086, 1074, 1072, 1085, 32, 1080, 1083, 1080, 32, 1085, 1077, 32, 1072, 1082, 1090, 1080, 1074, 1080, 1088, 1086, 1074, 1072, 1085] :: rstr) \<comment> \<open> zablokirovan ili ne aktivirovan\<close>)
     else if \<not> (case pu_passwd r of None \<Rightarrow> False | Some sHash \<Rightarrow> password_verify pw (coalesce [] optPassword) sHash)
     then failed (quoted ([1055, 1072, 1088, 1086, 1083, 1100, 32, 1076, 1083, 1103, 32, 1087, 1086, 1083, 1100, 1079, 1086, 1074, 1072, 1090, 1077, 1083, 1103, 32] :: rstr) \<comment> \<open>Parol dlya polzovatelya \<close> (us_nick stUser) @ ([32, 1079, 1072, 1076, 1072, 1085, 32, 1085, 1077, 1074, 1077, 1088, 1085, 1086, 33] :: rstr) \<comment> \<open> zadan neverno!\<close>)
     else ret_eff \<lparr>rs_stIdentity = \<lparr>id_stUser = stUser, id_bAuthorized = True\<rparr>, rs_optError = None\<rparr>))))"

subsection \<open>The user of a request (src/auth.rs)\<close>

definition optRememberMeUserId :: "token_codec \<Rightarrow> time \<Rightarrow> rstr \<Rightarrow> rstr \<Rightarrow> int option pg_eff" where
  "optRememberMeUserId c now sCookie sSecret =
     (case remember_optDecode c sCookie of
        None \<Rightarrow> ret_eff None
      | Some stToken \<Rightarrow>
          bind_eff (fetch_optional db_users (\<lambda>r. pu_nick r = tk_sUsername stToken)) (\<lambda>optRow. case optRow of
              None \<Rightarrow> ret_eff None
            | Some r \<Rightarrow>
                if pu_blocked r \<or> coalesce [] (pu_passwd r) = [] then ret_eff None
                else ret_eff (then_some (remember_bVerify c stToken (coalesce [] (pu_passwd r)) sSecret
                  (coalesce 0 (pu_token_generation r)) (now div 1000)) (pu_id r))))"

text \<open>A request's cookies: here the value of the remember-me cookie, if any.\<close>

definition optUserIdFromCookies :: "token_codec \<Rightarrow> time \<Rightarrow> rstr option \<Rightarrow> rstr \<Rightarrow> int option pg_eff" where
  "optUserIdFromCookies c now optCookie sSecret =
     (case optCookie of None \<Rightarrow> ret_eff None | Some v \<Rightarrow> optRememberMeUserId c now v sSecret)"

text \<open>\<open>cached\<close> is the extension \<open>hydrate\<close> leaves in the request.\<close>

definition current_user ::
    "token_codec \<Rightarrow> time \<Rightarrow> rstr \<Rightarrow> StUserSummary option option \<Rightarrow> rstr option \<Rightarrow> StUserSummary option pg_eff" where
  "current_user c now sSecret cached optCookie =
     (case cached of Some stCurrentUser \<Rightarrow> ret_eff stCurrentUser
      | None \<Rightarrow>
     bind_eff (optUserIdFromCookies c now optCookie sSecret) (\<lambda>optId. case optId of
        None \<Rightarrow> ret_eff None
      | Some user_id \<Rightarrow>
     bind_eff (fetch_optional db_users (\<lambda>r. pu_id r = user_id \<and> pu_activated r \<and> \<not> pu_blocked r)) (\<lambda>optRow. case optRow of
        None \<Rightarrow> ret_eff None
      | Some r \<Rightarrow>
     bind_eff (exec_update db_users db_users_update
         (\<lambda>r. pu_id r = user_id \<and> (case pu_lastlogin r of None \<Rightarrow> False | Some t \<Rightarrow> hours 1 < now - t))
         (pu_lastlogin_update (\<lambda>_. Some now))) (\<lambda>_.
     ret_eff (Some (summary_of now r))))))"

definition hydrate ::
    "token_codec \<Rightarrow> time \<Rightarrow> rstr \<Rightarrow> rstr \<Rightarrow> rstr option \<Rightarrow> (StUserSummary option \<Rightarrow> (pg, app_error, 'r) eff)
      \<Rightarrow> (pg, app_error, 'r) eff" where
  "hydrate c now sSecret sPath optCookie next_handler =
     (if bSpringSecurityIgnoredPath sPath then next_handler None
      else bind_eff (current_user c now sSecret None optCookie) next_handler)"

record StLoginIdentity =
  li_nick :: rstr
  li_password_hash :: rstr
  li_token_generation :: int

datatype LoginOutcome = Success StLoginIdentity | Blocked | NotActivated | Failed

definition optLoadLoginIdentity :: "int \<Rightarrow> StLoginIdentity option pg_eff" where
  "optLoadLoginIdentity iUserId =
     bind_eff (fetch_optional db_users (\<lambda>r. pu_id r = iUserId)) (\<lambda>optRow.
     ret_eff (Option.bind optRow (\<lambda>r. then_some (\<not> pu_blocked r \<and> pu_activated r)
       \<lparr>li_nick = pu_nick r, li_password_hash = coalesce [] (pu_passwd r),
        li_token_generation = coalesce 0 (pu_token_generation r)\<rparr>)))"

definition VALIDITY_SECONDS :: int where
  "VALIDITY_SECONDS = 365 * 24 * 60 * 60"

definition sMakeRememberMeCookieValue :: "token_codec \<Rightarrow> time \<Rightarrow> StLoginIdentity \<Rightarrow> rstr \<Rightarrow> rstr" where
  "sMakeRememberMeCookieValue c now stIdentity sSecret =
     remember_sEncode c (li_nick stIdentity) (wrap_i64 (now div 1000 + VALIDITY_SECONDS * 1000))
       (li_password_hash stIdentity) sSecret (li_token_generation stIdentity)"

record StCookie =
  ck_name :: rstr
  ck_value :: rstr
  ck_path :: rstr
  ck_max_age :: int
  ck_http_only :: bool
  ck_secure :: bool

definition stRememberMeCookie :: "token_codec \<Rightarrow> time \<Rightarrow> StLoginIdentity \<Rightarrow> rstr \<Rightarrow> bool \<Rightarrow> StCookie" where
  "stRememberMeCookie c now stIdentity sSecret bSecure =
     \<lparr>ck_name = (u ''remember_me''), ck_value = sMakeRememberMeCookieValue c now stIdentity sSecret, ck_path = (u ''/''),
      ck_max_age = VALIDITY_SECONDS, ck_http_only = True, ck_secure = bSecure\<rparr>"

definition sLoginLookupKey :: "rstr \<Rightarrow> rstr" where
  "sLoginLookupKey sLogin = (if 64 \<in> set sLogin then trim sLogin else sLogin)"

text \<open>\<open>norm\<close> is \<open>normalize_email\<close>, \<open>lower\<close> SQL's \<open>lower\<close>.  The order is \<open>blocked ASC, id DESC\<close>.\<close>

definition login_row :: "(rstr \<Rightarrow> rstr) \<Rightarrow> (rstr \<Rightarrow> rstr) \<Rightarrow> rstr \<Rightarrow> pg_user option pg_eff" where
  "login_row norm lower sLogin =
     (if 64 \<in> set sLogin
      then (if length (filter (\<lambda>c. c = 64) sLogin) \<noteq> 1 \<or> list_ex is_whitespace sLogin then ret_eff None
            else bind_eff (select_rows db_users (\<lambda>r. map_option norm (pu_email r) = Some (norm (lower sLogin)))) (\<lambda>rows.
              ret_eff (first_row (sort_key pu_blocked (sort_key (\<lambda>r. - pu_id r) rows)))))
      else fetch_optional db_users (\<lambda>r. pu_nick r = sLogin))"

text \<open>The upgrade of an old password hash, conditional on the hash read before.\<close>

definition upgrade_hash :: "password_codec \<Rightarrow> rstr \<Rightarrow> int \<Rightarrow> rstr \<Rightarrow> rstr pg_eff" where
  "upgrade_hash pw password iId sEncodedPassword =
     (if is_bcrypt sEncodedPassword then ret_eff sEncodedPassword
      else (case password_hash pw password of
          None \<Rightarrow> fail_eff (Anyhow (u ''bcrypt''))
        | Some sBcrypt \<Rightarrow>
            bind_eff (exec_update db_users db_users_update (\<lambda>r. pu_id r = iId \<and> pu_passwd r = Some sEncodedPassword)
              (pu_passwd_update (\<lambda>_. Some sBcrypt))) (\<lambda>n.
            if n = 1 then ret_eff sBcrypt
            else bind_eff (fetch_one db_users (\<lambda>r. pu_id r = iId)) (\<lambda>r. ret_eff (coalesce [] (pu_passwd r))))))"

definition verify_login ::
    "password_codec \<Rightarrow> (rstr \<Rightarrow> rstr) \<Rightarrow> (rstr \<Rightarrow> rstr) \<Rightarrow> time \<Rightarrow> rstr \<Rightarrow> rstr \<Rightarrow> LoginOutcome pg_eff" where
  "verify_login pw norm lower now login password =
     bind_eff (login_row norm lower (sLoginLookupKey login)) (\<lambda>optRow. case optRow of
        None \<Rightarrow> ret_eff Failed
      | Some stRow \<Rightarrow>
     if pu_blocked stRow then ret_eff Blocked
     else (case pu_passwd stRow of
        None \<Rightarrow> ret_eff Failed
      | Some sEncodedPassword \<Rightarrow>
     if \<not> password_verify pw password sEncodedPassword then ret_eff Failed
     else
     bind_eff (upgrade_hash pw password (pu_id stRow) sEncodedPassword) (\<lambda>sCurrentPasswordHash.
     if \<not> pu_activated stRow then ret_eff NotActivated
     else
     bind_eff (exec_update db_users db_users_update (\<lambda>r. pu_id r = pu_id stRow) (pu_lastlogin_update (\<lambda>_. Some now))) (\<lambda>_.
     ret_eff (Success \<lparr>li_nick = pu_nick stRow, li_password_hash = sCurrentPasswordHash,
       li_token_generation = coalesce 0 (pu_token_generation stRow)\<rparr>)))))"

subsection \<open>Login and logout (src/routes/auth.rs)\<close>

text \<open>
  \<open>auth_env\<close> holds what the handlers are given: the libraries, the site secret, the CAPTCHA
  service, the cast to \<open>inet\<close> and the iteration
  order of the cache.  \<open>now\<close> is the wall clock, \<open>inst\<close> the monotonic clock of the cache.
\<close>

record auth_env =
  ae_codec :: token_codec
  ae_pw :: password_codec
  ae_sSecret :: rstr
  ae_norm :: "rstr \<Rightarrow> rstr"
  ae_lower :: "rstr \<Rightarrow> rstr"
  ae_to_lower :: "rstr \<Rightarrow> rstr"
  ae_oldest :: "(rstr \<rightharpoonup> time) \<Rightarrow> rstr option"
  ae_post :: "params \<Rightarrow> rstr + StCaptchaResponse"
  ae_captcha :: StCaptchaConfig
  ae_inet :: "rstr \<Rightarrow> rstr option"

record auth_world =
  aw_db :: pg
  aw_attempts :: CLoginAttemptCache

definition on_users :: "'a pg_eff \<Rightarrow> (auth_world, app_error, 'a) eff" where
  "on_users m = (\<lambda>w. (case m (aw_db w) of (r, db) \<Rightarrow> (r, w\<lparr>aw_db := db\<rparr>)))"

lemma on_users_iff [eff_simps]: "on_users m w = (r, w') \<longleftrightarrow> (\<exists>db. m (aw_db w) = (r, db) \<and> w' = w\<lparr>aw_db := db\<rparr>)"
  by (auto simp: on_users_def split: prod.splits)

text \<open>A response: a redirect with the cookies set and removed, or a rendered page.\<close>

datatype auth_response =
    AuthFound (auth_location: rstr) (auth_set: "StCookie list") (auth_removed: "rstr list")
  | LoginPage (page_error: "rstr option") (page_nick: rstr) (page_redirect: rstr) (page_captcha: bool)

definition bIpCaptchaRequired :: "(rstr \<Rightarrow> rstr option) \<Rightarrow> rstr \<Rightarrow> bool pg_eff" where
  "bIpCaptchaRequired inet sIp = inet_or_fail inet sIp (\<lambda>ip db.
     (Inr (case ip_block_of db ip of None \<Rightarrow> False | Some b \<Rightarrow> coalesce False (pb_captcha_required b)), db))"

lemma captcha_read: "bIpCaptchaRequired inet sIp db = (Inr b, db') \<Longrightarrow> db' = db"
  by (auto simp: bIpCaptchaRequired_def inet_or_fail_Inr)

definition safe_redirect_url :: "rstr \<Rightarrow> rstr" where
  "safe_redirect_url from_url =
     (if starts_with (u ''/'') from_url \<and> \<not> starts_with (u ''//'') from_url \<and> \<not> starts_with [47, 92] from_url
      then from_url else (u ''/''))"

definition auth_found :: "rstr \<Rightarrow> auth_response" where
  "auth_found sLocation = AuthFound sLocation [] []"

record LoginForm =
  lf_nick :: rstr
  lf_passwd :: rstr
  lf_redirect_url :: rstr
  lf_captcha_response :: "rstr option"

definition login_form :: "auth_env \<Rightarrow> time \<Rightarrow> rstr \<Rightarrow> rstr option \<Rightarrow> StUserSummary option \<Rightarrow> (auth_world, app_error, auth_response) eff" where
  "login_form env inst sRemoteIp optFrom optUser w =
     (let redirect_url = safe_redirect_url (coalesce [] optFrom) in
      if optUser \<noteq> None then (Inr (auth_found redirect_url), w)
      else bind_eff (if bRequireForIp (aw_attempts w) sRemoteIp inst then ret_eff True
          else on_users (bIpCaptchaRequired (ae_inet env) sRemoteIp)) (\<lambda>bRequireCaptcha.
        ret_eff (LoginPage None [] redirect_url bRequireCaptcha)) w)"

text \<open>The failure is recorded before the delay.\<close>

definition vRecordLoginFailureBeforeDelay ::
    "auth_env \<Rightarrow> time \<Rightarrow> rstr \<Rightarrow> rstr \<Rightarrow> LoginOutcome \<Rightarrow> CLoginAttemptCache \<Rightarrow> CLoginAttemptCache" where
  "vRecordLoginFailureBeforeDelay env inst sRemoteIp sNick enOutcome cAttempts =
     (case enOutcome of
        NotActivated \<Rightarrow> vRecordFailedAttempt (ae_to_lower env) (ae_oldest env) sRemoteIp sNick inst cAttempts
      | Failed \<Rightarrow> vRecordFailedAttempt (ae_to_lower env) (ae_oldest env) sRemoteIp sNick inst cAttempts
      | _ \<Rightarrow> cAttempts)"

definition captcha_needed :: "bool \<Rightarrow> auth_env \<Rightarrow> time \<Rightarrow> rstr \<Rightarrow> rstr \<Rightarrow> CLoginAttemptCache \<Rightarrow> bool" where
  "captcha_needed bIpFlag env inst sRemoteIp nick c \<longleftrightarrow>
     bIpFlag \<or> bRequireForIp c sRemoteIp inst \<or> bRequireForUser (ae_to_lower env) c nick inst"

definition login_outcome :: "auth_env \<Rightarrow> time \<Rightarrow> bool \<Rightarrow> LoginForm \<Rightarrow> LoginOutcome \<Rightarrow> auth_response" where
  "login_outcome env now is_secure form outcome =
     (let redirect_url = safe_redirect_url (lf_redirect_url form) in
      case outcome of
        Success identity \<Rightarrow> AuthFound redirect_url [stRememberMeCookie (ae_codec env) now identity (ae_sSecret env) is_secure] [(u ''lor_session'')]
      | Blocked \<Rightarrow> auth_found ((u ''/people/'') @ tc_url_encode (ae_codec env) (lf_nick form) @ (u ''/profile''))
      | NotActivated \<Rightarrow> LoginPage (Some ([1056, 1077, 1075, 1080, 1089, 1090, 1088, 1072, 1094, 1080, 1103, 32, 1085, 1077, 32, 1079, 1072, 1074, 1077, 1088, 1096, 1077, 1085, 1072, 33, 32, 1048, 1085, 1089, 1090, 1088, 1091, 1082, 1094, 1080, 1103, 32, 1087, 1086, 32, 1072, 1082, 1090, 1080, 1074, 1072, 1094, 1080, 1080, 32, 1086, 1090, 1087, 1088, 1072, 1074, 1083, 1077, 1085, 1072, 32, 1085, 1072, 32, 1091, 1082, 1072, 1079, 1072, 1085, 1085, 1099, 1081, 32, 1087, 1088, 1080, 32, 1088, 1077, 1075, 1080, 1089, 1090, 1088, 1072, 1094, 1080, 1080, 32, 101, 109, 97, 105, 108, 46] :: rstr) \<comment> \<open>Registratsiya ne zavershena! Instruktsiya po aktivatsii otpravlena na ukazannyj pri registratsii email.\<close>)
          (lf_nick form) redirect_url True
      | Failed \<Rightarrow> LoginPage (Some ([1054, 1096, 1080, 1073, 1082, 1072, 32, 1072, 1074, 1090, 1086, 1088, 1080, 1079, 1072, 1094, 1080, 1080, 46, 32, 1053, 1077, 1087, 1088, 1072, 1074, 1080, 1083, 1100, 1085, 1086, 1077, 32, 1080, 1084, 1103, 32, 1087, 1086, 1083, 1100, 1079, 1086, 1074, 1072, 1090, 1077, 1083, 1103, 44, 32, 101, 45, 109, 97, 105, 108, 32, 1080, 1083, 1080, 32, 1087, 1072, 1088, 1086, 1083, 1100, 46] :: rstr) \<comment> \<open>Oshibka avtorizatsii. Nepravilnoe imya polzovatelya, e-mail ili parol.\<close>)
          (lf_nick form) redirect_url True)"

definition routes_login ::
    "auth_env \<Rightarrow> time \<Rightarrow> time \<Rightarrow> rstr \<Rightarrow> bool \<Rightarrow> StUserSummary option \<Rightarrow> LoginForm \<Rightarrow> (auth_world, app_error, auth_response) eff" where
  "routes_login env now inst sRemoteIp is_secure optUser form w =
     (let redirect_url = safe_redirect_url (lf_redirect_url form) in
      if optUser \<noteq> None then (Inr (auth_found redirect_url), w)
      else bind_eff (on_users (bIpCaptchaRequired (ae_inet env) sRemoteIp)) (\<lambda>bIpFlag w.
      let bRequireCaptcha = captcha_needed bIpFlag env inst sRemoteIp (lf_nick form) (aw_attempts w) in
     (case (if bRequireCaptcha then sValidateCaptcha (ae_post env) (ae_captcha env) (lf_captcha_response form) sRemoteIp else Inr ()) of
        Inl sError \<Rightarrow> (Inr (LoginPage (Some sError) (lf_nick form) redirect_url True), w)
      | Inr _ \<Rightarrow>
          bind_eff (on_users (verify_login (ae_pw env) (ae_norm env) (ae_lower env) now (lf_nick form) (lf_passwd form))) (\<lambda>outcome.
          \<lambda>w1. (Inr (login_outcome env now is_secure form outcome),
            w1\<lparr>aw_attempts := vRecordLoginFailureBeforeDelay env inst sRemoteIp (lf_nick form) outcome (aw_attempts w1)\<rparr>)) w)) w)"

lemma routes_login_run:
  assumes "routes_login env now inst ip sec None form w = (Inr resp, w')"
  obtains bIp where "bIpCaptchaRequired (ae_inet env) ip (aw_db w) = (Inr bIp, aw_db w)"
    and "(case (if captcha_needed bIp env inst ip (lf_nick form) (aw_attempts w)
          then sValidateCaptcha (ae_post env) (ae_captcha env) (lf_captcha_response form) ip else Inr ()) of
        Inl sError \<Rightarrow> (Inr (LoginPage (Some sError) (lf_nick form) (safe_redirect_url (lf_redirect_url form)) True), w)
      | Inr _ \<Rightarrow>
          bind_eff (on_users (verify_login (ae_pw env) (ae_norm env) (ae_lower env) now (lf_nick form) (lf_passwd form))) (\<lambda>outcome w1.
            (Inr (login_outcome env now sec form outcome),
             w1\<lparr>aw_attempts := vRecordLoginFailureBeforeDelay env inst ip (lf_nick form) outcome (aw_attempts w1)\<rparr>)) w)
      = (Inr resp, w')"
proof -
  obtain r db where flag: "bIpCaptchaRequired (ae_inet env) ip (aw_db w) = (r, db)" by fastforce
  then obtain bIp where r: "r = Inr bIp"
    using assms by (cases r) (auto simp: routes_login_def Let_def bind_eff_def on_users_def)
  with flag captcha_read have db: "db = aw_db w" by blast
  with flag r have fl: "bIpCaptchaRequired (ae_inet env) ip (aw_db w) = (Inr bIp, aw_db w)" by simp
  then have "on_users (bIpCaptchaRequired (ae_inet env) ip) w = (Inr bIp, w)" by (simp add: on_users_def)
  then show thesis using assms that [OF fl] by (simp add: routes_login_def Let_def)
qed

definition logout :: auth_response where
  "logout = AuthFound (u ''/login.jsp'') [] [(u ''remember_me''), (u ''lor_session'')]"

definition logout_link :: "auth_env \<Rightarrow> StUserSummary option \<Rightarrow> auth_response" where
  "logout_link env user =
     (case user of Some r \<Rightarrow> auth_found ((u ''/people/'') @ tc_url_encode (ae_codec env) (us_nick r) @ (u ''/profile''))
      | None \<Rightarrow> auth_found (u ''/login.jsp''))"

definition logout_all_sessions :: "StUserSummary option \<Rightarrow> auth_response pg_eff" where
  "logout_all_sessions user =
     bind_eff (case user of
        Some s \<Rightarrow> exec_update_checked db_users db_users_update (\<lambda>r. pu_id r = us_id s)
          (\<lambda>r. r\<lparr>pu_token_generation := Some (coalesce 0 (pu_token_generation r) + 1)\<rparr>)
          (\<lambda>r. in_i32_opt (pu_token_generation r))
      | None \<Rightarrow> ret_eff 0) (\<lambda>_. ret_eff logout)"

subsection \<open>The cache remembers for half an hour\<close>

text \<open>The reference: the list of failures so far, most recent last.\<close>

definition logged :: "time \<Rightarrow> ('a \<times> time) list \<Rightarrow> 'a \<Rightarrow> time \<Rightarrow> bool" where
  "logged ttl log k now \<longleftrightarrow> (\<exists>t. (k, t) \<in> set log \<and> now < t + ttl)"

definition record_key :: "((rstr \<rightharpoonup> time) \<Rightarrow> rstr option) \<Rightarrow> time \<Rightarrow> nat \<Rightarrow> rstr \<times> time \<Rightarrow> (rstr \<rightharpoonup> time) \<Rightarrow> (rstr \<rightharpoonup> time)" where
  "record_key oldest ttl maxk = (\<lambda>(k, t) m. (vPrune oldest m t maxk)(k \<mapsto> t + ttl))"

definition holds :: "(rstr \<rightharpoonup> time) \<Rightarrow> rstr \<Rightarrow> time \<Rightarrow> bool" where
  "holds m k now \<longleftrightarrow> (case m k of None \<Rightarrow> False | Some d \<Rightarrow> now < d)"

lemma dom_fresh: "dom (\<lambda>k. case m k of Some d \<Rightarrow> if now < d then Some d else None | None \<Rightarrow> None) \<subseteq> dom m"
  by (auto split: option.splits)

lemma prune_small:
  assumes "finite (dom m)" and "card (dom m) < maxk"
  shows "vPrune oldest m now maxk = (\<lambda>k. case m k of Some d \<Rightarrow> if now < d then Some d else None | None \<Rightarrow> None)"
proof -
  let ?m = "\<lambda>k. case m k of Some d \<Rightarrow> if now < d then Some d else None | None \<Rightarrow> None"
  have "card (dom ?m) < maxk" using card_mono [OF assms(1) dom_fresh [where m = m and now = now]] assms(2) by simp
  then show ?thesis by (simp add: vPrune_def Let_def)
qed

text \<open>While the cache is below its capacity it decides exactly what the log decides.\<close>

lemma record_below:
  assumes "finite (dom m)" "card (dom m) < maxk" and "\<forall>k now. t \<le> now \<longrightarrow> holds m k now = logged ttl log k now"
    and "\<forall>s\<in>snd ` set log. s \<le> t"
  shows "finite (dom (record_key oldest ttl maxk (k, t) m)) \<and> card (dom (record_key oldest ttl maxk (k, t) m)) \<le> Suc (card (dom m))
    \<and> (\<forall>k' now. t \<le> now \<longrightarrow> holds (record_key oldest ttl maxk (k, t) m) k' now = logged ttl (log @ [(k, t)]) k' now)"
proof -
  let ?m = "\<lambda>k. case m k of Some d \<Rightarrow> if t < d then Some d else None | None \<Rightarrow> None"
  have r: "record_key oldest ttl maxk (k, t) m = ?m(k \<mapsto> t + ttl)"
    using prune_small [OF assms(1,2)] by (simp add: record_key_def)
  have fin: "finite (dom ?m)" by (rule finite_subset [OF dom_fresh assms(1)])
  have "card (dom ?m) \<le> card (dom m)" by (rule card_mono [OF assms(1) dom_fresh])
  then have "card (insert k (dom ?m)) \<le> Suc (card (dom m))" by (simp add: card_insert_if fin)
  moreover have "holds (?m(k \<mapsto> t + ttl)) k' now = logged ttl (log @ [(k, t)]) k' now" if "t \<le> now" for k' now
  proof (cases "k' = k")
    case True
    have "logged ttl log k now \<Longrightarrow> now < t + ttl" using assms(4) by (force simp: logged_def)
    then show ?thesis using True by (auto simp: holds_def logged_def)
  next
    case False
    have "holds ?m k' now = holds m k' now" using that by (auto simp: holds_def split: option.splits)
    then show ?thesis using False that assms(3) by (simp add: holds_def logged_def)
  qed
  ultimately show ?thesis using fin by (simp add: r)
qed

lemma log_exact:
  "sorted (map snd ks) \<Longrightarrow> length ks \<le> maxk \<Longrightarrow>
    finite (dom (fold (record_key oldest ttl maxk) ks Map.empty)) \<and>
    card (dom (fold (record_key oldest ttl maxk) ks Map.empty)) \<le> length ks \<and>
    (\<forall>k now. (\<forall>s\<in>snd ` set ks. s \<le> now) \<longrightarrow> holds (fold (record_key oldest ttl maxk) ks Map.empty) k now = logged ttl ks k now)"
proof (induction ks rule: rev_induct)
  case Nil
  then show ?case by (simp add: holds_def logged_def)
next
  case (snoc kt ks)
  obtain k t where kt: "kt = (k, t)" by fastforce
  let ?m = "fold (record_key oldest ttl maxk) ks Map.empty"
  have older: "\<forall>s\<in>snd ` set ks. s \<le> t" using snoc.prems(1) kt by (auto simp: sorted_append)
  have ih: "finite (dom ?m)" "card (dom ?m) \<le> length ks"
    "\<forall>k now. (\<forall>s\<in>snd ` set ks. s \<le> now) \<longrightarrow> holds ?m k now = logged ttl ks k now"
    using snoc by (auto simp: sorted_append)
  have "\<forall>k now. t \<le> now \<longrightarrow> holds ?m k now = logged ttl ks k now"
    using ih(3) older by (meson order_trans)
  then have step: "finite (dom (record_key oldest ttl maxk (k, t) ?m))"
    "card (dom (record_key oldest ttl maxk (k, t) ?m)) \<le> Suc (card (dom ?m))"
    "\<forall>k' now. t \<le> now \<longrightarrow> holds (record_key oldest ttl maxk (k, t) ?m) k' now = logged ttl (ks @ [(k, t)]) k' now"
    using record_below [OF ih(1) _ _ older, of maxk ttl oldest k] ih(2) snoc.prems(2) by simp_all
  show ?case unfolding kt using step ih(2) by auto
qed

text \<open>The cache after a sequence of failures from the empty one.\<close>

definition attempts :: "auth_env \<Rightarrow> (rstr \<times> rstr \<times> time) list \<Rightarrow> CLoginAttemptCache" where
  "attempts env xs = fold (\<lambda>(ip, nick, t). vRecordFailedAttempt (ae_to_lower env) (ae_oldest env) ip nick t) xs CLoginAttemptCache_default"

lemma attempts_maps:
  "la_mapIp (lc_stState (attempts env xs)) =
     fold (record_key (ae_oldest env) (minutes 30) 1000000) (map (\<lambda>(ip, n, t). (ip, t)) xs) Map.empty \<and>
   la_mapUser (lc_stState (attempts env xs)) =
     fold (record_key (ae_oldest env) (minutes 30) 1000000) (map (\<lambda>(ip, n, t). (ae_to_lower env n, t)) xs) Map.empty \<and>
   lc_dtTtl (attempts env xs) = minutes 30 \<and> lc_iMaxKeys (attempts env xs) = 1000000"
proof (induction xs rule: rev_induct)
  case Nil
  show ?case by (simp add: attempts_def CLoginAttemptCache_default_def)
next
  case (snoc x xs)
  obtain ip n t where x: "x = (ip, n, t)" by (cases x)
  with snoc show ?case
    by (auto simp: attempts_def vRecordFailedAttempt_def Let_def record_key_def)
qed

text \<open>The failed-login cache refines the plain log of failures: as long as at most a
  million failures were recorded, whatever order the hash map iterates in, an address (or a user
  name, compared in lower case) is asked for a CAPTCHA exactly when the log has a failure of that
  address (name) less than thirty minutes old.\<close>

theorem attempts_refine_log:
  assumes "sorted (map (\<lambda>(i, n, t). t) xs)" and "length xs \<le> 1000000" and "\<forall>(i, n, t)\<in>set xs. t \<le> now"
  shows "(bRequireForIp (attempts env xs) ip now \<longleftrightarrow> (\<exists>n t. (ip, n, t) \<in> set xs \<and> now < t + minutes 30))
    \<and> (bRequireForUser (ae_to_lower env) (attempts env xs) nick now \<longleftrightarrow>
       (\<exists>i n t. (i, n, t) \<in> set xs \<and> ae_to_lower env n = ae_to_lower env nick \<and> now < t + minutes 30))"
proof -
  let ?ips = "map (\<lambda>(ip, n, t). (ip, t)) xs" let ?names = "map (\<lambda>(ip, n, t). (ae_to_lower env n, t)) xs"
  have times: "map snd ?ips = map (\<lambda>(i, n, t). t) xs" "map snd ?names = map (\<lambda>(i, n, t). t) xs" by (auto simp: comp_def case_prod_beta)
  have sorted: "sorted (map snd ?ips)" "sorted (map snd ?names)" using assms(1) unfolding times by auto
  have past: "\<forall>s\<in>snd ` set ?ips. s \<le> now" "\<forall>s\<in>snd ` set ?names. s \<le> now" using assms(3) by auto
  have len: "length ?ips \<le> 1000000" "length ?names \<le> 1000000" using assms(2) by simp_all
  have "bRequireForIp (attempts env xs) ip now = logged (minutes 30) ?ips ip now"
    using log_exact [OF sorted(1) len(1), of "ae_oldest env" "minutes 30"] past(1) attempts_maps [of env xs]
    by (simp add: bRequireForIp_def holds_def)
  moreover have "bRequireForUser (ae_to_lower env) (attempts env xs) nick now = logged (minutes 30) ?names (ae_to_lower env nick) now"
    using log_exact [OF sorted(2) len(2), of "ae_oldest env" "minutes 30"] past(2) attempts_maps [of env xs]
    by (simp add: bRequireForUser_def holds_def)
  ultimately show ?thesis by (force simp: logged_def)
qed

definition ex_env :: auth_env where
  "ex_env = \<lparr>ae_codec = ex_codec,
     ae_pw = \<lparr>pc_lossy = (\<lambda>_. []), pc_nfc = id, pc_md5 = id, pc_b64_decode = (\<lambda>_. None),
       pc_bcrypt_verify = (\<lambda>p h. Some (h = (u ''$2b$'') @ p)), pc_bcrypt_hash = (\<lambda>p. Some ((u ''$2b$'') @ p))\<rparr>,
     ae_sSecret = (u ''s''), ae_norm = id, ae_lower = to_ascii_lowercase, ae_to_lower = to_ascii_lowercase,
     ae_oldest = (\<lambda>m. None), ae_post = (\<lambda>_. Inl (u ''down'')),
     ae_captcha = \<lparr>cc_enable_dev_bypasses = False, cc_captcha_private_key = None, cc_captcha_public_key = None\<rparr>,
     ae_inet = Some\<rparr>"

theorem attempts_refine_log_witness:
  "bRequireForIp (attempts ex_env [((u ''1.2.3.4''), (u ''Bob''), 1000)]) (u ''1.2.3.4'') 2000
   \<and> bRequireForUser (ae_to_lower ex_env) (attempts ex_env [((u ''1.2.3.4''), (u ''Bob''), 1000)]) (u ''bOB'') 2000
   \<and> \<not> bRequireForIp (attempts ex_env [((u ''1.2.3.4''), (u ''Bob''), 1000)]) (u ''1.2.3.5'') 2000"
  using attempts_refine_log [of "[((u ''1.2.3.4''), (u ''Bob''), 1000)]" 2000 ex_env "(u ''1.2.3.4'')" "(u ''bOB'')"]
    attempts_refine_log [of "[((u ''1.2.3.4''), (u ''Bob''), 1000)]" 2000 ex_env "(u ''1.2.3.5'')" "(u ''bOB'')"]
  by (simp add: duration_defs ex_env_def to_ascii_lowercase_def ascii_lower_def)

subsection \<open>What a login gives\<close>

definition login_matches :: "(rstr \<Rightarrow> rstr) \<Rightarrow> (rstr \<Rightarrow> rstr) \<Rightarrow> rstr \<Rightarrow> pg_user \<Rightarrow> bool" where
  "login_matches norm lower login r \<longleftrightarrow>
     (let k = sLoginLookupKey login in
      if 64 \<in> set k then map_option norm (pu_email r) = Some (norm (lower k)) else pu_nick r = k)"

lemma first_row_in: "first_row rs = Some r \<Longrightarrow> r \<in> set rs"
  by (auto simp: first_row_def split: list.splits)

lemma login_row_Some:
  assumes "login_row norm lower (sLoginLookupKey login) db = (Inr (Some r), db')"
  shows "db' = db \<and> r \<in> set (db_users db) \<and> login_matches norm lower login r"
  using assms
  by (auto simp: login_row_def login_matches_def Let_def eff_simps stmt_defs find_Some_iff dest!: first_row_in split: if_splits)

lemma login_row_pure: "login_row norm lower k db = (res, db') \<Longrightarrow> db' = db"
  by (auto simp: login_row_def bind_eff_def stmt_defs split: if_splits)

lemma keyed_unique: "users.keyed db \<Longrightarrow> r \<in> set (db_users db) \<Longrightarrow> x \<in> set (db_users db) \<Longrightarrow> pu_id x = pu_id r \<Longrightarrow> x = r"
  by (auto simp: users.keyed_def distinct_map inj_on_def)

definition with_hash :: "int \<Rightarrow> rstr \<Rightarrow> pg \<Rightarrow> pg" where
  "with_hash i h = db_users_update (map (\<lambda>x. if pu_id x = i then x\<lparr>pu_passwd := Some h\<rparr> else x))"

lemma map_id_same: "users.keyed db \<Longrightarrow> r \<in> set (db_users db) \<Longrightarrow> f r = r \<Longrightarrow>
    map (\<lambda>x. if pu_id x = pu_id r then f x else x) (db_users db) = db_users db"
  by (rule map_idI) (auto dest: keyed_unique)

lemma filter_key: "users.keyed db \<Longrightarrow> r \<in> set (db_users db) \<Longrightarrow> length (filter (\<lambda>x. pu_id x = pu_id r) (db_users db)) = 1"
proof -
  have "distinct (map pu_id rs) \<Longrightarrow> r \<in> set rs \<Longrightarrow> length (filter (\<lambda>x. pu_id x = pu_id r) rs) = 1" for rs
  proof (induction rs)
    case (Cons y ys)
    show ?case
    proof (cases "pu_id y = pu_id r")
      case True
      with Cons.prems(1) have "filter (\<lambda>x. pu_id x = pu_id r) ys = []" by (auto simp: filter_empty_conv image_iff)
      with True show ?thesis by simp
    qed (use Cons in auto)
  qed simp
  then show "users.keyed db \<Longrightarrow> r \<in> set (db_users db) \<Longrightarrow> ?thesis" by (simp add: users.keyed_def)
qed

lemma upgrade_hash_effect:
  assumes "users.keyed db" and "r \<in> set (db_users db)" and "pu_passwd r = Some h"
    and "upgrade_hash pw password (pu_id r) h db = (Inr cur, db')"
  shows "db' = with_hash (pu_id r) cur db \<and> (if is_bcrypt h then cur = h else password_hash pw password = Some cur)"
proof (cases "is_bcrypt h")
  case True
  with assms(4) have "cur = h" "db' = db" by (simp_all add: upgrade_hash_def)
  moreover have "map (\<lambda>x. if pu_id x = pu_id r then x\<lparr>pu_passwd := Some h\<rparr> else x) (db_users db) = db_users db"
    by (rule map_id_same [OF assms(1,2)]) (simp add: assms(3) [symmetric])
  ultimately show ?thesis using True by (simp add: with_hash_def)
next
  case False
  then obtain b where b: "password_hash pw password = Some b"
    using assms(4) by (auto simp: upgrade_hash_def split: option.splits)
  have same: "(pu_id x = pu_id r \<and> pu_passwd x = Some h) = (pu_id x = pu_id r)" if "x \<in> set (db_users db)" for x
    using keyed_unique [OF assms(1,2) that] assms(3) by auto
  have "length (filter (\<lambda>x. pu_id x = pu_id r \<and> pu_passwd x = Some h) (db_users db)) = 1"
    using filter_key [OF assms(1,2)] same by (metis (mono_tags, lifting) filter_cong)
  moreover have "update_where (\<lambda>x. pu_id x = pu_id r \<and> pu_passwd x = Some h) (pu_passwd_update (\<lambda>_. Some b)) (db_users db)
      = map (\<lambda>x. if pu_id x = pu_id r then x\<lparr>pu_passwd := Some b\<rparr> else x) (db_users db)"
    unfolding update_where_def by (rule map_cong [OF refl]) (use same in auto)
  ultimately have "upgrade_hash pw password (pu_id r) h db = (Inr b, with_hash (pu_id r) b db)"
    using False b by (simp add: upgrade_hash_def exec_update_def bind_eff_def with_hash_def pg.simps)
  with assms(4) False b show ?thesis by auto
qed

text \<open>The row of a user after a successful login.\<close>

definition logged_in :: "time \<Rightarrow> rstr \<Rightarrow> pg_user \<Rightarrow> pg_user" where
  "logged_in now cur r = r\<lparr>pu_passwd := Some cur, pu_lastlogin := Some now\<rparr>"

lemma verify_login_Success:
  assumes "users.keyed db" and "verify_login pw norm lower now login password db = (Inr (Success i), db')"
  shows "\<exists>r\<in>set (db_users db). \<exists>h. login_matches norm lower login r \<and> \<not> pu_blocked r \<and> pu_activated r
    \<and> pu_passwd r = Some h \<and> password_verify pw password h
    \<and> (is_bcrypt h \<and> li_password_hash i = h \<or> password_hash pw password = Some (li_password_hash i))
    \<and> li_nick i = pu_nick r \<and> li_token_generation i = coalesce 0 (pu_token_generation r)
    \<and> db_users db' = map (\<lambda>x. if pu_id x = pu_id r then logged_in now (li_password_hash i) x else x) (db_users db)"
proof -
  obtain ro db0 where ro: "login_row norm lower (sLoginLookupKey login) db = (ro, db0)" by fastforce
  then obtain r where "ro = Inr (Some r)"
    using assms(2) by (cases ro) (auto simp: verify_login_def bind_eff_def split: option.splits)
  with ro have r0: "login_row norm lower (sLoginLookupKey login) db = (Inr (Some r), db0)" by simp
  from login_row_Some [OF this] have r: "db0 = db" "r \<in> set (db_users db)" "login_matches norm lower login r" by simp_all
  obtain h where h: "\<not> pu_blocked r" "pu_passwd r = Some h" "password_verify pw password h"
    using assms(2) r0 r(1) by (auto simp: verify_login_def split: option.splits if_splits)
  then obtain cur db1 where up: "upgrade_hash pw password (pu_id r) h db = (Inr cur, db1)" and act: "pu_activated r"
    and i: "i = \<lparr>li_nick = pu_nick r, li_password_hash = cur, li_token_generation = coalesce 0 (pu_token_generation r)\<rparr>"
    and db': "db' = db_users_update (update_where (\<lambda>x. pu_id x = pu_id r) (pu_lastlogin_update (\<lambda>_. Some now))) db1"
    using assms(2) r0 r(1) by (auto simp: verify_login_def eff_simps exec_update_def split: if_splits)
  from upgrade_hash_effect [OF assms(1) r(2) h(2) up]
  have db1: "db1 = with_hash (pu_id r) cur db" and cur: "if is_bcrypt h then cur = h else password_hash pw password = Some cur" by simp_all
  have "db_users db' = map (\<lambda>x. if pu_id x = pu_id r then logged_in now cur x else x) (db_users db)"
    by (auto simp: db' db1 with_hash_def update_where_def logged_in_def)
  with r h act cur show ?thesis
    by (intro bexI [of _ r] exI [of _ h]) (auto simp: i split: if_splits)
qed

lemma find_by_nick:
  assumes "distinct (map pu_nick rs)" and "r \<in> set rs" and "\<And>x. pu_nick (f x) = pu_nick x"
  shows "List.find (\<lambda>x. pu_nick x = pu_nick r) (map f rs) = Some (f r)"
  using assms by (induction rs) (auto simp: image_iff)

lemma session_lookup:
  assumes "codec_ok c" and "is_str (li_nick i)" and "in_i64 (now div 1000 + VALIDITY_SECONDS * 1000)"
    and "List.find (\<lambda>x. pu_nick x = li_nick i) (db_users db) = Some r" and "\<not> pu_blocked r" and "pu_passwd r = Some h" "h \<noteq> []"
  shows "optUserIdFromCookies c later (Some (sMakeRememberMeCookieValue c now i secret)) secret db =
    (Inr (then_some (remember_bVerify c (issued c (li_nick i) (now div 1000 + VALIDITY_SECONDS * 1000) (li_password_hash i)
       secret (li_token_generation i)) h secret (coalesce 0 (pu_token_generation r)) (later div 1000)) (pu_id r)), db)"
proof -
  have "remember_optDecode c (sMakeRememberMeCookieValue c now i secret) =
      Some (issued c (li_nick i) (now div 1000 + VALIDITY_SECONDS * 1000) (li_password_hash i) secret (li_token_generation i))"
    using decode_encode [OF assms(1,2,3)] assms(3) by (simp add: sMakeRememberMeCookieValue_def)
  moreover have "tk_sUsername (issued c us e h s g) = us" for us e h s g by (simp add: issued_def)
  ultimately show ?thesis
    using assms(4-7) by (simp add: optUserIdFromCookies_def optRememberMeUserId_def bind_eff_def fetch_optional_def)
qed

lemma login_cookie:
  assumes "routes_login env now inst ip sec None form w = (Inr (AuthFound loc [ck] removed), w')"
  obtains i where "verify_login (ae_pw env) (ae_norm env) (ae_lower env) now (lf_nick form) (lf_passwd form) (aw_db w)
      = (Inr (Success i), aw_db w')"
    and "ck = stRememberMeCookie (ae_codec env) now i (ae_sSecret env) sec"
proof -
  obtain outcome db' where v: "verify_login (ae_pw env) (ae_norm env) (ae_lower env) now (lf_nick form) (lf_passwd form) (aw_db w)
      = (Inr outcome, db')" and db': "aw_db w' = db'"
    and resp: "login_outcome env now sec form outcome = AuthFound loc [ck] removed"
    by (rule routes_login_run [OF assms]) (auto simp: eff_simps split: sum.splits)
  from resp obtain i where "outcome = Success i" "ck = stRememberMeCookie (ae_codec env) now i (ae_sSecret env) sec"
    by (cases outcome) (auto simp: login_outcome_def auth_found_def Let_def)
  with v db' that show thesis by simp
qed

text \<open>C20: A login that sets a cookie opens a session: there is an activated, unblocked account that
  matches the login and whose stored hash accepts the password, and from then on the cookie is
  resolved to that very account, for exactly a year and also when the login replaced an old hash.\<close>

theorem login_opens_session:
  assumes "codec_ok (ae_codec env)" and "users.keyed (aw_db w)" "distinct (map pu_nick (db_users (aw_db w)))"
    and "\<forall>r\<in>set (db_users (aw_db w)). is_str (pu_nick r)" and "\<forall>s h. pc_bcrypt_hash (ae_pw env) s = Some h \<longrightarrow> h \<noteq> []"
    and "in_i64 (now div 1000 + VALIDITY_SECONDS * 1000)"
    and "routes_login env now inst ip sec None form w = (Inr (AuthFound loc [ck] removed), w')"
  shows "\<exists>r\<in>set (db_users (aw_db w)). \<exists>h. login_matches (ae_norm env) (ae_lower env) (lf_nick form) r
    \<and> pu_activated r \<and> \<not> pu_blocked r \<and> pu_passwd r = Some h \<and> password_verify (ae_pw env) (lf_passwd form) h
    \<and> (\<forall>later. optUserIdFromCookies (ae_codec env) later (Some (ck_value ck)) (ae_sSecret env) (aw_db w') =
        (Inr (then_some (later div 1000 \<le> now div 1000 + VALIDITY_SECONDS * 1000) (pu_id r)), aw_db w'))"
proof -
  obtain i where v: "verify_login (ae_pw env) (ae_norm env) (ae_lower env) now (lf_nick form) (lf_passwd form) (aw_db w)
      = (Inr (Success i), aw_db w')" and ck: "ck = stRememberMeCookie (ae_codec env) now i (ae_sSecret env) sec"
    using assms(7) by (rule login_cookie)
  from verify_login_Success [OF assms(2) v] obtain r h where r: "r \<in> set (db_users (aw_db w))"
    and m: "login_matches (ae_norm env) (ae_lower env) (lf_nick form) r" "\<not> pu_blocked r" "pu_activated r" "pu_passwd r = Some h"
      "password_verify (ae_pw env) (lf_passwd form) h"
    and cur: "is_bcrypt h \<and> li_password_hash i = h \<or> password_hash (ae_pw env) (lf_passwd form) = Some (li_password_hash i)"
    and i: "li_nick i = pu_nick r" "li_token_generation i = coalesce 0 (pu_token_generation r)"
    and db': "db_users (aw_db w') = map (\<lambda>x. if pu_id x = pu_id r then logged_in now (li_password_hash i) x else x) (db_users (aw_db w))"
    by blast
  let ?r = "logged_in now (li_password_hash i) r"
  have "h \<noteq> []" using m(5) by (auto simp: password_verify_def)
  then have ne: "li_password_hash i \<noteq> []" using cur assms(5) by (auto simp: password_hash_def)
  have find: "List.find (\<lambda>x. pu_nick x = li_nick i) (db_users (aw_db w')) = Some ?r"
    unfolding db' i using find_by_nick [OF assms(3) r, of "\<lambda>x. if pu_id x = pu_id r then logged_in now (li_password_hash i) x else x"]
    by (simp add: logged_in_def)
  have "optUserIdFromCookies (ae_codec env) later (Some (ck_value ck)) (ae_sSecret env) (aw_db w') =
        (Inr (then_some (later div 1000 \<le> now div 1000 + VALIDITY_SECONDS * 1000) (pu_id r)), aw_db w')" for later
    using session_lookup [OF assms(1) _ assms(6) find, of "li_password_hash i" later "ae_sSecret env"] assms(4) r m(2) ne i
    by (simp add: ck stRememberMeCookie_def logged_in_def verify_issued)
  with r m show ?thesis by blast
qed

definition ex_account :: pg_user where
  "ex_account = (ex_user 7)\<lparr>pu_nick := (u ''bob''), pu_passwd := Some (u ''$2b$pw''), pu_token_generation := Some 2\<rparr>"

definition ex_accounts :: pg where
  "ex_accounts = ex_db\<lparr>db_users := [ex_account, (ex_user 2)\<lparr>pu_nick := (u ''anonymous''), pu_passwd := None\<rparr>]\<rparr>"

definition ex_auth_world :: auth_world where
  "ex_auth_world = \<lparr>aw_db = ex_accounts, aw_attempts = CLoginAttemptCache_default\<rparr>"

definition ex_login :: LoginForm where
  "ex_login = \<lparr>lf_nick = (u ''bob''), lf_passwd = (u ''pw''), lf_redirect_url = (u ''/x''), lf_captcha_response = None\<rparr>"

lemma ex_verify: "password_verify (ae_pw ex_env) (u ''pw'') (u ''$2b$pw'')" "\<not> password_verify (ae_pw ex_env) (u ''no'') (u ''$2b$pw'')"
  by (simp_all add: password_verify_def ex_env_def is_bcrypt_def truncate_for_bcrypt_def Let_def utf8_char_def)

lemma ex_accounts_ok: "users.keyed ex_accounts" "distinct (map pu_nick (db_users ex_accounts))"
    "\<forall>r\<in>set (db_users ex_accounts). is_str (pu_nick r)"
  by (simp_all add: users.keyed_def ex_accounts_def ex_account_def ex_user_def is_scalar_def)

lemma ex_flag: "bIpCaptchaRequired (ae_inet ex_env) sIp ex_accounts = (Inr False, ex_accounts)"
  by (simp add: bIpCaptchaRequired_def inet_or_fail_def ex_env_def ip_block_of_def ex_accounts_def ex_db_def)

lemma ex_login_result:
  "\<exists>ck w'. routes_login ex_env 1000 1000 (u ''1.2.3.4'') True None ex_login ex_auth_world =
    (Inr (AuthFound (u ''/x'') [ck] [(u ''lor_session'')]), w')"
proof -
  have "verify_login (ae_pw ex_env) (ae_norm ex_env) (ae_lower ex_env) 1000 (u ''bob'') (u ''pw'') ex_accounts =
     (Inr (Success \<lparr>li_nick = (u ''bob''), li_password_hash = (u ''$2b$pw''), li_token_generation = 2\<rparr>),
      db_users_update (update_where (\<lambda>r. pu_id r = 7) (pu_lastlogin_update (\<lambda>_. Some 1000))) ex_accounts)"
    using ex_verify
    by (simp add: verify_login_def login_row_def sLoginLookupKey_def bind_eff_def fetch_optional_def exec_update_def
        ex_accounts_def ex_account_def ex_user_def upgrade_hash_def is_bcrypt_def)
  then show ?thesis
    using ex_flag
    by (simp add: routes_login_def captcha_needed_def bRequireForIp_def bRequireForUser_def
        ex_env_def ex_auth_world_def CLoginAttemptCache_default_def ex_login_def on_users_def bind_eff_def
        login_outcome_def safe_redirect_url_def)
qed

theorem login_opens_session_witness:
  "\<exists>ck w'. routes_login ex_env 1000 1000 (u ''1.2.3.4'') True None ex_login ex_auth_world =
    (Inr (AuthFound (u ''/x'') [ck] [(u ''lor_session'')]), w')
    \<and> fst (optUserIdFromCookies (ae_codec ex_env) 5000 (Some (ck_value ck)) (ae_sSecret ex_env) (aw_db w')) = Inr (Some 7)"
proof -
  obtain ck w' where run: "routes_login ex_env 1000 1000 (u ''1.2.3.4'') True None ex_login ex_auth_world =
    (Inr (AuthFound (u ''/x'') [ck] [(u ''lor_session'')]), w')" using ex_login_result by blast
  have codec: "codec_ok (ae_codec ex_env)" "\<forall>s h. pc_bcrypt_hash (ae_pw ex_env) s = Some h \<longrightarrow> h \<noteq> []"
    by (simp_all add: ex_env_def ex_codec_ok)
  have "aw_db ex_auth_world = ex_accounts" by (simp add: ex_auth_world_def)
  then obtain r where r: "r \<in> set (db_users ex_accounts)" "login_matches (ae_norm ex_env) (ae_lower ex_env) (lf_nick ex_login) r"
    and later: "\<forall>later. optUserIdFromCookies (ae_codec ex_env) later (Some (ck_value ck)) (ae_sSecret ex_env) (aw_db w') =
        (Inr (then_some (later div 1000 \<le> 1000 div 1000 + VALIDITY_SECONDS * 1000) (pu_id r)), aw_db w')"
    using login_opens_session [OF codec(1) _ _ _ codec(2) _ run] ex_accounts_ok
    by (auto simp: VALIDITY_SECONDS_def in_i64_def)
  have "pu_id r = 7"
    using r by (auto simp: ex_accounts_def ex_account_def ex_user_def login_matches_def sLoginLookupKey_def ex_login_def)
  with run later show ?thesis by (auto simp: VALIDITY_SECONDS_def then_some_def)
qed

subsection \<open>Ending all sessions\<close>

text \<open>C21: After a user ends all sessions, no remember-me cookie issued for the account before, with
  whatever password hash and any earlier session generation, is accepted any more, and the other
  accounts are as before, provided SHA-256 does not collide on the old and the new signed text.\<close>

theorem logout_all_revokes:
  assumes "codec_ok c" and "users.keyed db" "distinct (map pu_nick (db_users db))" and "r \<in> set (db_users db)"
    and "pu_passwd r = Some h" "is_str h" "58 \<notin> set h" and "is_str (pu_nick r)" "is_str secret" "is_str old" "58 \<notin> set old"
    and "0 \<le> g" "g \<le> coalesce 0 (pu_token_generation r)" and "in_i64 (issued_at div 1000 + VALIDITY_SECONDS * 1000)"
    and "no_collision (tc_sha256 c)
      (utf8 (signed_text (issued_at div 1000 + VALIDITY_SECONDS * 1000) (pu_nick r) old secret g))
      (utf8 (signed_text (issued_at div 1000 + VALIDITY_SECONDS * 1000) (pu_nick r) h secret (coalesce 0 (pu_token_generation r) + 1)))"
    and "us_id s = pu_id r" and "logout_all_sessions (Some s) db = (Inr resp, db')"
  shows "optUserIdFromCookies c later (Some (sMakeRememberMeCookieValue c issued_at
      \<lparr>li_nick = pu_nick r, li_password_hash = old, li_token_generation = g\<rparr> secret)) secret db' = (Inr None, db')
    \<and> (\<forall>x\<in>set (db_users db). pu_id x \<noteq> pu_id r \<longrightarrow> x \<in> set (db_users db'))"
proof -
  let ?bump = "\<lambda>x. x\<lparr>pu_token_generation := Some (coalesce 0 (pu_token_generation x) + 1)\<rparr>"
  let ?i = "\<lparr>li_nick = pu_nick r, li_password_hash = old, li_token_generation = g\<rparr>"
  have db': "db_users db' = map (\<lambda>x. if pu_id x = pu_id r then ?bump x else x) (db_users db)"
    using assms(16,17) by (auto simp: logout_all_sessions_def bind_eff_def exec_update_checked_def exec_update_def update_where_def
        split: if_splits)
  then have find: "List.find (\<lambda>x. pu_nick x = li_nick ?i) (db_users db') = Some (?bump r)"
    using find_by_nick [OF assms(3,4), of "\<lambda>x. if pu_id x = pu_id r then ?bump x else x"] by simp
  have other: "x \<in> set (db_users db')" if "x \<in> set (db_users db)" "pu_id x \<noteq> pu_id r" for x
    unfolding db' using that by (auto simp: image_iff)
  show ?thesis
  proof (cases "pu_blocked r \<or> h = []")
    case True
    have "remember_optDecode c (sMakeRememberMeCookieValue c issued_at ?i secret) =
        Some (issued c (pu_nick r) (issued_at div 1000 + VALIDITY_SECONDS * 1000) old secret g)"
      using decode_encode [OF assms(1,8,14)] assms(14) by (simp add: sMakeRememberMeCookieValue_def)
    with True find other show ?thesis
      by (auto simp: optUserIdFromCookies_def optRememberMeUserId_def bind_eff_def fetch_optional_def issued_def assms(5))
  next
    case False
    let ?e = "issued_at div 1000 + VALIDITY_SECONDS * 1000"
    have "\<not> remember_bVerify c (issued c (pu_nick r) ?e old secret g) h secret (coalesce 0 (pu_token_generation r) + 1) (later div 1000)"
      using verify_issued_iff [OF assms(8,10,6,9,11,7), of c ?e g "coalesce 0 (pu_token_generation r) + 1"] assms(12,13,15)
      by simp
    then show ?thesis
      using session_lookup [OF assms(1) _ assms(14) find, of h later secret] False assms(5,8) other
      by (auto simp: then_some_def)
  qed
qed

theorem logout_all_revokes_witness:
  "fst (optUserIdFromCookies ex_codec 5000 (Some (sMakeRememberMeCookieValue ex_codec 1000
      \<lparr>li_nick = (u ''bob''), li_password_hash = (u ''$2b$pw''), li_token_generation = 2\<rparr> (u ''s''))) (u ''s'')
      (snd (logout_all_sessions (Some (summary_of 1000 ex_account)) ex_accounts))) = Inr None"
proof -
  have acc: "ex_account \<in> set (db_users ex_accounts)" "pu_passwd ex_account = Some (u ''$2b$pw'')" "pu_nick ex_account = (u ''bob'')"
    "pu_token_generation ex_account = Some 2" "us_id (summary_of 1000 ex_account) = pu_id ex_account"
    by (simp_all add: ex_accounts_def ex_account_def ex_user_def summary_of_def)
  obtain resp db' where run: "logout_all_sessions (Some (summary_of 1000 ex_account)) ex_accounts = (Inr resp, db')"
    by (simp add: logout_all_sessions_def bind_eff_def exec_update_checked_def exec_update_def ex_accounts_def ex_account_def
        ex_user_def summary_of_def in_i32_def)
  have "is_str (u ''bob'')" "is_str (u ''$2b$pw'')" "is_str (u ''s'')" "(58::rchar) \<notin> set (u ''$2b$pw'')" by (simp_all add: is_scalar_def)
  then show ?thesis
    using logout_all_revokes [OF ex_codec_ok ex_accounts_ok(1,2) acc(1,2) _ _ _ _ _ _ _ _ _ _ acc(5) run,
        of "(u ''s'')" "(u ''$2b$pw'')" 2 1000 5000] run acc
    by (simp add: no_collision_def ex_codec_def in_i64_def VALIDITY_SECONDS_def)
qed

subsection \<open>Who a post is written by\<close>

lemma anonymous_identity:
  "stAnonymousPostingIdentity now db = (Inr a, db') \<Longrightarrow> db' = db \<and> \<not> id_bAuthorized a
    \<and> us_nick (id_stUser a) = (u ''anonymous'') \<and> \<not> us_corrector (id_stUser a)
    \<and> (\<exists>r\<in>set (db_users db). pu_id r = us_id (id_stUser a) \<and> coalesce [] (pu_passwd r) = [])"
proof -
  assume run: "stAnonymousPostingIdentity now db = (Inr a, db')"
  then obtain r where r: "first_row (sort_key pu_id (filter (\<lambda>r. pu_nick r = (u ''anonymous'') \<and> coalesce [] (pu_passwd r) = [])
      (db_users db))) = Some r"
    and a: "a = \<lparr>id_stUser = (summary_of now r)\<lparr>us_corrector := False\<rparr>, id_bAuthorized = False\<rparr>" "db' = db"
    by (auto simp: stAnonymousPostingIdentity_def eff_simps select_rows_def simp del: u_simps split: option.splits)
  from first_row_in [OF r] have "r \<in> set (db_users db)" "pu_nick r = (u ''anonymous'')" "coalesce [] (pu_passwd r) = []"
    by (simp_all del: u_simps)
  with a show ?thesis by (auto simp: summary_of_def)
qed

text \<open>C30: The author of a post is never a registered account without its password: without a
  session, an authorized identity belongs to an activated and unblocked account of exactly the given
  nick whose stored hash accepts the password; every error keeps the password-less anonymous
  identity, and resolving changes nothing in the database.\<close>

theorem posting_identity_sound:
  assumes "users.keyed db" and "stResolvePostingIdentity pw now session optNick optPassword db = (Inr res, db')"
  shows "db' = db \<and> (case session of
      Some s \<Rightarrow> rs_stIdentity res = \<lparr>id_stUser = s, id_bAuthorized = True\<rparr> \<and> rs_optError res = None
    | None \<Rightarrow>
        if id_bAuthorized (rs_stIdentity res)
        then rs_optError res = None \<and> (\<exists>r\<in>set (db_users db). \<exists>h. Some (pu_nick r) = optNick \<and> pu_activated r \<and> \<not> pu_blocked r
          \<and> pu_passwd r = Some h \<and> password_verify pw (coalesce [] optPassword) h
          \<and> id_stUser (rs_stIdentity res) = summary_of now r)
        else us_nick (id_stUser (rs_stIdentity res)) = (u ''anonymous'') \<and> \<not> us_corrector (id_stUser (rs_stIdentity res))
          \<and> (\<exists>r\<in>set (db_users db). pu_id r = us_id (id_stUser (rs_stIdentity res)) \<and> coalesce [] (pu_passwd r) = []))"
proof (cases session)
  case (Some s)
  with assms(2) show ?thesis by (auto simp: stResolvePostingIdentity_def)
next
  case None
  let ?nick = "coalesce (u ''anonymous'') optNick"
  obtain a where an: "stAnonymousPostingIdentity now db = (Inr a, db)"
    using assms(2) None anonymous_identity by (fastforce simp: stResolvePostingIdentity_def eff_simps)
  note anon = anonymous_identity [OF an]
  show ?thesis
  proof (cases "?nick = [] \<or> ?nick = us_nick (id_stUser a)")
    case True
    then have "res = \<lparr>rs_stIdentity = a, rs_optError = None\<rparr>" "db' = db"
      using assms(2) None an by (auto simp: stResolvePostingIdentity_def Let_def)
    with None anon show ?thesis by simp
  next
    case False
    then have nick: "optNick = Some ?nick" using anon by (cases optNick) (simp_all del: u_simps)
    show ?thesis
    proof (cases "List.find (\<lambda>r. pu_nick r = ?nick) (db_users db)")
      case N: None
      with assms(2) None an False have "rs_stIdentity res = a" "db' = db"
        by (auto simp: stResolvePostingIdentity_def Let_def stLoadPostingUser_def bind_eff_def fetch_optional_def)
      with None anon show ?thesis by simp
    next
      case (Some r)
      then have r: "r \<in> set (db_users db)" "pu_nick r = ?nick" by (auto simp: find_Some_iff)
      have "List.find (\<lambda>x. pu_id x = pu_id r) (db_users db) = Some r"
        using users.find_key_iff [OF assms(1)] r(1) by simp
      then have one: "fetch_one db_users (\<lambda>x. pu_id x = us_id (summary_of now r)) db = (Inr r, db)"
        by (simp add: fetch_one_def summary_of_def)
      have load: "stLoadPostingUser now ?nick db = (Inr (Some (summary_of now r)), db)"
        using Some by (simp add: stLoadPostingUser_def bind_eff_def fetch_optional_def)
      have fails: "rs_stIdentity res = a \<and> db' = db \<or>
         (\<not> pu_blocked r \<and> pu_activated r \<and> (\<exists>h. pu_passwd r = Some h \<and> password_verify pw (coalesce [] optPassword) h)
          \<and> res = \<lparr>rs_stIdentity = \<lparr>id_stUser = summary_of now r, id_bAuthorized = True\<rparr>, rs_optError = None\<rparr> \<and> db' = db)"
        using assms(2) None an False load one
        by (auto simp: stResolvePostingIdentity_def Let_def split: if_splits option.splits)
      then show ?thesis
      proof
        assume "rs_stIdentity res = a \<and> db' = db"
        with None anon show ?thesis by simp
      next
        assume g: "\<not> pu_blocked r \<and> pu_activated r \<and> (\<exists>h. pu_passwd r = Some h \<and> password_verify pw (coalesce [] optPassword) h)
          \<and> res = \<lparr>rs_stIdentity = \<lparr>id_stUser = summary_of now r, id_bAuthorized = True\<rparr>, rs_optError = None\<rparr> \<and> db' = db"
        then have "\<exists>h. Some (pu_nick r) = optNick \<and> pu_activated r \<and> \<not> pu_blocked r
          \<and> pu_passwd r = Some h \<and> password_verify pw (coalesce [] optPassword) h" using r(2) nick by simp
        with None g r(1) show ?thesis by auto
      qed
    qed
  qed
qed

theorem posting_identity_sound_witness:
  "\<exists>res. stResolvePostingIdentity (ae_pw ex_env) 1000 None (Some (u ''bob'')) (Some (u ''no'')) ex_accounts = (Inr res, ex_accounts)
     \<and> us_nick (id_stUser (rs_stIdentity res)) = (u ''anonymous'')"
proof -
  have "\<exists>res. stResolvePostingIdentity (ae_pw ex_env) 1000 None (Some (u ''bob'')) (Some (u ''no'')) ex_accounts = (Inr res, ex_accounts)
     \<and> \<not> id_bAuthorized (rs_stIdentity res)"
    using ex_verify(2)
    by (simp add: stResolvePostingIdentity_def stAnonymousPostingIdentity_def stLoadPostingUser_def bind_eff_def stmt_defs
        first_row_def Let_def summary_of_def ex_accounts_def ex_account_def ex_user_def)
  then show ?thesis
    using posting_identity_sound [OF ex_accounts_ok(1), of "ae_pw ex_env" 1000 None "Some (u ''bob'')" "Some (u ''no'')"]
    by fastforce
qed

subsection \<open>The CAPTCHA stands before the password\<close>

definition local_url :: "rstr \<Rightarrow> bool" where
  "local_url url \<longleftrightarrow> (\<exists>t. url = 47 # t \<and> (t = [] \<or> hd t \<noteq> 47 \<and> hd t \<noteq> 92))"

lemma safe_redirect_local: "local_url (safe_redirect_url url)"
  by (cases url; cases "tl url") (auto simp: safe_redirect_url_def local_url_def)

lemma recorded_required:
  "t < inst + lc_dtTtl c \<Longrightarrow>
     bRequireForIp (vRecordFailedAttempt tl_fn oldest ip nick inst c) ip t
     \<and> bRequireForUser tl_fn (vRecordFailedAttempt tl_fn oldest ip nick inst c) nick t"
  by (simp add: vRecordFailedAttempt_def Let_def bRequireForIp_def bRequireForUser_def)

lemma login_outcome_cases:
  "(\<exists>e. login_outcome env now sec form oc = LoginPage (Some e) (lf_nick form) (safe_redirect_url (lf_redirect_url form)) True
      \<and> (oc = NotActivated \<or> oc = Failed))
   \<or> (\<exists>loc s rm. login_outcome env now sec form oc = AuthFound loc s rm \<and> local_url loc \<and> oc \<noteq> NotActivated \<and> oc \<noteq> Failed
      \<and> (s = [] \<or> (\<exists>i. oc = Success i)))"
  using safe_redirect_local [of "lf_redirect_url form"]
  by (cases oc) (auto simp: login_outcome_def Let_def auth_found_def local_url_def)

text \<open>C31: A login attempt from a flagged address, or after a recent failure of its address or user name,
  touches neither the accounts nor the cache unless the CAPTCHA is solved.  An attempt that ends in
  the login page after that makes the CAPTCHA mandatory for its address and its name until the
  deadline; any other outcome leaves the cache alone; and a redirect never leaves the site.\<close>

theorem login_guarded:
  assumes "routes_login env now inst ip sec None form w = (Inr resp, w')"
  shows "\<exists>bIpFlag. bIpCaptchaRequired (ae_inet env) ip (aw_db w) = (Inr bIpFlag, aw_db w) \<and>
    (if captcha_needed bIpFlag env inst ip (lf_nick form) (aw_attempts w)
        \<and> sValidateCaptcha (ae_post env) (ae_captcha env) (lf_captcha_response form) ip \<noteq> Inr ()
    then w' = w \<and> (\<exists>e. resp = LoginPage (Some e) (lf_nick form) (safe_redirect_url (lf_redirect_url form)) True)
    else (case resp of
        LoginPage _ _ _ _ \<Rightarrow> \<forall>t. t < inst + lc_dtTtl (aw_attempts w) \<longrightarrow>
          bRequireForIp (aw_attempts w') ip t \<and> bRequireForUser (ae_to_lower env) (aw_attempts w') (lf_nick form) t
      | AuthFound loc _ _ \<Rightarrow> aw_attempts w' = aw_attempts w \<and> local_url loc))"
proof (rule routes_login_run [OF assms], rule exI, rule conjI, assumption)
  fix bIp
  let ?need = "captcha_needed bIp env inst ip (lf_nick form) (aw_attempts w)"
  let ?ok = "sValidateCaptcha (ae_post env) (ae_captcha env) (lf_captcha_response form) ip"
  assume run: "(case (if ?need then ?ok else Inr ()) of
        Inl sError \<Rightarrow> (Inr (LoginPage (Some sError) (lf_nick form) (safe_redirect_url (lf_redirect_url form)) True), w)
      | Inr _ \<Rightarrow>
          bind_eff (on_users (verify_login (ae_pw env) (ae_norm env) (ae_lower env) now (lf_nick form) (lf_passwd form))) (\<lambda>outcome w1.
            (Inr (login_outcome env now sec form outcome),
             w1\<lparr>aw_attempts := vRecordLoginFailureBeforeDelay env inst ip (lf_nick form) outcome (aw_attempts w1)\<rparr>)) w)
      = (Inr resp, w')"
  show "if ?need \<and> ?ok \<noteq> Inr ()
    then w' = w \<and> (\<exists>e. resp = LoginPage (Some e) (lf_nick form) (safe_redirect_url (lf_redirect_url form)) True)
    else (case resp of
        LoginPage _ _ _ _ \<Rightarrow> \<forall>t. t < inst + lc_dtTtl (aw_attempts w) \<longrightarrow>
          bRequireForIp (aw_attempts w') ip t \<and> bRequireForUser (ae_to_lower env) (aw_attempts w') (lf_nick form) t
      | AuthFound loc _ _ \<Rightarrow> aw_attempts w' = aw_attempts w \<and> local_url loc)"
  proof (cases "?need \<and> ?ok \<noteq> Inr ()")
    case True
    then show ?thesis using run by (auto split: sum.splits)
  next
    case False
    then have "(if ?need then ?ok else Inr ()) = Inr ()" by auto
    with run obtain oc where resp: "resp = login_outcome env now sec form oc"
      and att: "aw_attempts w' = vRecordLoginFailureBeforeDelay env inst ip (lf_nick form) oc (aw_attempts w)"
      by (auto simp: eff_simps)
    consider (page) e where "login_outcome env now sec form oc
          = LoginPage (Some e) (lf_nick form) (safe_redirect_url (lf_redirect_url form)) True" "oc = NotActivated \<or> oc = Failed"
      | (redirect) loc s rm where "login_outcome env now sec form oc = AuthFound loc s rm" "local_url loc"
          "oc \<noteq> NotActivated" "oc \<noteq> Failed"
      using login_outcome_cases [of env now sec form oc] by blast
    then show ?thesis
    proof cases
      case page
      then show ?thesis using False att resp recorded_required by (auto simp: vRecordLoginFailureBeforeDelay_def)
    next
      case redirect
      then show ?thesis using False att resp by (cases oc) (auto simp: vRecordLoginFailureBeforeDelay_def)
    qed
  qed
qed

theorem login_guarded_witness:
  "\<exists>resp w'. routes_login ex_env 1000 1000 (u ''1.2.3.4'') True None (ex_login\<lparr>lf_passwd := (u ''no'')\<rparr>) ex_auth_world = (Inr resp, w')
     \<and> bRequireForIp (aw_attempts w') (u ''1.2.3.4'') 2000"
proof -
  have "verify_login (ae_pw ex_env) (ae_norm ex_env) (ae_lower ex_env) 1000 (u ''bob'') (u ''no'') ex_accounts = (Inr Failed, ex_accounts)"
    using ex_verify
    by (simp add: verify_login_def login_row_def sLoginLookupKey_def bind_eff_def fetch_optional_def
        ex_accounts_def ex_account_def ex_user_def)
  moreover have "\<not> captcha_needed False ex_env 1000 (u ''1.2.3.4'') (u ''bob'') CLoginAttemptCache_default"
    by (simp add: captcha_needed_def bRequireForIp_def bRequireForUser_def ex_env_def
        CLoginAttemptCache_default_def)
  ultimately obtain e w' where run: "routes_login ex_env 1000 1000 (u ''1.2.3.4'') True None (ex_login\<lparr>lf_passwd := (u ''no'')\<rparr>) ex_auth_world
      = (Inr (LoginPage e (u ''bob'') (u ''/x'') True), w')" and need: "\<not> captcha_needed False ex_env 1000 (u ''1.2.3.4'') (u ''bob'') (aw_attempts ex_auth_world)"
    by (simp add: routes_login_def ex_auth_world_def ex_login_def on_users_def bind_eff_def login_outcome_def
        safe_redirect_url_def ex_flag)
  have "lf_nick (ex_login\<lparr>lf_passwd := (u ''no'')\<rparr>) = (u ''bob'')" "lc_dtTtl (aw_attempts ex_auth_world) = minutes 30"
    by (simp_all add: ex_login_def ex_auth_world_def CLoginAttemptCache_default_def)
  then show ?thesis using login_guarded [OF run] need run by (auto simp: duration_defs ex_auth_world_def ex_flag)
qed

end
