(* ===== verification/Profile.thy ===== *)
theory Profile
  imports Login
begin

section \<open>Profile settings (src/profile.rs)\<close>

text \<open>
  The settings a user keeps in the \<open>hstore\<close> column of \<open>user_settings\<close>: reading the text form,
  applying the settings form, writing, the choices the form offers and the picture of a user.
  PostgreSQL's text form of an hstore is a parameter; \<open>hstore_ok\<close> states what is relied on.
  A \<open>HashMap\<close> of strings is a map.
\<close>

subsection \<open>Strings\<close>

text \<open>\<open>str::split_once\<close>.\<close>

fun split_once :: "rstr \<Rightarrow> rstr \<Rightarrow> (rstr \<times> rstr) option" where
  "split_once p [] = (if p = [] then Some ([], []) else None)"
| "split_once p (c # s) = (if starts_with p (c # s) then Some ([], drop (length p) (c # s))
     else map_option (\<lambda>(a, b). (c # a, b)) (split_once p s))"

lemma split_once_first:
  assumes "p = c # q" "c \<notin> set a"
  shows "split_once p (a @ p @ b) = Some (a, b)"
  using assms(2)
proof (induction a)
  case Nil
  then show ?case using assms(1) by (simp add: starts_with_append)
next
  case (Cons d a)
  then show ?case using assms(1) by simp
qed

subsection \<open>Settings\<close>

record StProfileSettings =
  sp_style :: rstr
  sp_format_mode :: rstr
  sp_topics :: int
  sp_messages :: int
  sp_photos :: bool
  sp_hide_adsense :: bool
  sp_main_gallery :: bool
  sp_avatar :: rstr
  sp_tracker_mode :: rstr
  sp_old_tracker :: bool
  sp_old_notifications :: bool
  sp_reaction_notification :: bool

record StThemeOption =
  to_id :: rstr
  to_label :: rstr
  to_selected :: bool

record StChoiceOption =
  co_value :: rstr
  co_label :: rstr
  co_selected :: bool

record StNumberOption =
  no_value :: int
  no_selected :: bool

definition TOPICS_VALUES :: "int list" where
  "TOPICS_VALUES = [30, 50, 100, 200, 300, 500]"

definition MESSAGES_VALUES :: "int list" where
  "MESSAGES_VALUES = [25, 50, 100, 200, 300, 500]"

definition THEMES :: "(rstr \<times> rstr \<times> bool) list" where
  "THEMES = [((u ''tango''), (u ''tango''), False), ((u ''tango-light''), (u ''tango-light''), False), ((u ''tango-auto''), (u ''tango-auto''), False),
     ((u ''black''), (u ''black''), False), ((u ''white2''), (u ''white2''), True), ((u ''waltz''), (u ''waltz''), True),
     ((u ''zomg_ponies''), (u ''zomg_ponies''), True)]"

definition AVATARS :: "rstr list" where
  "AVATARS = [(u ''empty''), (u ''identicon''), (u ''monsterid''), (u ''wavatar''), (u ''retro''), (u ''robohash'')]"

definition TRACKER_MODES :: "(rstr \<times> rstr) list" where
  "TRACKER_MODES = [((u ''all''), ([1074, 1089, 1077] :: rstr) \<comment> \<open>vse\<close>), ((u ''main''), ([1086, 1089, 1085, 1086, 1074, 1085, 1099, 1077] :: rstr) \<comment> \<open>osnovnye\<close>)]"

definition FORMAT_MODES :: "(rstr \<times> rstr \<times> bool) list" where
  "FORMAT_MODES = [((u ''markdown''), (u ''Markdown''), False), ((u ''lorcode''), (u ''LORCODE''), False), ((u ''ntobr''), (u ''User line break''), True)]"

definition settings_default :: StProfileSettings where
  "settings_default = \<lparr>sp_style = (u ''tango-auto''), sp_format_mode = (u ''markdown''), sp_topics = 30, sp_messages = 50,
     sp_photos = True, sp_hide_adsense = True, sp_main_gallery = True, sp_avatar = (u ''empty''), sp_tracker_mode = (u ''main''),
     sp_old_tracker = False, sp_old_notifications = False, sp_reaction_notification = True\<rparr>"

definition is_style :: "rstr \<Rightarrow> bool" where
  "is_style v = list_ex (\<lambda>(k, _, _). k = v) THEMES"

definition is_format_mode :: "rstr \<Rightarrow> bool" where
  "is_format_mode v = list_ex (\<lambda>(k, _, _). k = v) FORMAT_MODES"

definition parse_bool :: "rstr \<Rightarrow> bool" where
  "parse_bool v \<longleftrightarrow> v \<in> {(u ''true''), (u ''t''), (u ''yes''), (u ''on''), (u ''1'')}"

definition clean_hstore_token :: "rstr \<Rightarrow> rstr" where
  "clean_hstore_token token = replace_str [92, 34] [34] (trim_by (\<lambda>c. c = 34) (trim token))"

definition parse_hstore_text :: "rstr \<Rightarrow> rstr \<rightharpoonup> rstr" where
  "parse_hstore_text value = fold (\<lambda>part m. case split_once (u ''=>'') part of None \<Rightarrow> m
     | Some (key, val) \<Rightarrow> if clean_hstore_token key = [] then m
         else m(clean_hstore_token key \<mapsto> clean_hstore_token val)) (split_on 44 value) Map.empty"

text \<open>A setting is taken from the text when it is there and acceptable.\<close>

definition setting :: "(rstr \<rightharpoonup> rstr) \<Rightarrow> rstr \<Rightarrow> (rstr \<Rightarrow> 'a option) \<Rightarrow> 'a \<Rightarrow> 'a" where
  "setting m k f old = (case m k of None \<Rightarrow> old | Some v \<Rightarrow> (case f v of None \<Rightarrow> old | Some a \<Rightarrow> a))"

definition accept :: "(rstr \<Rightarrow> bool) \<Rightarrow> rstr \<Rightarrow> rstr option" where
  "accept ok v = (if ok v then Some v else None)"

definition is_tracker_mode :: "rstr \<Rightarrow> bool" where
  "is_tracker_mode v = list_ex (\<lambda>(k, _). k = v) TRACKER_MODES"

definition from_hstore_text :: "rstr option \<Rightarrow> StProfileSettings" where
  "from_hstore_text opt_text =
     (let d = settings_default; m = (case opt_text of None \<Rightarrow> Map.empty | Some t \<Rightarrow> parse_hstore_text t);
          flag = (\<lambda>k old. setting m k (\<lambda>v. Some (parse_bool v)) old) in
      \<lparr>sp_style = setting m (u ''style'') (accept is_style) (sp_style d),
       sp_format_mode = setting m (u ''format.mode'') (accept is_format_mode) (sp_format_mode d),
       sp_topics = setting m (u ''topics'') parse_i32 (sp_topics d),
       sp_messages = setting m (u ''messages'') parse_i32 (sp_messages d),
       sp_photos = flag (u ''photos'') (sp_photos d),
       sp_hide_adsense = flag (u ''hideAdsense'') (sp_hide_adsense d),
       sp_main_gallery = flag (u ''mainGallery'') (sp_main_gallery d),
       sp_avatar = setting m (u ''avatar'') (accept (\<lambda>v. v \<in> set AVATARS)) (sp_avatar d),
       sp_tracker_mode = setting m (u ''trackerMode'') (accept is_tracker_mode) (sp_tracker_mode d),
       sp_old_tracker = flag (u ''oldTracker'') (sp_old_tracker d),
       sp_old_notifications = flag (u ''oldNotifications'') (sp_old_notifications d),
       sp_reaction_notification = flag (u ''reactionNotification'') (sp_reaction_notification d)\<rparr>)"

text \<open>A number must be on the list unless it is the one already saved.\<close>

definition form_number :: "(rstr \<rightharpoonup> rstr) \<Rightarrow> rstr \<Rightarrow> int list \<Rightarrow> int \<Rightarrow> rstr \<Rightarrow> rstr + int" where
  "form_number form k allowed old e =
     and_then (ok_or e (Option.bind (form k) parse_i32)) (\<lambda>n.
       if n \<notin> set allowed \<and> n \<noteq> old then Inl e else Inr n)"

definition form_choice :: "(rstr \<rightharpoonup> rstr) \<Rightarrow> rstr \<Rightarrow> (rstr \<Rightarrow> bool) \<Rightarrow> rstr \<Rightarrow> rstr + rstr" where
  "form_choice form k ok e = and_then (ok_or e (form k)) (\<lambda>v. if \<not> ok v then Inl e else Inr v)"

definition apply_form :: "StProfileSettings \<Rightarrow> (rstr \<rightharpoonup> rstr) \<Rightarrow> rstr + StProfileSettings" where
  "apply_form s form =
     and_then (form_number form (u ''topics'') TOPICS_VALUES (sp_topics s) ([1085, 1077, 1082, 1086, 1088, 1088, 1077, 1082, 1090, 1085, 1086, 1077, 32, 1095, 1080, 1089, 1083, 1086, 32, 1090, 1077, 1084] :: rstr) \<comment> \<open>nekorrektnoe chislo tem\<close>) (\<lambda>topics.
     and_then (form_number form (u ''messages'') MESSAGES_VALUES (sp_messages s) ([1085, 1077, 1082, 1086, 1088, 1088, 1077, 1082, 1090, 1085, 1086, 1077, 32, 1095, 1080, 1089, 1083, 1086, 32, 1082, 1086, 1084, 1084, 1077, 1085, 1090, 1072, 1088, 1080, 1077, 1074] :: rstr) \<comment> \<open>nekorrektnoe chislo kommentariev\<close>) (\<lambda>messages.
     and_then (form_choice form (u ''style'') is_style ([1085, 1077, 1087, 1088, 1072, 1074, 1083, 1100, 1085, 1086, 1077, 32, 1085, 1072, 1079, 1074, 1072, 1085, 1080, 1077, 32, 1090, 1077, 1084, 1099] :: rstr) \<comment> \<open>nepravlnoe nazvanie temy\<close>) (\<lambda>style.
     and_then (form_choice form (u ''format_mode'') is_format_mode ([1085, 1077, 1082, 1086, 1088, 1088, 1077, 1082, 1090, 1085, 1099, 1081, 32, 1088, 1077, 1078, 1080, 1084, 32, 1092, 1086, 1088, 1084, 1072, 1090, 1080, 1088, 1086, 1074, 1072, 1085, 1080, 1103] :: rstr) \<comment> \<open>nekorrektnyj rezhim formatirovaniya\<close>) (\<lambda>format_mode.
     and_then (form_choice form (u ''avatar'') (\<lambda>v. v \<in> set AVATARS) (u ''invalid avatar value'')) (\<lambda>avatar.
     Inr (s\<lparr>sp_topics := topics, sp_messages := messages, sp_style := style, sp_format_mode := format_mode,
       sp_avatar := avatar,
       sp_photos := (form (u ''photos'') \<noteq> None),
       sp_hide_adsense := (form (u ''hideAdsense'') \<noteq> None),
       sp_main_gallery := (form (u ''mainGallery'') \<noteq> None),
       sp_old_tracker := (form (u ''oldTracker'') \<noteq> None),
       sp_old_notifications := (form (u ''oldNotifications'') \<noteq> None),
       sp_reaction_notification := (form (u ''reactionNotification'') \<noteq> None),
       sp_tracker_mode := coalesce (u ''main'') (Option.bind (form (u ''trackerMode'')) (accept is_tracker_mode))\<rparr>))))))"

text \<open>The two arrays, zipped as the \<open>hstore\<close> function of PostgreSQL does.\<close>

definition to_hstore_arrays :: "StProfileSettings \<Rightarrow> params" where
  "to_hstore_arrays s = zip
     [(u ''style''), (u ''format.mode''), (u ''topics''), (u ''messages''), (u ''photos''), (u ''hideAdsense''), (u ''mainGallery''), (u ''avatar''),
      (u ''trackerMode''), (u ''oldTracker''), (u ''oldNotifications''), (u ''reactionNotification'')]
     [sp_style s, sp_format_mode s, show_int (sp_topics s), show_int (sp_messages s), show_bool (sp_photos s),
      show_bool (sp_hide_adsense s), show_bool (sp_main_gallery s), sp_avatar s, sp_tracker_mode s,
      show_bool (sp_old_tracker s), show_bool (sp_old_notifications s), show_bool (sp_reaction_notification s)]"

subsection \<open>The choices of the form\<close>

definition theme_options :: "StProfileSettings \<Rightarrow> int \<Rightarrow> StThemeOption list" where
  "theme_options s score = map (\<lambda>(i, label, _). \<lparr>to_id = i, to_label = label, to_selected = (sp_style s = i)\<rparr>)
     (filter (\<lambda>(i, _, deprecated). \<not> deprecated \<or> 500 \<le> score \<or> sp_style s = i) THEMES)"

definition number_options :: "int list \<Rightarrow> int \<Rightarrow> StNumberOption list" where
  "number_options vals n = map (\<lambda>v. \<lparr>no_value = v, no_selected = (n = v)\<rparr>) (if n \<in> set vals then vals else sort (vals @ [n]))"

definition topic_options :: "StProfileSettings \<Rightarrow> StNumberOption list" where
  "topic_options s = number_options TOPICS_VALUES (sp_topics s)"

definition message_options :: "StProfileSettings \<Rightarrow> StNumberOption list" where
  "message_options s = number_options MESSAGES_VALUES (sp_messages s)"

definition avatar_options :: "StProfileSettings \<Rightarrow> StChoiceOption list" where
  "avatar_options s = map (\<lambda>v. \<lparr>co_value = v, co_label = v, co_selected = (sp_avatar s = v)\<rparr>) AVATARS"

definition tracker_options :: "StProfileSettings \<Rightarrow> StChoiceOption list" where
  "tracker_options s = map (\<lambda>(v, label). \<lparr>co_value = v, co_label = label, co_selected = (sp_tracker_mode s = v)\<rparr>) TRACKER_MODES"

definition format_options :: "StProfileSettings \<Rightarrow> int \<Rightarrow> StChoiceOption list" where
  "format_options s score = map (\<lambda>(v, label, _). \<lparr>co_value = v, co_label = label, co_selected = (sp_format_mode s = v)\<rparr>)
     (filter (\<lambda>(v, _, deprecated). \<not> deprecated \<or> 500 \<le> score \<or> sp_format_mode s = v) FORMAT_MODES)"

subsection \<open>Saving (src/routes/users.rs)\<close>

definition ensure_self_service_actor :: "StUserSummary option \<Rightarrow> rstr \<Rightarrow> app_error + unit" where
  "ensure_self_service_actor optCurrent sTargetNick = (case optCurrent of None \<Rightarrow> Inl Forbidden
     | Some c \<Rightarrow> (if us_nick c \<noteq> sTargetNick then Inl Forbidden else Inr ()))"

definition ensure_self :: "StUserSummary option \<Rightarrow> pg_user \<Rightarrow> app_error + unit" where
  "ensure_self current target = (case current of None \<Rightarrow> Inl Forbidden
     | Some c \<Rightarrow> (if us_id c = pu_id target then Inr () else Inl Forbidden))"

text \<open>\<open>get_user\<close> yields a projection of the row; the row stands for it.\<close>

definition get_user :: "rstr \<Rightarrow> pg_user pg_eff" where
  "get_user nick = bind_eff (fetch_optional db_users (\<lambda>r. pu_nick r = nick)) (\<lambda>r. of_result (ok_or NotFound r))"

definition settings_text :: "int \<Rightarrow> rstr option pg_eff" where
  "settings_text i = bind_eff (fetch_optional db_user_settings (\<lambda>r. st_id r = i)) (\<lambda>r. ret_eff (map_option st_settings r))"

definition put_settings :: "int \<Rightarrow> rstr \<Rightarrow> unit pg_eff" where
  "put_settings i t db = (Inr (), if i \<in> st_id ` set (db_user_settings db)
     then db_user_settings_update (update_where (\<lambda>r. st_id r = i) (st_settings_update (\<lambda>_. t))) db
     else db_user_settings_update (\<lambda>rs. rs @ [\<lparr>st_id = i, st_settings = t\<rparr>]) db)"

text \<open>\<open>hs\<close> is \<open>hstore(keys, values)::text\<close>; the result is the target of the redirect.\<close>

definition save_settings :: "(params \<Rightarrow> rstr) \<Rightarrow> (rstr \<Rightarrow> rstr) \<Rightarrow> rstr \<Rightarrow> StUserSummary option \<Rightarrow> (rstr \<rightharpoonup> rstr) \<Rightarrow> rstr pg_eff" where
  "save_settings hs encode nick current form =
     bind_eff (of_result (ensure_self_service_actor current nick)) (\<lambda>_.
     bind_eff (get_user nick) (\<lambda>user.
     bind_eff (of_result (ensure_self current user)) (\<lambda>_.
     bind_eff (settings_text (pu_id user)) (\<lambda>t.
     bind_eff (map_err stBadInput (of_result (apply_form (from_hstore_text t) form))) (\<lambda>s.
     bind_eff (put_settings (pu_id user) (hs (to_hstore_arrays s))) (\<lambda>_.
     ret_eff ((u ''/people/'') @ encode (pu_nick user) @ (u ''/profile''))))))))"

subsection \<open>The picture of a user\<close>

record StUserpic =
  up_sUrl :: rstr
  up_iWidth :: int
  up_iHeight :: int

text \<open>\<open>md5hex\<close> is the hexadecimal digest of the lower-cased address.\<close>

definition gravatar_url :: "(rstr \<Rightarrow> rstr) \<Rightarrow> rstr \<Rightarrow> rstr \<Rightarrow> nat \<Rightarrow> rstr" where
  "gravatar_url md5hex email avatar_mode sz =
     (u ''https://secure.gravatar.com/avatar/'') @ md5hex email @ (u ''?s='') @ show_nat sz @ (u ''&r=g&d='')
       @ (if avatar_mode = (u ''empty'') then (u ''blank'') else avatar_mode) @ (u ''&f=y'')"

definition sEffectiveAvatarMode :: "rstr \<Rightarrow> bool \<Rightarrow> rstr" where
  "sEffectiveAvatarMode sViewerAvatarMode bMysteryMan =
     (if bMysteryMan \<and> sViewerAvatarMode = (u ''empty'') then (u ''mm'') else sViewerAvatarMode)"

definition stDisabledUserpic :: StUserpic where
  "stDisabledUserpic = \<lparr>up_sUrl = (u ''/img/p.gif''), up_iWidth = 1, up_iHeight = 1\<rparr>"

text \<open>The dimensions are \<open>u32\<close> values, so a scaled side is below 150 and fits.\<close>

definition stScaleUserpicDimensions :: "nat \<Rightarrow> nat \<Rightarrow> int \<times> int" where
  "stScaleUserpicDimensions iWidth iHeight =
     (if iWidth \<le> 150 \<and> iHeight \<le> 150 then (int iWidth, int iHeight)
      else if iWidth > iHeight then (150, int (iHeight * 150 div iWidth))
      else (int (iWidth * 150 div iHeight), 150))"

text \<open>\<open>dims\<close> reads the header of a local photo; it is \<open>None\<close> for a name that is not a plain file name of
  a known format and for an unreadable file.\<close>

definition stResolveUserpic ::
    "(rstr \<Rightarrow> rstr) \<Rightarrow> (rstr \<Rightarrow> (nat \<times> nat) option) \<Rightarrow> rstr \<Rightarrow> bool \<Rightarrow> bool \<Rightarrow> rstr option \<Rightarrow> rstr option \<Rightarrow> StUserpic" where
  "stResolveUserpic md5hex dims sViewerAvatarMode bMysteryMan bAnonymous optLocalPhoto optEmail =
     (let sAvatarMode = sEffectiveAvatarMode sViewerAvatarMode bMysteryMan;
          gravatar = (\<lambda>e. \<lparr>up_sUrl = gravatar_url md5hex e sAvatarMode 150, up_iWidth = 150, up_iHeight = 150\<rparr>);
          fallback = (case optEmail of None \<Rightarrow> stDisabledUserpic
            | Some sEmail \<Rightarrow> (if sAvatarMode = (u ''empty'') then stDisabledUserpic else gravatar sEmail)) in
      if bAnonymous \<and> bMysteryMan then gravatar (u ''anonymous@linux.org.ru'')
      else (case optLocalPhoto of None \<Rightarrow> fallback
        | Some sPhoto \<Rightarrow> if sPhoto = [] then fallback
            else (case dims sPhoto of None \<Rightarrow> fallback
              | Some (w, h) \<Rightarrow> if w > 0 \<and> h > 0
                  then (case stScaleUserpicDimensions w h of (sw, sh) \<Rightarrow> \<lparr>up_sUrl = (u ''/photos/'') @ sPhoto, up_iWidth = sw, up_iHeight = sh\<rparr>)
                  else fallback)))"

subsection \<open>Saved settings are read back\<close>

text \<open>
  PostgreSQL writes an hstore as quoted pairs in an order of its own; here only for texts that
  need no escape.
\<close>

definition plain :: "rstr \<Rightarrow> bool" where
  "plain s \<longleftrightarrow> s \<noteq> [] \<and> list_all (\<lambda>c. is_ascii_alphanumeric c \<or> c \<in> {45, 46, 95}) s"

definition hstore_pair :: "rstr \<times> rstr \<Rightarrow> rstr" where
  "hstore_pair = (\<lambda>(k, v). [34] @ k @ [34] @ (u ''=>'') @ [34] @ v @ [34])"

definition hstore_ok :: "(params \<Rightarrow> rstr) \<Rightarrow> bool" where
  "hstore_ok hs \<longleftrightarrow> (\<forall>kvs. distinct (map fst kvs) \<and> list_all (\<lambda>(k, v). plain k \<and> plain v) kvs \<longrightarrow>
     (\<exists>kvs'. distinct (map fst kvs') \<and> set kvs' = set kvs \<and> hs kvs = join_with (u '', '') (map hstore_pair kvs')))"

lemma plain_chars:
  assumes "plain s"
  shows "s \<noteq> []" "c \<in> set s \<Longrightarrow> \<not> is_whitespace c \<and> c \<notin> {34, 44, 61, 92}"
  using assms by (auto simp: plain_def list_all_iff is_ascii_alphanumeric_def is_ascii_digit_def is_whitespace_def)

lemma replace_absent: "hd p \<notin> set s \<Longrightarrow> p \<noteq> [] \<Longrightarrow> replace_str p r s = s"
  by (cases p; induction s) auto

lemma clean_quoted:
  assumes "plain s" "set w \<subseteq> {32}"
  shows "clean_hstore_token (w @ 34 # s @ [34]) = s"
proof -
  have ws: "dropWhile is_whitespace (w @ 34 # s @ [34]) = 34 # s @ [34]"
    using assms(2) by (induction w) (auto simp: is_whitespace_def)
  have t: "trim (w @ 34 # s @ [34]) = 34 # s @ [34]"
    unfolding trim_def trim_by_def ws by (simp add: is_whitespace_def)
  have q: "c \<noteq> 34" if "c \<in> set s" for c using plain_chars(2) [OF assms(1) that] by simp
  have "dropWhile (\<lambda>c. c = 34) s = s" using q by (cases s) auto
  moreover have "dropWhile (\<lambda>c. c = 34) (s @ [34]) = s @ [34]"
    using q plain_chars(1) [OF assms(1)] by (cases s) auto
  moreover have "dropWhile (\<lambda>c. c = 34) (rev s) = rev s" using q by (cases s rule: rev_cases) auto
  ultimately have "trim_by (\<lambda>c. c = 34) (34 # s @ [34]) = s" by (simp add: trim_by_def)
  moreover have "replace_str [92, 34] [34] s = s"
    using plain_chars(2) [OF assms(1)] by (intro replace_absent) auto
  ultimately show ?thesis by (simp add: clean_hstore_token_def t)
qed

lemma pair_no_comma: "plain k \<Longrightarrow> plain v \<Longrightarrow> 44 \<notin> set (hstore_pair (k, v))"
  using plain_chars(2) by (auto simp: hstore_pair_def)

lemma parse_pair:
  assumes "plain k" "plain v" "set w \<subseteq> {32}"
  shows "(case split_once (u ''=>'') (w @ hstore_pair (k, v)) of None \<Rightarrow> m
     | Some (key, val) \<Rightarrow> if clean_hstore_token key = [] then m
         else m(clean_hstore_token key \<mapsto> clean_hstore_token val)) = m(k \<mapsto> v)"
proof -
  have "61 \<notin> set w" "61 \<notin> set k" using assms(3) plain_chars(2) [OF assms(1), of 61] by auto
  then have "61 \<notin> set (w @ 34 # k @ [34])" by simp
  then have "split_once (u ''=>'') ((w @ 34 # k @ [34]) @ (u ''=>'') @ 34 # v @ [34]) = Some (w @ 34 # k @ [34], 34 # v @ [34])"
    by (intro split_once_first [of _ 61 "[62]"]) simp_all
  then have "split_once (u ''=>'') (w @ hstore_pair (k, v)) = Some (w @ 34 # k @ [34], 34 # v @ [34])"
    by (simp add: hstore_pair_def)
  with clean_quoted [OF assms(1,3)] clean_quoted [OF assms(2), of "[]"] plain_chars(1) [OF assms(1)] show ?thesis
    by simp
qed

lemma split_joined:
  "ps \<noteq> [] \<Longrightarrow> \<forall>p\<in>set ps. d \<notin> set p \<Longrightarrow> d \<noteq> e \<Longrightarrow> split_on d (join_with [d, e] ps) = hd ps # map (Cons e) (tl ps)"
proof (induction ps rule: induct_list012)
  case (3 p q ps)
  then have "split_on d (e # join_with [d, e] (q # ps)) = (e # q) # map (Cons e) ps" by simp
  with 3 show ?case by (simp add: split_on_append_delim)
qed (simp_all add: split_on_no_delim)

definition put_pair :: "rstr \<times> rstr \<Rightarrow> (rstr \<rightharpoonup> rstr) \<Rightarrow> (rstr \<rightharpoonup> rstr)" where
  "put_pair kv m = m(fst kv \<mapsto> snd kv)"

lemma fold_pairs: "fold put_pair kvs m = m ++ map_of (rev kvs)"
proof (induction kvs arbitrary: m)
  case (Cons kv kvs)
  have "put_pair kv m ++ map_of (rev kvs) = m ++ ([fst kv \<mapsto> snd kv] ++ map_of (rev kvs))"
    unfolding put_pair_def by (metis map_add_assoc map_add_empty map_add_upd)
  with Cons show ?case by simp
qed simp

lemma parse_hstore:
  assumes "kvs \<noteq> []" "distinct (map fst kvs)" "list_all (\<lambda>(k, v). plain k \<and> plain v) kvs"
  shows "parse_hstore_text (join_with (u '', '') (map hstore_pair kvs)) = map_of kvs"
proof -
  let ?step = "\<lambda>part m. case split_once (u ''=>'') part of None \<Rightarrow> m
     | Some (key, val) \<Rightarrow> if clean_hstore_token key = [] then m
         else m(clean_hstore_token key \<mapsto> clean_hstore_token val)"
  have tail: "fold ?step (map (\<lambda>kv. 32 # hstore_pair kv) xs) m = fold put_pair xs m"
    if "list_all (\<lambda>(k, v). plain k \<and> plain v) xs" for xs m
    using that
  proof (induction xs arbitrary: m)
    case (Cons kv xs)
    obtain k v where kv: "kv = (k, v)" by (cases kv)
    with Cons.prems parse_pair [of k v "[32]" m] have s: "?step (32 # hstore_pair kv) m = put_pair kv m" by (simp add: put_pair_def)
    have "fold ?step (map (\<lambda>kv. 32 # hstore_pair kv) (kv # xs)) m = fold ?step (map (\<lambda>kv. 32 # hstore_pair kv) xs) (put_pair kv m)"
      by (simp only: list.map fold_simps s)
    also have "\<dots> = fold put_pair xs (put_pair kv m)" using Cons by simp
    finally show ?case by simp
  qed simp
  obtain kv xs where kvs: "kvs = kv # xs" using assms(1) by (cases kvs) auto
  obtain k v where kv: "kv = (k, v)" by (cases kv)
  have "\<forall>p\<in>set (map hstore_pair kvs). 44 \<notin> set p"
    using assms(3) pair_no_comma by (auto simp: list_all_iff)
  then have "split_on 44 (join_with [44, 32] (map hstore_pair kvs)) = hstore_pair kv # map (\<lambda>kv. 32 # hstore_pair kv) xs"
    by (subst split_joined) (simp_all add: kvs comp_def)
  moreover have "?step (hstore_pair kv) Map.empty = put_pair kv Map.empty"
    using parse_pair [of k v "[]" Map.empty] assms(3) kvs kv by (simp add: put_pair_def)
  ultimately have "parse_hstore_text (join_with [44, 32] (map hstore_pair kvs)) = fold put_pair kvs Map.empty"
    using tail [of xs] assms(3) kvs kv by (simp add: parse_hstore_text_def)
  moreover have "map_of (rev kvs) = map_of kvs"
    using assms(2) by (subst map_of_inject_set) (simp_all add: rev_map [symmetric])
  ultimately show ?thesis by (simp add: fold_pairs)
qed

definition settings_ok :: "StProfileSettings \<Rightarrow> bool" where
  "settings_ok s \<longleftrightarrow> is_style (sp_style s) \<and> is_format_mode (sp_format_mode s) \<and> in_i32 (sp_topics s) \<and>
     in_i32 (sp_messages s) \<and> sp_avatar s \<in> set AVATARS \<and> is_tracker_mode (sp_tracker_mode s)"

lemma choices_plain:
  "is_style v \<Longrightarrow> plain v" "is_format_mode v \<Longrightarrow> plain v" "v \<in> set AVATARS \<Longrightarrow> plain v" "is_tracker_mode v \<Longrightarrow> plain v"
  by (auto simp: is_style_def THEMES_def is_format_mode_def FORMAT_MODES_def AVATARS_def is_tracker_mode_def TRACKER_MODES_def
      plain_def is_ascii_alphanumeric_def is_ascii_digit_def)

lemma plain_int: "plain (show_int n)"
  using show_int_chars [of _ n] by (auto simp: plain_def list_all_iff is_ascii_alphanumeric_def)

lemma plain_bool: "plain (show_bool b)"
  by (simp add: show_bool_def plain_def is_ascii_alphanumeric_def is_ascii_digit_def)

lemma parse_show_bool [simp]: "parse_bool (show_bool b) = b"
  by (simp add: parse_bool_def show_bool_def)

lemma settings_keys: "distinct (map fst (to_hstore_arrays s))"
  by (simp add: to_hstore_arrays_def)

lemma settings_plain: "settings_ok s \<Longrightarrow> list_all (\<lambda>(k, v). plain k \<and> plain v) (to_hstore_arrays s)"
  by (simp add: to_hstore_arrays_def settings_ok_def choices_plain plain_int plain_bool)
    (simp add: plain_def is_ascii_alphanumeric_def is_ascii_digit_def)

lemma read_back:
  assumes "hstore_ok hs" "settings_ok s"
  shows "from_hstore_text (Some (hs (to_hstore_arrays s))) = s"
proof -
  have "distinct (map fst (to_hstore_arrays s)) \<and> list_all (\<lambda>(k, v). plain k \<and> plain v) (to_hstore_arrays s)"
    using settings_keys settings_plain [OF assms(2)] by simp
  with assms(1) obtain kvs where kvs: "distinct (map fst kvs)" "set kvs = set (to_hstore_arrays s)"
      "hs (to_hstore_arrays s) = join_with (u '', '') (map hstore_pair kvs)"
    unfolding hstore_ok_def by blast
  have "to_hstore_arrays s \<noteq> []" by (simp add: to_hstore_arrays_def)
  with kvs(2) have "kvs \<noteq> []" by (metis set_empty)
  moreover have "list_all (\<lambda>(k, v). plain k \<and> plain v) kvs"
    using settings_plain [OF assms(2)] kvs(2) by (simp add: list_all_iff)
  ultimately have "parse_hstore_text (hs (to_hstore_arrays s)) = map_of kvs" using parse_hstore kvs by simp
  also have "\<dots> = map_of (to_hstore_arrays s)" using kvs settings_keys by (simp add: map_of_inject_set)
  finally show ?thesis using assms(2)
    by (cases s) (simp add: from_hstore_text_def setting_def accept_def to_hstore_arrays_def settings_ok_def parse_i32_show)
qed

lemma default_ok: "settings_ok settings_default"
  by (simp add: settings_ok_def settings_default_def is_style_def THEMES_def is_format_mode_def FORMAT_MODES_def
      AVATARS_def is_tracker_mode_def TRACKER_MODES_def in_i32_def)

lemma setting_cases: "setting m k f old = old \<or> (\<exists>v. f v = Some (setting m k f old))"
  by (auto simp: setting_def split: option.splits)

lemma loaded_ok: "settings_ok (from_hstore_text t)"
proof -
  have acc: "P (setting m k (accept P) old)" if "P old" for P m k old
    using that setting_cases [of m k "accept P" old] by (auto simp: accept_def split: if_splits)
  have num: "in_i32 (setting m k parse_i32 old)" if "in_i32 old" for m k old
    using that setting_cases [of m k parse_i32 old] parse_i32_range by force
  from default_ok acc [of is_style] acc [of is_format_mode] acc [of "\<lambda>v. v \<in> set AVATARS"] acc [of is_tracker_mode] num show ?thesis
    by (simp add: from_hstore_text_def Let_def settings_ok_def)
qed

lemma applied_ok:
  assumes "apply_form s form = Inr s'"
  shows "settings_ok s'"
proof -
  have m: "is_tracker_mode (coalesce (u ''main'') (Option.bind x (accept is_tracker_mode)))" for x
    by (cases x) (auto simp: accept_def is_tracker_mode_def TRACKER_MODES_def)
  from assms show ?thesis
    by (auto simp: apply_form_def and_then_def form_number_def form_choice_def ok_or_def settings_ok_def m [simplified] bind_eq_Some_conv
        dest: parse_i32_range split: sum.splits option.splits if_splits)
qed

definition text_of_settings :: "pg \<Rightarrow> int \<Rightarrow> rstr option" where
  "text_of_settings db i = map_option st_settings (List.find (\<lambda>r. st_id r = i) (db_user_settings db))"

lemma put_settings_text:
  assumes "put_settings i t db = (Inr a, db')"
  shows "text_of_settings db' j = (if j = i then Some t else text_of_settings db j)" "\<exists>rs. db' = db\<lparr>db_user_settings := rs\<rparr>"
proof -
  have upd: "List.find (\<lambda>r. st_id r = j) (update_where (\<lambda>r. st_id r = i) (st_settings_update (\<lambda>_. t)) rs)
      = map_option (\<lambda>r. if st_id r = i then st_settings_update (\<lambda>_. t) r else r) (List.find (\<lambda>r. st_id r = j) rs)" for rs
    by (induction rs) (auto simp: update_where_def)
  have hit: "(\<exists>r. List.find (\<lambda>r. st_id r = i) rs = Some r) \<longleftrightarrow> i \<in> st_id ` set rs" for rs
    by (induction rs) auto
  have app: "List.find (\<lambda>r. st_id r = j) (rs @ [x]) = (case List.find (\<lambda>r. st_id r = j) rs of None \<Rightarrow> if st_id x = j then Some x else None
      | Some r \<Rightarrow> Some r)" for rs and x :: pg_settings
    by (induction rs) auto
  show "text_of_settings db' j = (if j = i then Some t else text_of_settings db j)"
  proof (cases "i \<in> st_id ` set (db_user_settings db)")
    case True
    with hit obtain r where r: "List.find (\<lambda>r. st_id r = i) (db_user_settings db) = Some r" by blast
    have db': "db' = db_user_settings_update (update_where (\<lambda>r. st_id r = i) (st_settings_update (\<lambda>_. t))) db"
      using assms True by (simp add: put_settings_def)
    show ?thesis
    proof (cases "List.find (\<lambda>r. st_id r = j) (db_user_settings db)")
      case None
      with r have "j \<noteq> i" by auto
      with None show ?thesis by (simp add: db' text_of_settings_def upd)
    next
      case (Some q)
      then have "st_id q = j" by (auto simp: find_Some_iff)
      with Some show ?thesis by (simp add: db' text_of_settings_def upd)
    qed
  next
    case False
    with hit have "List.find (\<lambda>r. st_id r = i) (db_user_settings db) = None" by (metis option.exhaust)
    moreover have "db' = db_user_settings_update (\<lambda>rs. rs @ [\<lparr>st_id = i, st_settings = t\<rparr>]) db"
      using assms False by (simp add: put_settings_def)
    ultimately show ?thesis
      by (cases "List.find (\<lambda>r. st_id r = j) (db_user_settings db)") (auto simp: text_of_settings_def app)
  qed
  show "\<exists>rs. db' = db\<lparr>db_user_settings := rs\<rparr>"
  proof -
    have upd: "\<exists>rs. db_user_settings_update f db = db\<lparr>db_user_settings := rs\<rparr>" for f
      by (rule exI [of _ "f (db_user_settings db)"]) (cases db, simp)
    from assms have "\<exists>f. db' = db_user_settings_update f db"
      by (cases "i \<in> st_id ` set (db_user_settings db)") (simp_all add: put_settings_def, metis+)
    with upd show ?thesis by auto
  qed
qed

text \<open>C34: Settings are kept as chosen: a user saves only settings of his own account, the form is applied to
  what was stored, a rejected form changes nothing, and reading the account again - whatever
  order PostgreSQL writes the pairs in - yields exactly the settings the form selected, while the
  settings of every other account and the rest of the store stay as they were.\<close>

theorem settings_saved:
  assumes "hstore_ok hs" and "save_settings hs enc nick current form db = (res, db')"
  shows "(\<exists>e. res = Inl e \<and> db' = db) \<or>
    (\<exists>c r s. current = Some c \<and> us_nick c = nick \<and> us_id c = pu_id r \<and> r \<in> set (db_users db) \<and> pu_nick r = nick \<and>
      apply_form (from_hstore_text (text_of_settings db (us_id c))) form = Inr s \<and>
      from_hstore_text (text_of_settings db' (us_id c)) = s \<and>
      (\<forall>i. i \<noteq> us_id c \<longrightarrow> text_of_settings db' i = text_of_settings db i) \<and> (\<exists>rs. db' = db\<lparr>db_user_settings := rs\<rparr>))"
proof (cases res)
  case (Inl e)
  with assms(2) show ?thesis
    by (auto simp: save_settings_def eff_simps get_user_def fetch_optional_def settings_text_def put_settings_def)
next
  case (Inr loc)
  from assms(2) [unfolded Inr] obtain r s where self: "ensure_self_service_actor current nick = Inr ()" "ensure_self current r = Inr ()"
    and r: "List.find (\<lambda>r. pu_nick r = nick) (db_users db) = Some r"
    and s: "apply_form (from_hstore_text (text_of_settings db (pu_id r))) form = Inr s"
    and put: "put_settings (pu_id r) (hs (to_hstore_arrays s)) db = (Inr (), db')"
    by (auto simp: save_settings_def eff_simps get_user_def fetch_optional_def settings_text_def text_of_settings_def ok_or_iff)
  from self obtain c where c: "current = Some c" "us_nick c = nick" "us_id c = pu_id r"
    by (auto simp: ensure_self_service_actor_def ensure_self_def split: option.splits if_splits)
  from r have "r \<in> set (db_users db)" "pu_nick r = nick" by (auto simp: find_Some_iff)
  moreover have "from_hstore_text (text_of_settings db' (pu_id r)) = s"
    using put_settings_text(1) [OF put, of "pu_id r"] read_back [OF assms(1) applied_ok [OF s]] by simp
  ultimately show ?thesis using c s put_settings_text [OF put] by auto
qed

definition ex_settings_form :: "rstr \<rightharpoonup> rstr" where
  "ex_settings_form = map_of [((u ''topics''), (u ''100'')), ((u ''messages''), (u ''25'')), ((u ''style''), (u ''black'')), ((u ''format_mode''), (u ''lorcode'')),
     ((u ''avatar''), (u ''retro'')), ((u ''photos''), (u ''on'')), ((u ''trackerMode''), (u ''all''))]"

theorem settings_saved_witness:
  "sp_topics (from_hstore_text (text_of_settings (snd (save_settings (\<lambda>kvs. join_with (u '', '') (map hstore_pair kvs)) id (u ''n'')
      (Some (ex_moderator\<lparr>us_id := 7, us_nick := u ''n''\<rparr>)) ex_settings_form ex_db)) 7)) = 100"
proof -
  let ?hs = "\<lambda>kvs. join_with (u '', '') (map hstore_pair kvs)"
  have ok: "hstore_ok ?hs" unfolding hstore_ok_def by blast
  obtain res db' where run: "save_settings ?hs id (u ''n'') (Some (ex_moderator\<lparr>us_id := 7, us_nick := u ''n''\<rparr>)) ex_settings_form ex_db = (res, db')"
    by fastforce
  let ?s = "\<lparr>sp_style = (u ''black''), sp_format_mode = (u ''lorcode''), sp_topics = 100, sp_messages = 25,
     sp_photos = True, sp_hide_adsense = False, sp_main_gallery = False, sp_avatar = (u ''retro''), sp_tracker_mode = (u ''all''),
     sp_old_tracker = False, sp_old_notifications = False, sp_reaction_notification = False\<rparr>"
  have form: "apply_form (from_hstore_text None) ex_settings_form = Inr ?s"
    by (simp add: apply_form_def from_hstore_text_def settings_default_def setting_def ex_settings_form_def form_number_def
        form_choice_def and_then_def ok_or_def TOPICS_VALUES_def MESSAGES_VALUES_def is_style_def THEMES_def is_format_mode_def
        FORMAT_MODES_def AVATARS_def is_tracker_mode_def TRACKER_MODES_def accept_def parse_i32_def parse_signed_def is_ascii_digit_def
        in_i32_def)
  have "\<exists>l. res = Inr l"
    using run by (auto simp: save_settings_def bind_eff_def map_err_def ensure_self_service_actor_def ensure_self_def get_user_def
        fetch_optional_def settings_text_def ex_db_def ex_user_def ex_moderator_def form put_settings_def)
  then obtain s where "apply_form (from_hstore_text (text_of_settings ex_db 7)) ex_settings_form = Inr s"
    "from_hstore_text (text_of_settings db' 7) = s"
    using settings_saved [OF ok run] by auto
  moreover have "text_of_settings ex_db 7 = None" by (simp add: text_of_settings_def ex_db_def)
  ultimately have "from_hstore_text (text_of_settings db' 7) = ?s" using form by (metis sum.inject(2))
  then show ?thesis unfolding run snd_conv by simp
qed

end
