(* ===== verification/Comment_Posting.thy ===== *)
theory Comment_Posting
  imports Profile Binding
begin

section \<open>Who may comment (src/routes/comments.rs)\<close>

text \<open>
  The checks in front of every new and edited comment: the text, the comment replied to, the
  address and the account of the author, the rate limit and the policy of the topic.  All of
  them only read the store.
\<close>

subsection \<open>The text\<close>

definition hex_text :: "nat \<Rightarrow> rstr" where
  "hex_text n = (let digits = map (\<lambda>k. upper_hex (n div 16 ^ k mod 16)) [5, 4, 3, 2, 1, 0] in
     (let s = dropWhile (\<lambda>c. c = 48) digits in replicate (4 - length s) 48 @ s))"

definition COMMENT_MAX_LENGTH :: nat where "COMMENT_MAX_LENGTH = 8192"
definition COMMENT_MAX_LENGTH_ANONYMOUS :: nat where "COMMENT_MAX_LENGTH_ANONYMOUS = 4096"

definition optCommentBodyErrorWithPolicy :: "rstr \<Rightarrow> bool \<Rightarrow> bool \<Rightarrow> rstr option" where
  "optCommentBodyErrorWithPolicy sMessage bAnonymous bRejectEmpty =
     (case List.find (\<lambda>c. \<not> bValidXmlCharacter c) sMessage of
        Some cInvalid \<Rightarrow> Some (([1053, 1077, 1076, 1086, 1087, 1091, 1089, 1090, 1080, 1084, 1099, 1081, 32, 88, 77, 76, 45, 1089, 1080, 1084, 1074, 1086, 1083, 32, 85, 43] :: rstr) \<comment> \<open>Nedopustimyj XML-simvol U+\<close> @ hex_text cInvalid)
      | None \<Rightarrow>
          if bRejectEmpty \<and> trim sMessage = [] then Some ([1082, 1086, 1084, 1084, 1077, 1085, 1090, 1072, 1088, 1080, 1081, 32, 1085, 1077, 32, 1084, 1086, 1078, 1077, 1090, 32, 1073, 1099, 1090, 1100, 32, 1087, 1091, 1089, 1090, 1099, 1084] :: rstr) \<comment> \<open>kommentarij ne mozhet byt pustym\<close>
          else if utf16_len sMessage > (if bAnonymous then COMMENT_MAX_LENGTH_ANONYMOUS else COMMENT_MAX_LENGTH)
          then Some ([1057, 1083, 1080, 1096, 1082, 1086, 1084, 32, 1073, 1086, 1083, 1100, 1096, 1086, 1077, 32, 1089, 1086, 1086, 1073, 1097, 1077, 1085, 1080, 1077] :: rstr) \<comment> \<open>Slishkom bolshoe soobshchenie\<close>
          else None)"

definition optCommentBodyError :: "rstr \<Rightarrow> bool \<Rightarrow> rstr option" where
  "optCommentBodyError sMessage bAnonymous = optCommentBodyErrorWithPolicy sMessage bAnonymous True"

subsection \<open>The comment replied to\<close>

definition positive :: "int option \<Rightarrow> int option" where
  "positive x = (case x of None \<Rightarrow> None | Some i \<Rightarrow> (if 0 < i then Some i else None))"

definition optCommentReplyError :: "int \<Rightarrow> int option \<Rightarrow> rstr option pg_eff" where
  "optCommentReplyError iTopicId optReplyTo =
     (case positive optReplyTo of None \<Rightarrow> ret_eff None
      | Some iReplyTo \<Rightarrow>
     bind_eff (fetch_optional db_comments (\<lambda>c. pc_id c = iReplyTo)) (\<lambda>optReply. case optReply of
        None \<Rightarrow> fail_eff NotFound
      | Some c \<Rightarrow> ret_eff (if pc_deleted c then Some ([1085, 1077, 1083, 1100, 1079, 1103, 32, 1082, 1086, 1084, 1084, 1077, 1085, 1090, 1080, 1088, 1086, 1074, 1072, 1090, 1100, 32, 1091, 1076, 1072, 1083, 1077, 1085, 1085, 1099, 1077, 32, 1082, 1086, 1084, 1084, 1077, 1085, 1090, 1072, 1088, 1080, 1080] :: rstr) \<comment> \<open>nelzya kommentirovat udalennye kommentarii\<close>
          else if pc_topic c \<noteq> iTopicId then Some ([1085, 1077, 1082, 1086, 1088, 1088, 1077, 1082, 1090, 1085, 1072, 1103, 32, 1090, 1077, 1084, 1072] :: rstr) \<comment> \<open>nekorrektnaya tema\<close> else None)))"

subsection \<open>The author and his address\<close>

definition optCommentActorError :: "(rstr \<Rightarrow> rstr option) \<Rightarrow> time \<Rightarrow> StUserSummary \<Rightarrow> bool \<Rightarrow> rstr \<Rightarrow> rstr option pg_eff" where
  "optCommentActorError inet now user bAnonymous sRemoteIp =
     inet_or_fail inet sRemoteIp (\<lambda>ip.
     bind_eff (fetch_optional db_b_ips (\<lambda>b. pb_ip b = ip)) (\<lambda>optIpBlock.
     let frozen_check = bind_eff (fetch_one db_users (\<lambda>r. pu_id r = us_id user)) (\<lambda>r.
           ret_eff (if coalesce False (us_blocked user) \<or> user_frozen now r
             then Some ([1091, 1089, 1090, 1072, 1085, 1086, 1074, 1083, 1077, 1085, 32, 1088, 1077, 1078, 1080, 1084, 32, 1090, 1086, 1083, 1100, 1082, 1086, 32, 1076, 1083, 1103, 32, 1095, 1090, 1077, 1085, 1080, 1103] :: rstr) \<comment> \<open>ustanovlen rezhim tolko dlya chteniya\<close> else None)) in
     (case optIpBlock of None \<Rightarrow> frozen_check
      | Some b \<Rightarrow>
          if \<not> block_active now b then frozen_check
          else if bAnonymous then ret_eff (Some ([1072, 1085, 1086, 1085, 1080, 1084, 1085, 1099, 1081, 32, 1087, 1086, 1089, 1090, 1080, 1085, 1075, 32, 1089, 32, 1101, 1090, 1086, 1075, 1086, 32, 73, 80, 32, 1072, 1076, 1088, 1077, 1089, 1072, 32, 1079, 1072, 1073, 1083, 1086, 1082, 1080, 1088, 1086, 1074, 1072, 1085] :: rstr) \<comment> \<open>anonimnyj posting s etogo IP adresa zablokirovan\<close>)
          else if coalesce False (us_blocked user) \<or> coalesce 0 (us_score user) < 50
          then ret_eff (Some ([1087, 1086, 1089, 1090, 1080, 1085, 1075, 32, 1089, 32, 1101, 1090, 1086, 1075, 1086, 32, 73, 80, 32, 1072, 1076, 1088, 1077, 1089, 1072, 32, 1086, 1075, 1088, 1072, 1085, 1080, 1095, 1077, 1085, 32, 1076, 1083, 1103, 32, 1087, 1086, 1083, 1100, 1079, 1086, 1074, 1072, 1090, 1077, 1083, 1077, 1081, 32, 1089, 32, 115, 99, 111, 114, 101, 32, 60, 32, 53, 48] :: rstr) \<comment> \<open>posting s etogo IP adresa ogranichen dlya polzovatelej s score (lt) 50\<close>)
          else if \<not> coalesce False (pb_allow_posting b) then ret_eff (Some ([1087, 1086, 1089, 1090, 1080, 1085, 1075, 32, 1089, 32, 1101, 1090, 1086, 1075, 1086, 32, 73, 80, 32, 1072, 1076, 1088, 1077, 1089, 1072, 32, 1079, 1072, 1073, 1083, 1086, 1082, 1080, 1088, 1086, 1074, 1072, 1085] :: rstr) \<comment> \<open>posting s etogo IP adresa zablokirovan\<close>)
          else frozen_check)))"

subsection \<open>The rate limit\<close>

definition iCommentThresholdSeconds :: "time \<Rightarrow> bool \<Rightarrow> int \<Rightarrow> time option \<Rightarrow> int \<Rightarrow> nat" where
  "iCommentThresholdSeconds now bAnonymous iScore optFrozenUntil iRecentScoreLoss =
     (if bAnonymous then 30
      else if iScore < 35 \<or> (case optFrozenUntil of None \<Rightarrow> False | Some t \<Rightarrow> now - days 3 < t) \<or> 30 \<le> iRecentScoreLoss
      then 5 * 60
      else if 100 \<le> iScore then 3 else 30)"

definition iCommentRateThresholdSeconds :: "time \<Rightarrow> StUserSummary \<Rightarrow> bool \<Rightarrow> nat pg_eff" where
  "iCommentRateThresholdSeconds now user bAnonymous =
     (if bAnonymous then ret_eff (iCommentThresholdSeconds now True 0 None 0)
      else bind_eff (fetch_one db_users (\<lambda>r. pu_id r = us_id user)) (\<lambda>r db.
        (Inr (iCommentThresholdSeconds now False (coalesce 0 (us_score user)) (pu_frozen_until r)
           \<bar>recent_score_sum now db (us_id user)\<bar>), db)))"

subsection \<open>The policy of the topic\<close>

definition section_comment_postscore :: "int \<Rightarrow> int" where
  "section_comment_postscore i = (if i = 1 \<or> i = 2 then - 9999 else if i = 3 \<or> i = 5 \<or> i = 6 then 45 else 50)"

record StCommentPostingContext =
  cx_bDeleted :: bool
  cx_bDraft :: bool
  cx_bExpired :: bool
  cx_bSticky :: bool
  cx_iTopicPostscore :: int
  cx_iRestrictComments :: int
  cx_iSectionId :: int
  cx_iCommentCount :: int
  cx_iOpenWarnings :: int
  cx_bAllowAnonymous :: bool
  cx_iScoreLoss :: int
  cx_iTopicAuthorId :: int

text \<open>The points lost by comments of a topic, those of the anonymous user aside.\<close>

definition topic_score_loss :: "pg \<Rightarrow> int \<Rightarrow> int" where
  "topic_score_loss db iTopicId =
     sum_list (map (\<lambda>d. - coalesce 0 (di_bonus d)) (filter (\<lambda>d. case comment_of db (di_msgid d) of None \<Rightarrow> False
       | Some c \<Rightarrow> pc_userid c \<noteq> 2 \<and> pc_deleted c \<and> pc_topic c = iTopicId) (db_del_info db)))"

definition stCommentPostingContext :: "time \<Rightarrow> int \<Rightarrow> StCommentPostingContext pg_eff" where
  "stCommentPostingContext now topic_id = (\<lambda>db.
     (case topic_join db topic_id of None \<Rightarrow> (Inl NotFound, db)
      | Some (t, g, s) \<Rightarrow>
          if \<not> in_i32 (topic_score_loss db topic_id) then (Inl db_failure, db)
          else (Inr \<lparr>cx_bDeleted = pt_deleted t, cx_bDraft = pt_draft t, cx_bExpired = topic_expired now s t,
            cx_bSticky = pt_sticky t, cx_iTopicPostscore = coalesce (- 9999) (pt_postscore t),
            cx_iRestrictComments = pg_restrict_comments g, cx_iSectionId = ps_id s, cx_iCommentCount = pt_stat1 t,
            cx_iOpenWarnings = pt_open_warnings t, cx_bAllowAnonymous = pt_allow_anonymous t,
            cx_iScoreLoss = topic_score_loss db topic_id, cx_iTopicAuthorId = pt_userid t\<rparr>, db)))"

text \<open>The restrictions of a topic; the strictest counts.\<close>

definition comment_levels :: "StCommentPostingContext \<Rightarrow> int list" where
  "comment_levels cx = [cx_iTopicPostscore cx, cx_iRestrictComments cx, section_comment_postscore (cx_iSectionId cx),
     (if \<not> cx_bSticky cx then (if cx_iCommentCount cx > 3000 then 200 else if cx_iCommentCount cx > 2000 then 100
       else if cx_iCommentCount cx > 1000 then 50 else - 9999) else - 9999),
     (if \<not> cx_bSticky cx \<and> \<not> cx_bExpired cx then (if cx_iScoreLoss cx \<ge> 150 then 100 else if cx_iScoreLoss cx \<ge> 100 then 50
       else - 9999) else - 9999),
     (if cx_iOpenWarnings cx > 2 then 100 else - 9999),
     (if cx_bAllowAnonymous cx then - 9999 else - 50)]"

definition check_comment_posting_context ::
    "StCommentPostingContext \<Rightarrow> StUserSummary \<Rightarrow> bool \<Rightarrow> bool \<Rightarrow> bool \<Rightarrow> app_error + unit" where
  "check_comment_posting_context cx user bAnonymous bFrozen bIgnoreFrozen =
     (if cx_bDeleted cx then Inl (BadRequest ([1053, 1077, 1083, 1100, 1079, 1103, 32, 1076, 1086, 1073, 1072, 1074, 1083, 1103, 1090, 1100, 32, 1082, 1086, 1084, 1084, 1077, 1085, 1090, 1072, 1088, 1080, 1080, 32, 1082, 32, 1091, 1076, 1072, 1083, 1077, 1085, 1085, 1086, 1084, 1091, 32, 1089, 1086, 1086, 1073, 1097, 1077, 1085, 1080, 1102] :: rstr) \<comment> \<open>Nelzya dobavlyat kommentarii k udalennomu soobshcheniyu\<close>)
      else if cx_bDraft cx then Inl (BadRequest ([1053, 1077, 1083, 1100, 1079, 1103, 32, 1076, 1086, 1073, 1072, 1074, 1083, 1103, 1090, 1100, 32, 1082, 1086, 1084, 1084, 1077, 1085, 1090, 1072, 1088, 1080, 1080, 32, 1082, 32, 1095, 1077, 1088, 1085, 1086, 1074, 1080, 1082, 1091] :: rstr) \<comment> \<open>Nelzya dobavlyat kommentarii k chernoviku\<close>)
      else if cx_bExpired cx then Inl (BadRequest ([1057, 1086, 1086, 1073, 1097, 1077, 1085, 1080, 1077, 32, 1091, 1078, 1077, 32, 1091, 1089, 1090, 1072, 1088, 1077, 1083, 1086] :: rstr) \<comment> \<open>Soobshchenie uzhe ustarelo\<close>)
      else if coalesce False (us_blocked user) \<or> (\<not> bIgnoreFrozen \<and> bFrozen) then Inl Forbidden
      else (let postscore = Max (set (comment_levels cx)); view_by_author = (us_id user = cx_iTopicAuthorId cx) in
        if postscore = 10001 \<or> postscore = 10002 then Inl Forbidden
        else if postscore = - 9999 then Inr ()
        else if bAnonymous then Inl Forbidden
        else if us_canmod user then Inr ()
        else if postscore = - 50 then Inr ()
        else if postscore = 10000 then Inl Forbidden
        else if postscore = 9999 then (if view_by_author then Inr () else Inl Forbidden)
        else if view_by_author \<or> coalesce 0 (us_score user) \<ge> postscore then Inr ()
        else Inl Forbidden))"

definition check_comment_posting_allowed :: "time \<Rightarrow> StUserSummary \<Rightarrow> bool \<Rightarrow> int \<Rightarrow> unit pg_eff" where
  "check_comment_posting_allowed now user bAnonymous topic_id =
     bind_eff (stCommentPostingContext now topic_id) (\<lambda>cx.
     bind_eff (fetch_optional db_users (\<lambda>r. pu_id r = us_id user)) (\<lambda>r.
     of_result (check_comment_posting_context cx user bAnonymous
       (case r of None \<Rightarrow> False | Some r \<Rightarrow> user_frozen now r) False)))"

text \<open>Refusals become the text of the form; other failures stay errors.\<close>

definition sCommentFormError :: "app_error \<Rightarrow> app_error + rstr" where
  "sCommentFormError e = (case e of BadRequest s \<Rightarrow> Inr s | TooManyRequests s \<Rightarrow> Inr s
     | Forbidden \<Rightarrow> Inr ([1069, 1090, 1086, 32, 1089, 1086, 1086, 1073, 1097, 1077, 1085, 1080, 1077, 32, 1085, 1077, 1083, 1100, 1079, 1103, 32, 1082, 1086, 1084, 1084, 1077, 1085, 1090, 1080, 1088, 1086, 1074, 1072, 1090, 1100] :: rstr) \<comment> \<open>Eto soobshchenie nelzya kommentirovat\<close> | _ \<Rightarrow> Inl e)"

subsection \<open>The format of the author\<close>

definition user_comment_format :: "int \<Rightarrow> (rstr \<times> rstr \<times> rstr) pg_eff" where
  "user_comment_format user_id = bind_eff (settings_text user_id) (\<lambda>t.
     let mode = sp_format_mode (from_hstore_text t);
         label = (case List.find (\<lambda>(k, _, _). k = mode) FORMAT_MODES of None \<Rightarrow> (u ''Markdown'') | Some (_, l, _) \<Rightarrow> l);
         markup = (if mode = (u ''markdown'') then (u ''MARKDOWN'') else if mode = (u ''ntobr'') then (u ''BBCODE_ULB'')
           else if mode = (u ''plain'') then (u ''PLAIN'') else (u ''BBCODE_TEX''))
     in ret_eff (mode, label, markup))"

subsection \<open>The policy, source by source\<close>

text \<open>What one restriction admits: everybody, registered users, users with enough points and the
  author of the topic, moderators and the author, moderators, nobody.\<close>

definition admits :: "StUserSummary \<Rightarrow> bool \<Rightarrow> bool \<Rightarrow> int \<Rightarrow> bool" where
  "admits user bAnonymous bAuthor level \<longleftrightarrow> level = - 9999 \<or>
     (\<not> bAnonymous \<and> level < 10001 \<and>
       (us_canmod user \<or> level = - 50 \<or> (level < 10000 \<and> (bAuthor \<or> (level < 9999 \<and> level \<le> coalesce 0 (us_score user))))))"

lemma admits_antitone:
  assumes "bValidPostScore k" "bValidPostScore l" "k \<le> l" "admits user a b l"
  shows "admits user a b k"
proof (cases "k = - 9999")
  case False
  with assms(1-3) have kl: "- 50 \<le> k" "k \<le> l" "l \<noteq> - 9999" by (simp_all add: bValidPostScore_def postscore_defs)
  with assms(4) have "\<not> a" "l < 10001"
    and "us_canmod user \<or> l = - 50 \<or> (l < 10000 \<and> b) \<or> (l < 9999 \<and> l \<le> coalesce 0 (us_score user))"
    unfolding admits_def by auto
  then show ?thesis using kl unfolding admits_def by linarith
qed (simp add: admits_def)

lemma valid_levels [simp]:
  "bValidPostScore (- 9999)" "bValidPostScore (- 50)" "bValidPostScore 45" "bValidPostScore 50" "bValidPostScore 100"
  "bValidPostScore 200"
  by (simp_all add: bValidPostScore_def postscore_defs)

lemma comment_levels_valid:
  assumes "bValidPostScore (cx_iTopicPostscore cx)" "bValidPostScore (cx_iRestrictComments cx)" "l \<in> set (comment_levels cx)"
  shows "bValidPostScore l"
proof -
  have "list_all bValidPostScore (comment_levels cx)"
    using assms(1,2) by (simp add: comment_levels_def section_comment_postscore_def)
  with assms(3) show ?thesis by (simp add: list_all_iff)
qed

lemma admits_all:
  assumes "finite A" "A \<noteq> {}" "\<And>l. l \<in> A \<Longrightarrow> bValidPostScore l"
  shows "admits user a b (Max A) \<longleftrightarrow> (\<forall>l\<in>A. admits user a b l)"
  using assms admits_antitone Max_ge Max_in by metis

lemma check_context_level:
  assumes "bValidPostScore (Max (set (comment_levels cx)))"
  shows "check_comment_posting_context cx user anon frozen ignore = Inr () \<longleftrightarrow>
    \<not> cx_bDeleted cx \<and> \<not> cx_bDraft cx \<and> \<not> cx_bExpired cx \<and> \<not> coalesce False (us_blocked user) \<and> (ignore \<or> \<not> frozen) \<and>
    admits user anon (us_id user = cx_iTopicAuthorId cx) (Max (set (comment_levels cx)))"
proof -
  define m where "m = Max (set (comment_levels cx))"
  have "m = - 9999 \<or> (- 50 \<le> m \<and> m \<le> 10002)" using assms by (simp add: m_def bValidPostScore_def postscore_defs)
  then show ?thesis
    unfolding check_comment_posting_context_def admits_def Let_def m_def [symmetric] by (simp; linarith?)
qed

lemma check_context_sources:
  assumes "bValidPostScore (cx_iTopicPostscore cx)" "bValidPostScore (cx_iRestrictComments cx)"
  shows "check_comment_posting_context cx user anon frozen ignore = Inr () \<longleftrightarrow>
    \<not> cx_bDeleted cx \<and> \<not> cx_bDraft cx \<and> \<not> cx_bExpired cx \<and> \<not> coalesce False (us_blocked user) \<and> (ignore \<or> \<not> frozen) \<and>
    (\<forall>l\<in>set (comment_levels cx). admits user anon (us_id user = cx_iTopicAuthorId cx) l)"
proof -
  have ne: "set (comment_levels cx) \<noteq> {}" by (simp add: comment_levels_def)
  then have "bValidPostScore (Max (set (comment_levels cx)))"
    using comment_levels_valid [OF assms] Max_in [of "set (comment_levels cx)"] by blast
  with check_context_level [OF this, of user anon frozen ignore] show ?thesis
    by (simp add: admits_all [OF _ ne comment_levels_valid [OF assms]])
qed

text \<open>C33: The comment policy is the conjunction of its seven sources: whenever the levels stored for the topic
  and its group are ones the forms accept, a comment is admitted exactly when the topic is
  neither deleted nor a draft nor expired, the user is neither blocked nor frozen, and each single
  source - topic, group, section, number of comments, lost points, open warnings, anonymous
  posting - would admit the user on its own; taking the maximum loses none of them.\<close>

theorem comment_policy_sources:
  assumes "bValidPostScore (cx_iTopicPostscore cx)" "bValidPostScore (cx_iRestrictComments cx)"
  shows "check_comment_posting_context cx user anon frozen ignore = Inr () \<longleftrightarrow>
    \<not> cx_bDeleted cx \<and> \<not> cx_bDraft cx \<and> \<not> cx_bExpired cx \<and> \<not> coalesce False (us_blocked user) \<and> (ignore \<or> \<not> frozen) \<and>
    (\<forall>l\<in>set (comment_levels cx). admits user anon (us_id user = cx_iTopicAuthorId cx) l)"
  by (rule check_context_sources [OF assms])

definition ex_context :: StCommentPostingContext where
  "ex_context = \<lparr>cx_bDeleted = False, cx_bDraft = False, cx_bExpired = False, cx_bSticky = False,
     cx_iTopicPostscore = - 50, cx_iRestrictComments = - 9999, cx_iSectionId = 3, cx_iCommentCount = 1500,
     cx_iOpenWarnings = 0, cx_bAllowAnonymous = True, cx_iScoreLoss = 120, cx_iTopicAuthorId = 7\<rparr>"

theorem comment_policy_sources_witness:
  "check_comment_posting_context ex_context (ex_moderator\<lparr>us_canmod := False\<rparr>) False False False = Inr ()
   \<and> check_comment_posting_context ex_context (ex_moderator\<lparr>us_canmod := False, us_score := Some 49\<rparr>) False False False \<noteq> Inr ()"
proof -
  have "bValidPostScore (cx_iTopicPostscore ex_context)" "bValidPostScore (cx_iRestrictComments ex_context)"
    by (simp_all add: ex_context_def bValidPostScore_def postscore_defs)
  note policy = comment_policy_sources [OF this]
  show ?thesis
    unfolding policy by (simp add: ex_context_def comment_levels_def section_comment_postscore_def admits_def ex_moderator_def)
qed

end
