(* ===== verification/Realtime.thy ===== *)
theory Realtime
  imports Comment_Deletion "HOL-Library.Multiset"
begin

section \<open>The realtime hub\<close>

text \<open>
  The in-process hub of \<open>src/application/realtime/mod.rs\<close> that pushes new comments and event
  notifications to web-socket sessions, the subscription message of
  \<open>src/routes/realtime.rs\<close> and the query of
  \<open>src/infra/postgres/realtime_repository.rs\<close>.

  The hub's three maps live behind one mutex, and so does each of its methods; what is sent is
  put into the unbounded mailbox of a session after the lock was released.  A mailbox belongs
  to the session it was created for, so it has the session's id here; it is open until its
  receiver is dropped.  Session ids are version 4 UUIDs, never drawn twice.  A \<open>HashSet\<close> is
  iterated in an unspecified order: the parameter \<open>ord\<close>.
\<close>

subsection \<open>Sessions, indexes and mailboxes\<close>

type_synonym session_id = nat

datatype EnRealtimeDelivery = CommentDelivery int | EventsRefresh

record StTopicSubscriptionRequest =
  sr_iTopicId :: int
  sr_iLastSeenCommentId :: int

record StRealtimeSession =
  se_optUserId :: "int option"
  se_setTopics :: "int set"

record mailbox =
  mb_open :: bool
  mb_queue :: "EnRealtimeDelivery list"

type_synonym index = "int \<Rightarrow> session_id set option"

record StRealtimeHubData =
  hd_mapSessions :: "session_id \<Rightarrow> StRealtimeSession option"
  hd_mapTopicSessions :: index
  hd_mapUserSessions :: index
  hd_mailboxes :: "session_id \<Rightarrow> mailbox option"

definition empty_hub :: StRealtimeHubData where
  "empty_hub = \<lparr>hd_mapSessions = (\<lambda>_. None), hd_mapTopicSessions = (\<lambda>_. None),
     hd_mapUserSessions = (\<lambda>_. None), hd_mailboxes = (\<lambda>_. None)\<rparr>"

text \<open>\<open>entry(k).or_default().insert(u)\<close>, and removing \<open>u\<close> under every key of \<open>ks\<close>, dropping empty sets.\<close>

definition index_insert :: "int \<Rightarrow> session_id \<Rightarrow> index \<Rightarrow> index" where
  "index_insert k i m = m(k \<mapsto> insert i (case m k of None \<Rightarrow> {} | Some S \<Rightarrow> S))"

definition index_remove :: "int set \<Rightarrow> session_id \<Rightarrow> index \<Rightarrow> index" where
  "index_remove ks i m = (\<lambda>k. if k \<in> ks
     then (case m k of None \<Rightarrow> None | Some S \<Rightarrow> if S - {i} = {} then None else Some (S - {i}))
     else m k)"

subsection \<open>The hub's methods (src/application/realtime/mod.rs)\<close>

definition stRegister :: "session_id \<Rightarrow> int option \<Rightarrow> StRealtimeHubData \<Rightarrow> StRealtimeHubData" where
  "stRegister uuid optUserId h =
     (let h1 = h\<lparr>hd_mapSessions := (hd_mapSessions h)(uuid \<mapsto> \<lparr>se_optUserId = optUserId, se_setTopics = {}\<rparr>),
                 hd_mailboxes := (hd_mailboxes h)(uuid \<mapsto> \<lparr>mb_open = True, mb_queue = []\<rparr>)\<rparr>
      in case optUserId of None \<Rightarrow> h1
         | Some iUserId \<Rightarrow> h1\<lparr>hd_mapUserSessions := index_insert iUserId uuid (hd_mapUserSessions h1)\<rparr>)"

text \<open>\<open>UnboundedSender::send\<close>: it fails once the receiver is gone.\<close>

definition send :: "session_id \<Rightarrow> EnRealtimeDelivery \<Rightarrow> StRealtimeHubData \<Rightarrow> bool \<times> StRealtimeHubData" where
  "send uuid d h =
     (case hd_mailboxes h uuid of
        None \<Rightarrow> (False, h)
      | Some m \<Rightarrow> if mb_open m
          then (True, h\<lparr>hd_mailboxes := (hd_mailboxes h)(uuid \<mapsto> m\<lparr>mb_queue := mb_queue m @ [d]\<rparr>)\<rparr>)
          else (False, h))"

fun send_missed :: "session_id \<Rightarrow> int list \<Rightarrow> StRealtimeHubData \<Rightarrow> bool \<times> StRealtimeHubData" where
  "send_missed uuid [] h = (True, h)"
| "send_missed uuid (c # cs) h =
     (case send uuid (CommentDelivery c) h of
        (False, h') \<Rightarrow> (False, h')
      | (True, h') \<Rightarrow> send_missed uuid cs h')"

definition bSubscribe :: "session_id \<Rightarrow> int \<Rightarrow> int list \<Rightarrow> StRealtimeHubData \<Rightarrow> bool \<times> StRealtimeHubData" where
  "bSubscribe uuid iTopicId vecMissed h =
     (case hd_mapSessions h uuid of
        None \<Rightarrow> (False, h)
      | Some s \<Rightarrow> send_missed uuid vecMissed
          (h\<lparr>hd_mapSessions := (hd_mapSessions h)(uuid \<mapsto> s\<lparr>se_setTopics := insert iTopicId (se_setTopics s)\<rparr>),
             hd_mapTopicSessions := index_insert iTopicId uuid (hd_mapTopicSessions h)\<rparr>))"

definition vUnregister :: "session_id \<Rightarrow> StRealtimeHubData \<Rightarrow> StRealtimeHubData" where
  "vUnregister uuid h =
     (case hd_mapSessions h uuid of
        None \<Rightarrow> h
      | Some s \<Rightarrow> h\<lparr>hd_mapSessions := (hd_mapSessions h)(uuid := None),
          hd_mapTopicSessions := index_remove (se_setTopics s) uuid (hd_mapTopicSessions h),
          hd_mapUserSessions := index_remove (set_option (se_optUserId s)) uuid (hd_mapUserSessions h)\<rparr>)"

text \<open>The senders are named by their session; the code clones them.\<close>

definition vecTopicSenders :: "(session_id set \<Rightarrow> session_id list) \<Rightarrow> int \<Rightarrow> StRealtimeHubData \<Rightarrow> session_id list" where
  "vecTopicSenders ord iTopicId h =
     (case hd_mapTopicSessions h iTopicId of None \<Rightarrow> []
      | Some S \<Rightarrow> filter (\<lambda>i. hd_mapSessions h i \<noteq> None) (ord S))"

text \<open>\<open>setSeen.insert\<close> as a filter: the first occurrence of each session.\<close>

fun first_seen :: "'a set \<Rightarrow> 'a list \<Rightarrow> 'a list" where
  "first_seen A [] = []"
| "first_seen A (x # xs) = (if x \<in> A then first_seen A xs else x # first_seen (insert x A) xs)"

definition vecUserSenders ::
    "(session_id set \<Rightarrow> session_id list) \<Rightarrow> int list \<Rightarrow> StRealtimeHubData \<Rightarrow> session_id list" where
  "vecUserSenders ord vecUserIds h =
     filter (\<lambda>i. hd_mapSessions h i \<noteq> None)
       (first_seen {} (concat (map ord (List.map_filter (hd_mapUserSessions h) vecUserIds))))"

fun vSend :: "session_id list \<Rightarrow> EnRealtimeDelivery \<Rightarrow> StRealtimeHubData \<Rightarrow> StRealtimeHubData" where
  "vSend [] d h = h"
| "vSend (i # is) d h =
     (case send i d h of
        (True, h') \<Rightarrow> vSend is d h'
      | (False, h') \<Rightarrow> vSend is d (vUnregister i h'))"

subsection \<open>The service\<close>

record 'w TrRealtimeRepository =
  rr_optMissedCommentIds :: "int \<Rightarrow> int \<Rightarrow> ('w, app_error, int list option) eff"
  rr_bIsCommentBranchIgnored :: "int \<Rightarrow> int \<Rightarrow> ('w, app_error, bool) eff"

definition vSubscribeTopic ::
    "'w TrRealtimeRepository \<Rightarrow> session_id \<Rightarrow> StTopicSubscriptionRequest
      \<Rightarrow> ('w \<times> StRealtimeHubData, app_error, unit) eff" where
  "vSubscribeTopic repo uuid req = (\<lambda>(w, h).
     (case rr_optMissedCommentIds repo (sr_iTopicId req) (sr_iLastSeenCommentId req) w of
        (Inl e, w') \<Rightarrow> (Inl e, (w', h))
      | (Inr None, w') \<Rightarrow> (Inl NotFound, (w', h))
      | (Inr (Some vecMissed), w') \<Rightarrow>
          (case bSubscribe uuid (sr_iTopicId req) vecMissed h of
             (False, h') \<Rightarrow> (Inl (Anyhow (u ''realtime session is already closed'')), (w', h'))
           | (True, h') \<Rightarrow> (Inr (), (w', h')))))"

definition bShouldDeliverComment ::
    "'w TrRealtimeRepository \<Rightarrow> int option \<Rightarrow> int \<Rightarrow> ('w, app_error, bool) eff" where
  "bShouldDeliverComment repo optUserId iCommentId =
     (case optUserId of None \<Rightarrow> ret_eff True
      | Some iUserId \<Rightarrow> bind_eff (rr_bIsCommentBranchIgnored repo iUserId iCommentId) (\<lambda>b. ret_eff (\<not> b)))"

definition vNotifyNewComment ::
    "(session_id set \<Rightarrow> session_id list) \<Rightarrow> int \<Rightarrow> int \<Rightarrow> StRealtimeHubData \<Rightarrow> StRealtimeHubData" where
  "vNotifyNewComment ord iTopicId iCommentId h =
     vSend (vecTopicSenders ord iTopicId h) (CommentDelivery iCommentId) h"

text \<open>\<open>vecUserIds\<close> lists the collected set of users in its iteration order.\<close>

definition vNotifyEvents ::
    "(session_id set \<Rightarrow> session_id list) \<Rightarrow> int list \<Rightarrow> StRealtimeHubData \<Rightarrow> StRealtimeHubData" where
  "vNotifyEvents ord vecUserIds h = vSend (vecUserSenders ord vecUserIds h) EventsRefresh h"

subsection \<open>The query and the subscription message\<close>

definition optMissedCommentIds :: "int \<Rightarrow> int \<Rightarrow> int list option pg_eff" where
  "optMissedCommentIds iTopicId iLastSeen = (\<lambda>db.
     (Inr (case topic_of db iTopicId of
        None \<Rightarrow> None
      | Some t \<Rightarrow> Some (if pt_postscore t = Some 10002 then []
          else sort (map pc_id (filter (\<lambda>c. pc_topic c = iTopicId \<and> \<not> pc_deleted c \<and> iLastSeen < pc_id c)
                 (db_comments db))))), db))"

text \<open>\<open>splitn(2, ' ')\<close>: the text up to the first space and, if there is one, the rest.\<close>

definition splitn2 :: "rchar \<Rightarrow> rstr \<Rightarrow> rstr \<times> rstr option" where
  "splitn2 d s = (takeWhile (\<lambda>c. c \<noteq> d) s,
     (if d \<in> set s then Some (tl (dropWhile (\<lambda>c. c \<noteq> d) s)) else None))"

definition stParseSubscription :: "rstr \<Rightarrow> StTopicSubscriptionRequest option" where
  "stParseSubscription sPayload =
     (let (sTopic, optLast) = splitn2 32 sPayload in
      case parse_i32 sTopic of None \<Rightarrow> None
      | Some iTopicId \<Rightarrow>
          (case (case optLast of None \<Rightarrow> Some 0 | Some s \<Rightarrow> parse_i32 s) of None \<Rightarrow> None
           | Some iLast \<Rightarrow> Some \<lparr>sr_iTopicId = iTopicId, sr_iLastSeenCommentId = iLast\<rparr>))"

subsection \<open>Indexes mirror the sessions\<close>

definition members :: "(StRealtimeSession \<Rightarrow> int set) \<Rightarrow> (session_id \<Rightarrow> StRealtimeSession option) \<Rightarrow> int \<Rightarrow> session_id set" where
  "members key sess k = {i. \<exists>s. sess i = Some s \<and> k \<in> key s}"

definition mirrors ::
    "(StRealtimeSession \<Rightarrow> int set) \<Rightarrow> (session_id \<Rightarrow> StRealtimeSession option) \<Rightarrow> index \<Rightarrow> bool" where
  "mirrors key sess m \<longleftrightarrow> (\<forall>k. m k = (if members key sess k = {} then None else Some (members key sess k)))"

lemma mirrorsD: "mirrors key sess m \<Longrightarrow> (case m k of None \<Rightarrow> {} | Some S \<Rightarrow> S) = members key sess k"
  by (simp add: mirrors_def)

lemma members_upd: "members key (sess(i \<mapsto> s')) j =
    (if j \<in> key s' then insert i (members key sess j) else members key sess j - {i})"
  by (simp add: members_def set_eq_iff)

lemma members_this: "i \<in> members key sess j \<longleftrightarrow> j \<in> (case sess i of None \<Rightarrow> {} | Some s \<Rightarrow> key s)"
  by (cases "sess i") (simp_all add: members_def)

lemma mirrors_insert:
  assumes "mirrors key sess m" and "key s' = insert k (case sess i of None \<Rightarrow> {} | Some s \<Rightarrow> key s)"
  shows "mirrors key (sess(i \<mapsto> s')) (index_insert k i m)"
  unfolding mirrors_def
proof
  fix j
  have "members key (sess(i \<mapsto> s')) j = (if j = k then insert i (members key sess k) else members key sess j)"
    using members_this [of i key sess j] by (auto simp: members_upd assms(2))
  moreover have "index_insert k i m j = (if j = k then Some (insert i (members key sess k)) else m j)"
    by (simp add: index_insert_def mirrorsD [OF assms(1)])
  moreover have "m j = (if members key sess j = {} then None else Some (members key sess j))"
    using assms(1) by (simp add: mirrors_def)
  ultimately show "index_insert k i m j =
      (if members key (sess(i \<mapsto> s')) j = {} then None else Some (members key (sess(i \<mapsto> s')) j))"
    by simp
qed

lemma mirrors_same:
  assumes "mirrors key sess m" and "key s' = (case sess i of None \<Rightarrow> {} | Some s \<Rightarrow> key s)"
  shows "mirrors key (sess(i \<mapsto> s')) m"
proof -
  have "members key (sess(i \<mapsto> s')) j = members key sess j" for j
    using members_this [of i key sess j] by (auto simp: members_upd assms(2))
  with assms(1) show ?thesis by (simp add: mirrors_def)
qed

lemma mirrors_remove:
  assumes "mirrors key sess m" and "sess i = Some s"
  shows "mirrors key (sess(i := None)) (index_remove (key s) i m)"
proof -
  have "members key (sess(i := None)) j = members key sess j - {i}" for j
    by (auto simp: members_def)
  moreover have "i \<notin> members key sess j" if "j \<notin> key s" for j
    using assms(2) that by (simp add: members_def)
  ultimately show ?thesis
    using assms(1) by (auto simp: mirrors_def index_remove_def)
qed

text \<open>The invariant of the hub: finitely many sessions, each with a mailbox, and exact indexes.\<close>

definition hub_ok :: "StRealtimeHubData \<Rightarrow> bool" where
  "hub_ok h \<longleftrightarrow> finite (dom (hd_mapSessions h)) \<and> dom (hd_mapSessions h) \<subseteq> dom (hd_mailboxes h) \<and>
     mirrors se_setTopics (hd_mapSessions h) (hd_mapTopicSessions h) \<and>
     mirrors (\<lambda>s. set_option (se_optUserId s)) (hd_mapSessions h) (hd_mapUserSessions h)"

lemma hub_ok_empty: "hub_ok empty_hub"
  by (simp add: hub_ok_def empty_hub_def mirrors_def members_def)

lemma hub_ok_register:
  assumes "hub_ok h" and "i \<notin> dom (hd_mailboxes h)"
  shows "hub_ok (stRegister i x h)"
proof -
  have new: "hd_mapSessions h i = None" using assms by (auto simp: hub_ok_def)
  with assms(1) show ?thesis
    unfolding hub_ok_def stRegister_def Let_def
    by (cases x) (auto intro!: mirrors_same mirrors_insert)
qed

lemma send_cases:
  obtains m where "hd_mailboxes h i = Some m" "mb_open m"
      "send i d h = (True, h\<lparr>hd_mailboxes := (hd_mailboxes h)(i \<mapsto> m\<lparr>mb_queue := mb_queue m @ [d]\<rparr>)\<rparr>)"
  | "\<not> (\<exists>m. hd_mailboxes h i = Some m \<and> mb_open m)" "send i d h = (False, h)"
  by (cases "hd_mailboxes h i"; cases "mb_open (the (hd_mailboxes h i))") (auto simp: send_def)

lemma send_hub: "send i d h = (b, h') \<Longrightarrow> \<exists>f. h' = h\<lparr>hd_mailboxes := f\<rparr> \<and> dom f = dom (hd_mailboxes h)"
proof (cases rule: send_cases [of h i d])
  case (1 m)
  moreover assume "send i d h = (b, h')"
  ultimately show ?thesis
    by (intro exI [of _ "(hd_mailboxes h)(i \<mapsto> m\<lparr>mb_queue := mb_queue m @ [d]\<rparr>)"]) (auto simp: dom_def)
next
  case 2
  moreover assume "send i d h = (b, h')"
  ultimately show ?thesis by (intro exI [of _ "hd_mailboxes h"]) simp
qed

lemma hub_ok_mailboxes: "hub_ok h \<Longrightarrow> dom f = dom (hd_mailboxes h) \<Longrightarrow> hub_ok (h\<lparr>hd_mailboxes := f\<rparr>)"
  by (simp add: hub_ok_def)

lemma hub_ok_mailbox: "hub_ok h \<Longrightarrow> hd_mailboxes h i = Some m \<Longrightarrow> hub_ok (h\<lparr>hd_mailboxes := (hd_mailboxes h)(i \<mapsto> m')\<rparr>)"
  by (erule hub_ok_mailboxes) (simp add: insert_absorb domI)

lemma hub_ok_send: "hub_ok h \<Longrightarrow> send i d h = (b, h') \<Longrightarrow> hub_ok h'"
  using send_hub hub_ok_mailboxes by blast

lemma hub_ok_send_missed: "send_missed i cs h = (b, h') \<Longrightarrow> hub_ok h \<Longrightarrow> hub_ok h'"
  by (induction cs arbitrary: h) (auto split: prod.splits bool.splits dest: hub_ok_send)

lemma hub_ok_subscribe:
  assumes "hub_ok h" and "bSubscribe i t cs h = (b, h')"
  shows "hub_ok h'"
proof (cases "hd_mapSessions h i")
  case None
  with assms show ?thesis by (simp add: bSubscribe_def)
next
  case (Some s)
  let ?h = "h\<lparr>hd_mapSessions := (hd_mapSessions h)(i \<mapsto> s\<lparr>se_setTopics := insert t (se_setTopics s)\<rparr>),
             hd_mapTopicSessions := index_insert t i (hd_mapTopicSessions h)\<rparr>"
  have "hub_ok ?h"
    using assms(1) Some unfolding hub_ok_def
    by (auto intro: mirrors_insert mirrors_same)
  with assms(2) Some show ?thesis by (auto simp: bSubscribe_def intro: hub_ok_send_missed)
qed

lemma hub_ok_unregister: "hub_ok h \<Longrightarrow> hub_ok (vUnregister i h)"
  unfolding vUnregister_def hub_ok_def
  by (auto split: option.splits intro: mirrors_remove [where key = se_setTopics]
      mirrors_remove [where key = "\<lambda>s. set_option (se_optUserId s)"])

lemma hub_ok_vSend: "hub_ok h \<Longrightarrow> hub_ok (vSend is d h)"
  by (induction "is" arbitrary: h) (auto split: prod.splits bool.splits dest: hub_ok_send intro: hub_ok_unregister)

subsection \<open>What a notification delivers\<close>

definition is_open :: "StRealtimeHubData \<Rightarrow> session_id \<Rightarrow> bool" where
  "is_open h i \<longleftrightarrow> (\<exists>m. hd_mailboxes h i = Some m \<and> mb_open m)"

definition push :: "EnRealtimeDelivery \<Rightarrow> mailbox \<Rightarrow> mailbox" where
  "push d m = (if mb_open m then m\<lparr>mb_queue := mb_queue m @ [d]\<rparr> else m)"

text \<open>\<open>delivered A d h h'\<close>: the mailboxes of \<open>A\<close> got \<open>d\<close> once, closed sessions of \<open>A\<close> are gone, all else is as it was.\<close>

definition delivered :: "session_id set \<Rightarrow> EnRealtimeDelivery \<Rightarrow> StRealtimeHubData \<Rightarrow> StRealtimeHubData \<Rightarrow> bool" where
  "delivered A d h h' \<longleftrightarrow>
     (\<forall>i. hd_mailboxes h' i = (if i \<in> A then map_option (push d) (hd_mailboxes h i) else hd_mailboxes h i)) \<and>
     (\<forall>i. hd_mapSessions h' i = (if i \<in> A \<and> \<not> is_open h i then None else hd_mapSessions h i))"

lemma unregister_simps [simp]:
  "hd_mailboxes (vUnregister i h) = hd_mailboxes h"
  "hd_mapSessions (vUnregister i h) = (hd_mapSessions h)(i := None)"
  by (auto simp: vUnregister_def split: option.splits)

lemma vSend_delivered: "distinct is \<Longrightarrow> delivered (set is) d h (vSend is d h)"
proof (induction "is" arbitrary: h)
  case (Cons i "is")
  show ?case
  proof (cases rule: send_cases [of h i d])
    case (1 m)
    let ?h = "h\<lparr>hd_mailboxes := (hd_mailboxes h)(i \<mapsto> m\<lparr>mb_queue := mb_queue m @ [d]\<rparr>)\<rparr>"
    have "delivered (set is) d ?h (vSend is d ?h)" using Cons by simp
    with 1 Cons.prems show ?thesis
      by (auto simp: delivered_def is_open_def push_def)
  next
    case 2
    have "delivered (set is) d (vUnregister i h) (vSend is d (vUnregister i h))" using Cons by simp
    with 2 Cons.prems show ?thesis
      by (cases "hd_mailboxes h i") (auto simp: delivered_def is_open_def push_def)
  qed
qed (simp add: delivered_def)

lemma members_finite: "finite (dom sess) \<Longrightarrow> finite (members key sess k)"
  by (rule finite_subset [of _ "dom sess"]) (auto simp: members_def)

definition iterates :: "(session_id set \<Rightarrow> session_id list) \<Rightarrow> bool" where
  "iterates ord \<longleftrightarrow> (\<forall>S. finite S \<longrightarrow> distinct (ord S) \<and> set (ord S) = S)"

lemma topic_senders:
  assumes "hub_ok h" and "iterates ord"
  shows "distinct (vecTopicSenders ord t h)" "set (vecTopicSenders ord t h) = members se_setTopics (hd_mapSessions h) t"
proof -
  let ?S = "members se_setTopics (hd_mapSessions h) t"
  have "finite ?S" using assms(1) by (simp add: hub_ok_def members_finite)
  with assms(2) have it: "distinct (ord ?S)" "set (ord ?S) = ?S" by (simp_all add: iterates_def)
  have m: "hd_mapTopicSessions h t = (if ?S = {} then None else Some ?S)"
    using assms(1) by (simp add: hub_ok_def mirrors_def)
  have live: "\<forall>i\<in>?S. hd_mapSessions h i \<noteq> None" by (auto simp: members_def)
  show "distinct (vecTopicSenders ord t h)" using it by (simp add: vecTopicSenders_def m)
  show "set (vecTopicSenders ord t h) = ?S"
    using it live by (auto simp: vecTopicSenders_def m)
qed

lemma first_seen_set: "set (first_seen A xs) = set xs - A" "distinct (first_seen A xs)"
  by (induction xs arbitrary: A) auto

lemma user_senders:
  assumes "hub_ok h" and "iterates ord"
  shows "distinct (vecUserSenders ord us h)"
    and "set (vecUserSenders ord us h) = {i. \<exists>s a. hd_mapSessions h i = Some s \<and> se_optUserId s = Some a \<and> a \<in> set us}"
proof -
  let ?key = "\<lambda>s. set_option (se_optUserId s)"
  let ?S = "members ?key (hd_mapSessions h)"
  have fin: "finite (?S a)" for a using assms(1) by (simp add: hub_ok_def members_finite)
  have it: "set (ord (?S a)) = ?S a" for a using assms(2) fin by (simp add: iterates_def)
  have m: "hd_mapUserSessions h a = (if ?S a = {} then None else Some (?S a))" for a
    using assms(1) by (simp add: hub_ok_def mirrors_def)
  have "set (concat (map ord (List.map_filter (hd_mapUserSessions h) us))) = (\<Union>a\<in>set us. ?S a)"
    by (induction us) (auto simp: m it map_filter_simps)
  then show "set (vecUserSenders ord us h) = {i. \<exists>s a. hd_mapSessions h i = Some s \<and> se_optUserId s = Some a \<and> a \<in> set us}"
    by (auto simp: vecUserSenders_def first_seen_set members_def)
  show "distinct (vecUserSenders ord us h)"
    by (simp add: vecUserSenders_def first_seen_set)
qed

text \<open>C26: A notification reaches whom it should exactly once: in a consistent hub a new comment goes to the
  mailbox of every session subscribed to its topic, an event to every session of the listed users
  - once, even when a user is listed twice - and to nobody else; subscribed sessions whose
  receiver is gone are unregistered, and the hub stays consistent.\<close>

theorem notify_exactly_once:
  assumes "hub_ok h" and "iterates ord"
  shows "delivered {i. \<exists>s. hd_mapSessions h i = Some s \<and> t \<in> se_setTopics s} (CommentDelivery c) h (vNotifyNewComment ord t c h)
    \<and> delivered {i. \<exists>s a. hd_mapSessions h i = Some s \<and> se_optUserId s = Some a \<and> a \<in> set us} EventsRefresh h
        (vNotifyEvents ord us h)
    \<and> hub_ok (vNotifyNewComment ord t c h) \<and> hub_ok (vNotifyEvents ord us h)"
  using vSend_delivered [OF topic_senders(1) [OF assms, of t], of "CommentDelivery c" h]
    vSend_delivered [OF user_senders(1) [OF assms, of us], of EventsRefresh h]
    topic_senders(2) [OF assms, of t] user_senders(2) [OF assms, of us] hub_ok_vSend [OF assms(1)]
  by (simp add: vNotifyNewComment_def vNotifyEvents_def members_def)

subsection \<open>Interleavings\<close>

text \<open>
  The hub between requests: each method runs under the lock, the sends of a notification do
  not.  A notification in flight is the list of the senders still to be served.  Receivers
  take from their mailbox or go away at any time.
\<close>

record realtime =
  rt_hub :: StRealtimeHubData
  rt_flight :: "(session_id list \<times> EnRealtimeDelivery) list"

inductive rt_step :: "(session_id set \<Rightarrow> session_id list) \<Rightarrow> realtime \<Rightarrow> realtime \<Rightarrow> bool" for ord where
  register: "i \<notin> dom (hd_mailboxes (rt_hub r)) \<Longrightarrow>
    rt_step ord r (r\<lparr>rt_hub := stRegister i x (rt_hub r)\<rparr>)"
| subscribe: "rt_step ord r (r\<lparr>rt_hub := snd (bSubscribe i t cs (rt_hub r))\<rparr>)"
| unregister: "rt_step ord r (r\<lparr>rt_hub := vUnregister i (rt_hub r)\<rparr>)"
| notify_topic: "rt_step ord r (r\<lparr>rt_flight := rt_flight r @ [(vecTopicSenders ord t (rt_hub r), CommentDelivery c)]\<rparr>)"
| notify_users: "rt_step ord r (r\<lparr>rt_flight := rt_flight r @ [(vecUserSenders ord us (rt_hub r), EventsRefresh)]\<rparr>)"
| serve: "rt_flight r = fs @ (i # is, d) # gs \<Longrightarrow>
    rt_step ord r (r\<lparr>rt_hub := vSend [i] d (rt_hub r), rt_flight := fs @ (is, d) # gs\<rparr>)"
| receive: "hd_mailboxes (rt_hub r) i = Some m \<Longrightarrow> mb_queue m = d # q \<Longrightarrow>
    rt_step ord r (r\<lparr>rt_hub := rt_hub r\<lparr>hd_mailboxes := (hd_mailboxes (rt_hub r))(i \<mapsto> m\<lparr>mb_queue := q\<rparr>)\<rparr>\<rparr>)"
| hang_up: "hd_mailboxes (rt_hub r) i = Some m \<Longrightarrow>
    rt_step ord r (r\<lparr>rt_hub := rt_hub r\<lparr>hd_mailboxes := (hd_mailboxes (rt_hub r))(i \<mapsto> m\<lparr>mb_open := False\<rparr>)\<rparr>\<rparr>)"

definition rt_start :: realtime where
  "rt_start = \<lparr>rt_hub = empty_hub, rt_flight = []\<rparr>"

lemma rt_step_ok:
  assumes "rt_step ord r r'" and "hub_ok (rt_hub r)"
  shows "hub_ok (rt_hub r')"
  using assms
proof cases
  case (subscribe i t cs)
  then show ?thesis using assms(2) hub_ok_subscribe [OF assms(2) surjective_pairing] by simp
next
  case (serve fs i is' d gs)
  then show ?thesis using hub_ok_vSend [OF assms(2), of "[i]" d] by simp
qed (use assms(2) in \<open>auto intro!: hub_ok_register hub_ok_unregister hub_ok_mailbox\<close>)

lemma reachable_ok: "(rt_step ord)\<^sup>*\<^sup>* rt_start r \<Longrightarrow> hub_ok (rt_hub r)"
  by (induction rule: rtranclp_induct) (auto simp: rt_start_def hub_ok_empty intro: rt_step_ok)

text \<open>C9: The hub's indexes never go stale: after any interleaving of registrations, subscriptions,
  departures, notifications in flight and receivers hanging up, the topic index and the user
  index list exactly the live sessions - no leaked, no missing and no empty entry - and every
  session has its mailbox.\<close>

theorem hub_index_invariant:
  assumes "(rt_step ord)\<^sup>*\<^sup>* rt_start r"
  shows "hub_ok (rt_hub r)"
  by (rule reachable_ok [OF assms])

subsection \<open>Closed sessions stay closed\<close>

text \<open>A session that left is in no index and in no map, although its id may still be in flight.\<close>

definition gone :: "session_id \<Rightarrow> StRealtimeHubData \<Rightarrow> bool" where
  "gone i h \<longleftrightarrow> hd_mailboxes h i \<noteq> None \<and> hd_mapSessions h i = None"

lemma gone_send: "gone i h \<Longrightarrow> gone i (snd (send j d h))"
  by (auto simp: gone_def send_def split: option.splits)

lemma gone_send_missed: "gone i h \<Longrightarrow> gone i (snd (send_missed j cs h))"
proof (induction cs arbitrary: h)
  case (Cons c cs)
  then show ?case using gone_send [OF Cons.prems, of j "CommentDelivery c"]
    by (auto split: prod.splits bool.splits)
qed simp

lemma gone_unregister: "gone i h \<Longrightarrow> gone i (vUnregister j h)"
  by (simp add: gone_def)

lemma gone_subscribe: "gone i h \<Longrightarrow> gone i (snd (bSubscribe j t cs h))"
proof (cases "hd_mapSessions h j")
  case None
  moreover assume "gone i h"
  ultimately show ?thesis by (simp add: bSubscribe_def)
next
  case (Some s)
  moreover assume "gone i h"
  ultimately have "gone i (h\<lparr>hd_mapSessions := (hd_mapSessions h)(j \<mapsto> s\<lparr>se_setTopics := insert t (se_setTopics s)\<rparr>),
             hd_mapTopicSessions := index_insert t j (hd_mapTopicSessions h)\<rparr>)"
    by (auto simp: gone_def)
  from gone_send_missed [OF this, of j cs] Some show ?thesis by (simp add: bSubscribe_def)
qed

lemma gone_step:
  assumes "rt_step ord r r'" and "gone i (rt_hub r)"
  shows "gone i (rt_hub r')"
  using assms
proof cases
  case (serve fs j is' d gs)
  then show ?thesis using gone_send [OF assms(2), of j d]
    by (auto split: prod.splits bool.splits intro: gone_unregister)
next
  case (register j x)
  with assms(2) have "i \<noteq> j" by (auto simp: gone_def)
  with register assms(2) show ?thesis by (cases x) (auto simp: gone_def stRegister_def Let_def)
qed (use assms(2) in \<open>auto simp: gone_subscribe gone_unregister\<close>, auto simp: gone_def)

text \<open>The mail of a session: what waits in its mailbox, and what is in flight to it.\<close>

definition in_flight :: "session_id \<Rightarrow> (session_id list \<times> EnRealtimeDelivery) list \<Rightarrow> EnRealtimeDelivery multiset" where
  "in_flight i fs = sum_list (map (\<lambda>(is, d). replicate_mset (count_list is i) d) fs)"

definition waiting :: "session_id \<Rightarrow> StRealtimeHubData \<Rightarrow> EnRealtimeDelivery multiset" where
  "waiting i h = (case hd_mailboxes h i of None \<Rightarrow> {#} | Some m \<Rightarrow> mset (mb_queue m))"

definition mail :: "session_id \<Rightarrow> realtime \<Rightarrow> EnRealtimeDelivery multiset" where
  "mail i r = waiting i (rt_hub r) + in_flight i (rt_flight r)"

lemma in_flight_simps [simp]:
  "in_flight i (fs @ gs) = in_flight i fs + in_flight i gs"
  "in_flight i ((is, d) # fs) = replicate_mset (count_list is i) d + in_flight i fs" "in_flight i [] = {#}"
  by (simp_all add: in_flight_def)

lemma waiting_send: "waiting i (snd (send j d h)) \<subseteq># (if i = j then add_mset d (waiting i h) else waiting i h)"
  by (cases rule: send_cases [of h j d]) (auto simp: waiting_def)

lemma waiting_unregister [simp]: "waiting i (vUnregister j h) = waiting i h"
  by (simp add: waiting_def)

lemma waiting_serve: "waiting i (vSend [j] d h) \<subseteq># (if i = j then add_mset d (waiting i h) else waiting i h)"
  using waiting_send [of i j d h] by (auto split: prod.splits bool.splits)

lemma waiting_missed: "i \<noteq> j \<Longrightarrow> waiting i (snd (send_missed j cs h)) = waiting i h"
proof (induction cs arbitrary: h)
  case (Cons c cs)
  then show ?case by (cases rule: send_cases [of h j "CommentDelivery c"]) (auto simp: waiting_def)
qed simp

lemma waiting_subscribe: "gone i h \<Longrightarrow> waiting i (snd (bSubscribe j t cs h)) = waiting i h"
proof (cases "hd_mapSessions h j")
  case (Some s)
  moreover assume "gone i h"
  ultimately have "i \<noteq> j" by (auto simp: gone_def)
  with Some show ?thesis by (simp add: bSubscribe_def waiting_missed) (simp add: waiting_def)
qed (simp add: bSubscribe_def)

lemma gone_not_sender:
  assumes "hub_ok h" and "iterates ord" and "gone i h"
  shows "i \<notin> set (vecTopicSenders ord t h)" "i \<notin> set (vecUserSenders ord us h)"
  using topic_senders(2) [OF assms(1,2), of t] user_senders(2) [OF assms(1,2), of us] assms(3)
  by (auto simp: gone_def members_def)

text \<open>No step adds to the mail of a session that is gone.\<close>

lemma mail_step:
  assumes "rt_step ord r r'" and "hub_ok (rt_hub r)" and "iterates ord" and "gone i (rt_hub r)"
  shows "mail i r' \<subseteq># mail i r"
  using assms(1)
proof cases
  case (register j x)
  with assms(4) have "i \<noteq> j" by (auto simp: gone_def)
  with register show ?thesis by (cases x) (simp_all add: mail_def waiting_def stRegister_def Let_def)
next
  case (subscribe j t cs)
  then show ?thesis by (simp add: mail_def waiting_subscribe [OF assms(4)])
next
  case (unregister j)
  then show ?thesis by (simp add: mail_def)
next
  case (notify_topic t c)
  then show ?thesis using gone_not_sender(1) [OF assms(2-4), of t] by (simp add: mail_def)
next
  case (notify_users us)
  then show ?thesis using gone_not_sender(2) [OF assms(2-4), of us] by (simp add: mail_def)
next
  case (serve fs j js d gs)
  have "waiting i (vSend [j] d (rt_hub r)) + replicate_mset (count_list js i) d \<subseteq>#
      waiting i (rt_hub r) + replicate_mset (count_list (j # js) i) d"
    using subset_mset.add_right_mono [OF waiting_serve [of i j d "rt_hub r"], of "replicate_mset (count_list js i) d"]
    by (auto split: if_splits)
  from subset_mset.add_right_mono [OF this, of "in_flight i fs + in_flight i gs"] serve show ?thesis
    by (simp add: mail_def ac_simps)
next
  case (receive j m d q)
  then show ?thesis by (cases "i = j") (auto simp: mail_def waiting_def)
next
  case (hang_up j m)
  then show ?thesis by (cases "i = j") (auto simp: mail_def waiting_def)
qed

lemma delivered_other: "delivered A d h h' \<Longrightarrow> i \<notin> A \<Longrightarrow> hd_mailboxes h' i = hd_mailboxes h i"
  by (simp add: delivered_def)

text \<open>C27: A session that left never comes back: once unregistered, whatever happens later - even a late
  subscription under its id, which is answered with an error and changes nothing - it stays out of every index, and a new
  comment or event puts nothing into its mailbox.  What it may still receive are deliveries that were waiting or in
  flight when it left: its mail never grows again.\<close>

theorem no_resurrection:
  assumes "(rt_step ord)\<^sup>*\<^sup>* rt_start r0" and "hd_mapSessions (rt_hub r0) i \<noteq> None"
    and "(rt_step ord)\<^sup>*\<^sup>* (r0\<lparr>rt_hub := vUnregister i (rt_hub r0)\<rparr>) r" and "iterates ord"
  shows "i \<notin> set (vecTopicSenders ord t (rt_hub r)) \<and> i \<notin> set (vecUserSenders ord us (rt_hub r))
    \<and> fst (bSubscribe i t cs (rt_hub r)) = False \<and> snd (bSubscribe i t cs (rt_hub r)) = rt_hub r
    \<and> hd_mailboxes (vNotifyNewComment ord t c (rt_hub r)) i = hd_mailboxes (rt_hub r) i
    \<and> hd_mailboxes (vNotifyEvents ord us (rt_hub r)) i = hd_mailboxes (rt_hub r) i
    \<and> mail i r \<subseteq># mail i r0"
proof -
  have ok0: "hub_ok (rt_hub r0)" using assms(1) by (rule reachable_ok)
  then have gone0: "gone i (vUnregister i (rt_hub r0))" using assms(2) by (auto simp: gone_def hub_ok_def)
  have all: "gone i (rt_hub r) \<and> hub_ok (rt_hub r) \<and> mail i r \<subseteq># mail i r0"
    using assms(3)
  proof (induction rule: rtranclp_induct)
    case base
    with gone0 ok0 show ?case by (simp add: hub_ok_unregister mail_def)
  next
    case (step r1 r2)
    then show ?case using mail_step [OF step(2) _ assms(4), of i] gone_step [OF step(2)] rt_step_ok [OF step(2)]
      by (meson subset_mset.order_trans)
  qed
  then have out: "i \<notin> set (vecTopicSenders ord t (rt_hub r))" "i \<notin> set (vecUserSenders ord us (rt_hub r))"
    using gone_not_sender assms(4) by blast+
  have same: "hd_mailboxes (vNotifyNewComment ord t c (rt_hub r)) i = hd_mailboxes (rt_hub r) i"
    "hd_mailboxes (vNotifyEvents ord us (rt_hub r)) i = hd_mailboxes (rt_hub r) i"
    unfolding vNotifyNewComment_def vNotifyEvents_def
    using vSend_delivered [OF topic_senders(1), of "rt_hub r" ord t] vSend_delivered [OF user_senders(1), of "rt_hub r" ord us]
      all assms(4) out delivered_other by blast+
  from all out same show ?thesis by (simp add: gone_def bSubscribe_def)
qed

subsection \<open>Catching up\<close>

definition pg_realtime :: "(int \<Rightarrow> int \<Rightarrow> bool) \<Rightarrow> 'q world TrRealtimeRepository" where
  "pg_realtime ignored =
     \<lparr>rr_optMissedCommentIds = (\<lambda>t i. on_db (optMissedCommentIds t i)),
      rr_bIsCommentBranchIgnored = (\<lambda>a c. ret_eff (ignored a c))\<rparr>"

lemma send_missed_open:
  "is_open h i \<Longrightarrow> fst (send_missed i cs h) \<and>
    hd_mailboxes (snd (send_missed i cs h)) =
      (hd_mailboxes h)(i := map_option (\<lambda>m. m\<lparr>mb_queue := mb_queue m @ map CommentDelivery cs\<rparr>) (hd_mailboxes h i)) \<and>
    hd_mapSessions (snd (send_missed i cs h)) = hd_mapSessions h"
proof (induction cs arbitrary: h)
  case Nil
  then show ?case by (auto simp: is_open_def fun_upd_idem)
next
  case (Cons c cs)
  from Cons.prems obtain m where m: "hd_mailboxes h i = Some m" "mb_open m" by (auto simp: is_open_def)
  let ?h = "h\<lparr>hd_mailboxes := (hd_mailboxes h)(i \<mapsto> m\<lparr>mb_queue := mb_queue m @ [CommentDelivery c]\<rparr>)\<rparr>"
  have "send i (CommentDelivery c) h = (True, ?h)" by (simp add: send_def m)
  moreover have "is_open ?h i" using m by (simp add: is_open_def)
  ultimately show ?case using Cons.IH [of ?h] m by (simp add: fun_eq_iff)
qed

text \<open>C28: A subscriber catches up: subscribing to an existing topic with an open session puts exactly the live
  comments of that topic that are newer than the last one seen into its mailbox, in ascending
  order after what was there - none when the topic's comments are hidden - and registers the
  subscription; no other mailbox changes.  A missing topic is a 404 and changes nothing.\<close>

theorem subscribe_catches_up:
  assumes "hd_mapSessions h i = Some s" and "hd_mailboxes h i = Some m" and "mb_open m"
    and "comments.keyed (w_db w)"
    and "vSubscribeTopic (pg_realtime ignored) i req (w, h) = (r, (w', h'))"
  shows "w' = w \<and> (case topic_of (w_db w) (sr_iTopicId req) of
      None \<Rightarrow> r = Inl NotFound \<and> h' = h
    | Some t \<Rightarrow> r = Inr () \<and> (\<exists>ids. sorted_wrt (<) ids \<and>
        set ids = {pc_id c |c. c \<in> set (db_comments (w_db w)) \<and> pc_topic c = sr_iTopicId req \<and> \<not> pc_deleted c
          \<and> sr_iLastSeenCommentId req < pc_id c \<and> pt_postscore t \<noteq> Some 10002} \<and>
        hd_mailboxes h' = (hd_mailboxes h)(i \<mapsto> m\<lparr>mb_queue := mb_queue m @ map CommentDelivery ids\<rparr>)) \<and>
        hd_mapSessions h' = (hd_mapSessions h)(i \<mapsto> s\<lparr>se_setTopics := insert (sr_iTopicId req) (se_setTopics s)\<rparr>))"
proof (cases "topic_of (w_db w) (sr_iTopicId req)")
  case None
  with assms(5) show ?thesis
    by (simp add: vSubscribeTopic_def pg_realtime_def on_db_def optMissedCommentIds_def)
next
  case (Some t)
  define ids where "ids = (if pt_postscore t = Some 10002 then []
    else sort (map pc_id (filter (\<lambda>c. pc_topic c = sr_iTopicId req \<and> \<not> pc_deleted c \<and> sr_iLastSeenCommentId req < pc_id c)
      (db_comments (w_db w)))))"
  let ?h = "h\<lparr>hd_mapSessions := (hd_mapSessions h)(i \<mapsto> s\<lparr>se_setTopics := insert (sr_iTopicId req) (se_setTopics s)\<rparr>),
    hd_mapTopicSessions := index_insert (sr_iTopicId req) i (hd_mapTopicSessions h)\<rparr>"
  have "is_open ?h i" using assms(2,3) by (simp add: is_open_def)
  note sent = send_missed_open [OF this, of ids]
  obtain b h1 where b: "send_missed i ids ?h = (b, h1)" by fastforce
  with sent have h1: "send_missed i ids ?h = (True, h1)" by simp
  have run: "bSubscribe i (sr_iTopicId req) ids h = (True, h1)" by (simp add: bSubscribe_def assms(1) h1)
  have query: "optMissedCommentIds (sr_iTopicId req) (sr_iLastSeenCommentId req) (w_db w) = (Inr (Some ids), w_db w)"
    by (simp add: optMissedCommentIds_def Some ids_def)
  have res: "w' = w" "r = Inr ()" "h' = h1"
    using assms(5) by (simp_all add: vSubscribeTopic_def pg_realtime_def on_db_def query run)
  have "set ids = {pc_id c |c. c \<in> set (db_comments (w_db w)) \<and> pc_topic c = sr_iTopicId req \<and> \<not> pc_deleted c
          \<and> sr_iLastSeenCommentId req < pc_id c \<and> pt_postscore t \<noteq> Some 10002}" by (auto simp: ids_def)
  moreover have "sorted_wrt (<) ids"
    using assms(4) by (auto simp: ids_def strict_sorted_iff comments.keyed_def distinct_map intro: inj_on_subset)
  moreover have "hd_mailboxes h' = (hd_mailboxes h)(i \<mapsto> m\<lparr>mb_queue := mb_queue m @ map CommentDelivery ids\<rparr>)"
    using sent by (simp add: h1 res(3) assms(2))
  moreover have "hd_mapSessions h' = (hd_mapSessions h)(i \<mapsto> s\<lparr>se_setTopics := insert (sr_iTopicId req) (se_setTopics s)\<rparr>)"
    using sent by (simp add: h1 res(3))
  ultimately show ?thesis unfolding Some option.case using res(1,2) by (intro conjI exI [of _ ids])
qed

subsection \<open>Examples\<close>

definition ex_hub :: StRealtimeHubData where
  "ex_hub = snd (bSubscribe 4 5 [] (stRegister 4 (Some 7) empty_hub))"

lemma ex_hub_run: "(rt_step sorted_list_of_set)\<^sup>*\<^sup>* rt_start (rt_start\<lparr>rt_hub := ex_hub\<rparr>)"
proof -
  let ?r = "rt_start\<lparr>rt_hub := stRegister 4 (Some 7) (rt_hub rt_start)\<rparr>"
  have "rt_step sorted_list_of_set rt_start ?r" by (rule rt_step.register) (simp add: rt_start_def empty_hub_def)
  moreover have "rt_step sorted_list_of_set ?r (?r\<lparr>rt_hub := snd (bSubscribe 4 5 [] (rt_hub ?r))\<rparr>)" by (rule rt_step.subscribe)
  moreover have "?r\<lparr>rt_hub := snd (bSubscribe 4 5 [] (rt_hub ?r))\<rparr> = rt_start\<lparr>rt_hub := ex_hub\<rparr>"
    by (simp add: ex_hub_def rt_start_def)
  ultimately show ?thesis by (metis converse_rtranclp_into_rtranclp r_into_rtranclp)
qed

theorem hub_index_invariant_witness: "hub_ok ex_hub"
  using hub_index_invariant [OF ex_hub_run] by simp

lemma iterates_sorted: "iterates sorted_list_of_set"
  by (simp add: iterates_def)

lemma ex_hub_ok: "hub_ok ex_hub"
  unfolding ex_hub_def
  by (rule hub_ok_subscribe [OF _ surjective_pairing], rule hub_ok_register [OF hub_ok_empty]) (simp add: empty_hub_def)

lemma ex_hub_facts:
  "hd_mailboxes ex_hub 4 = Some \<lparr>mb_open = True, mb_queue = []\<rparr>"
  "hd_mapSessions ex_hub 4 = Some \<lparr>se_optUserId = Some 7, se_setTopics = {5}\<rparr>"
  by (simp_all add: ex_hub_def bSubscribe_def stRegister_def empty_hub_def)

theorem notify_exactly_once_witness:
  "hd_mailboxes (vNotifyNewComment sorted_list_of_set 5 42 ex_hub) 4 = Some \<lparr>mb_open = True, mb_queue = [CommentDelivery 42]\<rparr>
   \<and> hd_mailboxes (vNotifyEvents sorted_list_of_set [7, 7] ex_hub) 4 = Some \<lparr>mb_open = True, mb_queue = [EventsRefresh]\<rparr>"
  using notify_exactly_once [OF ex_hub_ok iterates_sorted, of 5 42 "[7, 7]"]
  by (simp add: delivered_def ex_hub_facts push_def)

theorem no_resurrection_witness:
  "4 \<notin> set (vecTopicSenders sorted_list_of_set 5 (vUnregister 4 ex_hub))
   \<and> fst (bSubscribe 4 5 [] (vUnregister 4 ex_hub)) = False
   \<and> hd_mailboxes (vNotifyEvents sorted_list_of_set [7] (vUnregister 4 ex_hub)) 4 = Some \<lparr>mb_open = True, mb_queue = []\<rparr>"
proof -
  let ?r0 = "rt_start\<lparr>rt_hub := ex_hub\<rparr>"
  have "(rt_step sorted_list_of_set)\<^sup>*\<^sup>* (?r0\<lparr>rt_hub := vUnregister 4 (rt_hub ?r0)\<rparr>) (?r0\<lparr>rt_hub := vUnregister 4 ex_hub\<rparr>)"
    by simp
  from no_resurrection [OF ex_hub_run _ this iterates_sorted, where t = 5 and us = "[7]" and cs = "[]"]
  show ?thesis by (simp add: ex_hub_facts)
qed

theorem subscribe_catches_up_witness:
  "\<exists>h'. hd_mailboxes h' 4 = Some \<lparr>mb_open = True, mb_queue = [CommentDelivery 21, CommentDelivery 22]\<rparr> \<and> (\<exists>r w'.
    vSubscribeTopic (pg_realtime (\<lambda>_ _. False)) 4 \<lparr>sr_iTopicId = 5, sr_iLastSeenCommentId = 20\<rparr>
      (\<lparr>w_db = ex_comment_db, w_queue = ()\<rparr>, ex_hub) = (r, (w', h')))"
proof -
  let ?w = "\<lparr>w_db = ex_comment_db, w_queue = ()\<rparr>"
  obtain r w' h' where run: "vSubscribeTopic (pg_realtime (\<lambda>_ _. False)) 4 \<lparr>sr_iTopicId = 5, sr_iLastSeenCommentId = 20\<rparr>
      (?w, ex_hub) = (r, (w', h'))" by (metis prod.collapse)
  have keyed: "comments.keyed (w_db ?w)" using ex_comment_keyed by simp
  have set: "{pc_id c |c. c \<in> set ex_thread \<and> pc_topic c = 5 \<and> \<not> pc_deleted c \<and> 20 < pc_id c} = {21, 22}"
    (is "?A = _")
  proof -
    have "?A = set (map pc_id (filter (\<lambda>c. pc_topic c = 5 \<and> \<not> pc_deleted c \<and> 20 < pc_id c) ex_thread))" by auto
    also have "\<dots> = {21, 22}" by (simp add: ex_thread_def ex_comment_def)
    finally show ?thesis .
  qed
  from subscribe_catches_up [OF ex_hub_facts(2,1) _ keyed run] set obtain ids where ids:
    "sorted_wrt (<) ids" "set ids = {21, 22}"
    "hd_mailboxes h' = (hd_mailboxes ex_hub)(4 \<mapsto> \<lparr>mb_open = True, mb_queue = map CommentDelivery ids\<rparr>)"
    by (auto simp: topic_of_def ex_comment_db_def ex_topic_def)
  have "ids = [21, 22]"
    using ids(1,2) by (intro sorted_distinct_set_unique) (simp_all add: strict_sorted_iff)
  with ids(3) run show ?thesis by auto
qed

end
