(* ===== verification/Comment_Writing.thy ===== *)
theory Comment_Writing
  imports Comment_Posting Realtime
begin

section \<open>Writing and editing comments (src/routes/comments.rs)\<close>

text \<open>
  The transaction that adds a comment with its counters and notifications, the one that edits a
  comment, and the handlers around them.  After a commit the search queue is told first and the
  realtime hub next.  Rendering of the form and of previews is left out: a handler answers with
  the error of the page.  The mentions of a text are a parameter.  A sequence advanced by a
  transaction that fails is taken back here, so that it has no gaps.
\<close>

subsection \<open>The forms and the surroundings\<close>

record CommentForm =
  cf_topic :: int
  cf_replyto :: "int option"
  cf_title :: "rstr option"
  cf_msg :: rstr
  cf_nick :: "rstr option"
  cf_password :: "rstr option"
  cf_preview :: "rstr option"
  cf_captcha_response :: "rstr option"
  cf_csrf :: "rstr option"

record EditCommentForm =
  ef_original :: int
  ef_topic :: "int option"
  ef_msg :: rstr
  ef_preview :: "rstr option"
  ef_captcha_response :: "rstr option"
  ef_csrf :: "rstr option"

record 'q comment_world =
  cw_store :: "'q world"
  cw_hub :: StRealtimeHubData
  cw_flood :: CCommentFloodCache

record 'q comment_env =
  ce_pw :: password_codec
  ce_post :: "params \<Rightarrow> rstr + StCaptchaResponse"
  ce_captcha :: StCaptchaConfig
  ce_inet :: "rstr \<Rightarrow> rstr option"
  ce_lower :: "rstr \<Rightarrow> rstr"
  ce_mentions :: "rstr \<Rightarrow> rstr \<Rightarrow> rstr list"
  ce_ord :: "session_id set \<Rightarrow> session_id list"
  ce_local :: "time \<Rightarrow> time"
  ce_queue :: "'q world TrCommentReindexQueue"

definition cw_db :: "'q comment_world \<Rightarrow> pg" where
  "cw_db w = w_db (cw_store w)"

definition on_store :: "('q world, app_error, 'a) eff \<Rightarrow> ('q comment_world, app_error, 'a) eff" where
  "on_store m = (\<lambda>w. case m (cw_store w) of (r, s) \<Rightarrow> (r, w\<lparr>cw_store := s\<rparr>))"

definition on_cdb :: "'a pg_eff \<Rightarrow> ('q comment_world, app_error, 'a) eff" where
  "on_cdb m = on_store (on_db m)"

subsection \<open>The authors of a branch\<close>

text \<open>\<open>get_branch_authors\<close>: the comment and what it answers, up to the top of the thread.  The recursive
  query keeps no row twice, so it stops at one it has seen.\<close>

function branch :: "pg \<Rightarrow> int list \<Rightarrow> int \<Rightarrow> pg_comment list" where
  "branch db seen i = (if i \<in> set seen then [] else
     (case comment_of db i of None \<Rightarrow> []
      | Some c \<Rightarrow> c # (case pc_replyto c of None \<Rightarrow> [] | Some p \<Rightarrow> branch db (i # seen) p)))"
  by pat_completeness auto
termination
proof (relation "measure (\<lambda>(db, seen, i). card (pc_id ` set (db_comments db) - set seen))")
  fix db seen i c p
  assume new: "i \<notin> set seen" and c: "comment_of db i = Some c"
  then have "i \<in> pc_id ` set (db_comments db) - set seen" by (auto simp: comment_of_def find_Some_iff image_iff)
  then have "card (pc_id ` set (db_comments db) - set (i # seen)) < card (pc_id ` set (db_comments db) - set seen)"
    by (intro psubset_card_mono) auto
  then show "((db, i # seen, p), db, seen, i) \<in> measure (\<lambda>(db, seen, i). card (pc_id ` set (db_comments db) - set seen))"
    by simp
qed simp

declare branch.simps [simp del]

definition branch_authors :: "pg \<Rightarrow> int \<Rightarrow> int list" where
  "branch_authors db i = map pc_userid (branch db [] i)"

subsection \<open>Adding a comment\<close>

text \<open>\<open>create_user_agent\<close>: a strict function, so nothing for no agent.\<close>

definition create_user_agent :: "rstr option \<Rightarrow> int option pg_eff" where
  "create_user_agent name = (case name of None \<Rightarrow> ret_eff None
     | Some n \<Rightarrow> bind_eff (fetch_optional db_user_agents (\<lambda>a. ag_name a = n)) (\<lambda>a. case a of
         Some a \<Rightarrow> ret_eff (Some (ag_id a))
       | None \<Rightarrow> bind_eff (next_val db_agent_seq db_agent_seq_update I32_MAX) (\<lambda>i.
           bind_eff (exec_insert db_user_agents db_user_agents_update (\<lambda>db r. ag_id r \<notin> ag_id ` set (db_user_agents db))
             \<lparr>ag_id = i, ag_name = n\<rparr>) (\<lambda>_. ret_eff (Some i)))))"

text \<open>The longest prefix of whole characters within 511 bytes.\<close>

fun take_bytes :: "nat \<Rightarrow> rstr \<Rightarrow> rstr" where
  "take_bytes n [] = []"
| "take_bytes n (c # s) = (if utf8_width c \<le> n then c # take_bytes (n - utf8_width c) s else [])"

text \<open>The trigger \<open>comins\<close> of an inserted comment.\<close>

definition comins :: "time \<Rightarrow> int \<Rightarrow> unit pg_eff" where
  "comins now iTopic = (\<lambda>db.
     bind_eff (exec_update_checked db_topics db_topics_update (\<lambda>t. pt_id t = iTopic)
       (\<lambda>t. t\<lparr>pt_stat1 := pt_stat1 t + 1, pt_stat3 := pt_stat3 t + 1, pt_lastmod := now\<rparr>)
       (\<lambda>t. in_i32 (pt_stat1 t) \<and> in_i32 (pt_stat3 t))) (\<lambda>_.
     bind_eff (exec_update_checked db_groups db_groups_update (\<lambda>g. Some (pg_id g) = map_option pt_groupid (topic_of db iTopic))
       (pg_stat3_update (\<lambda>n. n + 1)) (\<lambda>g. in_i32 (pg_stat3 g))) (\<lambda>_. ret_eff ())) db)"

text \<open>What the keys of \<open>comments\<close> demand of a new row.\<close>

definition comment_fits :: "pg \<Rightarrow> pg_comment \<Rightarrow> bool" where
  "comment_fits db c \<longleftrightarrow> pc_id c \<notin> pc_id ` set (db_comments db) \<and> topic_of db (pc_topic c) \<noteq> None \<and>
     user_of db (pc_userid c) \<noteq> None \<and> (case pc_replyto c of None \<Rightarrow> True | Some p \<Rightarrow> comment_of db p \<noteq> None)"

definition comment_event :: "event_type \<Rightarrow> int \<Rightarrow> int \<Rightarrow> int \<Rightarrow> pg_event" where
  "comment_event k iTopic iComment iUser = \<lparr>ue_id = 0, ue_userid = iUser, ue_type = k, ue_private = False,
     ue_message_id = Some iTopic, ue_comment_id = Some iComment, ue_message = None, ue_unread = True,
     ue_origin_user = None, ue_warning_id = None\<rparr>"

definition ignores :: "pg \<Rightarrow> int \<Rightarrow> int \<Rightarrow> bool" where
  "ignores db a b = list_ex (\<lambda>g. ig_userid g = a \<and> ig_ignored g = b) (db_ignore_list db)"

definition check_reply :: "int \<Rightarrow> int option \<Rightarrow> unit pg_eff" where
  "check_reply iTopic replyto = (case replyto of None \<Rightarrow> ret_eff ()
     | Some iReplyTo \<Rightarrow> bind_eff (fetch_optional db_comments (\<lambda>c. pc_id c = iReplyTo)) (\<lambda>optReply. case optReply of
         None \<Rightarrow> fail_eff NotFound
       | Some c \<Rightarrow> if pc_deleted c then fail_eff (BadRequest ([1085, 1077, 1083, 1100, 1079, 1103, 32, 1082, 1086, 1084, 1084, 1077, 1085, 1090, 1080, 1088, 1086, 1074, 1072, 1090, 1100, 32, 1091, 1076, 1072, 1083, 1077, 1085, 1085, 1099, 1077, 32, 1082, 1086, 1084, 1084, 1077, 1085, 1090, 1072, 1088, 1080, 1080] :: rstr) \<comment> \<open>nelzya kommentirovat udalennye kommentarii\<close>)
           else if pc_topic c \<noteq> iTopic then fail_eff (BadRequest ([1085, 1077, 1082, 1086, 1088, 1088, 1077, 1082, 1090, 1085, 1072, 1103, 32, 1090, 1077, 1084, 1072] :: rstr) \<comment> \<open>nekorrektnaya tema\<close>)
           else ret_eff ()))"

definition insert_comment_row ::
    "(rstr \<Rightarrow> rstr option) \<Rightarrow> time \<Rightarrow> int \<Rightarrow> int \<Rightarrow> int option \<Rightarrow> rstr \<Rightarrow> rstr \<Rightarrow> rstr \<Rightarrow> rstr option \<Rightarrow> int pg_eff" where
  "insert_comment_row inet now user_id iTopic replyto msg markup sRemoteIp optUserAgent =
     bind_eff (next_val db_msg_seq db_msg_seq_update I32_MAX) (\<lambda>i.
     bind_eff (exec_insert db_msgbase db_msgbase_update (\<lambda>db m. pm_id m \<notin> pm_id ` set (db_msgbase db))
       \<lparr>pm_id = i, pm_message = msg, pm_markup = markup\<rparr>) (\<lambda>_.
     inet_or_fail inet sRemoteIp (\<lambda>ip.
     bind_eff (create_user_agent (map_option (take_bytes 511) optUserAgent)) (\<lambda>ua.
     bind_eff (exec_insert db_comments db_comments_update comment_fits
       \<lparr>pc_id = i, pc_topic = iTopic, pc_userid = user_id, pc_replyto = replyto, pc_deleted = False, pc_postdate = now,
        pc_postip = Some ip, pc_ua_id = ua, pc_title = [], pc_editor_id = None, pc_edit_date = None, pc_edit_count = None,
        pc_reactions = []\<rparr>) (\<lambda>_.
     bind_eff (comins now iTopic) (\<lambda>_. ret_eff i))))))"

definition reply_recipients :: "pg \<Rightarrow> int \<Rightarrow> int option \<Rightarrow> int list" where
  "reply_recipients db user_id parent = (case parent of None \<Rightarrow> []
     | Some p \<Rightarrow> (if p \<noteq> user_id \<and> p \<noteq> 2 \<and> \<not> ignores db p user_id then [p] else []))"

definition watch_recipients :: "pg \<Rightarrow> int \<Rightarrow> int \<Rightarrow> int option \<Rightarrow> int \<Rightarrow> int list" where
  "watch_recipients db iTopic user_id parent i =
     map me_userid (filter (\<lambda>m. me_topic m = iTopic \<and> me_watch m \<and> me_userid m \<noteq> user_id \<and> me_userid m \<noteq> 2 \<and>
       (case parent of
          Some p \<Rightarrow> me_userid m \<noteq> p \<and> \<not> list_ex (\<lambda>a. ignores db (me_userid m) a) (branch_authors db i)
        | None \<Rightarrow> \<not> ignores db (me_userid m) user_id)) (db_memories db))"

text \<open>\<open>mentions_include_blocked_users\<close> holds for one markup.\<close>

definition mentions_include_blocked_users :: "rstr \<Rightarrow> bool" where
  "mentions_include_blocked_users markup \<longleftrightarrow> markup = (u ''MARKDOWN'')"

definition mention_recipients :: "pg \<Rightarrow> int \<Rightarrow> bool \<Rightarrow> rstr list \<Rightarrow> rstr \<Rightarrow> int list" where
  "mention_recipients db user_id bUserCastAllowed nicks markup =
     (if bUserCastAllowed \<and> nicks \<noteq> [] then
        map pu_id (filter (\<lambda>r. pu_nick r \<in> set nicks \<and> pu_id r \<noteq> user_id \<and>
          (mentions_include_blocked_users markup \<or> \<not> pu_blocked r) \<and> \<not> ignores db (pu_id r) user_id) (db_users db))
      else [])"

text \<open>One kind of notification: the recipients are selected, then told one by one.\<close>

definition notify_comment :: "event_type \<Rightarrow> int \<Rightarrow> int \<Rightarrow> (pg \<Rightarrow> int list) \<Rightarrow> int list pg_eff" where
  "notify_comment k iTopic i sel = (\<lambda>db.
     bind_eff (insert_events (map (comment_event k iTopic i) (sel db))) (\<lambda>_. ret_eff (sel db)) db)"

definition insert_comment_tx ::
    "(rstr \<Rightarrow> rstr option) \<Rightarrow> time \<Rightarrow> int \<Rightarrow> bool \<Rightarrow> int \<Rightarrow> int option \<Rightarrow> rstr \<Rightarrow> rstr list \<Rightarrow> rstr \<Rightarrow> rstr \<Rightarrow> rstr option
      \<Rightarrow> (int \<times> int list) pg_eff" where
  "insert_comment_tx inet now user_id bUserCastAllowed iTopic replyto msg nicks markup sRemoteIp optUserAgent =
     transaction (
     bind_eff (check_reply iTopic replyto) (\<lambda>_.
     bind_eff (insert_comment_row inet now user_id iTopic replyto msg markup sRemoteIp optUserAgent) (\<lambda>i.
     bind_eff (case replyto of None \<Rightarrow> ret_eff None
        | Some p \<Rightarrow> bind_eff (fetch_optional db_comments (\<lambda>c. pc_id c = p)) (\<lambda>c. ret_eff (map_option pc_userid c))) (\<lambda>parent.
     bind_eff (notify_comment REPLY iTopic i (\<lambda>db. reply_recipients db user_id parent)) (\<lambda>replied.
     bind_eff (notify_comment WATCH iTopic i (\<lambda>db. watch_recipients db iTopic user_id parent i)) (\<lambda>watchers.
     bind_eff (notify_comment REF iTopic i (\<lambda>db. mention_recipients db user_id bUserCastAllowed nicks markup)) (\<lambda>mentioned.
     let notified = remdups_adj (sort (replied @ watchers @ mentioned)) in
     bind_eff (if notified \<noteq> [] then recalculate_unread notified else ret_eff ()) (\<lambda>_.
     ret_eff (i, notified)))))))))"

definition insert_comment ::
    "'q comment_env \<Rightarrow> time \<Rightarrow> int \<Rightarrow> bool \<Rightarrow> bool \<Rightarrow> CommentForm \<Rightarrow> rstr \<Rightarrow> rstr \<Rightarrow> rstr option \<Rightarrow> bool
      \<Rightarrow> ('q comment_world, app_error, int) eff" where
  "insert_comment env now user_id bAnonymous bUserCastAllowed form markup sRemoteIp optUserAgent bRejectEmpty =
     (case optCommentBodyErrorWithPolicy (cf_msg form) bAnonymous bRejectEmpty of
        Some sError \<Rightarrow> fail_eff (BadRequest sError)
      | None \<Rightarrow>
     bind_eff (on_cdb (insert_comment_tx (ce_inet env) now user_id bUserCastAllowed (cf_topic form) (positive (cf_replyto form))
       (cf_msg form) (ce_mentions env (cf_msg form) markup) markup sRemoteIp optUserAgent)) (\<lambda>(i, notified).
     bind_eff (on_store (crq_vUpdateComments (ce_queue env) [i])) (\<lambda>_.
     (\<lambda>w. (Inr i, w\<lparr>cw_hub := vNotifyEvents (ce_ord env) notified (vNotifyNewComment (ce_ord env) (cf_topic form) i (cw_hub w))\<rparr>)))))"

subsection \<open>The handler\<close>

definition locate_topic_or_comment :: "(rstr \<Rightarrow> rstr) \<Rightarrow> int \<Rightarrow> (rstr \<times> rstr \<times> int \<times> int option) option pg_eff" where
  "locate_topic_or_comment lower msgid = (\<lambda>db.
     let row = (\<lambda>t cid. map_option (\<lambda>(t, g, s). (section_prefix lower (ps_id s) (ps_name s), pg_urlname g, pt_id t, cid)) (topic_join db t))
     in (Inr (or_else (row msgid None) (Option.bind (comment_of db msgid) (\<lambda>c. row (pc_topic c) (Some msgid)))), db))"

definition comment_link :: "(rstr \<Rightarrow> rstr) \<Rightarrow> int \<Rightarrow> rstr pg_eff" where
  "comment_link lower comment_id = bind_eff (locate_topic_or_comment lower comment_id) (\<lambda>r. ret_eff (case r of
     Some (sec, grp, tid, _) \<Rightarrow> [47] @ sec @ [47] @ grp @ [47] @ show_int tid @ (u ''?cid='') @ show_int comment_id
   | None \<Rightarrow> (u ''/jump-message.jsp?msgid='') @ show_int comment_id))"

text \<open>A page with the error it shows, or a redirect.\<close>

datatype comment_response = CommentPage "rstr option" | CommentSeeOther rstr

text \<open>A later check runs only while there is no error; a refusal becomes the error.\<close>

definition unless_error :: "rstr option \<Rightarrow> ('w, 'e, rstr option) eff \<Rightarrow> ('w, 'e, rstr option) eff" where
  "unless_error e m = (case e of Some s \<Rightarrow> ret_eff (Some s) | None \<Rightarrow> m)"

definition form_refusal :: "('w, app_error, unit) eff \<Rightarrow> ('w, app_error, rstr option) eff" where
  "form_refusal m = (\<lambda>w. case m w of (Inr _, w') \<Rightarrow> (Inr None, w')
     | (Inl e, w') \<Rightarrow> ((case sCommentFormError e of Inl e \<Rightarrow> Inl e | Inr s \<Rightarrow> Inr (Some s)), w'))"

definition sCsrfError :: rstr where
  "sCsrfError = ([1053, 1077, 1087, 1088, 1072, 1074, 1080, 1083, 1100, 1085, 1099, 1081, 32, 1082, 1086, 1076, 32, 1079, 1072, 1097, 1080, 1090, 1099, 32, 67, 83, 82, 70, 46, 32, 1042, 1086, 1079, 1084, 1086, 1078, 1085, 1086, 32, 1089, 1077, 1089, 1089, 1080, 1103, 32, 1091, 1089, 1090, 1072, 1088, 1077, 1083, 1072] :: rstr) \<comment> \<open>Nepravilnyj kod zashchity CSRF. Vozmozhno sessiya ustarela\<close>"

definition csrf_matches :: "rstr option \<Rightarrow> rstr \<Rightarrow> bool" where
  "csrf_matches submitted token \<longleftrightarrow> map_option trim submitted = Some (trim token)"

definition captcha_error :: "'q comment_env \<Rightarrow> rstr option \<Rightarrow> rstr \<Rightarrow> rstr option" where
  "captcha_error env response sRemoteIp = (case sValidateCaptcha (ce_post env) (ce_captcha env) response sRemoteIp of
     Inl e \<Rightarrow> Some e | Inr _ \<Rightarrow> None)"

definition check_flood :: "rstr \<Rightarrow> nat \<Rightarrow> time \<Rightarrow> ('q comment_world, app_error, rstr option) eff" where
  "check_flood sRemoteIp iThreshold inst = (\<lambda>w. case optCheckComment (cw_flood w) sRemoteIp iThreshold inst of
     (r, c) \<Rightarrow> (Inr r, w\<lparr>cw_flood := c\<rparr>))"

text \<open>\<open>inst\<close> is the clock of the flood cache.\<close>

definition add_comment ::
    "'q comment_env \<Rightarrow> time \<Rightarrow> time \<Rightarrow> rstr \<Rightarrow> StUserSummary option \<Rightarrow> rstr \<Rightarrow> CommentForm \<Rightarrow> rstr option
      \<Rightarrow> ('q comment_world, app_error, comment_response) eff" where
  "add_comment env now inst sRemoteIp user csrf_token form sUserAgent =
     bind_eff (if user = None then ret_eff True else on_cdb (bIpCaptchaRequired (ce_inet env) sRemoteIp)) (\<lambda>bRequireCaptcha.
     bind_eff (case user of Some stUser \<Rightarrow> on_cdb (user_comment_format (us_id stUser))
        | None \<Rightarrow> ret_eff ((u ''markdown''), (u ''Markdown''), (u ''MARKDOWN''))) (\<lambda>(_, _, markup).
     let real = (cf_preview form = None);
         e1 = (if real \<and> bRequireCaptcha then captcha_error env (cf_captcha_response form) sRemoteIp else None);
         e2 = or_else e1 (if real \<and> \<not> csrf_matches (cf_csrf form) csrf_token then Some sCsrfError else None) in
     bind_eff (on_cdb (stResolvePostingIdentity (ce_pw env) now user (cf_nick form) (cf_password form))) (\<lambda>stResolution.
     let e3 = or_else e2 (rs_optError stResolution); stIdentity = rs_stIdentity stResolution;
         stUser = id_stUser stIdentity; bAnonymous = (\<not> id_bAuthorized stIdentity) in
     bind_eff (unless_error e3 (on_cdb (optCommentActorError (ce_inet env) now stUser bAnonymous sRemoteIp))) (\<lambda>e4.
     bind_eff (unless_error e4 (if \<not> real then ret_eff None else
         bind_eff (on_cdb (iCommentRateThresholdSeconds now stUser bAnonymous)) (\<lambda>iThreshold. check_flood sRemoteIp iThreshold inst))) (\<lambda>e5.
     bind_eff (unless_error e5 (form_refusal (on_cdb (check_comment_posting_allowed now stUser bAnonymous (cf_topic form))))) (\<lambda>e6.
     bind_eff (unless_error e6 (on_cdb (optCommentReplyError (cf_topic form) (cf_replyto form)))) (\<lambda>e7.
     let e8 = or_else e7 (optCommentBodyError (cf_msg form) bAnonymous) in
     if \<not> real \<or> e8 \<noteq> None then ret_eff (CommentPage e8)
     else
     bind_eff (insert_comment env now (us_id stUser) bAnonymous (coalesce 0 (us_score stUser) \<ge> 0) form markup sRemoteIp sUserAgent True) (\<lambda>i.
     bind_eff (on_cdb (comment_link (ce_lower env) i)) (\<lambda>sLocation. ret_eff (CommentSeeOther sLocation))))))))))"

subsection \<open>Editing\<close>

record StEditableCommentRow =
  ec_iTopicId :: int
  ec_iAuthorId :: int
  ec_sTitle :: rstr
  ec_sMessage :: rstr
  ec_sMarkup :: rstr
  ec_bDeleted :: bool
  ec_dtPostdate :: time
  ec_bHasReplies :: bool
  ec_bTopicDeleted :: bool
  ec_bTopicExpired :: bool

definition stEditableComment :: "time \<Rightarrow> int \<Rightarrow> StEditableCommentRow pg_eff" where
  "stEditableComment now comment_id = (\<lambda>db.
     (ok_or NotFound (Option.bind (comment_of db comment_id) (\<lambda>c. Option.bind (msgbase_of db comment_id) (\<lambda>m.
        map_option (\<lambda>(t, g, s). \<lparr>ec_iTopicId = pc_topic c, ec_iAuthorId = pc_userid c, ec_sTitle = pc_title c,
          ec_sMessage = pm_message m, ec_sMarkup = pm_markup m, ec_bDeleted = pc_deleted c, ec_dtPostdate = pc_postdate c,
          ec_bHasReplies = list_ex (\<lambda>r. pc_replyto r = Some (pc_id c) \<and> \<not> pc_deleted r) (db_comments db),
          ec_bTopicDeleted = pt_deleted t, ec_bTopicExpired = topic_expired now s t\<rparr>) (topic_join db (pc_topic c))))), db))"

definition optCommentEditEligibilityError :: "StEditableCommentRow \<Rightarrow> StUserSummary \<Rightarrow> time \<Rightarrow> rstr option" where
  "optCommentEditEligibilityError stRow stUser dtNow =
     (if ec_bDeleted stRow \<or> ec_bTopicDeleted stRow then Some ([1058, 1077, 1084, 1072, 32, 1080, 1083, 1080, 32, 1082, 1086, 1084, 1084, 1077, 1085, 1090, 1072, 1088, 1080, 1081, 32, 1091, 1076, 1072, 1083, 1077, 1085, 1099] :: rstr) \<comment> \<open>Tema ili kommentarij udaleny\<close>
      else if ec_bTopicExpired stRow then Some ([1057, 1086, 1086, 1073, 1097, 1077, 1085, 1080, 1077, 32, 1091, 1078, 1077, 32, 1091, 1089, 1090, 1072, 1088, 1077, 1083, 1086] :: rstr) \<comment> \<open>Soobshchenie uzhe ustarelo\<close>
      else if us_id stUser \<noteq> ec_iAuthorId stRow then Some ([1059, 32, 1074, 1072, 1089, 32, 1085, 1077, 1076, 1086, 1089, 1090, 1072, 1090, 1086, 1095, 1085, 1086, 32, 1087, 1088, 1072, 1074, 32, 1076, 1083, 1103, 32, 1088, 1077, 1076, 1072, 1082, 1090, 1080, 1088, 1086, 1074, 1072, 1085, 1080, 1103, 32, 1101, 1090, 1086, 1075, 1086, 32, 1082, 1086, 1084, 1084, 1077, 1085, 1090, 1072, 1088, 1080, 1103] :: rstr) \<comment> \<open>U vas nedostatochno prav dlya redaktirovaniya etogo kommentariya\<close>
      else if dtNow > ec_dtPostdate stRow + minutes 30 then Some ([1048, 1089, 1090, 1077, 1082, 32, 1089, 1088, 1086, 1082, 32, 1088, 1077, 1076, 1072, 1082, 1090, 1080, 1088, 1086, 1074, 1072, 1085, 1080, 1103] :: rstr) \<comment> \<open>Istek srok redaktirovaniya\<close>
      else if ec_bHasReplies stRow then Some ([1056, 1077, 1076, 1072, 1082, 1090, 1080, 1088, 1086, 1074, 1072, 1085, 1080, 1077, 32, 1082, 1086, 1084, 1084, 1077, 1085, 1090, 1072, 1088, 1080, 1077, 1074, 32, 1089, 32, 1086, 1090, 1074, 1077, 1090, 1072, 1084, 1080, 32, 1079, 1072, 1087, 1088, 1077, 1097, 1077, 1085, 1086] :: rstr) \<comment> \<open>Redaktirovanie kommentariev s otvetami zapreshcheno\<close>
      else if coalesce 0 (us_score stUser) < 45 then Some ([1059, 32, 1074, 1072, 1089, 32, 1085, 1077, 1076, 1086, 1089, 1090, 1072, 1090, 1086, 1095, 1085, 1086, 32, 1087, 1088, 1072, 1074, 32, 1076, 1083, 1103, 32, 1088, 1077, 1076, 1072, 1082, 1090, 1080, 1088, 1086, 1074, 1072, 1085, 1080, 1103, 32, 1101, 1090, 1086, 1075, 1086, 32, 1082, 1086, 1084, 1084, 1077, 1085, 1090, 1072, 1088, 1080, 1103] :: rstr) \<comment> \<open>U vas nedostatochno prav dlya redaktirovaniya etogo kommentariya\<close>
      else if ec_sMarkup stRow = (u ''PLAIN'') \<and> \<not> us_candel stUser then Some ([1042, 1099, 32, 1085, 1077, 32, 1084, 1086, 1078, 1077, 1090, 1077, 32, 1088, 1077, 1076, 1072, 1082, 1090, 1080, 1088, 1086, 1074, 1072, 1090, 1100, 32, 1090, 1077, 1082, 1089, 1090, 1099, 32, 1076, 1072, 1085, 1085, 1086, 1075, 1086, 32, 1092, 1086, 1088, 1084, 1072, 1090, 1072] :: rstr) \<comment> \<open>Vy ne mozhete redaktirovat teksty dannogo formata\<close>
      else None)"

definition optCommentOldTitleForHistory :: "rstr \<Rightarrow> rstr option" where
  "optCommentOldTitleForHistory sOldTitle = then_some (sOldTitle \<noteq> []) sOldTitle"

definition edit_records :: "pg \<Rightarrow> int \<Rightarrow> int" where
  "edit_records db i = int (length (filter (\<lambda>e. ei_msgid e = i \<and> ei_object_type e = EditComment) (db_edit_info db)))"

text \<open>The new title is always empty.  \<open>local\<close> reads the clock in the zone of the legacy timestamps.\<close>

definition edit_comment_tx :: "(time \<Rightarrow> time) \<Rightarrow> time \<Rightarrow> int \<Rightarrow> int \<Rightarrow> StEditableCommentRow \<Rightarrow> rstr \<Rightarrow> unit pg_eff" where
  "edit_comment_tx local_time now user_id original row msg =
     (let optOldMessage = then_some (ec_sMessage row \<noteq> msg) (ec_sMessage row);
          optOldTitle = optCommentOldTitleForHistory (ec_sTitle row) in
     transaction (
     bind_eff (exec_update db_msgbase db_msgbase_update (\<lambda>m. pm_id m = original) (pm_message_update (\<lambda>_. msg))) (\<lambda>_.
     bind_eff (exec_update db_comments db_comments_update (\<lambda>c. pc_id c = original) (pc_title_update (\<lambda>_. []))) (\<lambda>_.
     if optOldMessage = None \<and> optOldTitle = None then ret_eff ()
     else
     bind_eff (next_val db_edit_seq db_edit_seq_update I32_MAX) (\<lambda>i.
     bind_eff (exec_insert db_edit_info db_edit_info_update (\<lambda>db r. user_of db (ei_editor r) \<noteq> None \<and> msgbase_of db (ei_msgid r) \<noteq> None)
       \<lparr>ei_id = i, ei_msgid = original, ei_editor = user_id, ei_oldmessage = optOldMessage, ei_editdate = now, ei_oldtitle = optOldTitle,
        ei_oldtags = None, ei_oldlinktext = None, ei_oldurl = None, ei_object_type = EditComment, ei_oldminor = None,
        ei_oldpoll = None, ei_oldaddimages = None\<rparr>) (\<lambda>_.
     bind_eff (\<lambda>db. exec_update db_comments db_comments_update (\<lambda>c. pc_id c = original)
       (\<lambda>c. c\<lparr>pc_editor_id := Some user_id, pc_edit_date := Some (local_time now),
         pc_edit_count := Some (min (edit_records db original) I32_MAX)\<rparr>) db) (\<lambda>_.
     bind_eff (exec_update db_topics db_topics_update (\<lambda>t. pt_id t = ec_iTopicId row) (pt_lastmod_update (\<lambda>_. now))) (\<lambda>_.
     ret_eff ()))))))))"

definition edit_comment ::
    "'q comment_env \<Rightarrow> time \<Rightarrow> rstr \<Rightarrow> StUserSummary option \<Rightarrow> rstr \<Rightarrow> EditCommentForm
      \<Rightarrow> ('q comment_world, app_error, comment_response) eff" where
  "edit_comment env now sRemoteIp optUser csrf_token form =
     (case optUser of None \<Rightarrow> fail_eff Forbidden
      | Some user \<Rightarrow>
     bind_eff (on_cdb (stEditableComment now (ef_original form))) (\<lambda>row.
     if (case ef_topic form of None \<Rightarrow> False | Some t \<Rightarrow> t \<noteq> ec_iTopicId row) then fail_eff (BadRequest ([1090, 1077, 1084, 1072, 32, 1085, 1077, 32, 1089, 1086, 1074, 1087, 1072, 1076, 1072, 1077, 1090] :: rstr) \<comment> \<open>tema ne sovpadaet\<close>)
     else
     bind_eff (on_cdb (bIpCaptchaRequired (ce_inet env) sRemoteIp)) (\<lambda>bRequireCaptcha.
     let real = (ef_preview form = None); e1 = optCommentBodyError (ef_msg form) False in
     bind_eff (unless_error e1 (on_cdb (optCommentActorError (ce_inet env) now user False sRemoteIp))) (\<lambda>e2.
     let e3 = or_else e2 (if real \<and> \<not> csrf_matches (ef_csrf form) csrf_token then Some sCsrfError else None);
         e4 = or_else e3 (if real \<and> bRequireCaptcha then captcha_error env (ef_captcha_response form) sRemoteIp else None) in
     bind_eff (unless_error e4 (form_refusal (on_cdb (check_comment_posting_allowed now user False (ec_iTopicId row))))) (\<lambda>e5.
     let e6 = or_else e5 (optCommentEditEligibilityError row user now) in
     if \<not> real \<or> e6 \<noteq> None then ret_eff (CommentPage e6)
     else
     bind_eff (on_cdb (edit_comment_tx (ce_local env) now (us_id user) (ef_original form) row (ef_msg form))) (\<lambda>_.
     bind_eff (on_store (crq_vUpdateComments (ce_queue env) [ef_original form])) (\<lambda>_.
     bind_eff (on_cdb (comment_link (ce_lower env) (ef_original form))) (\<lambda>sLocation.
     ret_eff (CommentSeeOther sLocation)))))))))"

end
