(* ===== verification/Comment_Effects.thy ===== *)
theory Comment_Effects
  imports Comment_Writing
begin

section \<open>What writing a comment does\<close>

subsection \<open>The branch of a comment\<close>

text \<open>\<open>answers db i j\<close>: the comment \<open>i\<close> answers \<open>j\<close>; the branch of \<open>i\<close> is what it answers, directly or not.\<close>

definition answers :: "pg \<Rightarrow> int \<Rightarrow> int \<Rightarrow> bool" where
  "answers db i j \<longleftrightarrow> (\<exists>c. comment_of db i = Some c \<and> pc_replyto c = Some j)"

definition in_branch :: "pg \<Rightarrow> int \<Rightarrow> int \<Rightarrow> bool" where
  "in_branch db i a \<longleftrightarrow> (\<exists>j c. (answers db)\<^sup>*\<^sup>* i j \<and> comment_of db j = Some c \<and> pc_userid c = a)"

lemma branch_mem:
  "c \<in> set (branch db seen i) \<longleftrightarrow> i \<notin> set seen \<and> (\<exists>e. comment_of db i = Some e \<and>
     (c = e \<or> (\<exists>q. pc_replyto e = Some q \<and> c \<in> set (branch db (i # seen) q))))"
proof (cases "comment_of db i")
  case None
  then show ?thesis by (subst branch.simps) simp
next
  case (Some e)
  then show ?thesis by (subst branch.simps, cases "pc_replyto e") auto
qed

lemma branch_sound:
  "c \<in> set (branch db seen i) \<Longrightarrow> \<exists>j. (answers db)\<^sup>*\<^sup>* i j \<and> comment_of db j = Some c"
proof (induction db seen i rule: branch.induct)
  case (1 db seen i)
  from "1.prems" obtain d where new: "i \<notin> set seen" and d: "comment_of db i = Some d"
    and c: "c = d \<or> (\<exists>p. pc_replyto d = Some p \<and> c \<in> set (branch db (i # seen) p))"
    unfolding branch_mem [of c db seen i] by blast
  from c show ?case
  proof
    assume "\<exists>p. pc_replyto d = Some p \<and> c \<in> set (branch db (i # seen) p)"
    then obtain p where p: "pc_replyto d = Some p" "c \<in> set (branch db (i # seen) p)" by blast
    from "1.IH" [OF new d p] obtain j where "(answers db)\<^sup>*\<^sup>* p j" "comment_of db j = Some c" by blast
    moreover have "answers db i p" using d p(1) by (simp add: answers_def)
    ultimately show ?thesis by (meson converse_rtranclp_into_rtranclp)
  qed (use d in blast)
qed

lemma branch_closed:
  "c \<in> set (branch db seen i) \<Longrightarrow> pc_replyto c = Some p \<Longrightarrow> comment_of db p = Some d \<Longrightarrow>
    d \<in> set (branch db seen i) \<or> p \<in> set seen"
proof (induction db seen i rule: branch.induct)
  case (1 db seen i)
  from "1.prems"(1) obtain e where new: "i \<notin> set seen" and e: "comment_of db i = Some e"
    and c: "c = e \<or> (\<exists>q. pc_replyto e = Some q \<and> c \<in> set (branch db (i # seen) q))"
    unfolding branch_mem [of c db seen i] by blast
  have tail: "x \<in> set (branch db seen i)" if "pc_replyto e = Some q" "x \<in> set (branch db (i # seen) q)" for x q
    using new e that branch_mem [of x db seen i] by blast
  have head: "d \<in> set (branch db seen i)" if "p = i"
    using new e that "1.prems"(3) branch_mem [of d db seen i] by simp
  from c show ?case
  proof
    assume "c = e"
    with "1.prems"(2) have q: "pc_replyto e = Some p" by simp
    show ?thesis
    proof (cases "p \<in> set (i # seen)")
      case True
      then show ?thesis using head by auto
    next
      case False
      then have "d \<in> set (branch db (i # seen) p)" using "1.prems"(3) branch_mem [of d db "i # seen" p] by blast
      with tail q show ?thesis by blast
    qed
  next
    assume "\<exists>q. pc_replyto e = Some q \<and> c \<in> set (branch db (i # seen) q)"
    then obtain q where q: "pc_replyto e = Some q" "c \<in> set (branch db (i # seen) q)" by blast
    from "1.IH" [OF new e q "1.prems"(2,3)] show ?thesis using tail [OF q(1)] head by auto
  qed
qed

lemma branch_complete:
  assumes "(answers db)\<^sup>*\<^sup>* i j" "comment_of db j = Some c"
  shows "c \<in> set (branch db [] i)"
  using assms
proof (induction arbitrary: c rule: rtranclp_induct)
  case base
  then show ?case by (subst branch.simps) simp
next
  case (step j k)
  from step(2) obtain d where "comment_of db j = Some d" "pc_replyto d = Some k" by (auto simp: answers_def)
  with step.IH [of d] branch_closed [of d db "[]" i k c] step.prems show ?case by simp
qed

lemma branch_authors_iff: "a \<in> set (branch_authors db i) \<longleftrightarrow> in_branch db i a"
  using branch_sound [of _ db "[]" i] branch_complete [of db i]
  by (fastforce simp: branch_authors_def in_branch_def)

lemma own_branch: "comment_of db i = Some c \<Longrightarrow> in_branch db i (pc_userid c)"
  unfolding in_branch_def by blast

subsection \<open>Notifications as appended events\<close>

definition counterless :: "pg_user \<Rightarrow> pg_user" where
  "counterless = pu_unread_events_update (\<lambda>_. 0)"

text \<open>\<open>told es db db'\<close>: the store after the notifications \<open>es\<close> and counter changes.\<close>

definition told :: "pg_event list \<Rightarrow> pg \<Rightarrow> pg \<Rightarrow> bool" where
  "told es db db' \<longleftrightarrow> (\<exists>us new n. db' = db\<lparr>db_users := us, db_events := db_events db @ new, db_event_seq := n\<rparr> \<and>
     map counterless us = map counterless (db_users db) \<and> map (ue_id_update (\<lambda>_. 0)) new = map (ue_id_update (\<lambda>_. 0)) es)"

lemma told_refl: "told [] db db"
  unfolding told_def by (rule exI [of _ "db_users db"], rule exI [of _ "[]"], rule exI [of _ "db_event_seq db"]) simp

lemma told_trans: "told es db db1 \<Longrightarrow> told fs db1 db2 \<Longrightarrow> told (es @ fs) db db2"
  unfolding told_def by fastforce

lemma counterless_bump: "map counterless (update_where p (pu_unread_events_update f) us) = map counterless us"
  by (simp add: counterless_def update_where_def)

lemma told_event: "insert_event e db = (Inr a, db') \<Longrightarrow> told [e] db db'"
  unfolding told_def
  by (rule exI [of _ "db_users db'"], rule exI [of _ "[e\<lparr>ue_id := db_event_seq db\<rparr>]"], rule exI [of _ "db_event_seq db'"])
    (auto dest!: insert_event_Inr simp: counterless_bump)

lemma told_events: "insert_events es db = (Inr a, db') \<Longrightarrow> told es db db'"
proof (induction es arbitrary: db)
  case (Cons e es)
  then obtain db1 where "insert_event e db = (Inr (), db1)" "insert_events es db1 = (Inr a, db')"
    by (auto simp: bind_eff_Inr_iff)
  with told_trans [OF told_event Cons.IH] show ?case by fastforce
qed (simp add: told_refl)

lemma told_recalculate: "recalculate_unread ids db = (Inr a, db') \<Longrightarrow> told [] db db'"
  unfolding told_def
  by (rule exI [of _ "db_users db'"], rule exI [of _ "[]"], rule exI [of _ "db_event_seq db'"])
    (auto simp: recalculate_unread_def counterless_def update_where_def)

lemma told_notify: "notify_comment k t i sel db = (Inr ids, db') \<Longrightarrow> ids = sel db \<and> told (map (comment_event k t i) ids) db db'"
  by (auto simp: notify_comment_def eff_simps dest: told_events)

lemma told_keeps:
  assumes "told es db db'"
  shows "db_comments db' = db_comments db" "db_topics db' = db_topics db" "db_groups db' = db_groups db"
    "db_msgbase db' = db_msgbase db" "db_del_info db' = db_del_info db" "db_warnings db' = db_warnings db"
    "db_memories db' = db_memories db" "db_ignore_list db' = db_ignore_list db" "db_msg_seq db' = db_msg_seq db"
    "map counterless (db_users db') = map counterless (db_users db)"
  using assms by (auto simp: told_def)

lemma counterless_select:
  assumes "map counterless us = map counterless vs" and "\<And>r. P (counterless r) = P r"
  shows "map pu_id (filter P us) = map pu_id (filter P vs)"
proof -
  have "map pu_id (filter P ws) = map pu_id (filter P (map counterless ws))" for ws
    by (simp add: filter_map comp_def assms(2)) (simp add: counterless_def)
  with assms(1) show ?thesis by metis
qed

lemma branch_cong: "db_comments db' = db_comments db \<Longrightarrow> branch db' seen i = branch db seen i"
proof (induction db seen i rule: branch.induct)
  case (1 db seen i)
  have c: "comment_of db' i = comment_of db i" using "1.prems" by (simp add: comment_of_def)
  show ?case
    by (subst (1 2) branch.simps) (auto simp: c "1.prems" split: option.splits intro!: "1.IH")
qed

lemma recipients_told:
  assumes "told es db db'"
  shows "reply_recipients db' a p = reply_recipients db a p" "watch_recipients db' t a p i = watch_recipients db t a p i"
    "mention_recipients db' a b nicks m = mention_recipients db a b nicks m"
proof -
  have ig: "ignores db' = ignores db" using told_keeps [OF assms] by (intro ext) (simp add: ignores_def)
  have br: "branch_authors db' i = branch_authors db i"
    using branch_cong [OF told_keeps(1) [OF assms]] by (simp add: branch_authors_def)
  show "reply_recipients db' a p = reply_recipients db a p" by (simp add: reply_recipients_def ig split: option.splits)
  show "watch_recipients db' t a p i = watch_recipients db t a p i"
    unfolding watch_recipients_def ig br told_keeps(7) [OF assms] by simp
  show "mention_recipients db' a b nicks m = mention_recipients db a b nicks m"
    unfolding mention_recipients_def ig
    by (auto intro!: counterless_select [OF told_keeps(10) [OF assms]] simp: counterless_def)
qed

subsection \<open>The transaction\<close>

definition new_comment :: "time \<Rightarrow> int \<Rightarrow> int \<Rightarrow> int option \<Rightarrow> int \<Rightarrow> rstr \<Rightarrow> int option \<Rightarrow> pg_comment" where
  "new_comment now author topic replyto i ip ua = \<lparr>pc_id = i, pc_topic = topic, pc_userid = author, pc_replyto = replyto,
     pc_deleted = False, pc_postdate = now, pc_postip = Some ip, pc_ua_id = ua, pc_title = [], pc_editor_id = None,
     pc_edit_date = None, pc_edit_count = None, pc_reactions = []\<rparr>"

lemma agent_Inr:
  assumes "create_user_agent name db = (Inr ua, db')"
  shows "\<exists>as n. db' = db\<lparr>db_user_agents := as, db_agent_seq := n\<rparr>"
proof -
  have "db' = db\<lparr>db_user_agents := db_user_agents db', db_agent_seq := db_agent_seq db'\<rparr>"
    using assms by (auto simp: create_user_agent_def next_val_def exec_insert_def eff_simps fetch_optional_def
        split: option.splits if_splits)
  then show ?thesis by blast
qed

lemma comins_Inr:
  assumes "comins now t db = (Inr x, db')"
  shows "db' = db\<lparr>db_topics := update_where (\<lambda>r. pt_id r = t)
      (\<lambda>r. r\<lparr>pt_stat1 := pt_stat1 r + 1, pt_stat3 := pt_stat3 r + 1, pt_lastmod := now\<rparr>) (db_topics db),
    db_groups := update_where (\<lambda>g. Some (pg_id g) = map_option pt_groupid (topic_of db t)) (pg_stat3_update (\<lambda>n. n + 1)) (db_groups db)\<rparr>"
  using assms by (auto simp: comins_def exec_update_checked_def exec_update_def eff_simps split: if_splits)

lemma comment_row_Inr:
  assumes "insert_comment_row inet now author topic replyto msg markup ip agent db = (Inr i, db')"
  obtains ua addr as n where "i = db_msg_seq db" "inet ip = Some addr"
    and "comment_fits db (new_comment now author topic replyto i addr ua)"
    and "db' = db\<lparr>db_msg_seq := i + 1, db_msgbase := db_msgbase db @ [\<lparr>pm_id = i, pm_message = msg, pm_markup = markup\<rparr>],
      db_user_agents := as, db_agent_seq := n, db_comments := db_comments db @ [new_comment now author topic replyto i addr ua],
      db_topics := update_where (\<lambda>r. pt_id r = topic)
        (\<lambda>r. r\<lparr>pt_stat1 := pt_stat1 r + 1, pt_stat3 := pt_stat3 r + 1, pt_lastmod := now\<rparr>) (db_topics db),
      db_groups := update_where (\<lambda>g. Some (pg_id g) = map_option pt_groupid (topic_of db topic)) (pg_stat3_update (\<lambda>n. n + 1)) (db_groups db)\<rparr>"
proof -
  let ?m = "\<lparr>pm_id = db_msg_seq db, pm_message = msg, pm_markup = markup\<rparr>"
  let ?db1 = "db_msgbase_update (\<lambda>rs. rs @ [?m]) (db_msg_seq_update (\<lambda>n. n + 1) db)"
  from assms obtain addr ua db2 db3 where i: "i = db_msg_seq db" and addr: "inet ip = Some addr"
    and agent: "create_user_agent (map_option (take_bytes 511) agent) ?db1 = (Inr ua, db2)"
    and ins: "exec_insert db_comments db_comments_update comment_fits (new_comment now author topic replyto i addr ua) db2 = (Inr (), db3)"
    and trig: "comins now topic db3 = (Inr (), db')"
    by (auto simp: insert_comment_row_def next_val_def exec_insert_def [of db_msgbase] inet_or_fail_Inr new_comment_def
        bind_eff_Inr_iff split: if_splits)
  from agent_Inr [OF agent] obtain as n where db2: "db2 = ?db1\<lparr>db_user_agents := as, db_agent_seq := n\<rparr>" by blast
  from ins have fits: "comment_fits db2 (new_comment now author topic replyto i addr ua)"
    and db3: "db3 = db2\<lparr>db_comments := db_comments db2 @ [new_comment now author topic replyto i addr ua]\<rparr>"
    by (auto simp: exec_insert_def split: if_splits)
  have "comment_fits db (new_comment now author topic replyto i addr ua)"
    using fits unfolding db2 comment_fits_def of_defs by (simp split: option.splits)
  moreover have "topic_of db3 topic = topic_of db topic" unfolding db3 db2 topic_of_def by simp
  ultimately show thesis
    using that [of addr ua n as] i addr comins_Inr [OF trig] by (simp add: db3 db2)
qed

lemma check_reply_Inr:
  "check_reply topic replyto db = (Inr x, db') \<longleftrightarrow> db' = db \<and> (\<forall>p. replyto = Some p \<longrightarrow>
     (\<exists>d. comment_of db p = Some d \<and> \<not> pc_deleted d \<and> pc_topic d = topic))"
  by (cases replyto) (auto simp: check_reply_def eff_simps fetch_optional_def comment_of_def split: option.splits)

text \<open>The only tables that may differ.\<close>

definition comment_tables :: "pg \<Rightarrow> pg \<Rightarrow> bool" where
  "comment_tables db db' \<longleftrightarrow> db' = db\<lparr>db_msg_seq := db_msg_seq db', db_msgbase := db_msgbase db', db_user_agents := db_user_agents db',
       db_agent_seq := db_agent_seq db', db_comments := db_comments db', db_topics := db_topics db', db_groups := db_groups db',
       db_users := db_users db', db_events := db_events db', db_event_seq := db_event_seq db'\<rparr>"

text \<open>What a new comment leaves in the store.\<close>

definition comment_stored :: "time \<Rightarrow> int \<Rightarrow> int \<Rightarrow> int option \<Rightarrow> rstr \<Rightarrow> rstr \<Rightarrow> int \<Rightarrow> pg \<Rightarrow> pg \<Rightarrow> bool" where
  "comment_stored now author topic replyto msg markup i db db' \<longleftrightarrow>
     i = db_msg_seq db \<and> db_msg_seq db' = i + 1 \<and> comment_of db i = None \<and> topic_of db topic \<noteq> None \<and> user_of db author \<noteq> None \<and>
     (\<forall>p. replyto = Some p \<longrightarrow> (\<exists>d. comment_of db p = Some d \<and> \<not> pc_deleted d \<and> pc_topic d = topic)) \<and>
     (\<exists>addr ua. db_comments db' = db_comments db @ [new_comment now author topic replyto i addr ua]) \<and>
     db_msgbase db' = db_msgbase db @ [\<lparr>pm_id = i, pm_message = msg, pm_markup = markup\<rparr>] \<and>
     db_topics db' = update_where (\<lambda>r. pt_id r = topic)
       (\<lambda>r. r\<lparr>pt_stat1 := pt_stat1 r + 1, pt_stat3 := pt_stat3 r + 1, pt_lastmod := now\<rparr>) (db_topics db) \<and>
     db_groups db' = update_where (\<lambda>g. Some (pg_id g) = map_option pt_groupid (topic_of db topic))
       (pg_stat3_update (\<lambda>n. n + 1)) (db_groups db) \<and>
     db_del_info db' = db_del_info db \<and> db_warnings db' = db_warnings db \<and> db_memories db' = db_memories db \<and>
     db_ignore_list db' = db_ignore_list db \<and> map counterless (db_users db') = map counterless (db_users db) \<and>
     comment_tables db db'"

lemma fits_fresh: "comment_fits db (new_comment now author topic replyto i addr ua) \<Longrightarrow>
    comment_of db i = None \<and> topic_of db topic \<noteq> None \<and> user_of db author \<noteq> None"
  by (force simp: comment_fits_def new_comment_def comment_of_def find_None_iff)

lemma insert_comment_tx_Inr:
  assumes "insert_comment_tx inet now author cast topic replyto msg nicks markup ip agent db = (Inr (i, N), db')"
  shows "comment_stored now author topic replyto msg markup i db db' \<and>
    (\<exists>R W M new. db_events db' = db_events db @ new \<and>
      map (ue_id_update (\<lambda>_. 0)) new = map (comment_event REPLY topic i) R @ map (comment_event WATCH topic i) W
        @ map (comment_event REF topic i) M \<and>
      N = remdups_adj (sort (R @ W @ M)) \<and>
      R = reply_recipients db' author (Option.bind replyto (\<lambda>p. map_option pc_userid (comment_of db' p))) \<and>
      W = watch_recipients db' topic author (Option.bind replyto (\<lambda>p. map_option pc_userid (comment_of db' p))) i \<and>
      M = mention_recipients db' author cast nicks markup)"
proof -
  define parent where "parent = Option.bind replyto (\<lambda>p. map_option pc_userid (comment_of db' p))"
  from assms obtain db1 par db2 R db3 W db4 M db5 x where
    reply: "\<forall>p. replyto = Some p \<longrightarrow> (\<exists>d. comment_of db p = Some d \<and> \<not> pc_deleted d \<and> pc_topic d = topic)"
    and row: "insert_comment_row inet now author topic replyto msg markup ip agent db = (Inr i, db1)"
    and par: "(case replyto of None \<Rightarrow> ret_eff None
        | Some p \<Rightarrow> bind_eff (fetch_optional db_comments (\<lambda>c. pc_id c = p)) (\<lambda>c. ret_eff (map_option pc_userid c))) db1 = (Inr par, db2)"
    and R: "notify_comment REPLY topic i (\<lambda>db. reply_recipients db author par) db2 = (Inr R, db3)"
    and W: "notify_comment WATCH topic i (\<lambda>db. watch_recipients db topic author par i) db3 = (Inr W, db4)"
    and M: "notify_comment REF topic i (\<lambda>db. mention_recipients db author cast nicks markup) db4 = (Inr M, db5)"
    and N: "N = remdups_adj (sort (R @ W @ M))"
    and last: "(if N \<noteq> [] then recalculate_unread N else ret_eff ()) db5 = (Inr x, db')"
    by (auto simp: insert_comment_tx_def transaction_Inr bind_eff_Inr_iff check_reply_Inr Let_def)
  obtain ua addr as n where i: "i = db_msg_seq db"
    and fits: "comment_fits db (new_comment now author topic replyto i addr ua)"
    and db1: "db1 = db\<lparr>db_msg_seq := i + 1, db_msgbase := db_msgbase db @ [\<lparr>pm_id = i, pm_message = msg, pm_markup = markup\<rparr>],
      db_user_agents := as, db_agent_seq := n, db_comments := db_comments db @ [new_comment now author topic replyto i addr ua],
      db_topics := update_where (\<lambda>r. pt_id r = topic)
        (\<lambda>r. r\<lparr>pt_stat1 := pt_stat1 r + 1, pt_stat3 := pt_stat3 r + 1, pt_lastmod := now\<rparr>) (db_topics db),
      db_groups := update_where (\<lambda>g. Some (pg_id g) = map_option pt_groupid (topic_of db topic)) (pg_stat3_update (\<lambda>n. n + 1)) (db_groups db)\<rparr>"
    by (rule comment_row_Inr [OF row])
  from par have db2: "db2 = db1" and par': "par = Option.bind replyto (\<lambda>p. map_option pc_userid (comment_of db1 p))"
    by (auto simp: eff_simps fetch_optional_def comment_of_def split: option.splits)
  note tR = told_notify [OF R] and tW = told_notify [OF W] and tM = told_notify [OF M]
  have tN: "told [] db5 db'" using last told_recalculate told_refl by (auto split: if_splits)
  from told_trans [OF told_trans [OF told_trans [OF conjunct2 [OF tR] conjunct2 [OF tW]] conjunct2 [OF tM]] tN]
  have all: "told (map (comment_event REPLY topic i) R @ map (comment_event WATCH topic i) W @ map (comment_event REF topic i) M) db1 db'"
    by (simp add: db2)
  note k = told_keeps [OF all]
  have pp: "par = parent" unfolding par' parent_def comment_of_def k(1) ..
  note sel = recipients_told [OF all] recipients_told [OF conjunct2 [OF tR]] recipients_told [OF conjunct2 [OF tW]]
  have ids: "R = reply_recipients db' author parent" "W = watch_recipients db' topic author parent i"
    "M = mention_recipients db' author cast nicks markup"
    using tR tW tM sel by (simp_all add: db2 pp)
  have tabs: "\<exists>addr ua. db_comments db' = db_comments db @ [new_comment now author topic replyto i addr ua]"
    unfolding k db1 by (rule exI [of _ addr], rule exI [of _ ua]) simp
  have eqs: "db_msg_seq db' = i + 1" "db_msgbase db' = db_msgbase db @ [\<lparr>pm_id = i, pm_message = msg, pm_markup = markup\<rparr>]"
    "db_topics db' = update_where (\<lambda>r. pt_id r = topic)
       (\<lambda>r. r\<lparr>pt_stat1 := pt_stat1 r + 1, pt_stat3 := pt_stat3 r + 1, pt_lastmod := now\<rparr>) (db_topics db)"
    "db_groups db' = update_where (\<lambda>g. Some (pg_id g) = map_option pt_groupid (topic_of db topic))
       (pg_stat3_update (\<lambda>n. n + 1)) (db_groups db)"
    "db_del_info db' = db_del_info db" "db_warnings db' = db_warnings db" "db_memories db' = db_memories db"
    "db_ignore_list db' = db_ignore_list db" "map counterless (db_users db') = map counterless (db_users db)"
    unfolding k db1 by simp_all
  have frame: "comment_tables db db'"
    using all by (auto simp: told_def db1 comment_tables_def)
  have "comment_stored now author topic replyto msg markup i db db'"
    unfolding comment_stored_def using reply fits_fresh [OF fits] i tabs eqs frame by blast
  moreover obtain new where "db_events db' = db_events db @ new" "map (ue_id_update (\<lambda>_. 0)) new
      = map (comment_event REPLY topic i) R @ map (comment_event WATCH topic i) W @ map (comment_event REF topic i) M"
    using all by (auto simp: told_def db1 comment_event_def)
  ultimately show ?thesis using ids N unfolding parent_def by blast
qed

lemma distinct_remdups_sorted: "sorted xs \<Longrightarrow> distinct (remdups_adj (xs :: int list))"
proof (induction xs rule: remdups_adj.induct)
  case (3 x y xs)
  then show ?case by (cases "x = y") force+
qed simp_all

definition kinds :: "pg_event list \<Rightarrow> event_type \<Rightarrow> int set" where
  "kinds es k = {ue_userid e |e. e \<in> set es \<and> ue_type e = k}"

text \<open>Who is told about a new comment, in terms of the store before it.\<close>

definition to_reply :: "pg \<Rightarrow> int \<Rightarrow> int option \<Rightarrow> int set" where
  "to_reply db author replyto = {u. \<exists>p d. replyto = Some p \<and> comment_of db p = Some d \<and> pc_userid d = u \<and>
     u \<noteq> author \<and> u \<noteq> 2 \<and> \<not> ignores db u author}"

definition to_watch :: "pg \<Rightarrow> pg \<Rightarrow> int \<Rightarrow> int \<Rightarrow> int option \<Rightarrow> int \<Rightarrow> int set" where
  "to_watch db db' topic author replyto i = {u. (\<exists>m\<in>set (db_memories db). me_topic m = topic \<and> me_watch m \<and> me_userid m = u) \<and>
     u \<noteq> author \<and> u \<noteq> 2 \<and> (\<forall>p d. replyto = Some p \<and> comment_of db p = Some d \<longrightarrow> pc_userid d \<noteq> u) \<and>
     (\<forall>a. in_branch db' i a \<longrightarrow> \<not> ignores db u a)}"

definition to_mention :: "pg \<Rightarrow> int \<Rightarrow> bool \<Rightarrow> rstr list \<Rightarrow> rstr \<Rightarrow> int set" where
  "to_mention db author cast nicks markup = {x. cast \<and> x \<noteq> author \<and> \<not> ignores db x author \<and>
     (\<exists>r\<in>set (db_users db). pu_id r = x \<and> pu_nick r \<in> set nicks \<and> (markup = (u ''MARKDOWN'') \<or> \<not> pu_blocked r))}"

lemma stored_comments:
  assumes "comment_stored now author topic replyto msg markup i db db'"
  shows "\<exists>c. comment_of db' i = Some c \<and> pc_userid c = author \<and> pc_topic c = topic \<and> pc_replyto c = replyto \<and> \<not> pc_deleted c"
    and "comment_of db p = Some d \<Longrightarrow> comment_of db' p = Some d"
proof -
  from assms obtain addr ua where cs: "db_comments db' = db_comments db @ [new_comment now author topic replyto i addr ua]"
    and new: "comment_of db i = None" unfolding comment_stored_def by blast
  have "comment_of db' i = Some (new_comment now author topic replyto i addr ua)"
    using new unfolding comment_of_def cs by (simp add: find_append_new new_comment_def)
  then show "\<exists>c. comment_of db' i = Some c \<and> pc_userid c = author \<and> pc_topic c = topic \<and> pc_replyto c = replyto \<and> \<not> pc_deleted c"
    by (simp add: new_comment_def)
  have "List.find P (xs @ ys) = Some d" if "List.find P xs = Some d" for P and xs ys :: "pg_comment list"
    using that by (induction xs) (auto split: if_splits)
  then show "comment_of db p = Some d \<Longrightarrow> comment_of db' p = Some d" unfolding comment_of_def cs .
qed

lemma no_reply_branch:
  assumes "comment_of db i = Some c" "pc_replyto c = None"
  shows "in_branch db i a \<longleftrightarrow> a = pc_userid c"
proof -
  have "\<not> answers db i j" for j using assms by (simp add: answers_def)
  then have "(answers db)\<^sup>*\<^sup>* i j \<longleftrightarrow> j = i" for j by (auto elim: converse_rtranclpE)
  with assms(1) show ?thesis by (auto simp: in_branch_def)
qed

lemma recipients_sets:
  assumes st: "comment_stored now author topic replyto msg markup i db db'"
    and parent: "parent = Option.bind replyto (\<lambda>p. map_option pc_userid (comment_of db' p))"
  shows "set (reply_recipients db' author parent) = to_reply db author replyto"
    and "set (watch_recipients db' topic author parent i) = to_watch db db' topic author replyto i"
    and "set (mention_recipients db' author cast nicks markup) = to_mention db author cast nicks markup"
proof -
  from st have ig: "ignores db' = ignores db" and me: "db_memories db' = db_memories db"
    and us: "map counterless (db_users db') = map counterless (db_users db)"
    by (simp_all add: comment_stored_def ignores_def fun_eq_iff)
  have replied: "\<exists>d. comment_of db p = Some d \<and> comment_of db' p = Some d" if "replyto = Some p" for p
    using that st stored_comments(2) [OF st] unfolding comment_stored_def by blast
  have par: "parent = Some u \<longleftrightarrow> (\<exists>p d. replyto = Some p \<and> comment_of db p = Some d \<and> pc_userid d = u)" for u
    using replied unfolding parent by (cases replyto) fastforce+
  show "set (reply_recipients db' author parent) = to_reply db author replyto"
  proof (cases parent)
    case None
    with par show ?thesis by (force simp: reply_recipients_def to_reply_def)
  next
    case (Some u)
    with par [of u] obtain p d where "replyto = Some p" "comment_of db p = Some d" "pc_userid d = u" by blast
    with Some show ?thesis by (auto simp: reply_recipients_def to_reply_def ig)
  qed
  show "set (watch_recipients db' topic author parent i) = to_watch db db' topic author replyto i"
  proof (cases parent)
    case None
    then have none: "replyto = None" using replied par by (metis not_Some_eq)
    with stored_comments(1) [OF st] no_reply_branch [of db' i] have "in_branch db' i a \<longleftrightarrow> a = author" for a by blast
    with None none show ?thesis by (force simp: watch_recipients_def to_watch_def ig me)
  next
    case (Some u)
    with par [of u] obtain p d where "replyto = Some p" "comment_of db p = Some d" "pc_userid d = u" by blast
    with Some show ?thesis
      by (force simp: watch_recipients_def to_watch_def ig me list_ex_iff branch_authors_iff)
  qed
  let ?P = "\<lambda>r. pu_nick r \<in> set nicks \<and> pu_id r \<noteq> author \<and> (mentions_include_blocked_users markup \<or> \<not> pu_blocked r) \<and>
      \<not> ignores db (pu_id r) author"
  have "map pu_id (filter ?P (db_users db')) = map pu_id (filter ?P (db_users db))"
    by (rule counterless_select [OF us]) (simp add: counterless_def)
  then have "pu_id ` set (filter ?P (db_users db')) = pu_id ` set (filter ?P (db_users db))"
    by (metis list.set_map)
  then show "set (mention_recipients db' author cast nicks markup) = to_mention db author cast nicks markup"
    unfolding mention_recipients_def to_mention_def ig by (auto simp: mentions_include_blocked_users_def)
qed

lemma recipients_not_author:
  assumes "comment_stored now author topic replyto msg markup i db db'"
    and "x \<in> to_reply db author replyto \<union> to_watch db db' topic author replyto i \<union> to_mention db author cast nicks markup"
  shows "x \<noteq> author \<and> \<not> ignores db x author"
proof -
  have "in_branch db' i author" using stored_comments(1) [OF assms(1)] own_branch by blast
  with assms(2) show ?thesis by (auto simp: to_reply_def to_watch_def to_mention_def)
qed

lemma counterless_keyed:
  assumes "map counterless (db_users db') = map counterless (db_users db)"
  shows "users.keyed db' = users.keyed db"
proof -
  have "map pu_id us = map pu_id (map counterless us)" for us by (simp add: counterless_def)
  with assms show ?thesis unfolding users.keyed_def by metis
qed

text \<open>With the unique index \<open>memories_un\<close> and the key of the users nobody is selected twice.\<close>

lemma recipients_distinct:
  assumes "distinct (db_memories db)" "users.keyed db"
  shows "distinct (reply_recipients db a p)" "distinct (watch_recipients db t a p i)" "distinct (mention_recipients db a c nicks m)"
proof -
  show "distinct (reply_recipients db a p)" by (simp add: reply_recipients_def split: option.splits)
  have "distinct (map pu_id (filter P (db_users db)))" for P
    using assms(2) by (simp add: users.keyed_def distinct_map_filter)
  then show "distinct (mention_recipients db a c nicks m)" by (simp add: mention_recipients_def)
  have "inj_on me_userid (set (filter P (db_memories db)))" if "\<forall>r. P r \<longrightarrow> me_topic r = t \<and> me_watch r" for P
    using that by (auto simp: inj_on_def intro!: pg_memory.equality)
  then show "distinct (watch_recipients db t a p i)"
    unfolding watch_recipients_def distinct_map using assms(1) by simp
qed

lemma comment_posted_Inr:
  assumes "insert_comment_tx inet now author cast topic replyto msg nicks markup ip agent db = (Inr (i, N), db')"
  shows "comment_stored now author topic replyto msg markup i db db' \<and>
    (\<exists>new. db_events db' = db_events db @ new \<and>
      (\<forall>e\<in>set new. ue_unread e \<and> \<not> ue_private e \<and> ue_message_id e = Some topic \<and> ue_comment_id e = Some i \<and>
        ue_userid e \<noteq> author \<and> \<not> ignores db (ue_userid e) author) \<and>
      kinds new REPLY = to_reply db author replyto \<and> kinds new WATCH = to_watch db db' topic author replyto i \<and>
      kinds new REF = to_mention db author cast nicks markup \<and> ue_type ` set new \<subseteq> {REPLY, WATCH, REF} \<and>
      (distinct (db_memories db) \<and> users.keyed db \<longrightarrow> distinct (map (\<lambda>e. (ue_type e, ue_userid e)) new)) \<and>
      set N = ue_userid ` set new \<and> sorted N \<and> distinct N)"
proof -
  from insert_comment_tx_Inr [OF assms] obtain R W M new where st: "comment_stored now author topic replyto msg markup i db db'"
    and ev: "db_events db' = db_events db @ new" and new: "map (ue_id_update (\<lambda>_. 0)) new = map (comment_event REPLY topic i) R
      @ map (comment_event WATCH topic i) W @ map (comment_event REF topic i) M"
    and N: "N = remdups_adj (sort (R @ W @ M))"
    and R: "R = reply_recipients db' author (Option.bind replyto (\<lambda>p. map_option pc_userid (comment_of db' p)))"
    and W: "W = watch_recipients db' topic author (Option.bind replyto (\<lambda>p. map_option pc_userid (comment_of db' p))) i"
    and M: "M = mention_recipients db' author cast nicks markup" by blast
  note sets = recipients_sets(1,2) [OF st refl, folded R W]
    recipients_sets(3) [OF st refl, where cast = cast and nicks = nicks, folded M]
  let ?k = "\<lambda>e. (ue_type e, ue_userid e, ue_unread e, ue_private e, ue_message_id e, ue_comment_id e)"
  have "map ?k new = map ?k (map (ue_id_update (\<lambda>_. 0)) new)" by simp
  also have "\<dots> = map (\<lambda>u. (REPLY, u, True, False, Some topic, Some i)) R @ map (\<lambda>u. (WATCH, u, True, False, Some topic, Some i)) W
      @ map (\<lambda>u. (REF, u, True, False, Some topic, Some i)) M"
    unfolding new by (simp add: comment_event_def comp_def)
  finally have "set (map ?k new) = (\<lambda>u. (REPLY, u, True, False, Some topic, Some i)) ` set R \<union>
      (\<lambda>u. (WATCH, u, True, False, Some topic, Some i)) ` set W \<union> (\<lambda>u. (REF, u, True, False, Some topic, Some i)) ` set M"
    by (metis (no_types, lifting) Un_assoc set_append set_map)
  then have k: "?k ` set new = (\<lambda>u. (REPLY, u, True, False, Some topic, Some i)) ` set R \<union>
      (\<lambda>u. (WATCH, u, True, False, Some topic, Some i)) ` set W \<union> (\<lambda>u. (REF, u, True, False, Some topic, Some i)) ` set M"
    by simp
  have each: "\<exists>u. u \<in> set R \<union> set W \<union> set M \<and> ue_userid e = u \<and> ue_unread e \<and> \<not> ue_private e \<and> ue_message_id e = Some topic \<and>
      ue_comment_id e = Some i" if "e \<in> set new" for e
  proof -
    from that have "?k e \<in> ?k ` set new" by blast
    then show ?thesis unfolding k by auto
  qed
  have kind: "kinds new k' = {u. (k', u, True, False, Some topic, Some i) \<in> ?k ` set new}" for k'
    unfolding kinds_def using each by (force simp: image_iff)
  have users: "ue_userid ` set new = set R \<union> set W \<union> set M"
  proof -
    have "ue_userid ` set new = (fst \<circ> snd) ` (?k ` set new)" by (simp add: image_image)
    also have "\<dots> = set R \<union> set W \<union> set M" unfolding k by (simp add: image_Un image_image)
    finally show ?thesis .
  qed
  have Ns: "set N = ue_userid ` set new" "sorted N" "distinct N"
    unfolding users N by (auto simp: sorted_remdups_adj distinct_remdups_sorted)
  have ks: "kinds new REPLY = to_reply db author replyto" "kinds new WATCH = to_watch db db' topic author replyto i"
    "kinds new REF = to_mention db author cast nicks markup"
    unfolding kind k sets [symmetric] by auto
  have all: "\<forall>e\<in>set new. ue_unread e \<and> \<not> ue_private e \<and> ue_message_id e = Some topic \<and> ue_comment_id e = Some i \<and>
      ue_userid e \<noteq> author \<and> \<not> ignores db (ue_userid e) author"
  proof
    fix e
    assume "e \<in> set new"
    with each sets have e: "ue_unread e \<and> \<not> ue_private e \<and> ue_message_id e = Some topic \<and> ue_comment_id e = Some i"
      and "ue_userid e \<in> to_reply db author replyto \<union> to_watch db db' topic author replyto i \<union> to_mention db author cast nicks markup"
      by auto
    with recipients_not_author [OF st this(2)] show "ue_unread e \<and> \<not> ue_private e \<and> ue_message_id e = Some topic \<and>
        ue_comment_id e = Some i \<and> ue_userid e \<noteq> author \<and> \<not> ignores db (ue_userid e) author" by blast
  qed
  have types: "ue_type ` set new \<subseteq> {REPLY, WATCH, REF}"
  proof -
    have "ue_type ` set new = fst ` (?k ` set new)" by (simp add: image_image)
    then show ?thesis unfolding k by auto
  qed
  have once: "distinct (map (\<lambda>e. (ue_type e, ue_userid e)) new)" if "distinct (db_memories db)" "users.keyed db"
  proof -
    let ?j = "\<lambda>e. (ue_type e, ue_userid e)"
    have "map ?j new = map ?j (map (ue_id_update (\<lambda>_. 0)) new)" by simp
    also have "\<dots> = map (Pair REPLY) R @ map (Pair WATCH) W @ map (Pair REF) M"
      unfolding new by (simp add: comment_event_def comp_def)
    finally have j: "map ?j new = map (Pair REPLY) R @ map (Pair WATCH) W @ map (Pair REF) M" .
    have me: "db_memories db' = db_memories db" and us: "map counterless (db_users db') = map counterless (db_users db)"
      using st unfolding comment_stored_def by blast+
    have "distinct (db_memories db')" "users.keyed db'" unfolding me counterless_keyed [OF us] by (rule that)+
    note d = recipients_distinct [OF this]
    have pairs: "distinct (map (Pair k) xs)" if "distinct xs" for k :: event_type and xs :: "int list"
      using that by (simp add: distinct_map inj_on_def)
    have "distinct R" unfolding R by (rule d(1))
    moreover have "distinct W" unfolding W by (rule d(2))
    moreover have "distinct M" unfolding M by (rule d(3))
    ultimately show ?thesis unfolding j by (auto intro: pairs)
  qed
  show ?thesis by (intro conjI exI [of _ new] st ev all ks types impI once Ns) simp_all
qed


text \<open>C2: A new comment and its notifications are one transaction: an error leaves the whole store as it was.  On success
  the comment is stored under a
  fresh id as a live answer, in the same topic, to a live comment or to the topic itself; its text
  is stored with it, the counters of the topic and its group rise by one, users keep
  everything but unread counters, and the tables not concerned are untouched.  Exactly these people are told, about this comment of this
  topic: the author answered, the watchers of the topic who ignore nobody in the branch and were
  not just told of the answer, and - when the author may mention people - those mentioned; never
  the author himself and nobody who ignores him.  No other notification is written, and none twice: one
  row for each person and kind (with the unique index of the memories and the key of the users).  The
  people told are reported once each.\<close>

theorem comment_posted:
  assumes "insert_comment_tx inet now author cast topic replyto msg nicks markup ip agent db = (r, db')"
  shows "case r of Inl e \<Rightarrow> db' = db
   | Inr (i, N) \<Rightarrow> comment_stored now author topic replyto msg markup i db db' \<and>
    (\<exists>new. db_events db' = db_events db @ new \<and>
      (\<forall>e\<in>set new. ue_unread e \<and> \<not> ue_private e \<and> ue_message_id e = Some topic \<and> ue_comment_id e = Some i \<and>
        ue_userid e \<noteq> author \<and> \<not> ignores db (ue_userid e) author) \<and>
      kinds new REPLY = to_reply db author replyto \<and> kinds new WATCH = to_watch db db' topic author replyto i \<and>
      kinds new REF = to_mention db author cast nicks markup \<and> ue_type ` set new \<subseteq> {REPLY, WATCH, REF} \<and>
      (distinct (db_memories db) \<and> users.keyed db \<longrightarrow> distinct (map (\<lambda>e. (ue_type e, ue_userid e)) new)) \<and>
      set N = ue_userid ` set new \<and> sorted N \<and> distinct N)"
proof (cases r)
  case (Inl e)
  with assms show ?thesis by (simp add: insert_comment_tx_def transaction_err)
next
  case (Inr iN)
  obtain i N where iN: "iN = (i, N)" by fastforce
  show ?thesis using comment_posted_Inr [OF assms [unfolded Inr iN]] by (simp only: Inr iN sum.case prod.case)
qed

definition ex_talk_db :: pg where
  "ex_talk_db = ex_db\<lparr>db_users := [ex_user 7, ex_user 8, ex_user 9], db_comments := [ex_comment 1 7 None],
     db_memories := [\<lparr>me_userid = 9, me_topic = 5, me_watch = True\<rparr>]\<rparr>"

lemma ex_talk_run:
  "\<exists>db'. insert_comment_tx Some 2000 8 False 5 (Some 1) (u ''hi'') [] (u ''MARKDOWN'') (u ''1.2.3.4'') None ex_talk_db
     = (Inr (100, [7, 9]), db')"
  by (simp add: insert_comment_tx_def transaction_def check_reply_def insert_comment_row_def bind_eff_def fetch_optional_def
      next_val_def exec_insert_def inet_or_fail_def create_user_agent_def comment_fits_def of_defs comins_def exec_update_checked_def
      exec_update_def update_where_def notify_comment_def reply_recipients_def watch_recipients_def mention_recipients_def
      branch_authors_def branch.simps ignores_def insert_event_def comment_event_def recalculate_unread_def
      ex_talk_db_def ex_db_def ex_topic_def ex_user_def ex_comment_def I32_MAX_def in_i32_def)

theorem comment_posted_witness:
  "\<exists>new db'. insert_comment_tx Some 2000 8 False 5 (Some 1) (u ''hi'') [] (u ''MARKDOWN'') (u ''1.2.3.4'') None ex_talk_db
     = (Inr (100, [7, 9]), db') \<and> db_events db' = new \<and> ue_userid ` set new = {7, 9}"
proof -
  obtain db' where run: "insert_comment_tx Some 2000 8 False 5 (Some 1) (u ''hi'') [] (u ''MARKDOWN'') (u ''1.2.3.4'') None ex_talk_db
     = (Inr (100, [7, 9]), db')" using ex_talk_run by blast
  from comment_posted [OF run] obtain new where "db_events db' = db_events ex_talk_db @ new" "set [7, 9] = ue_userid ` set new"
    unfolding sum.case prod.case by (elim conjE exE) metis
  with run show ?thesis by (auto simp: ex_talk_db_def ex_db_def)
qed

end
