(* ===== verification/Comment_Guards.thy ===== *)
theory Comment_Guards
  imports Comment_Effects
begin

section \<open>What stands before a comment is written\<close>

subsection \<open>Operations that only read\<close>

named_theorems reading \<open>effects that leave the state alone\<close>

definition reads :: "('w, 'e, 'a) eff \<Rightarrow> bool" where
  "reads m \<longleftrightarrow> (\<forall>w. snd (m w) = w)"

lemma readsD: "reads m \<Longrightarrow> m w = (r, w') \<Longrightarrow> w' = w"
  by (metis reads_def snd_conv)

lemma reads_bind [reading]: "reads m \<Longrightarrow> (\<And>a. reads (f a)) \<Longrightarrow> reads (bind_eff m f)"
  by (simp add: reads_def bind_eff_def split: prod.splits sum.splits) (metis snd_conv)

lemma reads_pure [reading]: "reads (ret_eff a)" "reads (fail_eff e)" "reads (of_result r)" "reads (\<lambda>w. (f w, w))"
  by (simp_all add: reads_def)

lemma reads_rows [reading]: "reads (select_rows rows p)" "reads (fetch_optional rows p)" "reads (fetch_one rows p)"
  by (simp_all add: reads_def stmt_defs)

lemma reads_if [reading]: "reads m \<Longrightarrow> reads n \<Longrightarrow> reads (if b then m else n)"
  by simp

lemma reads_option [reading]: "reads m \<Longrightarrow> (\<And>a. reads (f a)) \<Longrightarrow> reads (case x of None \<Rightarrow> m | Some a \<Rightarrow> f a)"
  by (cases x) auto

lemma reads_prod [reading]: "(\<And>a b. reads (f a b)) \<Longrightarrow> reads (case p of (a, b) \<Rightarrow> f a b)"
  by (cases p) auto

lemma reads_inet [reading]: "(\<And>ip. reads (f ip)) \<Longrightarrow> reads (inet_or_fail inet s f)"
  by (auto simp: inet_or_fail_def reads_pure split: option.splits)

lemma reads_checks:
  "reads (bIpCaptchaRequired inet ip)" "reads (user_comment_format n)" "reads (stResolvePostingIdentity pw now user nick pass)"
  "reads (optCommentActorError inet now usr anon ip)" "reads (iCommentRateThresholdSeconds now usr anon)"
  "reads (check_comment_posting_allowed now usr anon topic)" "reads (optCommentReplyError topic replyto)"
  "reads (comment_link lower n)" "reads (stEditableComment now n)"
proof -
  show "reads (bIpCaptchaRequired inet ip)" unfolding bIpCaptchaRequired_def by (intro reading)
  show "reads (user_comment_format n)" unfolding user_comment_format_def settings_text_def Let_def by (intro reading)
  show "reads (stResolvePostingIdentity pw now user nick pass)"
    unfolding stResolvePostingIdentity_def stAnonymousPostingIdentity_def stLoadPostingUser_def Let_def by (intro reading)
  show "reads (optCommentActorError inet now usr anon ip)" unfolding optCommentActorError_def Let_def by (intro reading)
  show "reads (iCommentRateThresholdSeconds now usr anon)" unfolding iCommentRateThresholdSeconds_def by (intro reading)
  have "reads (stCommentPostingContext now topic)"
    by (simp add: reads_def stCommentPostingContext_def split: option.splits prod.splits)
  then show "reads (check_comment_posting_allowed now usr anon topic)"
    unfolding check_comment_posting_allowed_def by (intro reading)
  show "reads (optCommentReplyError topic replyto)" unfolding optCommentReplyError_def by (intro reading)
  show "reads (comment_link lower n)" unfolding comment_link_def locate_topic_or_comment_def Let_def by (intro reading)
  show "reads (stEditableComment now n)" unfolding stEditableComment_def by (intro reading)
qed

lemma on_cdb_reads:
  assumes "reads m"
  shows "on_cdb m w = (fst (m (cw_db w)), w)"
proof -
  obtain r db where m: "m (cw_db w) = (r, db)" by fastforce
  with readsD [OF assms] have "db = cw_db w" by blast
  with m show ?thesis by (simp add: on_cdb_def on_store_def on_db_def cw_db_def)
qed

lemma comment_link_outcome: "\<exists>loc. comment_link lower n db = (Inr loc, db)"
  by (simp add: comment_link_def locate_topic_or_comment_def bind_eff_def Let_def)

lemma on_cdb_link: "\<exists>loc. on_cdb (comment_link lower n) w = (Inr loc, w)"
  using comment_link_outcome [of lower n "cw_db w"] by (auto simp: on_cdb_reads reads_checks)

text \<open>A step that leaves the store alone either ends the request or yields a value.\<close>

lemma pass_read:
  assumes "bind_eff (on_cdb m) f w = (res, w')" and "reads m" and "cw_db w' \<noteq> cw_db w"
  obtains a where "fst (m (cw_db w)) = Inr a" "f a w = (res, w')"
  using assms(1,3) that by (cases "fst (m (cw_db w))") (auto simp: bind_eff_def on_cdb_reads [OF assms(2)])

lemma pass_unless:
  assumes "bind_eff (unless_error e (on_cdb m)) f w = (res, w')" and "reads m" and "cw_db w' \<noteq> cw_db w"
  obtains x where "x = None \<longrightarrow> e = None \<and> fst (m (cw_db w)) = Inr None" "f x w = (res, w')"
proof (cases e)
  case None
  with assms(1) have "bind_eff (on_cdb m) f w = (res, w')" by (simp add: unless_error_def)
  then show thesis by (rule pass_read [OF _ assms(2,3)]) (rule that, simp_all add: None)
next
  case (Some s)
  with assms(1) have "f (Some s) w = (res, w')" by (simp add: unless_error_def bind_eff_def)
  then show thesis by (intro that [of "Some s"]) simp_all
qed

lemma refusal_reads:
  "reads m \<Longrightarrow> form_refusal (on_cdb m) w = ((case fst (m (cw_db w)) of Inr _ \<Rightarrow> Inr None
     | Inl e \<Rightarrow> (case sCommentFormError e of Inl e \<Rightarrow> Inl e | Inr s \<Rightarrow> Inr (Some s))), w)"
  by (simp add: form_refusal_def on_cdb_reads split: sum.splits)

lemma pass_refusal:
  assumes "bind_eff (unless_error e (form_refusal (on_cdb m))) f w = (res, w')" and "reads m" and "cw_db w' \<noteq> cw_db w"
  obtains x where "x = None \<longrightarrow> e = None \<and> fst (m (cw_db w)) = Inr ()" "f x w = (res, w')"
proof (cases e)
  case None
  show thesis
  proof (cases "fst (m (cw_db w))")
    case (Inl err)
    then obtain t where "sCommentFormError err = Inr t"
      using None assms(1,3) refusal_reads [OF assms(2), of w]
      by (cases "sCommentFormError err") (auto simp: unless_error_def bind_eff_def)
    with Inl None assms(1) refusal_reads [OF assms(2), of w] show thesis
      by (intro that [of "Some t"]) (auto simp: unless_error_def bind_eff_def)
  next
    case (Inr x)
    with None assms(1) refusal_reads [OF assms(2), of w] show thesis
      by (intro that [of None]) (auto simp: unless_error_def bind_eff_def)
  qed
next
  case (Some s)
  with assms(1) have "f (Some s) w = (res, w')" by (simp add: unless_error_def bind_eff_def)
  then show thesis by (intro that [of "Some s"]) simp_all
qed

subsection \<open>The comment, then the queue, then the hub\<close>

lemma insert_comment_outcome:
  assumes "insert_comment env now author anon cast form markup ip agent reject w = (res, w')"
  shows "(w' = w \<and> (\<exists>e. res = Inl e)) \<or>
    (\<exists>i N db1 s. optCommentBodyErrorWithPolicy (cf_msg form) anon reject = None \<and>
      insert_comment_tx (ce_inet env) now author cast (cf_topic form) (positive (cf_replyto form)) (cf_msg form)
        (ce_mentions env (cf_msg form) markup) markup ip agent (cw_db w) = (Inr (i, N), db1) \<and>
      ((\<exists>e. crq_vUpdateComments (ce_queue env) [i] ((cw_store w)\<lparr>w_db := db1\<rparr>) = (Inl e, s) \<and> res = Inl e \<and> w' = w\<lparr>cw_store := s\<rparr>) \<or>
       (crq_vUpdateComments (ce_queue env) [i] ((cw_store w)\<lparr>w_db := db1\<rparr>) = (Inr (), s) \<and> res = Inr i \<and>
        w' = w\<lparr>cw_store := s, cw_hub := vNotifyEvents (ce_ord env) N (vNotifyNewComment (ce_ord env) (cf_topic form) i (cw_hub w))\<rparr>)))"
proof (cases "optCommentBodyErrorWithPolicy (cf_msg form) anon reject")
  case None
  let ?tx = "insert_comment_tx (ce_inet env) now author cast (cf_topic form) (positive (cf_replyto form)) (cf_msg form)
        (ce_mentions env (cf_msg form) markup) markup ip agent"
  obtain r db1 where tx: "?tx (cw_db w) = (r, db1)" by fastforce
  show ?thesis
  proof (cases r)
    case (Inl e)
    with tx have "db1 = cw_db w" by (auto simp: insert_comment_tx_def transaction_err)
    with tx Inl None assms show ?thesis
      by (auto simp: insert_comment_def on_cdb_def on_store_def on_db_def cw_db_def bind_eff_def)
  next
    case (Inr p)
    obtain i N where p: "p = (i, N)" by (cases p)
    obtain q s where "crq_vUpdateComments (ce_queue env) [i] ((cw_store w)\<lparr>w_db := db1\<rparr>) = (q, s)" by fastforce
    with tx Inr p None assms show ?thesis
      by (cases q) (auto simp: insert_comment_def on_cdb_def on_store_def on_db_def cw_db_def bind_eff_def)
  qed
next
  case (Some e)
  with assms show ?thesis by (auto simp: insert_comment_def)
qed

lemma pass_still:
  assumes "bind_eff m f w = (res, w')" and "snd (m w) = w" and "cw_db w' \<noteq> cw_db w"
  obtains a where "fst (m w) = Inr a" "f a w = (res, w')"
  using assms that by (cases "m w"; cases "fst (m w)") (auto simp: bind_eff_def)

lemma pass_flood:
  assumes "bind_eff (unless_error e (if \<not> real then ret_eff None
      else bind_eff (on_cdb m) (\<lambda>n. check_flood ip n inst))) f w = (res, w')" and "reads m" and "cw_db w' \<noteq> cw_db w"
  obtains x w1 where
    "x = None \<and> real \<longrightarrow> e = None \<and> (\<exists>n. fst (m (cw_db w)) = Inr n \<and> optCheckComment (cw_flood w) ip n inst = (None, cw_flood w1))"
    "cw_store w1 = cw_store w" "cw_hub w1 = cw_hub w" "f x w1 = (res, w')"
proof (cases "e = None \<and> real")
  case True
  show thesis
  proof (cases "fst (m (cw_db w))")
    case (Inl err)
    with True assms(1,3) on_cdb_reads [OF assms(2), of w] show thesis by (auto simp: unless_error_def bind_eff_def)
  next
    case (Inr n)
    obtain y c where "optCheckComment (cw_flood w) ip n inst = (y, c)" by fastforce
    with True assms(1) Inr on_cdb_reads [OF assms(2), of w] show thesis
      by (intro that [of y "w\<lparr>cw_flood := c\<rparr>"]) (auto simp: unless_error_def bind_eff_def check_flood_def)
  qed
next
  case False
  with assms(1) show thesis
    by (intro that [of e w]) (cases e; auto simp: unless_error_def bind_eff_def)+
qed

text \<open>What a request passed when it wrote: everything is judged on the store before it.\<close>

definition comment_admitted ::
    "'q comment_env \<Rightarrow> time \<Rightarrow> time \<Rightarrow> rstr \<Rightarrow> StUserSummary option \<Rightarrow> rstr \<Rightarrow> CommentForm \<Rightarrow> StPostingIdentity
      \<Rightarrow> pg \<Rightarrow> CCommentFloodCache \<Rightarrow> CCommentFloodCache \<Rightarrow> bool" where
  "comment_admitted env now inst ip user token form author db fl fl' \<longleftrightarrow>
     (let usr = id_stUser author; anon = (\<not> id_bAuthorized author) in
      cf_preview form = None \<and> csrf_matches (cf_csrf form) token \<and>
      ((user = None \<or> fst (bIpCaptchaRequired (ce_inet env) ip db) = Inr True) \<longrightarrow> captcha_error env (cf_captcha_response form) ip = None) \<and>
      fst (stResolvePostingIdentity (ce_pw env) now user (cf_nick form) (cf_password form) db)
        = Inr \<lparr>rs_stIdentity = author, rs_optError = None\<rparr> \<and>
      fst (optCommentActorError (ce_inet env) now usr anon ip db) = Inr None \<and>
      (\<exists>n. fst (iCommentRateThresholdSeconds now usr anon db) = Inr n \<and> optCheckComment fl ip n inst = (None, fl')) \<and>
      fst (check_comment_posting_allowed now usr anon (cf_topic form) db) = Inr () \<and>
      fst (optCommentReplyError (cf_topic form) (cf_replyto form) db) = Inr None \<and>
      optCommentBodyError (cf_msg form) anon = None)"

lemma add_comment_writes:
  assumes "add_comment env now inst ip user token form agent w = (res, w')" and "cw_db w' \<noteq> cw_db w"
  shows "\<exists>author markup w1 i w2. comment_admitted env now inst ip user token form author (cw_db w) (cw_flood w) (cw_flood w1) \<and>
    cw_store w1 = cw_store w \<and> cw_hub w1 = cw_hub w \<and>
    insert_comment env now (us_id (id_stUser author)) (\<not> id_bAuthorized author) (coalesce 0 (us_score (id_stUser author)) \<ge> 0)
      form markup ip agent True w1 = (i, w2) \<and> w' = w2 \<and>
    (case i of Inl e \<Rightarrow> res = Inl e | Inr c \<Rightarrow> \<exists>loc. res = Inr (CommentSeeOther loc))"
proof -
  let ?flag = "if user = None then ret_eff True else on_cdb (bIpCaptchaRequired (ce_inet env) ip)"
  let ?fmt = "case user of Some usr \<Rightarrow> on_cdb (user_comment_format (us_id usr)) | None \<Rightarrow> ret_eff ((u ''markdown''), (u ''Markdown''), (u ''MARKDOWN''))"
  have flag: "snd (?flag w) = w" by (simp add: on_cdb_reads reads_checks)
  have fmt: "snd (?fmt w) = w" by (simp add: on_cdb_reads reads_checks split: option.splits)
  have captcha_set: "user = None \<or> fst (bIpCaptchaRequired (ce_inet env) ip (cw_db w)) = Inr True \<Longrightarrow> fst (?flag w) = Inr b \<Longrightarrow> b" for b
    by (auto simp: on_cdb_reads reads_checks split: if_splits)
  have still: "cw_store w1 = cw_store w \<Longrightarrow> cw_db w' \<noteq> cw_db w1" for w1 using assms(2) by (simp add: cw_db_def)
  show ?thesis
    using assms(1) unfolding add_comment_def Let_def split_def
    apply -
    apply (erule pass_still, rule flag, rule assms(2))
    apply (erule pass_still, rule fmt, rule assms(2))
    apply (erule pass_read, rule reads_checks, rule assms(2))
    apply (erule pass_unless, rule reads_checks, rule assms(2))
    apply (erule pass_flood, rule reads_checks, rule assms(2))
    apply (erule pass_refusal, rule reads_checks, erule still)
    apply (erule pass_unless, rule reads_checks, erule still)
    subgoal premises p for captcha fmt rs e4 e5 w1 e6 e7
    proof -
      let ?author = "rs_stIdentity rs"
      have real: "cf_preview form = None" and e8: "or_else e7 (optCommentBodyError (cf_msg form) (\<not> id_bAuthorized ?author)) = None"
        and ins: "bind_eff (insert_comment env now (us_id (id_stUser ?author)) (\<not> id_bAuthorized ?author)
          (coalesce 0 (us_score (id_stUser ?author)) \<ge> 0) form (snd (snd fmt)) ip agent True) (\<lambda>i.
          bind_eff (on_cdb (comment_link (ce_lower env) i)) (\<lambda>sLocation. ret_eff (CommentSeeOther sLocation))) w1 = (res, w')"
        using p(10) still [OF p(6)] by (auto split: if_splits)
      from e8 p(9,8,5,4) have none: "e7 = None" "e6 = None" "e5 = None" "e4 = None" using real by auto
      have e3: "or_else (or_else (if cf_preview form = None \<and> captcha then captcha_error env (cf_captcha_response form) ip else None)
            (if cf_preview form = None \<and> \<not> csrf_matches (cf_csrf form) token then Some sCsrfError else None)) (rs_optError rs) = None"
        and actor: "fst (optCommentActorError (ce_inet env) now (id_stUser ?author) (\<not> id_bAuthorized ?author) ip (cw_db w)) = Inr None"
        using p(4) none(4) by blast+
      have fl: "\<exists>n. fst (iCommentRateThresholdSeconds now (id_stUser ?author) (\<not> id_bAuthorized ?author) (cw_db w)) = Inr n \<and>
          optCheckComment (cw_flood w) ip n inst = (None, cw_flood w1)"
        using p(5) none(3) real by blast
      have db1: "cw_db w1 = cw_db w" using p(6) by (simp add: cw_db_def)
      have allowed: "fst (check_comment_posting_allowed now (id_stUser ?author) (\<not> id_bAuthorized ?author) (cf_topic form) (cw_db w)) = Inr ()"
        using p(8) none(2) db1 by force
      have reply: "fst (optCommentReplyError (cf_topic form) (cf_replyto form) (cw_db w)) = Inr None"
        using p(9) none(1) db1 by force
      have parts: "captcha \<longrightarrow> captcha_error env (cf_captcha_response form) ip = None" "csrf_matches (cf_csrf form) token" "rs_optError rs = None"
        using e3 real by (auto split: if_splits)
      have body: "optCommentBodyError (cf_msg form) (\<not> id_bAuthorized ?author) = None" using e8 none(1) by simp
      have resolved: "fst (stResolvePostingIdentity (ce_pw env) now user (cf_nick form) (cf_password form) (cw_db w))
          = Inr \<lparr>rs_stIdentity = ?author, rs_optError = None\<rparr>"
        using p(3) parts(3) by (cases rs) simp
      have need: "user = None \<or> fst (bIpCaptchaRequired (ce_inet env) ip (cw_db w)) = Inr True \<Longrightarrow> captcha"
        by (rule captcha_set [OF _ p(1)])
      have "comment_admitted env now inst ip user token form ?author (cw_db w) (cw_flood w) (cw_flood w1)"
        unfolding comment_admitted_def Let_def
        using real parts(2) need parts(1) resolved actor fl allowed reply body by blast
      moreover obtain i w2 where i: "insert_comment env now (us_id (id_stUser ?author)) (\<not> id_bAuthorized ?author)
          (coalesce 0 (us_score (id_stUser ?author)) \<ge> 0) form (snd (snd fmt)) ip agent True w1 = (i, w2)" by fastforce
      moreover have "w' = w2 \<and> (case i of Inl e \<Rightarrow> res = Inl e | Inr c \<Rightarrow> \<exists>loc. res = Inr (CommentSeeOther loc))"
      proof (cases i)
        case (Inl e)
        with ins i show ?thesis by (simp add: bind_eff_def)
      next
        case (Inr c)
        obtain loc where "on_cdb (comment_link (ce_lower env) c) w2 = (Inr loc, w2)" using on_cdb_link by blast
        with Inr ins i show ?thesis by (auto simp: bind_eff_def)
      qed
      ultimately show ?thesis using p(6,7) by blast
    qed
    done
qed

text \<open>C3: Nothing is written for a comment before every check has passed: whenever a request to add one leaves
  the tables changed, it was a real submission with the page's CSRF token, the captcha was solved
  where the address or the missing session asks for one, the author was resolved, and neither his
  address, his account, the rate limit, the policy of the topic, the comment answered nor the text
  was objected to - all judged on the tables before the request.  What was written is one
  committed transaction for that author; the search queue is told of the new comment after it, and
  browsers only when the queue took it, in which case the answer is a redirect.\<close>

theorem comment_write_guarded:
  assumes "add_comment env now inst ip user token form agent w = (res, w')" and "cw_db w' \<noteq> cw_db w"
  shows "\<exists>author markup fl' i N db1. comment_admitted env now inst ip user token form author (cw_db w) (cw_flood w) fl' \<and>
    insert_comment_tx (ce_inet env) now (us_id (id_stUser author)) (coalesce 0 (us_score (id_stUser author)) \<ge> 0) (cf_topic form)
      (positive (cf_replyto form)) (cf_msg form) (ce_mentions env (cf_msg form) markup) markup ip agent (cw_db w) = (Inr (i, N), db1) \<and>
    (case crq_vUpdateComments (ce_queue env) [i] ((cw_store w)\<lparr>w_db := db1\<rparr>) of
       (Inl e, s) \<Rightarrow> res = Inl e \<and> cw_store w' = s \<and> cw_hub w' = cw_hub w
     | (Inr _, s) \<Rightarrow> (\<exists>loc. res = Inr (CommentSeeOther loc)) \<and> cw_store w' = s \<and>
         cw_hub w' = vNotifyEvents (ce_ord env) N (vNotifyNewComment (ce_ord env) (cf_topic form) i (cw_hub w)))"
proof -
  from add_comment_writes [OF assms] obtain author markup w1 r where
    adm: "comment_admitted env now inst ip user token form author (cw_db w) (cw_flood w) (cw_flood w1)"
    and w1: "cw_store w1 = cw_store w" "cw_hub w1 = cw_hub w"
    and ins: "insert_comment env now (us_id (id_stUser author)) (\<not> id_bAuthorized author)
      (coalesce 0 (us_score (id_stUser author)) \<ge> 0) form markup ip agent True w1 = (r, w')"
    and r: "case r of Inl e \<Rightarrow> res = Inl e | Inr c \<Rightarrow> \<exists>loc. res = Inr (CommentSeeOther loc)"
    by auto
  from w1(1) have db: "cw_db w1 = cw_db w" by (simp add: cw_db_def)
  with assms(2) have "w' \<noteq> w1" by auto
  with insert_comment_outcome [OF ins] r show ?thesis
    unfolding db w1(1,2) [symmetric] using adm [folded db] by (fastforce simp: db w1)
qed

definition ex_comment_env :: "unit comment_env" where
  "ex_comment_env = \<lparr>ce_pw = \<lparr>pc_lossy = (\<lambda>_. []), pc_nfc = (\<lambda>s. s), pc_md5 = (\<lambda>b. b), pc_b64_decode = (\<lambda>_. None),
       pc_bcrypt_verify = (\<lambda>_ _. None), pc_bcrypt_hash = Some\<rparr>, ce_post = (\<lambda>_. Inl []),
     ce_captcha = \<lparr>cc_enable_dev_bypasses = False, cc_captcha_private_key = None, cc_captcha_public_key = None\<rparr>,
     ce_inet = Some, ce_lower = (\<lambda>s. s), ce_mentions = (\<lambda>_ _. []), ce_ord = (\<lambda>_. []), ce_local = (\<lambda>t. t),
     ce_queue = \<lparr>crq_vUpdateComments = (\<lambda>_ w. (Inr (), w))\<rparr>\<rparr>"

definition ex_comment_form :: "rstr \<Rightarrow> rstr \<Rightarrow> CommentForm" where
  "ex_comment_form token msg = \<lparr>cf_topic = 5, cf_replyto = Some 1, cf_title = None, cf_msg = msg, cf_nick = None, cf_password = None,
     cf_preview = None, cf_captcha_response = None, cf_csrf = Some token\<rparr>"

definition ex_comment_world :: "pg \<Rightarrow> unit comment_world" where
  "ex_comment_world db = \<lparr>cw_store = \<lparr>w_db = db, w_queue = ()\<rparr>, cw_hub = empty_hub,
     cw_flood = \<lparr>cf_bEnabled = False, cf_mapPerformed = Map.empty\<rparr>\<rparr>"

lemma ex_talk_reads:
  "bIpCaptchaRequired Some ip ex_talk_db = (Inr False, ex_talk_db)"
  "optCommentActorError Some 2000 ex_moderator False ip ex_talk_db = (Inr None, ex_talk_db)"
  "\<exists>n. iCommentRateThresholdSeconds 2000 ex_moderator False ex_talk_db = (Inr n, ex_talk_db)"
  "check_comment_posting_allowed 2000 ex_moderator False 5 ex_talk_db = (Inr (), ex_talk_db)"
  "optCommentReplyError 5 (Some 1) ex_talk_db = (Inr None, ex_talk_db)"
  "\<exists>a b m. user_comment_format 8 ex_talk_db = (Inr (a, b, m), ex_talk_db)"
proof -
  note talk = ex_talk_db_def ex_db_def ex_user_def ex_moderator_def ex_comment_def ex_topic_def
  show "bIpCaptchaRequired Some ip ex_talk_db = (Inr False, ex_talk_db)"
    by (simp add: bIpCaptchaRequired_def inet_or_fail_def ip_block_of_def talk)
  show "optCommentActorError Some 2000 ex_moderator False ip ex_talk_db = (Inr None, ex_talk_db)"
    by (simp add: optCommentActorError_def inet_or_fail_def bind_eff_def stmt_defs user_frozen_def talk)
  show "\<exists>n. iCommentRateThresholdSeconds 2000 ex_moderator False ex_talk_db = (Inr n, ex_talk_db)"
    by (simp add: iCommentRateThresholdSeconds_def bind_eff_def stmt_defs talk)
  have "topic_join ex_talk_db 5 = Some (ex_topic, hd (db_groups ex_db), hd (db_sections ex_db))"
    by (simp add: topic_join_def of_defs talk)
  moreover have "topic_score_loss ex_talk_db 5 = 0" by (simp add: topic_score_loss_def talk)
  ultimately show "check_comment_posting_allowed 2000 ex_moderator False 5 ex_talk_db = (Inr (), ex_talk_db)"
    by (simp add: check_comment_posting_allowed_def bind_eff_def stmt_defs stCommentPostingContext_def in_i32_def
        check_comment_posting_context_def comment_levels_def section_comment_postscore_def topic_expired_def user_frozen_def talk)
  show "optCommentReplyError 5 (Some 1) ex_talk_db = (Inr None, ex_talk_db)"
    by (simp add: optCommentReplyError_def positive_def bind_eff_def stmt_defs talk)
  show "\<exists>a b m. user_comment_format 8 ex_talk_db = (Inr (a, b, m), ex_talk_db)"
    by (simp add: user_comment_format_def settings_text_def bind_eff_def stmt_defs Let_def split: prod.splits)
qed

lemma ex_talk_insert:
  "\<exists>db'. insert_comment_tx Some 2000 8 True 5 (Some 1) (u ''hi'') [] m (u ''1.2.3.4'') None ex_talk_db = (Inr (100, [7, 9]), db') \<and>
     length (db_comments db') = 2"
  by (simp add: insert_comment_tx_def transaction_def check_reply_def insert_comment_row_def bind_eff_def fetch_optional_def
      next_val_def exec_insert_def inet_or_fail_def create_user_agent_def comment_fits_def of_defs comins_def exec_update_checked_def
      exec_update_def update_where_def notify_comment_def reply_recipients_def watch_recipients_def mention_recipients_def
      branch_authors_def branch.simps ignores_def insert_event_def comment_event_def recalculate_unread_def
      ex_talk_db_def ex_db_def ex_topic_def ex_user_def ex_comment_def I32_MAX_def in_i32_def)

lemma ex_add_comment:
  assumes tx: "\<And>m. insert_comment_tx Some 2000 8 True 5 (Some 1) msg [] m ip None ex_talk_db = (Inr (i, N), db1 m)"
    and body: "optCommentBodyErrorWithPolicy msg False True = None"
    and run: "add_comment ex_comment_env 2000 0 ip (Some ex_moderator) token (ex_comment_form token msg) None
       (ex_comment_world ex_talk_db) = (res, w')"
  shows "\<exists>m. cw_db w' = db1 m"
proof -
  obtain a b m where fmt: "user_comment_format 8 ex_talk_db = (Inr (a, b, m), ex_talk_db)" using ex_talk_reads(6) by blast
  obtain n where rate: "iCommentRateThresholdSeconds 2000 ex_moderator False ex_talk_db = (Inr n, ex_talk_db)"
    using ex_talk_reads(3) by blast
  obtain loc where link: "comment_link (\<lambda>s. s) i (db1 m) = (Inr loc, db1 m)" using comment_link_outcome by blast
  have mod: "us_id ex_moderator = 8" "us_score ex_moderator = Some 500" by (simp_all add: ex_moderator_def)
  have "cw_db w' = db1 m"
    using run by (simp add: add_comment_def bind_eff_def on_cdb_def on_store_def on_db_def fmt rate tx link mod ex_talk_reads
        ex_comment_env_def ex_comment_form_def ex_comment_world_def csrf_matches_def stResolvePostingIdentity_def unless_error_def
        check_flood_def optCheckComment_def form_refusal_def optCommentBodyError_def body insert_comment_def cw_db_def
        positive_def split: if_splits) (auto simp: cw_db_def)
  then show ?thesis by blast
qed

theorem comment_write_guarded_witness:
  "\<exists>author res w'. add_comment ex_comment_env 2000 0 (u ''1.2.3.4'') (Some ex_moderator) (u ''t'') (ex_comment_form (u ''t'') (u ''hi'')) None
       (ex_comment_world ex_talk_db) = (res, w') \<and> length (db_comments (cw_db w')) = 2 \<and>
     comment_admitted ex_comment_env 2000 0 (u ''1.2.3.4'') (Some ex_moderator) (u ''t'') (ex_comment_form (u ''t'') (u ''hi'')) author ex_talk_db
       (cw_flood (ex_comment_world ex_talk_db)) (cw_flood (ex_comment_world ex_talk_db))"
proof -
  obtain db1 where tx: "\<And>m. insert_comment_tx Some 2000 8 True 5 (Some 1) (u ''hi'') [] m (u ''1.2.3.4'') None ex_talk_db
      = (Inr (100, [7, 9]), db1 m)" and two: "\<And>m. length (db_comments (db1 m)) = 2" using ex_talk_insert by metis
  obtain res w' where run: "add_comment ex_comment_env 2000 0 (u ''1.2.3.4'') (Some ex_moderator) (u ''t'')
       (ex_comment_form (u ''t'') (u ''hi'')) None (ex_comment_world ex_talk_db) = (res, w')" by fastforce
  have "optCommentBodyErrorWithPolicy (u ''hi'') False True = None"
    by (simp add: optCommentBodyErrorWithPolicy_def bValidXmlCharacter_def trim_def trim_by_def is_whitespace_def COMMENT_MAX_LENGTH_def)
  from ex_add_comment [OF tx this run] two have after: "length (db_comments (cw_db w')) = 2" by auto
  have before: "cw_db (ex_comment_world ex_talk_db) = ex_talk_db" by (simp add: cw_db_def ex_comment_world_def)
  have "length (db_comments ex_talk_db) = 1" by (simp add: ex_talk_db_def)
  with after before have "cw_db w' \<noteq> cw_db (ex_comment_world ex_talk_db)" by auto
  from comment_write_guarded [OF run this] obtain author fl' where
    "comment_admitted ex_comment_env 2000 0 (u ''1.2.3.4'') (Some ex_moderator) (u ''t'') (ex_comment_form (u ''t'') (u ''hi'')) author ex_talk_db
       (cw_flood (ex_comment_world ex_talk_db)) fl'" unfolding before by blast
  moreover from this have "fl' = cw_flood (ex_comment_world ex_talk_db)"
    by (auto simp: comment_admitted_def Let_def ex_comment_world_def optCheckComment_def)
  ultimately show ?thesis using run after by blast
qed

subsection \<open>Editing\<close>

text \<open>What a request to edit passed, and what the old text becomes.\<close>

definition edit_admitted ::
    "'q comment_env \<Rightarrow> time \<Rightarrow> rstr \<Rightarrow> StUserSummary \<Rightarrow> rstr \<Rightarrow> EditCommentForm \<Rightarrow> StEditableCommentRow \<Rightarrow> pg \<Rightarrow> bool" where
  "edit_admitted env now ip usr token form row db \<longleftrightarrow>
     fst (stEditableComment now (ef_original form) db) = Inr row \<and> ef_preview form = None \<and> csrf_matches (ef_csrf form) token \<and>
     (fst (bIpCaptchaRequired (ce_inet env) ip db) = Inr True \<longrightarrow> captcha_error env (ef_captcha_response form) ip = None) \<and>
     fst (optCommentActorError (ce_inet env) now usr False ip db) = Inr None \<and>
     fst (check_comment_posting_allowed now usr False (ec_iTopicId row) db) = Inr () \<and>
     optCommentEditEligibilityError row usr now = None \<and> optCommentBodyError (ef_msg form) False = None"

definition text_kept :: "pg \<Rightarrow> pg \<Rightarrow> int \<Rightarrow> int \<Rightarrow> rstr \<Rightarrow> bool" where
  "text_kept db db' editor i msg \<longleftrightarrow> (\<forall>m. msgbase_of db i = Some m \<longrightarrow> map_option pm_message (msgbase_of db' i) = Some msg \<and>
     (pm_message m = msg \<or> (\<exists>e\<in>set (db_edit_info db'). ei_msgid e = i \<and> ei_editor e = editor \<and> ei_object_type e = EditComment \<and>
       ei_oldmessage e = Some (pm_message m)))) \<and>
   (\<forall>j. j \<noteq> i \<longrightarrow> msgbase_of db' j = msgbase_of db j \<and> comment_of db' j = comment_of db j) \<and>
   (\<exists>new. db_edit_info db' = db_edit_info db @ new \<and> length new \<le> 1)"

lemma find_update_key:
  assumes "\<And>r. k (f r) = k r"
  shows "List.find (\<lambda>r. k r = j) (update_where (\<lambda>r. k r = i) f rs) =
    map_option (\<lambda>r. if j = i then f r else r) (List.find (\<lambda>r. k r = j) rs)"
  using assms by (induction rs) (auto simp: update_where_def)

lemma edit_comment_tx_Inr:
  assumes "edit_comment_tx local now usr i row msg db = (Inr (), db')" and "fst (stEditableComment now i db) = Inr row"
  shows "text_kept db db' usr i msg"
proof -
  have row: "msgbase_of db i = Some m \<Longrightarrow> pm_message m = ec_sMessage row" for m
    using assms(2) by (auto simp: stEditableComment_def ok_or_def split: option.splits bind_splits)
  have key: "pm_id (pm_message_update g m) = pm_id m" "pc_id (pc_title_update h c) = pc_id c" for g h m c by simp_all
  show ?thesis
    using assms(1) row unfolding text_kept_def edit_comment_tx_def Let_def transaction_Inr
    by (auto simp: bind_eff_Inr_iff stmt_defs of_defs find_update_key then_some_def option.map_ident next_val_def
      split: if_splits)
qed

lemma edit_tail:
  assumes "bind_eff (on_cdb (edit_comment_tx local now usr i row msg)) (\<lambda>_. bind_eff (on_store (crq_vUpdateComments queue [i])) (\<lambda>_.
      bind_eff (on_cdb (comment_link lower i)) (\<lambda>loc. ret_eff (CommentSeeOther loc)))) w = (res, w')"
    and "cw_db w' \<noteq> cw_db w" and "keeps_db (crq_vUpdateComments queue [i])"
    and "fst (stEditableComment now i (cw_db w)) = Inr row"
  shows "text_kept (cw_db w) (cw_db w') usr i msg \<and> cw_hub w' = cw_hub w"
proof -
  obtain r db where tx: "edit_comment_tx local now usr i row msg (cw_db w) = (r, db)" by fastforce
  have "r = Inr ()"
  proof (cases r)
    case (Inl e)
    with tx have "db = cw_db w" by (auto simp: edit_comment_tx_def Let_def transaction_err)
    with assms(1,2) Inl tx show ?thesis by (auto simp: on_cdb_def on_store_def on_db_def cw_db_def bind_eff_def)
  qed simp
  note tx = tx [unfolded this]
  obtain q s where queue: "crq_vUpdateComments queue [i] ((cw_store w)\<lparr>w_db := db\<rparr>) = (q, s)" by fastforce
  then have "w_db s = db" using assms(3) unfolding keeps_db_def by (metis snd_conv world.surjective world.update_convs(1) world.select_convs(1))
  moreover have "cw_store w' = s \<and> cw_hub w' = cw_hub w"
  proof -
    have one: "on_cdb (edit_comment_tx local now usr i row msg) w = (Inr (), w\<lparr>cw_store := (cw_store w)\<lparr>w_db := db\<rparr>\<rparr>)"
      using tx by (simp add: on_cdb_def on_store_def on_db_def cw_db_def)
    have two: "on_store (crq_vUpdateComments queue [i]) (w\<lparr>cw_store := (cw_store w)\<lparr>w_db := db\<rparr>\<rparr>) = (q, w\<lparr>cw_store := s\<rparr>)"
      using queue by (simp add: on_store_def)
    obtain loc where "on_cdb (comment_link lower i) (w\<lparr>cw_store := s\<rparr>) = (Inr loc, w\<lparr>cw_store := s\<rparr>)" using on_cdb_link by blast
    with assms(1) one two show ?thesis by (cases q) (auto simp: bind_eff_def)
  qed
  ultimately show ?thesis using edit_comment_tx_Inr [OF tx assms(4)] by (simp add: cw_db_def)
qed

text \<open>C15: A comment is edited only by its author, in time, and its old text is kept.  Whenever a request to edit
  leaves the tables changed, it carried the page's CSRF token and any captcha asked for, the
  submitter is the author of a live comment in a live, current topic, wrote it at most 30 minutes
  ago, has a score of at least 45, nobody has a live answer to it, and neither his address, his
  account nor the policy of the topic forbids it.  Then exactly that comment has the new text; a
  different old text stands in one new history record with the editor; and no browser is told.\<close>

theorem comment_edit_guarded:
  assumes "edit_comment env now ip user token form w = (res, w')" and "cw_db w' \<noteq> cw_db w"
    and "keeps_db (\<lambda>s. crq_vUpdateComments (ce_queue env) [ef_original form] s)"
  shows "\<exists>usr row. user = Some usr \<and> edit_admitted env now ip usr token form row (cw_db w) \<and>
    ec_iAuthorId row = us_id usr \<and> \<not> ec_bDeleted row \<and> \<not> ec_bTopicDeleted row \<and> \<not> ec_bTopicExpired row \<and> \<not> ec_bHasReplies row \<and>
    now \<le> ec_dtPostdate row + minutes 30 \<and> coalesce 0 (us_score usr) \<ge> 45 \<and>
    text_kept (cw_db w) (cw_db w') (us_id usr) (ef_original form) (ef_msg form) \<and> cw_hub w' = cw_hub w"
proof (cases user)
  case None
  with assms(1,2) show ?thesis by (simp add: edit_comment_def)
next
  case (Some usr)
  let ?tx = "\<lambda>row. edit_comment_tx (ce_local env) now (us_id usr) (ef_original form) row (ef_msg form)"
  show ?thesis
    using assms(1) unfolding edit_comment_def Let_def Some option.case
    apply -
    apply (erule pass_read, rule reads_checks, rule assms(2))
    subgoal premises outer for row
    proof -
      have "\<not> (case ef_topic form of None \<Rightarrow> False | Some t \<Rightarrow> t \<noteq> ec_iTopicId row)"
      proof
        assume c: "case ef_topic form of None \<Rightarrow> False | Some t \<Rightarrow> t \<noteq> ec_iTopicId row"
        from outer(2) assms(2) show False unfolding if_P [OF c] by simp
      qed
      note rest = outer(2) [unfolded if_not_P [OF this]]
      show ?thesis
      using rest apply -
      apply (erule pass_read, rule reads_checks, rule assms(2))
      apply (erule pass_unless, rule reads_checks, rule assms(2))
      apply (erule pass_refusal, rule reads_checks, rule assms(2))
      subgoal premises p for captcha e2 e5
      proof -
        have final: "ef_preview form = None" "or_else e5 (optCommentEditEligibilityError row usr now) = None"
          "bind_eff (on_cdb (?tx row)) (\<lambda>_. bind_eff (on_store (crq_vUpdateComments (ce_queue env) [ef_original form])) (\<lambda>_.
            bind_eff (on_cdb (comment_link (ce_lower env) (ef_original form))) (\<lambda>loc. ret_eff (CommentSeeOther loc)))) w = (res, w')"
          using p(4) assms(2) by (auto split: if_splits)
        from final(2) p(2,3) have none: "e5 = None" "e2 = None" and elig: "optCommentEditEligibilityError row usr now = None" by auto
        have e4: "or_else (or_else e2 (if ef_preview form = None \<and> \<not> csrf_matches (ef_csrf form) token then Some sCsrfError else None))
            (if ef_preview form = None \<and> captcha then captcha_error env (ef_captcha_response form) ip else None) = None"
          and policy: "fst (check_comment_posting_allowed now usr False (ec_iTopicId row) (cw_db w)) = Inr ()"
          using p(3) none(1) by blast+
        have parts: "csrf_matches (ef_csrf form) token" "captcha \<longrightarrow> captcha_error env (ef_captcha_response form) ip = None"
          using e4 final(1) by (auto split: if_splits)
        have actor: "fst (optCommentActorError (ce_inet env) now usr False ip (cw_db w)) = Inr None"
          and body: "optCommentBodyError (ef_msg form) False = None" using p(2) none(2) by blast+
        have need: "fst (bIpCaptchaRequired (ce_inet env) ip (cw_db w)) = Inr True \<longrightarrow> captcha_error env (ef_captcha_response form) ip = None"
          using p(1) parts(2) by simp
        have "edit_admitted env now ip usr token form row (cw_db w)"
          unfolding edit_admitted_def using outer(1) final(1) parts(1) need actor policy elig body by blast
        moreover have "ec_iAuthorId row = us_id usr \<and> \<not> ec_bDeleted row \<and> \<not> ec_bTopicDeleted row \<and> \<not> ec_bTopicExpired row \<and>
            \<not> ec_bHasReplies row \<and> now \<le> ec_dtPostdate row + minutes 30 \<and> coalesce 0 (us_score usr) \<ge> 45"
          using elig unfolding optCommentEditEligibilityError_def by (simp split: if_splits)
        ultimately show ?thesis using edit_tail [OF final(3) assms(2,3) outer(1)] by blast
      qed
      done
    qed
    done
qed

definition ex_edit_db :: pg where
  "ex_edit_db = ex_talk_db\<lparr>db_comments := [ex_comment 1 8 None], db_msgbase := [\<lparr>pm_id = 1, pm_message = u ''old'', pm_markup = u ''MARKDOWN''\<rparr>]\<rparr>"

definition ex_edit_form :: "rstr \<Rightarrow> rstr \<Rightarrow> EditCommentForm" where
  "ex_edit_form token msg = \<lparr>ef_original = 1, ef_topic = None, ef_msg = msg, ef_preview = None, ef_captcha_response = None,
     ef_csrf = Some token\<rparr>"

definition ex_edit_row :: StEditableCommentRow where
  "ex_edit_row = \<lparr>ec_iTopicId = 5, ec_iAuthorId = 8, ec_sTitle = [], ec_sMessage = u ''old'', ec_sMarkup = u ''MARKDOWN'',
     ec_bDeleted = False, ec_dtPostdate = 1000, ec_bHasReplies = False, ec_bTopicDeleted = False, ec_bTopicExpired = False\<rparr>"

lemma ex_edit_reads:
  "bIpCaptchaRequired Some ip ex_edit_db = (Inr False, ex_edit_db)"
  "optCommentActorError Some 2000 ex_moderator False ip ex_edit_db = (Inr None, ex_edit_db)"
  "check_comment_posting_allowed 2000 ex_moderator False 5 ex_edit_db = (Inr (), ex_edit_db)"
  "stEditableComment 2000 1 ex_edit_db = (Inr ex_edit_row, ex_edit_db)"
  "optCommentEditEligibilityError ex_edit_row ex_moderator 2000 = None"
proof -
  note talk = ex_edit_db_def ex_talk_db_def ex_db_def ex_user_def ex_moderator_def ex_comment_def ex_topic_def ex_edit_row_def
  show "bIpCaptchaRequired Some ip ex_edit_db = (Inr False, ex_edit_db)"
    by (simp add: bIpCaptchaRequired_def inet_or_fail_def ip_block_of_def talk)
  show "optCommentActorError Some 2000 ex_moderator False ip ex_edit_db = (Inr None, ex_edit_db)"
    by (simp add: optCommentActorError_def inet_or_fail_def bind_eff_def stmt_defs user_frozen_def talk)
  have join: "topic_join ex_edit_db 5 = Some (ex_topic, hd (db_groups ex_db), hd (db_sections ex_db))"
    by (simp add: topic_join_def of_defs talk)
  moreover have "topic_score_loss ex_edit_db 5 = 0" by (simp add: topic_score_loss_def talk)
  ultimately show "check_comment_posting_allowed 2000 ex_moderator False 5 ex_edit_db = (Inr (), ex_edit_db)"
    by (simp add: check_comment_posting_allowed_def bind_eff_def stmt_defs stCommentPostingContext_def in_i32_def
        check_comment_posting_context_def comment_levels_def section_comment_postscore_def topic_expired_def user_frozen_def talk)
  have "comment_of ex_edit_db 1 = Some (ex_comment 1 8 None)"
    "msgbase_of ex_edit_db 1 = Some \<lparr>pm_id = 1, pm_message = u ''old'', pm_markup = u ''MARKDOWN''\<rparr>"
    "db_comments ex_edit_db = [ex_comment 1 8 None]"
    by (simp_all add: of_defs ex_edit_db_def ex_comment_def)
  then show "stEditableComment 2000 1 ex_edit_db = (Inr ex_edit_row, ex_edit_db)"
    using join by (simp add: stEditableComment_def ex_comment_def ex_edit_row_def ex_topic_def topic_expired_def ex_db_def)
  show "optCommentEditEligibilityError ex_edit_row ex_moderator 2000 = None"
    by (simp add: optCommentEditEligibilityError_def ex_edit_row_def ex_moderator_def minutes_def seconds_def)
qed

lemma ex_edit_tx:
  "\<exists>db'. edit_comment_tx (\<lambda>t. t) 2000 8 1 ex_edit_row (u ''new'') ex_edit_db = (Inr (), db') \<and> db_edit_info ex_edit_db \<noteq> db_edit_info db'"
  by (simp add: edit_comment_tx_def transaction_def bind_eff_def stmt_defs next_val_def then_some_def of_defs update_where_def
      ex_edit_db_def ex_talk_db_def ex_db_def ex_user_def ex_edit_row_def ex_comment_def ex_topic_def I32_MAX_def)

theorem comment_edit_guarded_witness:
  "\<exists>res w'. edit_comment ex_comment_env 2000 (u ''1.2.3.4'') (Some ex_moderator) (u ''t'') (ex_edit_form (u ''t'') (u ''new''))
       (ex_comment_world ex_edit_db) = (res, w') \<and>
     (\<exists>e\<in>set (db_edit_info (cw_db w')). ei_msgid e = 1 \<and> ei_oldmessage e = Some (u ''old''))"
proof -
  obtain res w' where run: "edit_comment ex_comment_env 2000 (u ''1.2.3.4'') (Some ex_moderator) (u ''t'')
      (ex_edit_form (u ''t'') (u ''new'')) (ex_comment_world ex_edit_db) = (res, w')" by fastforce
  obtain db1 where tx: "edit_comment_tx (\<lambda>t. t) 2000 8 1 ex_edit_row (u ''new'') ex_edit_db = (Inr (), db1)"
    and diff: "db_edit_info ex_edit_db \<noteq> db_edit_info db1" using ex_edit_tx by blast
  obtain loc where link: "comment_link (\<lambda>s. s) 1 db1 = (Inr loc, db1)" using comment_link_outcome by blast
  have body: "optCommentBodyErrorWithPolicy (u ''new'') False True = None"
    by (simp add: optCommentBodyErrorWithPolicy_def bValidXmlCharacter_def trim_def trim_by_def is_whitespace_def COMMENT_MAX_LENGTH_def)
  have mod: "us_id ex_moderator = 8" by (simp add: ex_moderator_def)
  have row: "ec_iTopicId ex_edit_row = 5" by (simp add: ex_edit_row_def)
  have "cw_db w' = db1" if "tok = u ''t''" "msg = u ''new''" for tok msg
    using run unfolding that [symmetric]
    by (simp add: edit_comment_def bind_eff_def on_cdb_def on_store_def on_db_def tx [folded that] link mod row ex_edit_reads
        ex_comment_env_def ex_edit_form_def ex_comment_world_def csrf_matches_def unless_error_def form_refusal_def
        optCommentBodyError_def body [folded that] split: if_splits) (auto simp: cw_db_def)
  then have after: "cw_db w' = db1" by blast
  have before: "cw_db (ex_comment_world ex_edit_db) = ex_edit_db" by (simp add: cw_db_def ex_comment_world_def)
  from diff after before have "cw_db w' \<noteq> cw_db (ex_comment_world ex_edit_db)" by auto
  moreover have "keeps_db (\<lambda>s. crq_vUpdateComments (ce_queue ex_comment_env) [ef_original (ex_edit_form (u ''t'') (u ''new''))] s)"
    by (simp add: keeps_db_def ex_comment_env_def)
  ultimately have "text_kept ex_edit_db (cw_db w') (us_id ex_moderator) (ef_original (ex_edit_form (u ''t'') (u ''new'')))
      (ef_msg (ex_edit_form (u ''t'') (u ''new'')))"
    using comment_edit_guarded [OF run] unfolding before by blast
  moreover have "msgbase_of ex_edit_db 1 = Some \<lparr>pm_id = 1, pm_message = u ''old'', pm_markup = u ''MARKDOWN''\<rparr>"
    by (simp add: of_defs ex_edit_db_def)
  ultimately have "\<exists>e\<in>set (db_edit_info (cw_db w')). ei_msgid e = 1 \<and> ei_oldmessage e = Some (u ''old'')"
    unfolding text_kept_def ex_edit_form_def by auto
  with run show ?thesis by blast
qed

end
