(* ===== verification/Reactions.thy ===== *)
theory Reactions
  imports Comment_Guards
begin

section \<open>Reactions (src/routes/api.rs)\<close>

text \<open>
  Setting and removing a reaction to a topic or a comment: the binder, the policy, the
  transaction and the handlers.  A \<open>reactions\<close> column is a JSON object keyed by user; the table
  \<open>reactions_log\<close> has one row for each target and user, and a unique index allows one
  notification for each.
\<close>

subsection \<open>Parameters\<close>

definition REACTIONS :: "(rstr \<times> rstr) list" where
  "REACTIONS = [(([128077] :: rstr) \<comment> \<open>(U+1F44D)\<close>, ([1073, 1086, 1083, 1100, 1096, 1086, 1081, 32, 1087, 1072, 1083, 1077, 1094, 32, 1074, 1074, 1077, 1088, 1093] :: rstr) \<comment> \<open>bolshoj palets vverkh\<close>), (([128078] :: rstr) \<comment> \<open>(U+1F44E)\<close>, ([1073, 1086, 1083, 1100, 1096, 1086, 1081, 32, 1087, 1072, 1083, 1077, 1094, 32, 1074, 1085, 1080, 1079] :: rstr) \<comment> \<open>bolshoj palets vniz\<close>), (([128522] :: rstr) \<comment> \<open>(U+1F60A)\<close>, ([1091, 1083, 1099, 1073, 1072, 1102, 1097, 1077, 1077, 1089, 1103, 32, 1083, 1080, 1094, 1086] :: rstr) \<comment> \<open>ulybayushcheesya litso\<close>),
     (([128561] :: rstr) \<comment> \<open>(U+1F631)\<close>, ([1083, 1080, 1094, 1086, 44, 32, 1082, 1088, 1080, 1095, 1072, 1097, 1077, 1077, 32, 1086, 1090, 32, 1089, 1090, 1088, 1072, 1093, 1072] :: rstr) \<comment> \<open>litso, krichashchee ot strakha\<close>), (([129318] :: rstr) \<comment> \<open>(U+1F926)\<close>, (u ''facepalm'')), (([128293] :: rstr) \<comment> \<open>(U+1F525)\<close>, ([1086, 1075, 1086, 1085, 1100] :: rstr) \<comment> \<open>ogon\<close>), (([129300] :: rstr) \<comment> \<open>(U+1F914)\<close>, ([1079, 1072, 1076, 1091, 1084, 1095, 1080, 1074, 1086, 1077, 32, 1083, 1080, 1094, 1086] :: rstr) \<comment> \<open>zadumchivoe litso\<close>),
     (([129313] :: rstr) \<comment> \<open>(U+1F921)\<close>, ([1082, 1083, 1086, 1091, 1085, 1072, 1076, 1072] :: rstr) \<comment> \<open>klounada\<close>), (([9749, 9749] :: rstr) \<comment> \<open>(U+2615)(U+2615)\<close>, ([1076, 1074, 1072, 32, 1095, 1072, 1103, 32, 1101, 1090, 1086, 1084, 1091, 32, 1075, 1086, 1089, 1087, 1086, 1076, 1080, 1085, 1091, 33] :: rstr) \<comment> \<open>dva chaya etomu gospodinu!\<close>), (([129687] :: rstr) \<comment> \<open>(U+1FA97)\<close>, ([1073, 1086, 1103, 1085, 33, 33, 33, 49, 49, 49, 49] :: rstr) \<comment> \<open>boyan!!!1111\<close>), (([128546] :: rstr) \<comment> \<open>(U+1F622)\<close>, ([1075, 1088, 1091, 1089, 1090, 1100, 45, 1087, 1077, 1095, 1072, 1083, 1100] :: rstr) \<comment> \<open>grust-pechal\<close>),
     (([128686] :: rstr) \<comment> \<open>(U+1F6AE)\<close>, ([1085, 1077, 32, 1085, 1091, 1078, 1085, 1086, 33] :: rstr) \<comment> \<open>ne nuzhno!\<close>), (([127881] :: rstr) \<comment> \<open>(U+1F389)\<close>, ([1093, 1083, 1086, 1087, 1091, 1096, 1082, 1072] :: rstr) \<comment> \<open>khlopushka\<close>), (([129324] :: rstr) \<comment> \<open>(U+1F92C)\<close>, ([1085, 1077, 1090, 32, 1089, 1083, 1086, 1074, 33] :: rstr) \<comment> \<open>net slov!\<close>)]"

datatype EnReactionTarget = TargetTopic int | TargetComment int

definition stBindReactionPostParameters :: "params \<Rightarrow> app_error + (EnReactionTarget \<times> rstr)" where
  "stBindReactionPostParameters vecParameters =
     and_then (case form_get vecParameters (u ''comment'') of
         Some sCommentId \<Rightarrow> (case parse_i32 sCommentId of
             Some i \<Rightarrow> Inr (TargetComment i)
           | None \<Rightarrow> Inl (BadRequest ([70, 97, 105, 108, 101, 100, 32, 116, 111, 32, 99, 111, 110, 118, 101, 114, 116, 32, 114, 101, 113, 117, 101, 115, 116, 32, 112, 97, 114, 97, 109, 101, 116, 101, 114, 32, 39, 99, 111, 109, 109, 101, 110, 116, 39] :: rstr) \<comment> \<open>Failed to convert request parameter (apostrophe)comment(apostrophe)\<close>))
       | None \<Rightarrow> and_then (ok_or (BadRequest ([82, 101, 113, 117, 105, 114, 101, 100, 32, 114, 101, 113, 117, 101, 115, 116, 32, 112, 97, 114, 97, 109, 101, 116, 101, 114, 32, 39, 116, 111, 112, 105, 99, 39, 32, 105, 115, 32, 109, 105, 115, 115, 105, 110, 103] :: rstr) \<comment> \<open>Required request parameter (apostrophe)topic(apostrophe) is missing\<close>) (form_get vecParameters (u ''topic'')))
           (\<lambda>sTopicId. case parse_i32 sTopicId of
             Some i \<Rightarrow> Inr (TargetTopic i)
           | None \<Rightarrow> Inl (BadRequest ([70, 97, 105, 108, 101, 100, 32, 116, 111, 32, 99, 111, 110, 118, 101, 114, 116, 32, 114, 101, 113, 117, 101, 115, 116, 32, 112, 97, 114, 97, 109, 101, 116, 101, 114, 32, 39, 116, 111, 112, 105, 99, 39] :: rstr) \<comment> \<open>Failed to convert request parameter (apostrophe)topic(apostrophe)\<close>))) (\<lambda>enTarget.
     and_then (ok_or (BadRequest ([82, 101, 113, 117, 105, 114, 101, 100, 32, 114, 101, 113, 117, 101, 115, 116, 32, 112, 97, 114, 97, 109, 101, 116, 101, 114, 32, 39, 114, 101, 97, 99, 116, 105, 111, 110, 39, 32, 105, 115, 32, 109, 105, 115, 115, 105, 110, 103] :: rstr) \<comment> \<open>Required request parameter (apostrophe)reaction(apostrophe) is missing\<close>) (form_get vecParameters (u ''reaction'')))
       (\<lambda>sReactionAction. Inr (enTarget, sReactionAction)))"

definition parse_reaction_action :: "rstr \<Rightarrow> app_error + (rstr \<times> bool)" where
  "parse_reaction_action raw = (case split_once (u ''-'') raw of
     None \<Rightarrow> Inl (Anyhow (u ''invalid reaction action shape''))
   | Some (reaction, action) \<Rightarrow> Inr (reaction, action = (u ''true'')))"

subsection \<open>The target\<close>

definition resolve_reaction_target :: "EnReactionTarget \<Rightarrow> (int \<times> int option) pg_eff" where
  "resolve_reaction_target enTarget = (\<lambda>db.
     (ok_or NotFound (case enTarget of
        TargetComment i \<Rightarrow> Option.bind (comment_of db i) (\<lambda>c. map_option (\<lambda>t. (pc_topic c, Some i)) (topic_of db (pc_topic c)))
      | TargetTopic i \<Rightarrow> map_option (\<lambda>t. (pt_id t, None)) (topic_of db i)), db))"

definition reaction_target_link :: "(rstr \<Rightarrow> rstr) \<Rightarrow> int \<Rightarrow> int option \<Rightarrow> rstr pg_eff" where
  "reaction_target_link lower topic_id comment_id = (\<lambda>db. (Inr (case topic_join db topic_id of
     None \<Rightarrow> (u ''/'')
   | Some (t, g, s) \<Rightarrow> [47] @ section_prefix lower (ps_id s) (ps_name s) @ [47] @ pg_urlname g @ [47] @ show_int topic_id @
       (case comment_id of None \<Rightarrow> [] | Some i \<Rightarrow> (u ''?cid='') @ show_int i)), db))"

subsection \<open>The policy\<close>

datatype EnReactionPolicyFailure = TargetForbidden | RateLimited | Unsupported

definition enReactionPolicyFailure :: "bool \<Rightarrow> bool \<Rightarrow> nat \<Rightarrow> bool \<Rightarrow> EnReactionPolicyFailure option" where
  "enReactionPolicyFailure bAllowInteract bSet iRecentCount bSupported =
     (if \<not> bAllowInteract then Some TargetForbidden
      else if bSet \<and> 5 \<le> iRecentCount then Some RateLimited
      else if \<not> bSupported then Some Unsupported
      else None)"

text \<open>Author, whether the topic is deleted or expired, whether the comment is deleted, and the level of the topic.\<close>

definition reaction_target_row :: "time \<Rightarrow> int \<Rightarrow> int option \<Rightarrow> (int \<times> bool \<times> bool \<times> bool option \<times> int) pg_eff" where
  "reaction_target_row now topic_id comment_id = (\<lambda>db.
     (ok_or NotFound (case comment_id of
        Some i \<Rightarrow> Option.bind (comment_of db i) (\<lambda>c. if pc_topic c \<noteq> topic_id then None else
          map_option (\<lambda>(t, g, s). (pc_userid c, pt_deleted t, topic_expired now s t, Some (pc_deleted c), coalesce (- 9999) (pt_postscore t)))
            (topic_join db topic_id))
      | None \<Rightarrow> map_option (\<lambda>(t, g, s). (pt_userid t, pt_deleted t, topic_expired now s t, None, coalesce (- 9999) (pt_postscore t)))
          (topic_join db topic_id)), db))"

definition recent_reactions :: "time \<Rightarrow> pg \<Rightarrow> int \<Rightarrow> nat" where
  "recent_reactions now db user_id =
     length (filter (\<lambda>r. rl_origin_user r = user_id \<and> now - minutes 10 < rl_set_date r) (db_reactions_log db))"

definition check_reaction_allowed :: "time \<Rightarrow> int \<Rightarrow> int \<Rightarrow> int option \<Rightarrow> bool \<Rightarrow> rstr \<Rightarrow> unit pg_eff" where
  "check_reaction_allowed now user_id topic_id comment_id bSet reaction =
     bind_eff (reaction_target_row now topic_id comment_id) (\<lambda>(author_id, topic_deleted, topic_expired, comment_deleted, topic_postscore).
     let comments_hidden = (comment_id \<noteq> None \<and> topic_postscore = 10002);
         bAllowTarget = (\<not> (user_id = author_id \<or> topic_deleted \<or> topic_expired \<or> coalesce False comment_deleted \<or> comments_hidden)) in
     bind_eff (fetch_optional db_users (\<lambda>r. pu_id r = user_id)) (\<lambda>r.
     let bAllowInteract = (bAllowTarget \<and> \<not> (case r of None \<Rightarrow> False | Some r \<Rightarrow> user_frozen now r)) in
     bind_eff (\<lambda>db. (Inr (if bAllowInteract \<and> bSet then recent_reactions now db user_id else 0), db)) (\<lambda>iRecentCount.
     case enReactionPolicyFailure bAllowInteract bSet iRecentCount (reaction \<in> fst ` set REACTIONS) of
       Some RateLimited \<Rightarrow> fail_eff (TooManyRequests ([1055, 1086, 1087, 1088, 1086, 1073, 1091, 1081, 1090, 1077, 32, 1087, 1086, 1079, 1078, 1077] :: rstr) \<comment> \<open>Poprobujte pozzhe\<close>)
     | Some _ \<Rightarrow> fail_eff Forbidden
     | None \<Rightarrow> ret_eff ())))"

subsection \<open>The transaction\<close>

definition reactions_at :: "pg \<Rightarrow> int \<Rightarrow> int option \<Rightarrow> (int \<times> rstr) list option" where
  "reactions_at db topic_id comment_id = (case comment_id of
     Some i \<Rightarrow> map_option pc_reactions (comment_of db i)
   | None \<Rightarrow> map_option pt_reactions (topic_of db topic_id))"

text \<open>\<open>UPDATE .. SET reactions = .. RETURNING reactions\<close>.\<close>

definition update_reactions :: "((int \<times> rstr) list \<Rightarrow> (int \<times> rstr) list) \<Rightarrow> int \<Rightarrow> int option \<Rightarrow> (int \<times> rstr) list pg_eff" where
  "update_reactions f topic_id comment_id =
     bind_eff (case comment_id of
         Some i \<Rightarrow> exec_update db_comments db_comments_update (\<lambda>c. pc_id c = i) (pc_reactions_update f)
       | None \<Rightarrow> exec_update db_topics db_topics_update (\<lambda>t. pt_id t = topic_id) (pt_reactions_update f)) (\<lambda>_ db.
     (ok_or (Sqlx RowNotFound) (reactions_at db topic_id comment_id), db))"

text \<open>\<open>object || {k: v}\<close> and \<open>object - k\<close>.\<close>

definition json_put :: "int \<Rightarrow> rstr \<Rightarrow> (int \<times> rstr) list \<Rightarrow> (int \<times> rstr) list" where
  "json_put k v m = filter (\<lambda>(j, _). j \<noteq> k) m @ [(k, v)]"

definition json_drop :: "int \<Rightarrow> (int \<times> rstr) list \<Rightarrow> (int \<times> rstr) list" where
  "json_drop k m = filter (\<lambda>(j, _). j \<noteq> k) m"

definition log_key :: "int \<Rightarrow> int \<Rightarrow> int option \<Rightarrow> pg_reaction \<Rightarrow> bool" where
  "log_key user_id topic_id comment_id r \<longleftrightarrow>
     rl_origin_user r = user_id \<and> rl_topic_id r = topic_id \<and> rl_comment_id r = comment_id"

definition upsert_reaction :: "time \<Rightarrow> int \<Rightarrow> int \<Rightarrow> int option \<Rightarrow> rstr \<Rightarrow> unit pg_eff" where
  "upsert_reaction now user_id topic_id comment_id reaction = (\<lambda>db.
     if list_ex (log_key user_id topic_id comment_id) (db_reactions_log db)
     then (Inr (), db_reactions_log_update (update_where (log_key user_id topic_id comment_id)
       (\<lambda>r. r\<lparr>rl_set_date := now, rl_reaction := reaction\<rparr>)) db)
     else exec_insert db_reactions_log db_reactions_log_update (\<lambda>db r. user_of db (rl_origin_user r) \<noteq> None \<and>
         topic_of db (rl_topic_id r) \<noteq> None \<and> (case rl_comment_id r of None \<Rightarrow> True | Some i \<Rightarrow> comment_of db i \<noteq> None))
       \<lparr>rl_origin_user = user_id, rl_topic_id = topic_id, rl_comment_id = comment_id, rl_reaction = reaction, rl_set_date = now\<rparr> db)"

definition reaction_event :: "int \<Rightarrow> int \<Rightarrow> int option \<Rightarrow> int \<Rightarrow> pg_event" where
  "reaction_event iUser topic_id comment_id origin = \<lparr>ue_id = 0, ue_userid = iUser, ue_type = REACTION, ue_private = False,
     ue_message_id = Some topic_id, ue_comment_id = comment_id, ue_message = None, ue_unread = True,
     ue_origin_user = Some origin, ue_warning_id = None\<rparr>"

text \<open>The partial unique index over reaction events, with equal nulls.\<close>

definition event_key :: "int \<Rightarrow> int \<Rightarrow> int option \<Rightarrow> pg_event \<Rightarrow> bool" where
  "event_key user_id topic_id comment_id e \<longleftrightarrow> ue_type e = REACTION \<and> ue_message_id e = Some topic_id \<and>
     ue_comment_id e = comment_id \<and> ue_origin_user e = Some user_id"

definition insert_reaction_event :: "int \<Rightarrow> int \<Rightarrow> int \<Rightarrow> int option \<Rightarrow> unit pg_eff" where
  "insert_reaction_event target_user user_id topic_id comment_id = (\<lambda>db.
     if list_ex (event_key user_id topic_id comment_id) (db_events db) then (Inr (), db)
     else insert_event (reaction_event target_user topic_id comment_id user_id) db)"

definition wants_reactions :: "pg \<Rightarrow> int \<Rightarrow> int \<Rightarrow> bool" where
  "wants_reactions db target_user user_id \<longleftrightarrow>
     sp_reaction_notification (from_hstore_text (map_option st_settings (List.find (\<lambda>r. st_id r = target_user) (db_user_settings db)))) \<and>
     \<not> ignores db target_user user_id \<and> target_user \<noteq> 2"

definition reaction_author :: "int \<Rightarrow> int option \<Rightarrow> int pg_eff" where
  "reaction_author topic_id comment_id = (case comment_id of
     Some i \<Rightarrow> bind_eff (fetch_one db_comments (\<lambda>c. pc_id c = i)) (\<lambda>c. ret_eff (pc_userid c))
   | None \<Rightarrow> bind_eff (fetch_one db_topics (\<lambda>t. pt_id t = topic_id)) (\<lambda>t. ret_eff (pt_userid t)))"

definition reaction_count :: "rstr \<Rightarrow> (int \<times> rstr) list \<Rightarrow> nat" where
  "reaction_count reaction m = length (filter (\<lambda>(_, v). v = reaction) m)"

definition set_reaction_tx :: "time \<Rightarrow> int \<Rightarrow> int \<Rightarrow> int option \<Rightarrow> bool \<Rightarrow> rstr \<Rightarrow> (int \<times> nat) pg_eff" where
  "set_reaction_tx now user_id topic_id comment_id bSet reaction = transaction (
     bind_eff (if bSet
       then bind_eff (update_reactions (json_put user_id reaction) topic_id comment_id) (\<lambda>m.
            bind_eff (upsert_reaction now user_id topic_id comment_id reaction) (\<lambda>_. ret_eff m))
       else bind_eff (update_reactions (json_drop user_id) topic_id comment_id) (\<lambda>m.
            bind_eff (exec_delete db_reactions_log_update (log_key user_id topic_id comment_id)) (\<lambda>_. ret_eff m))) (\<lambda>reactions.
     bind_eff (exec_update db_topics db_topics_update (\<lambda>t. pt_id t = topic_id) (pt_lastmod_update (\<lambda>_. now))) (\<lambda>_.
     bind_eff (reaction_author topic_id comment_id) (\<lambda>target_user.
     bind_eff (if bSet
       then (\<lambda>db. if wants_reactions db target_user user_id
         then insert_reaction_event target_user user_id topic_id comment_id db else (Inr (), db))
       else exec_delete db_events_update (\<lambda>e. ue_userid e = target_user \<and> event_key user_id topic_id comment_id e \<and> ue_unread e)) (\<lambda>_.
     bind_eff (recalculate_unread [target_user]) (\<lambda>_.
     ret_eff (target_user, reaction_count reaction reactions)))))))"

subsection \<open>The handlers\<close>

record SetReactionResult =
  sr_topic_id :: int
  sr_comment_id :: "int option"
  sr_count :: nat

definition do_set_reaction ::
    "'q comment_env \<Rightarrow> time \<Rightarrow> int \<Rightarrow> EnReactionTarget \<Rightarrow> rstr \<Rightarrow> ('q comment_world, app_error, SetReactionResult) eff" where
  "do_set_reaction env now user_id enTarget sReactionAction =
     bind_eff (on_cdb (resolve_reaction_target enTarget)) (\<lambda>(topic_id, comment_id).
     bind_eff (of_result (parse_reaction_action sReactionAction)) (\<lambda>(reaction, bSet).
     bind_eff (on_cdb (check_reaction_allowed now user_id topic_id comment_id bSet reaction)) (\<lambda>_.
     bind_eff (on_cdb (set_reaction_tx now user_id topic_id comment_id bSet reaction)) (\<lambda>(target_user, count).
     (\<lambda>w. (Inr \<lparr>sr_topic_id = topic_id, sr_comment_id = comment_id, sr_count = count\<rparr>,
        w\<lparr>cw_hub := vNotifyEvents (ce_ord env) [target_user] (cw_hub w)\<rparr>))))))"

definition reactions_post ::
    "'q comment_env \<Rightarrow> time \<Rightarrow> StUserSummary option \<Rightarrow> app_error + params \<Rightarrow> ('q comment_world, app_error, rstr) eff" where
  "reactions_post env now user parameters =
     bind_eff (of_result parameters) (\<lambda>vecParameters.
     bind_eff (of_result (stBindReactionPostParameters vecParameters)) (\<lambda>(enTarget, sReactionAction).
     case user of None \<Rightarrow> fail_eff Forbidden
     | Some user \<Rightarrow>
     bind_eff (do_set_reaction env now (us_id user) enTarget sReactionAction) (\<lambda>result.
     on_cdb (reaction_target_link (ce_lower env) (sr_topic_id result) (sr_comment_id result)))))"

definition reactions_post_ajax ::
    "'q comment_env \<Rightarrow> time \<Rightarrow> StUserSummary option \<Rightarrow> app_error + params \<Rightarrow> ('q comment_world, app_error, nat) eff" where
  "reactions_post_ajax env now user parameters =
     bind_eff (of_result parameters) (\<lambda>vecParameters.
     bind_eff (of_result (stBindReactionPostParameters vecParameters)) (\<lambda>(enTarget, sReactionAction).
     case user of None \<Rightarrow> fail_eff Forbidden
     | Some user \<Rightarrow>
     bind_eff (do_set_reaction env now (us_id user) enTarget sReactionAction) (\<lambda>result. ret_eff (sr_count result))))"

subsection \<open>What a reaction changes\<close>

definition reaction_of :: "pg \<Rightarrow> int \<Rightarrow> int option \<Rightarrow> int \<Rightarrow> rstr option" where
  "reaction_of db topic_id comment_id v = Option.bind (reactions_at db topic_id comment_id) (\<lambda>m. map_of m v)"

text \<open>Topics and comments, up to the reactions of the target and the modification time.\<close>

definition bare_topic :: "pg_topic \<Rightarrow> pg_topic" where
  "bare_topic t = t\<lparr>pt_reactions := [], pt_lastmod := 0\<rparr>"

definition bare_comment :: "pg_comment \<Rightarrow> pg_comment" where
  "bare_comment c = c\<lparr>pc_reactions := []\<rparr>"

lemma map_of_put: "map_of (json_put k v m) j = (if j = k then Some v else map_of m j)"
  unfolding json_put_def by (induction m) auto

lemma map_of_drop: "map_of (json_drop k m) j = (if j = k then None else map_of m j)"
  unfolding json_drop_def by (induction m) auto

lemma json_keys: "distinct (map fst m) \<Longrightarrow> distinct (map fst (json_put k v m))" "distinct (map fst m) \<Longrightarrow> distinct (map fst (json_drop k m))"
  unfolding json_put_def json_drop_def by (induction m) auto

lemma count_users: "distinct (map fst m) \<Longrightarrow> reaction_count r m = card {v. map_of m v = Some r}"
proof (induction m)
  case (Cons p m)
  obtain k x where p: "p = (k, x)" by (cases p)
  with Cons.prems have k: "map_of m k = None" by (simp add: map_of_eq_None_iff)
  have "{v. map_of (p # m) v = Some r} = (if x = r then insert k {v. map_of m v = Some r} else {v. map_of m v = Some r})"
    using k by (auto simp: p)
  moreover have "finite {v. map_of m v = Some r}"
    by (rule finite_subset [OF _ finite_dom_map_of [of m]]) auto
  moreover have "(k, r) \<notin> set m" using Cons.prems by (auto simp: p image_iff)
  ultimately show ?case using Cons k by (auto simp: p reaction_count_def card_insert_if)
qed (simp add: reaction_count_def)

lemma reactions_updated:
  assumes "update_reactions f topic comment db = (Inr m, db')"
  shows "reactions_at db' topic comment = Some m" "reactions_at db topic comment \<noteq> None"
    "m = f (the (reactions_at db topic comment))"
    "\<exists>cs ts. db' = db\<lparr>db_comments := cs, db_topics := ts\<rparr> \<and> map bare_comment cs = map bare_comment (db_comments db) \<and>
       map bare_topic ts = map bare_topic (db_topics db) \<and>
       (\<forall>j. comment \<noteq> Some j \<longrightarrow> List.find (\<lambda>c. pc_id c = j) cs = comment_of db j) \<and>
       (\<forall>j. (comment \<noteq> None \<or> j \<noteq> topic) \<longrightarrow> List.find (\<lambda>t. pt_id t = j) ts = topic_of db j)"
proof -
  show "reactions_at db' topic comment = Some m" "reactions_at db topic comment \<noteq> None" "m = f (the (reactions_at db topic comment))"
    using assms
    by (auto simp: update_reactions_def bind_eff_def exec_update_def reactions_at_def of_defs find_update_key ok_or_def
        split: option.splits)
  show "\<exists>cs ts. db' = db\<lparr>db_comments := cs, db_topics := ts\<rparr> \<and> map bare_comment cs = map bare_comment (db_comments db) \<and>
       map bare_topic ts = map bare_topic (db_topics db) \<and>
       (\<forall>j. comment \<noteq> Some j \<longrightarrow> List.find (\<lambda>c. pc_id c = j) cs = comment_of db j) \<and>
       (\<forall>j. (comment \<noteq> None \<or> j \<noteq> topic) \<longrightarrow> List.find (\<lambda>t. pt_id t = j) ts = topic_of db j)"
  proof (cases comment)
    case None
    let ?ts = "update_where (\<lambda>t. pt_id t = topic) (pt_reactions_update f) (db_topics db)"
    have "db' = db\<lparr>db_comments := db_comments db, db_topics := ?ts\<rparr>"
      using assms None by (auto simp: update_reactions_def bind_eff_def exec_update_def)
    moreover have "List.find (\<lambda>t. pt_id t = j) ?ts = topic_of db j" if "j \<noteq> topic" for j
      using that by (simp add: find_update_key topic_of_def option.map_ident)
    ultimately show ?thesis
      using None by (intro exI [of _ "db_comments db"] exI [of _ ?ts]) (auto simp: update_where_def bare_topic_def comment_of_def)
  next
    case (Some i)
    let ?cs = "update_where (\<lambda>c. pc_id c = i) (pc_reactions_update f) (db_comments db)"
    have "db' = db\<lparr>db_comments := ?cs, db_topics := db_topics db\<rparr>"
      using assms Some by (auto simp: update_reactions_def bind_eff_def exec_update_def)
    moreover have "List.find (\<lambda>c. pc_id c = j) ?cs = comment_of db j" if "j \<noteq> i" for j
      using that by (simp add: find_update_key comment_of_def option.map_ident)
    ultimately show ?thesis
      using Some by (intro exI [of _ ?cs] exI [of _ "db_topics db"]) (auto simp: update_where_def bare_comment_def topic_of_def)
  qed
qed

definition log_keyed :: "pg \<Rightarrow> bool" where
  "log_keyed db \<longleftrightarrow> distinct (map (\<lambda>r. (rl_topic_id r, rl_comment_id r, rl_origin_user r)) (db_reactions_log db))"

lemma log_one:
  assumes "distinct (map (\<lambda>r. (rl_topic_id r, rl_comment_id r, rl_origin_user r)) rs)"
  shows "length (filter (log_key usr topic comment) rs) \<le> 1"
  using assms by (induction rs) (auto simp: log_key_def image_iff filter_empty_conv)

lemma upsert_logged:
  assumes "upsert_reaction now usr topic comment reaction db = (Inr (), db')" and "log_keyed db"
  shows "\<exists>L. db' = db\<lparr>db_reactions_log := L\<rparr> \<and> filter (log_key usr topic comment) L =
      [\<lparr>rl_origin_user = usr, rl_topic_id = topic, rl_comment_id = comment, rl_reaction = reaction, rl_set_date = now\<rparr>] \<and>
    filter (\<lambda>r. \<not> log_key usr topic comment r) L = filter (\<lambda>r. \<not> log_key usr topic comment r) (db_reactions_log db)"
proof (cases "list_ex (log_key usr topic comment) (db_reactions_log db)")
  case True
  let ?f = "\<lambda>r. r\<lparr>rl_set_date := now, rl_reaction := reaction\<rparr>"
  let ?L = "update_where (log_key usr topic comment) ?f (db_reactions_log db)"
  have upd: "filter (log_key usr topic comment) (update_where (log_key usr topic comment) ?f rs) =
      map ?f (filter (log_key usr topic comment) rs)"
    "filter (\<lambda>r. \<not> log_key usr topic comment r) (update_where (log_key usr topic comment) ?f rs) =
      filter (\<lambda>r. \<not> log_key usr topic comment r) rs" for rs
    by (induction rs) (auto simp: update_where_def log_key_def)
  obtain r where r: "filter (log_key usr topic comment) (db_reactions_log db) = [r]"
    using True log_one [OF assms(2) [unfolded log_keyed_def], of usr topic comment]
    by (cases "filter (log_key usr topic comment) (db_reactions_log db)") (auto simp: filter_empty_conv list_ex_iff)
  then have "r \<in> set (filter (log_key usr topic comment) (db_reactions_log db))" by simp
  then have "log_key usr topic comment r" by simp
  then have "?f r = \<lparr>rl_origin_user = usr, rl_topic_id = topic, rl_comment_id = comment, rl_reaction = reaction, rl_set_date = now\<rparr>"
    by (simp add: log_key_def)
  then show ?thesis
    using assms(1) True r upd [of "db_reactions_log db"] by (intro exI [of _ ?L]) (auto simp: upsert_reaction_def)
next
  case False
  then have "filter (log_key usr topic comment) (db_reactions_log db) = []" by (auto simp: filter_empty_conv list_ex_iff)
  with assms(1) False show ?thesis
    by (intro exI [of _ "db_reactions_log db' "]) (auto simp: upsert_reaction_def exec_insert_def log_key_def split: if_splits)
qed

text \<open>
  Who is told: the author of the target, if he wants to be and there is no notification for this user and target yet;
  removing takes an unread one back.  Only his row of the users changes, and only in the counter.
\<close>

definition reaction_told :: "int \<Rightarrow> int \<Rightarrow> int option \<Rightarrow> bool \<Rightarrow> int \<Rightarrow> pg \<Rightarrow> pg \<Rightarrow> bool" where
  "reaction_told usr topic comment b author db db' \<longleftrightarrow>
     (if b \<and> wants_reactions db author usr \<and> \<not> list_ex (event_key usr topic comment) (db_events db)
      then (\<exists>e. db_events db' = db_events db @ [e] \<and> ue_userid e = author \<and> ue_unread e \<and> ue_type e = REACTION \<and>
        ue_message_id e = Some topic \<and> ue_comment_id e = comment \<and> ue_origin_user e = Some usr)
      else if b then db_events db' = db_events db
      else db_events db' = filter (\<lambda>e. \<not> (ue_userid e = author \<and> event_key usr topic comment e \<and> ue_unread e)) (db_events db)) \<and>
     db_users db' = map (\<lambda>r. if pu_id r = author then r\<lparr>pu_unread_events := int (unread_count db' author)\<rparr> else r) (db_users db)"

lemma recounted_users:
  "update_where (\<lambda>r. pu_id r = a) (\<lambda>r. r\<lparr>pu_unread_events := int (c (pu_id r))\<rparr>) us =
     map (\<lambda>r. if pu_id r = a then r\<lparr>pu_unread_events := int (c a)\<rparr> else r) us"
  "update_where (\<lambda>r. pu_id r = a) (\<lambda>r. r\<lparr>pu_unread_events := int (c (pu_id r))\<rparr>) (update_where (\<lambda>r. pu_id r = a) (pu_unread_events_update f) us) =
     map (\<lambda>r. if pu_id r = a then r\<lparr>pu_unread_events := int (c a)\<rparr> else r) us"
  by (auto simp: update_where_def)

lemma reaction_step_told:
  assumes "(if b then (\<lambda>db. if wants_reactions db author usr then insert_reaction_event author usr topic comment db else (Inr (), db))
      else exec_delete db_events_update (\<lambda>e. ue_userid e = author \<and> event_key usr topic comment e \<and> ue_unread e)) db = (Inr (), db1)"
    and "recalculate_unread [author] db1 = (Inr (), db')"
  shows "reaction_told usr topic comment b author db db'"
    "\<exists>us es n. db' = db\<lparr>db_users := us, db_events := es, db_event_seq := n\<rparr>"
proof -
  have db': "db' = db_users_update (update_where (\<lambda>r. pu_id r = author) (\<lambda>r. r\<lparr>pu_unread_events := int (unread_count db1 (pu_id r))\<rparr>)) db1"
    using assms(2) by (simp add: recalculate_unread_def)
  then have ev: "db_events db' = db_events db1" by simp
  then have count: "unread_count db' author = unread_count db1 author" by (simp add: unread_count_def)
  show "reaction_told usr topic comment b author db db'"
  proof (cases "b \<and> wants_reactions db author usr \<and> \<not> list_ex (event_key usr topic comment) (db_events db)")
    case True
    with assms(1) have "insert_event (reaction_event author topic comment usr) db = (Inr (), db1)"
      by (simp add: insert_reaction_event_def)
    from insert_event_Inr [OF this] have "db_events db1 = db_events db @ [(reaction_event author topic comment usr)\<lparr>ue_id := db_event_seq db\<rparr>]"
      "db_users db1 = update_where (\<lambda>r. pu_id r = author) (pu_unread_events_update (\<lambda>n. n + 1)) (db_users db)"
      by (simp_all add: reaction_event_def)
    with True show ?thesis unfolding reaction_told_def ev count
      by (simp add: db' recounted_users(2)) (simp add: reaction_event_def)
  next
    case False
    then have "db_events db1 = (if b then db_events db
        else filter (\<lambda>e. \<not> (ue_userid e = author \<and> event_key usr topic comment e \<and> ue_unread e)) (db_events db))"
      "db_users db1 = db_users db"
      using assms(1) by (auto simp: insert_reaction_event_def exec_delete_def split: if_splits)
    with False show ?thesis unfolding reaction_told_def ev count by (simp add: db' recounted_users(1))
  qed
  show "\<exists>us es n. db' = db\<lparr>db_users := us, db_events := es, db_event_seq := n\<rparr>"
  proof -
    have "\<exists>us es n. db1 = db\<lparr>db_users := us, db_events := es, db_event_seq := n\<rparr>"
      using assms(1) by (cases db) (auto simp: insert_reaction_event_def exec_delete_def dest!: insert_event_Inr split: if_splits)
    then obtain us es n where db1: "db1 = db\<lparr>db_users := us, db_events := es, db_event_seq := n\<rparr>" by blast
    have "db' = db\<lparr>db_users := db_users db', db_events := es, db_event_seq := n\<rparr>"
      by (rule pg.equality) (simp_all add: db' db1)
    then show ?thesis by blast
  qed
qed

text \<open>The whole transaction.\<close>

definition reaction_effect_on :: "time \<Rightarrow> int \<Rightarrow> int \<Rightarrow> int option \<Rightarrow> bool \<Rightarrow> rstr \<Rightarrow> int \<Rightarrow> pg \<Rightarrow> pg \<Rightarrow> bool" where
  "reaction_effect_on now usr topic comment b reaction author db db' \<longleftrightarrow>
     (\<forall>v. reaction_of db' topic comment v = (if v = usr then (if b then Some reaction else None) else reaction_of db topic comment v)) \<and>
     filter (log_key usr topic comment) (db_reactions_log db') = (if b then
       [\<lparr>rl_origin_user = usr, rl_topic_id = topic, rl_comment_id = comment, rl_reaction = reaction, rl_set_date = now\<rparr>] else []) \<and>
     filter (\<lambda>r. \<not> log_key usr topic comment r) (db_reactions_log db') = filter (\<lambda>r. \<not> log_key usr topic comment r) (db_reactions_log db) \<and>
     map bare_topic (db_topics db') = map bare_topic (db_topics db) \<and>
     map bare_comment (db_comments db') = map bare_comment (db_comments db) \<and>
     (\<forall>j. comment \<noteq> Some j \<longrightarrow> comment_of db' j = comment_of db j) \<and>
     (\<forall>j. j \<noteq> topic \<longrightarrow> topic_of db' j = topic_of db j) \<and>
     (case comment of Some i \<Rightarrow> map_option pc_userid (comment_of db i) | None \<Rightarrow> map_option pt_userid (topic_of db topic)) = Some author"

lemma reaction_author_iff: "reaction_author topic comment db = (Inr a, db') \<longleftrightarrow> db' = db \<and>
    (case comment of Some i \<Rightarrow> map_option pc_userid (comment_of db i) | None \<Rightarrow> map_option pt_userid (topic_of db topic)) = Some a"
  by (auto simp: reaction_author_def bind_eff_Inr_iff fetch_one_def of_defs ok_or_def split: option.splits)

definition bump_topic :: "time \<Rightarrow> int \<Rightarrow> pg \<Rightarrow> pg" where
  "bump_topic now topic db = db_topics_update (update_where (\<lambda>t. pt_id t = topic) (pt_lastmod_update (\<lambda>_. now))) db"

lemma set_reaction_steps:
  assumes "set_reaction_tx now usr topic comment b reaction db = (Inr (author, n), db')"
  shows "\<exists>m db1 db2 db4. update_reactions (if b then json_put usr reaction else json_drop usr) topic comment db = (Inr m, db1) \<and>
    (if b then upsert_reaction now usr topic comment reaction
      else exec_delete db_reactions_log_update (log_key usr topic comment)) db1 = (Inr (), db2) \<and>
    reaction_author topic comment (bump_topic now topic db2) = (Inr author, bump_topic now topic db2) \<and>
    (if b then (\<lambda>db. if wants_reactions db author usr then insert_reaction_event author usr topic comment db else (Inr (), db))
      else exec_delete db_events_update (\<lambda>e. ue_userid e = author \<and> event_key usr topic comment e \<and> ue_unread e))
        (bump_topic now topic db2) = (Inr (), db4) \<and>
    recalculate_unread [author] db4 = (Inr (), db') \<and> n = reaction_count reaction m"
proof -
  let ?A = "if b
       then bind_eff (update_reactions (json_put usr reaction) topic comment) (\<lambda>m.
            bind_eff (upsert_reaction now usr topic comment reaction) (\<lambda>_. ret_eff m))
       else bind_eff (update_reactions (json_drop usr) topic comment) (\<lambda>m.
            bind_eff (exec_delete db_reactions_log_update (log_key usr topic comment)) (\<lambda>_. ret_eff m))"
  have A: "?A db = (Inr m, w) \<Longrightarrow> \<exists>db1. update_reactions (if b then json_put usr reaction else json_drop usr) topic comment db = (Inr m, db1) \<and>
      (if b then upsert_reaction now usr topic comment reaction
      else exec_delete db_reactions_log_update (log_key usr topic comment)) db1 = (Inr (), w)" for m w
    by (cases b) (auto simp: bind_eff_Inr_iff)
  let ?ev = "\<lambda>target. if b then (\<lambda>db. if wants_reactions db target usr then insert_reaction_event target usr topic comment db else (Inr (), db))
      else exec_delete db_events_update (\<lambda>e. ue_userid e = target \<and> event_key usr topic comment e \<and> ue_unread e)"
  have B: "bind_eff (exec_update db_topics db_topics_update (\<lambda>t. pt_id t = topic) (pt_lastmod_update (\<lambda>_. now))) (\<lambda>_.
     bind_eff (reaction_author topic comment) (\<lambda>target. bind_eff (?ev target) (\<lambda>_.
     bind_eff (recalculate_unread [target]) (\<lambda>_. ret_eff (target, reaction_count reaction m))))) w = (Inr (author, n), db') \<Longrightarrow>
     \<exists>db4. reaction_author topic comment (bump_topic now topic w) = (Inr author, bump_topic now topic w) \<and>
       ?ev author (bump_topic now topic w) = (Inr (), db4) \<and> recalculate_unread [author] db4 = (Inr (), db') \<and> n = reaction_count reaction m"
    for m w
    unfolding bind_eff_Inr_iff exec_update_def bump_topic_def 
    apply (elim exE conjE)
    apply (frule reaction_author_iff [THEN iffD1])
    apply (simp only: prod.inject sum.inject ret_eff_def old.unit.exhaust)
    apply clarify
    apply simp
    done
  from assms obtain m w where "?A db = (Inr m, w)" and "bind_eff (exec_update db_topics db_topics_update (\<lambda>t. pt_id t = topic)
      (pt_lastmod_update (\<lambda>_. now))) (\<lambda>_. bind_eff (reaction_author topic comment) (\<lambda>target. bind_eff (?ev target) (\<lambda>_.
     bind_eff (recalculate_unread [target]) (\<lambda>_. ret_eff (target, reaction_count reaction m))))) w = (Inr (author, n), db')"
    unfolding set_reaction_tx_def transaction_Inr bind_eff_Inr_iff [of ?A] by blast
  with A [of m w] B [of m w] show ?thesis by blast
qed

lemma find_bare: "map f xs = map f ys \<Longrightarrow> (\<And>r. p (f r) = p r) \<Longrightarrow> map_option f (List.find p xs) = map_option f (List.find p ys)"
proof (induction xs arbitrary: ys)
  case (Cons x xs)
  then obtain y zs where ys: "ys = y # zs" "f x = f y" "map f xs = map f zs" by auto
  with Cons.prems(2) have "p x = p y" by metis
  with Cons ys show ?case by auto
qed simp

lemma bare_authors:
  "map bare_comment (db_comments db') = map bare_comment (db_comments db) \<Longrightarrow>
    map_option pc_userid (comment_of db' i) = map_option pc_userid (comment_of db i)"
  "map bare_topic (db_topics db') = map bare_topic (db_topics db) \<Longrightarrow>
    map_option pt_userid (topic_of db' j) = map_option pt_userid (topic_of db j)"
proof -
  assume "map bare_comment (db_comments db') = map bare_comment (db_comments db)"
  then have "map_option bare_comment (comment_of db' i) = map_option bare_comment (comment_of db i)"
    unfolding comment_of_def by (rule find_bare) (simp add: bare_comment_def)
  then have "map_option (pc_userid \<circ> bare_comment) (comment_of db' i) = map_option (pc_userid \<circ> bare_comment) (comment_of db i)"
    unfolding option.map_comp [symmetric] by (rule arg_cong)
  then show "map_option pc_userid (comment_of db' i) = map_option pc_userid (comment_of db i)"
    by (simp add: comp_def bare_comment_def)
next
  assume "map bare_topic (db_topics db') = map bare_topic (db_topics db)"
  then have "map_option bare_topic (topic_of db' j) = map_option bare_topic (topic_of db j)"
    unfolding topic_of_def by (rule find_bare) (simp add: bare_topic_def)
  then have "map_option (pt_userid \<circ> bare_topic) (topic_of db' j) = map_option (pt_userid \<circ> bare_topic) (topic_of db j)"
    unfolding option.map_comp [symmetric] by (rule arg_cong)
  then show "map_option pt_userid (topic_of db' j) = map_option pt_userid (topic_of db j)"
    by (simp add: comp_def bare_topic_def)
qed

lemma set_reaction_Inr:
  assumes "set_reaction_tx now usr topic comment b reaction db = (Inr (author, n), db')" and "log_keyed db"
  obtains m db3 where "reactions_at db topic comment = Some m" "reaction_effect_on now usr topic comment b reaction author db db3"
    "n = reaction_count reaction ((if b then json_put usr reaction else json_drop usr) m)"
    "reactions_at db3 topic comment = Some ((if b then json_put usr reaction else json_drop usr) m)"
    "reaction_told usr topic comment b author db3 db'" "\<exists>us es k. db' = db3\<lparr>db_users := us, db_events := es, db_event_seq := k\<rparr>"
    "db_events db3 = db_events db" "wants_reactions db3 author usr = wants_reactions db author usr" "db_users db3 = db_users db"
    "\<exists>cs ts L. db3 = db\<lparr>db_comments := cs, db_topics := ts, db_reactions_log := L\<rparr>"
proof -
  let ?f = "if b then json_put usr reaction else json_drop usr"
  from set_reaction_steps [OF assms(1)] obtain m' db1 db2 db4 where
    upd: "update_reactions ?f topic comment db = (Inr m', db1)"
    and log: "(if b then upsert_reaction now usr topic comment reaction
      else exec_delete db_reactions_log_update (log_key usr topic comment)) db1 = (Inr (), db2)"
    and who: "reaction_author topic comment (bump_topic now topic db2) = (Inr author, bump_topic now topic db2)"
    and ev: "(if b then (\<lambda>db. if wants_reactions db author usr then insert_reaction_event author usr topic comment db else (Inr (), db))
      else exec_delete db_events_update (\<lambda>e. ue_userid e = author \<and> event_key usr topic comment e \<and> ue_unread e))
        (bump_topic now topic db2) = (Inr (), db4)"
    and rec: "recalculate_unread [author] db4 = (Inr (), db')" and n: "n = reaction_count reaction m'" by blast
  let ?db3 = "bump_topic now topic db2"
  from reactions_updated [OF upd] obtain m cs ts where m: "reactions_at db topic comment = Some m" "m' = ?f m"
    and at1: "reactions_at db1 topic comment = Some m'"
    and db1: "db1 = db\<lparr>db_comments := cs, db_topics := ts\<rparr>" and bare: "map bare_comment cs = map bare_comment (db_comments db)"
      "map bare_topic ts = map bare_topic (db_topics db)"
    and cs: "\<forall>j. comment \<noteq> Some j \<longrightarrow> List.find (\<lambda>c. pc_id c = j) cs = comment_of db j"
    and ts: "\<forall>j. (comment \<noteq> None \<or> j \<noteq> topic) \<longrightarrow> List.find (\<lambda>t. pt_id t = j) ts = topic_of db j"
    by auto
  have keyed1: "log_keyed db1" using assms(2) by (simp add: log_keyed_def db1)
  have "\<exists>L. db2 = db1\<lparr>db_reactions_log := L\<rparr> \<and> filter (log_key usr topic comment) L = (if b then
      [\<lparr>rl_origin_user = usr, rl_topic_id = topic, rl_comment_id = comment, rl_reaction = reaction, rl_set_date = now\<rparr>] else []) \<and>
    filter (\<lambda>r. \<not> log_key usr topic comment r) L = filter (\<lambda>r. \<not> log_key usr topic comment r) (db_reactions_log db)"
  proof (cases b)
    case True
    with log have "upsert_reaction now usr topic comment reaction db1 = (Inr (), db2)" by simp
    from upsert_logged [OF this keyed1] True show ?thesis by (auto simp: db1)
  next
    case False
    with log have "db2 = db1\<lparr>db_reactions_log := filter (\<lambda>r. \<not> log_key usr topic comment r) (db_reactions_log db)\<rparr>"
      by (auto simp: exec_delete_def db1)
    with False show ?thesis by (intro exI [of _ "filter (\<lambda>r. \<not> log_key usr topic comment r) (db_reactions_log db)"]) auto
  qed
  then obtain L where db2: "db2 = db1\<lparr>db_reactions_log := L\<rparr>" and L: "filter (log_key usr topic comment) L = (if b then
      [\<lparr>rl_origin_user = usr, rl_topic_id = topic, rl_comment_id = comment, rl_reaction = reaction, rl_set_date = now\<rparr>] else [])"
    "filter (\<lambda>r. \<not> log_key usr topic comment r) L = filter (\<lambda>r. \<not> log_key usr topic comment r) (db_reactions_log db)" by blast
  have at3: "reactions_at ?db3 topic comment = Some m'"
    using at1 by (auto simp: bump_topic_def db2 reactions_at_def of_defs find_update_key split: option.splits)
  have topics3: "map bare_topic (db_topics ?db3) = map bare_topic (db_topics db)"
  proof -
    have "map bare_topic (update_where p (pt_lastmod_update g) rs) = map bare_topic rs" for p g rs
      by (simp add: update_where_def bare_topic_def)
    then show ?thesis by (simp add: bump_topic_def db2 db1 bare)
  qed
  have other3: "topic_of ?db3 j = topic_of db j" if "j \<noteq> topic" for j
    using ts that by (simp add: bump_topic_def db2 db1 topic_of_def find_update_key option.map_ident)
  have comments3: "comment_of ?db3 j = comment_of db j" if "comment \<noteq> Some j" for j
    using cs that by (simp add: bump_topic_def db2 db1 comment_of_def)
  have bare3: "map bare_comment (db_comments ?db3) = map bare_comment (db_comments db)"
    by (simp add: bump_topic_def db2 db1 bare)
  have author: "(case comment of Some i \<Rightarrow> map_option pc_userid (comment_of db i) | None \<Rightarrow> map_option pt_userid (topic_of db topic)) = Some author"
    using who unfolding reaction_author_iff bare_authors(1) [OF bare3] bare_authors(2) [OF topics3] by blast
  have vals: "reaction_of ?db3 topic comment v = (if v = usr then (if b then Some reaction else None) else reaction_of db topic comment v)" for v
    by (simp add: reaction_of_def at3 m map_of_put map_of_drop)
  have logs: "db_reactions_log ?db3 = L" by (simp add: bump_topic_def db2)
  have effect: "reaction_effect_on now usr topic comment b reaction author db ?db3"
    unfolding reaction_effect_on_def logs using vals L topics3 bare3 comments3 other3 author by blast
  have same: "db_events ?db3 = db_events db" "wants_reactions ?db3 author usr = wants_reactions db author usr"
    "db_users ?db3 = db_users db"
    by (simp_all add: bump_topic_def db2 db1 wants_reactions_def ignores_def)
  have frame: "\<exists>cs ts L. ?db3 = db\<lparr>db_comments := cs, db_topics := ts, db_reactions_log := L\<rparr>"
    by (rule exI [of _ cs], rule exI [of _ "db_topics ?db3"], rule exI [of _ L]) (simp add: bump_topic_def db2 db1)
  show thesis
    by (rule that [of m ?db3]) (use m n at3 reaction_step_told [OF ev rec] effect same frame in \<open>simp_all only: m(2)\<close>)
qed

lemma reaction_effect_Inr:
  assumes "set_reaction_tx now usr topic comment b reaction db = (Inr (author, n), db')" and "log_keyed db"
    and "list_all (\<lambda>m. distinct (map fst m)) (map pt_reactions (db_topics db) @ map pc_reactions (db_comments db))"
  shows "reaction_effect_on now usr topic comment b reaction author db db' \<and>
    n = card {v. reaction_of db' topic comment v = Some reaction} \<and> reaction_told usr topic comment b author db db' \<and>
    (\<exists>cs ts L us es k. db' = db\<lparr>db_comments := cs, db_topics := ts, db_reactions_log := L, db_users := us, db_events := es, db_event_seq := k\<rparr>)"
proof -
  from assms(1,2) obtain m db3 where m: "reactions_at db topic comment = Some m"
    and eff: "reaction_effect_on now usr topic comment b reaction author db db3"
    and n: "n = reaction_count reaction ((if b then json_put usr reaction else json_drop usr) m)"
    and at3: "reactions_at db3 topic comment = Some ((if b then json_put usr reaction else json_drop usr) m)"
    and told: "reaction_told usr topic comment b author db3 db'"
    and db': "\<exists>us es k. db' = db3\<lparr>db_users := us, db_events := es, db_event_seq := k\<rparr>"
    and same: "db_events db3 = db_events db" "wants_reactions db3 author usr = wants_reactions db author usr" "db_users db3 = db_users db"
    and db3: "\<exists>cs ts L. db3 = db\<lparr>db_comments := cs, db_topics := ts, db_reactions_log := L\<rparr>"
    by (rule set_reaction_Inr)
  have "distinct (map fst m)"
    using m assms(3) by (auto simp: reactions_at_def of_defs find_Some_iff list_all_iff split: option.splits)
  then have "distinct (map fst ((if b then json_put usr reaction else json_drop usr) m))" by (simp add: json_keys)
  from count_users [OF this, of reaction] at3 have "n = card {v. reaction_of db3 topic comment v = Some reaction}"
    by (simp add: n reaction_of_def)
  moreover have "reaction_of db' topic comment = reaction_of db3 topic comment"
    using db' by (auto simp: reaction_of_def reactions_at_def of_defs fun_eq_iff split: option.splits)
  moreover have "reaction_effect_on now usr topic comment b reaction author db db'"
    using eff db' unfolding reaction_effect_on_def by (auto simp: reaction_of_def reactions_at_def of_defs split: option.splits)
  moreover have "reaction_told usr topic comment b author db db'"
    using told unfolding reaction_told_def same .
  moreover have "\<exists>cs ts L us es k. db' = db\<lparr>db_comments := cs, db_topics := ts, db_reactions_log := L, db_users := us, db_events := es, db_event_seq := k\<rparr>"
  proof -
    from db' obtain us es k where one: "db' = db3\<lparr>db_users := us, db_events := es, db_event_seq := k\<rparr>" by blast
    from db3 obtain cs ts L where two: "db3 = db\<lparr>db_comments := cs, db_topics := ts, db_reactions_log := L\<rparr>" by blast
    show ?thesis
      by (rule exI [of _ cs], rule exI [of _ ts], rule exI [of _ L], rule exI [of _ us], rule exI [of _ es], rule exI [of _ k])
        (simp add: one two)
  qed
  ultimately show ?thesis by simp
qed

text \<open>C5: A reaction is one transaction with this effect: an error leaves the whole store as it was.  On success the JSON
  column of the target maps the user to the reaction - or to nothing after a removal - and every other user to what it mapped
  them to; the log has exactly one row for this user and target, dated now, or none; no other
  topic, comment or log row changes, apart from the modification time of the topic, and no table but these, the events and
  the users.  The count returned is the number of users with this reaction.  Setting one appends exactly one unread event, to the
  author of the target, about this target and user - if he wants to be told, does not ignore the user, and there is no
  event for this user and target yet - and no event otherwise; a removal drops exactly the author's unread events about
  it; and of the users only the author's counter changes, to the number of his unread events.\<close>

theorem reaction_effect:
  assumes "set_reaction_tx now usr topic comment b reaction db = (r, db')" and "log_keyed db"
    and "list_all (\<lambda>m. distinct (map fst m)) (map pt_reactions (db_topics db) @ map pc_reactions (db_comments db))"
  shows "case r of Inl e \<Rightarrow> db' = db
    | Inr (author, n) \<Rightarrow> reaction_effect_on now usr topic comment b reaction author db db' \<and>
        n = card {v. reaction_of db' topic comment v = Some reaction} \<and> reaction_told usr topic comment b author db db' \<and>
        (\<exists>cs ts L us es k. db' = db\<lparr>db_comments := cs, db_topics := ts, db_reactions_log := L, db_users := us, db_events := es, db_event_seq := k\<rparr>)"
proof (cases r)
  case (Inl e)
  with assms(1) show ?thesis by (simp add: set_reaction_tx_def transaction_err)
next
  case (Inr an)
  obtain author n where an: "an = (author, n)" by fastforce
  show ?thesis using reaction_effect_Inr [OF assms(1) [unfolded Inr an] assms(2,3)] by (simp only: Inr an sum.case prod.case)
qed

lemma ex_reaction_run:
  "\<exists>db'. set_reaction_tx 2000 8 5 (Some 1) True r ex_talk_db = (Inr (7, 1), db') \<and> db_reactions_log db' \<noteq> db_reactions_log ex_talk_db"
proof -
  have "wants_reactions db 7 8" if "db_user_settings db = []" "db_ignore_list db = []" for db
    using that by (simp add: wants_reactions_def ignores_def from_hstore_text_def setting_def settings_default_def)
  then show ?thesis
    by (simp add: set_reaction_tx_def transaction_def bind_eff_def update_reactions_def exec_update_def reactions_at_def upsert_reaction_def
      exec_insert_def reaction_author_def fetch_one_def insert_reaction_event_def insert_event_def exec_update_checked_def
      recalculate_unread_def of_defs update_where_def json_put_def reaction_count_def reaction_event_def in_i32_def
      ex_talk_db_def ex_db_def ex_user_def ex_topic_def ex_comment_def)
qed

theorem reaction_effect_witness:
  "\<exists>db'. reaction_effect_on 2000 8 5 (Some 1) True (u ''x'') 7 ex_talk_db db' \<and> reaction_of db' 5 (Some 1) 8 = Some (u ''x'') \<and>
     reaction_told 8 5 (Some 1) True 7 ex_talk_db db'"
proof -
  obtain db' where run: "set_reaction_tx 2000 8 5 (Some 1) True (u ''x'') ex_talk_db = (Inr (7, 1), db')"
    using ex_reaction_run by blast
  have "log_keyed ex_talk_db"
    "list_all (\<lambda>m. distinct (map fst m)) (map pt_reactions (db_topics ex_talk_db) @ map pc_reactions (db_comments ex_talk_db))"
    by (simp_all add: log_keyed_def ex_talk_db_def ex_db_def ex_topic_def ex_comment_def)
  from reaction_effect [OF run this] have eff: "reaction_effect_on 2000 8 5 (Some 1) True (u ''x'') 7 ex_talk_db db'"
    and told: "reaction_told 8 5 (Some 1) True 7 ex_talk_db db'" unfolding sum.case prod.case by blast+
  from eff have "reaction_of db' 5 (Some 1) 8 = Some (u ''x'')" unfolding reaction_effect_on_def by metis
  with eff told show ?thesis by blast
qed

subsection \<open>Who may react\<close>

definition may_react :: "time \<Rightarrow> int \<Rightarrow> int \<Rightarrow> int option \<Rightarrow> bool \<Rightarrow> rstr \<Rightarrow> pg \<Rightarrow> bool" where
  "may_react now usr topic comment b reaction db \<longleftrightarrow>
     (\<exists>t g s. topic_join db topic = Some (t, g, s) \<and> \<not> pt_deleted t \<and> \<not> topic_expired now s t \<and>
       (case comment of None \<Rightarrow> pt_userid t \<noteq> usr
        | Some i \<Rightarrow> pt_postscore t \<noteq> Some 10002 \<and>
            (\<exists>c. comment_of db i = Some c \<and> pc_topic c = topic \<and> pc_userid c \<noteq> usr \<and> \<not> pc_deleted c))) \<and>
     (\<forall>r. user_of db usr = Some r \<longrightarrow> \<not> user_frozen now r) \<and>
     (b \<longrightarrow> recent_reactions now db usr < 5) \<and> reaction \<in> fst ` set REACTIONS"

lemma policy_none: "enReactionPolicyFailure a s n p = None \<longleftrightarrow> a \<and> (s \<longrightarrow> n < 5) \<and> p"
  by (auto simp: enReactionPolicyFailure_def)

lemma target_row_Inr:
  assumes "reaction_target_row now topic comment db = (Inr (author, td, te, cd, ps), db')"
  shows "db' = db \<and> (\<exists>t g s. topic_join db topic = Some (t, g, s) \<and> td = pt_deleted t \<and> te = topic_expired now s t \<and>
    ps = coalesce (- 9999) (pt_postscore t) \<and> (case comment of None \<Rightarrow> author = pt_userid t \<and> cd = None
      | Some i \<Rightarrow> \<exists>c. comment_of db i = Some c \<and> pc_topic c = topic \<and> author = pc_userid c \<and> cd = Some (pc_deleted c)))"
  using assms by (cases comment) (auto simp: reaction_target_row_def ok_or_def split: option.splits bind_splits if_splits)

lemma check_reaction_Inr:
  assumes "check_reaction_allowed now usr topic comment b reaction db = (Inr x, db')"
  shows "db' = db \<and> may_react now usr topic comment b reaction db"
proof -
  obtain row db1 where r: "reaction_target_row now topic comment db = (row, db1)" by fastforce
  with assms obtain author td te cd ps where row: "reaction_target_row now topic comment db = (Inr (author, td, te, cd, ps), db1)"
    by (cases row) (auto simp: check_reaction_allowed_def bind_eff_def)
  from target_row_Inr [OF this] obtain t g s where db1: "db1 = db" and join: "topic_join db topic = Some (t, g, s)"
    and td: "td = pt_deleted t" "te = topic_expired now s t" "ps = coalesce (- 9999) (pt_postscore t)"
    and who: "case comment of None \<Rightarrow> author = pt_userid t \<and> cd = None
      | Some i \<Rightarrow> \<exists>c. comment_of db i = Some c \<and> pc_topic c = topic \<and> author = pc_userid c \<and> cd = Some (pc_deleted c)" by blast
  let ?allow = "\<not> (usr = author \<or> td \<or> te \<or> coalesce False cd \<or> (comment \<noteq> None \<and> ps = 10002)) \<and>
      \<not> (case user_of db usr of None \<Rightarrow> False | Some r \<Rightarrow> user_frozen now r)"
  from assms row db1 have db': "db' = db" and none: "enReactionPolicyFailure ?allow b
      (if ?allow \<and> b then recent_reactions now db usr else 0) (reaction \<in> fst ` set REACTIONS) = None"
    by (auto simp: check_reaction_allowed_def bind_eff_def fetch_optional_def user_of_def [symmetric] Let_def
        split: option.splits EnReactionPolicyFailure.splits if_splits)
  from none [unfolded policy_none] have allow: ?allow and rest: "b \<longrightarrow> recent_reactions now db usr < 5" "reaction \<in> fst ` set REACTIONS"
    by presburger+
  have "(case comment of None \<Rightarrow> pt_userid t \<noteq> usr | Some i \<Rightarrow> pt_postscore t \<noteq> Some 10002 \<and>
      (\<exists>c. comment_of db i = Some c \<and> pc_topic c = topic \<and> pc_userid c \<noteq> usr \<and> \<not> pc_deleted c))"
    using who allow td by (cases comment) auto
  with allow rest join td db' show ?thesis unfolding may_react_def by (auto split: option.splits)
qed

lemma reads_reaction:
  "reads (resolve_reaction_target t)" "reads (reaction_target_link lower i c)" "reads (check_reaction_allowed now usr topic comment b reaction)"
proof -
  show "reads (resolve_reaction_target t)" "reads (reaction_target_link lower i c)"
    by (simp_all add: reads_def resolve_reaction_target_def reaction_target_link_def)
  have "reads (reaction_target_row now topic comment)" by (simp add: reads_def reaction_target_row_def)
  then show "reads (check_reaction_allowed now usr topic comment b reaction)"
    unfolding check_reaction_allowed_def Let_def
    by (intro reading) (auto simp: reads_pure split: option.splits EnReactionPolicyFailure.splits)
qed

definition target_is :: "EnReactionTarget \<Rightarrow> int \<Rightarrow> int option \<Rightarrow> pg \<Rightarrow> bool" where
  "target_is t topic comment db \<longleftrightarrow> (case t of TargetTopic i \<Rightarrow> topic = i \<and> comment = None
     | TargetComment i \<Rightarrow> comment = Some i \<and> map_option pc_topic (comment_of db i) = Some topic)"

lemma do_set_reaction_writes:
  assumes "do_set_reaction env now usr t action w = (res, w')" and "cw_db w' \<noteq> cw_db w"
  shows "\<exists>topic comment reaction b author n. target_is t topic comment (cw_db w) \<and> parse_reaction_action action = Inr (reaction, b) \<and>
    may_react now usr topic comment b reaction (cw_db w) \<and>
    set_reaction_tx now usr topic comment b reaction (cw_db w) = (Inr (author, n), cw_db w') \<and>
    res = Inr \<lparr>sr_topic_id = topic, sr_comment_id = comment, sr_count = n\<rparr> \<and>
    cw_hub w' = vNotifyEvents (ce_ord env) [author] (cw_hub w)"
  using assms(1) unfolding do_set_reaction_def split_def
  apply -
  apply (erule pass_read, rule reads_reaction, rule assms(2))
  apply (erule pass_still, simp, rule assms(2))
  apply (erule pass_read, rule reads_reaction, rule assms(2))
  subgoal premises p for target parsed x
  proof -
    obtain topic comment reaction b where tp: "target = (topic, comment)" "parsed = (reaction, b)" by (cases target; cases parsed)
    have "target_is t topic comment (cw_db w)"
      using p(1) by (auto simp: tp resolve_reaction_target_def target_is_def ok_or_def topic_of_def find_Some_iff comment_of_def
          split: EnReactionTarget.splits option.splits bind_splits)
    moreover have "may_react now usr topic comment b reaction (cw_db w)"
      using p(3) check_reaction_Inr [of now usr topic comment b reaction "cw_db w"] by (auto simp: tp) (metis prod.collapse)
    moreover have "parse_reaction_action action = Inr (reaction, b)" using p(2) by (simp add: tp)
    moreover obtain r db1 where tx: "set_reaction_tx now usr topic comment b reaction (cw_db w) = (r, db1)" by fastforce
    moreover have "\<exists>author n. r = Inr (author, n) \<and> cw_db w' = db1 \<and> res = Inr \<lparr>sr_topic_id = topic, sr_comment_id = comment, sr_count = n\<rparr> \<and>
        cw_hub w' = vNotifyEvents (ce_ord env) [author] (cw_hub w)"
    proof (cases r)
      case (Inl e)
      with tx have "db1 = cw_db w" by (auto simp: set_reaction_tx_def transaction_err)
      with Inl tx p(4) assms(2) show ?thesis
        by (auto simp: tp bind_eff_def on_cdb_def on_store_def on_db_def cw_db_def)
    next
      case (Inr a)
      with tx p(4) show ?thesis
        by (cases a) (auto simp: tp bind_eff_def on_cdb_def on_store_def on_db_def cw_db_def)
    qed
    ultimately show ?thesis by blast
  qed
  done

text \<open>C16: Who reacts is entitled to: when posting the reaction form leaves the tables changed, somebody is
  logged in, the form names a target and a supported reaction, the topic exists, is neither
  deleted nor expired, the target is not his own, a comment is live and the comments of its topic
  are not hidden, he is not frozen and - to set one - had fewer than five in the last ten minutes;
  what happened is the transaction for that target, and its author alone is notified.\<close>

theorem reaction_guarded:
  assumes "reactions_post env now user parameters w = (res, w')" and "cw_db w' \<noteq> cw_db w"
  shows "\<exists>usr ps t action topic comment reaction b author n. user = Some usr \<and> parameters = Inr ps \<and>
    stBindReactionPostParameters ps = Inr (t, action) \<and> target_is t topic comment (cw_db w) \<and>
    parse_reaction_action action = Inr (reaction, b) \<and> may_react now (us_id usr) topic comment b reaction (cw_db w) \<and>
    set_reaction_tx now (us_id usr) topic comment b reaction (cw_db w) = (Inr (author, n), cw_db w') \<and>
    cw_hub w' = vNotifyEvents (ce_ord env) [author] (cw_hub w)"
proof -
  from assms(1,2) obtain ps t action usr where ps: "parameters = Inr ps" "stBindReactionPostParameters ps = Inr (t, action)"
    "user = Some usr" and run: "bind_eff (do_set_reaction env now (us_id usr) t action) (\<lambda>result.
      on_cdb (reaction_target_link (ce_lower env) (sr_topic_id result) (sr_comment_id result))) w = (res, w')"
    by (cases parameters; cases user) (auto simp: reactions_post_def bind_eff_def split: sum.splits prod.splits)
  obtain r w1 where r: "do_set_reaction env now (us_id usr) t action w = (r, w1)" by fastforce
  with run have "w' = w1" by (cases r) (auto simp: bind_eff_def on_cdb_reads reads_reaction)
  with do_set_reaction_writes [OF r] assms(2) ps show ?thesis by blast
qed

lemma ex_reaction_reads:
  "resolve_reaction_target (TargetComment 1) ex_talk_db = (Inr (5, Some 1), ex_talk_db)"
  "r \<in> fst ` set REACTIONS \<Longrightarrow> check_reaction_allowed 2000 8 5 (Some 1) True r ex_talk_db = (Inr (), ex_talk_db)"
proof -
  show "resolve_reaction_target (TargetComment 1) ex_talk_db = (Inr (5, Some 1), ex_talk_db)"
    by (simp add: resolve_reaction_target_def of_defs ex_talk_db_def ex_db_def ex_topic_def ex_comment_def)
  have join: "topic_join ex_talk_db 5 = Some (ex_topic, hd (db_groups ex_db), hd (db_sections ex_db))"
    by (simp add: topic_join_def of_defs ex_talk_db_def ex_db_def ex_topic_def)
  have "comment_of ex_talk_db 1 = Some (ex_comment 1 7 None)" by (simp add: of_defs ex_talk_db_def ex_comment_def)
  then have row: "reaction_target_row 2000 5 (Some 1) ex_talk_db = (Inr (7, False, False, Some False, - 9999), ex_talk_db)"
    by (simp add: reaction_target_row_def join) (simp add: ex_topic_def ex_comment_def topic_expired_def)
  show "r \<in> fst ` set REACTIONS \<Longrightarrow> check_reaction_allowed 2000 8 5 (Some 1) True r ex_talk_db = (Inr (), ex_talk_db)"
    by (simp add: check_reaction_allowed_def bind_eff_def row fetch_optional_def recent_reactions_def enReactionPolicyFailure_def)
      (simp add: ex_talk_db_def ex_db_def ex_user_def user_frozen_def)
qed

lemma ex_reaction_post:
  assumes bound: "stBindReactionPostParameters ps = Inr (TargetComment 1, action)" and parsed: "parse_reaction_action action = Inr (r, True)"
    and listed: "r \<in> fst ` set REACTIONS" and tx: "set_reaction_tx 2000 8 5 (Some 1) True r ex_talk_db = (Inr (7, 1), db1)"
    and run: "reactions_post ex_comment_env 2000 (Some ex_moderator) (Inr ps) (ex_comment_world ex_talk_db) = (res, w')"
  shows "cw_db w' = db1"
proof -
  have "us_id ex_moderator = 8" by (simp add: ex_moderator_def)
  with run show ?thesis
    by (simp add: reactions_post_def do_set_reaction_def bind_eff_def bound parsed ex_reaction_reads(1) ex_reaction_reads(2) [OF listed] tx
        on_cdb_def on_store_def on_db_def reaction_target_link_def ex_comment_world_def split: option.splits prod.splits)
      (auto simp: cw_db_def)
qed

theorem reaction_guarded_witness:
  "\<exists>res w' r. reactions_post ex_comment_env 2000 (Some ex_moderator) (Inr [((u ''comment''), (u ''1'')), ((u ''reaction''), ([128077, 45, 116, 114, 117, 101] :: rstr) \<comment> \<open>(U+1F44D)-true\<close>)])
       (ex_comment_world ex_talk_db) = (res, w') \<and> may_react 2000 8 5 (Some 1) True r ex_talk_db"
proof -
  let ?ps = "[((u ''comment''), (u ''1'')), ((u ''reaction''), ([128077, 45, 116, 114, 117, 101] :: rstr) \<comment> \<open>(U+1F44D)-true\<close>)]"
  obtain res w' where run: "reactions_post ex_comment_env 2000 (Some ex_moderator) (Inr ?ps) (ex_comment_world ex_talk_db) = (res, w')"
    by fastforce
  have bound: "stBindReactionPostParameters ?ps = Inr (TargetComment 1, ([128077, 45, 116, 114, 117, 101] :: rstr) \<comment> \<open>(U+1F44D)-true\<close>)"
    by (simp add: stBindReactionPostParameters_def form_get_def parse_i32_def parse_signed_def in_i32_def is_ascii_digit_def)
  have parsed: "parse_reaction_action ([128077, 45, 116, 114, 117, 101] :: rstr) \<comment> \<open>(U+1F44D)-true\<close> = Inr (([128077] :: rstr) \<comment> \<open>(U+1F44D)\<close>, True)"
    by (simp add: parse_reaction_action_def starts_with_def)
  have listed: "([128077] :: rstr) \<comment> \<open>(U+1F44D)\<close> \<in> fst ` set REACTIONS" by (simp add: REACTIONS_def)
  obtain db1 where tx: "set_reaction_tx 2000 8 5 (Some 1) True ([128077] :: rstr) \<comment> \<open>(U+1F44D)\<close> ex_talk_db = (Inr (7, 1), db1)"
    and diff: "db_reactions_log db1 \<noteq> db_reactions_log ex_talk_db" using ex_reaction_run by blast
  have "cw_db w' = db1" by (rule ex_reaction_post [OF bound parsed listed tx run])
  moreover have before: "cw_db (ex_comment_world ex_talk_db) = ex_talk_db" by (simp add: cw_db_def ex_comment_world_def)
  ultimately have "cw_db w' \<noteq> cw_db (ex_comment_world ex_talk_db)" using diff by auto
  from reaction_guarded [OF run this] obtain topic comment reaction b t action where
    post: "stBindReactionPostParameters ?ps = Inr (t, action)" "target_is t topic comment ex_talk_db" "parse_reaction_action action = Inr (reaction, b)"
      "may_react 2000 (us_id ex_moderator) topic comment b reaction ex_talk_db"
    unfolding before by blast
  from post(1) bound have t: "t = TargetComment 1" "action = ([128077, 45, 116, 114, 117, 101] :: rstr) \<comment> \<open>(U+1F44D)-true\<close>" by auto
  with post(3) parsed have "b" by simp
  moreover have "comment = Some 1" "topic = 5"
    using post(2) by (auto simp: t target_is_def of_defs ex_talk_db_def ex_comment_def)
  ultimately show ?thesis using run post(4) by (auto simp: ex_moderator_def)
qed

end
