(* ===== verification/Polls.thy ===== *)
theory Polls
  imports Comment_Guards
begin

section \<open>Voting in a poll (src/routes/api.rs)\<close>

text \<open>
  The handler of \<open>vote.jsp\<close>: the form, the checks on the poll, and the transaction that stores the
  choice and counts it.  \<open>vote_users\<close> has one row for each user and chosen variant, \<open>polls_variants\<close>
  the number of votes.  The pairs of the form come from the decoder of \<open>src/form.rs\<close>.
\<close>

subsection \<open>The form and its checks\<close>

record VoteForm =
  vf_voteid :: int
  vf_vote :: "int list"

definition stPollNotFoundError :: app_error where
  "stPollNotFoundError = stScriptErrorAs ([1043, 1086, 1083, 1086, 1089, 1086, 1074, 1072, 1085, 1080, 1077, 32, 1085, 1077, 32, 1089, 1091, 1097, 1077, 1089, 1090, 1074, 1091, 1077, 1090] :: rstr) \<comment> \<open>Golosovanie ne sushchestvuet\<close> (u ''ru.org.linux.poll.PollNotFoundException'')"

definition stBadVoteError :: "rstr \<Rightarrow> app_error" where
  "stBadVoteError sMessage = stScriptErrorAs sMessage (u ''ru.org.linux.poll.BadVoteException'')"

definition vValidateVoteRequest :: "bool \<Rightarrow> bool \<Rightarrow> bool \<Rightarrow> int list \<Rightarrow> app_error + unit" where
  "vValidateVoteRequest bCommitted bExpired bMultiSelect vecVotes =
     (if \<not> bCommitted then Inl (stBadVoteError ([1054, 1087, 1088, 1086, 1089, 32, 1077, 1097, 1077, 32, 1085, 1077, 32, 1087, 1086, 1076, 1090, 1074, 1077, 1088, 1078, 1076, 1077, 1085] :: rstr) \<comment> \<open>Opros eshche ne podtverzhden\<close>)
      else if bExpired then Inl (stBadVoteError ([1054, 1087, 1088, 1086, 1089, 32, 1079, 1072, 1074, 1077, 1088, 1096, 1077, 1085] :: rstr) \<comment> \<open>Opros zavershen\<close>)
      else if vecVotes = [] then Inl (stUserError ([1085, 1080, 1095, 1077, 1075, 1086, 32, 1085, 1077, 32, 1074, 1099, 1073, 1088, 1072, 1085, 1086] :: rstr) \<comment> \<open>nichego ne vybrano\<close>)
      else if \<not> bMultiSelect \<and> length vecVotes \<noteq> 1 then Inl (stBadVoteError ([1101, 1090, 1086, 1090, 32, 1086, 1087, 1088, 1086, 1089, 32, 1076, 1086, 1087, 1091, 1089, 1082, 1072, 1077, 1090, 32, 1090, 1086, 1083, 1100, 1082, 1086, 32, 1086, 1076, 1080, 1085, 32, 1074, 1072, 1088, 1080, 1072, 1085, 1090, 32, 1086, 1090, 1074, 1077, 1090, 1072] :: rstr) \<comment> \<open>etot opros dopuskaet tolko odin variant otveta\<close>)
      else Inr ())"

definition vote_form :: "params \<Rightarrow> app_error + VoteForm" where
  "vote_form pairs = and_then (ok_or (BadRequest (u ''missing voteid'')) (Option.bind (form_get pairs (u ''voteid'')) parse_i32)) (\<lambda>i.
     Inr \<lparr>vf_voteid = i, vf_vote = List.map_filter parse_i32 (form_get_all pairs (u ''vote''))\<rparr>)"

subsection \<open>The poll\<close>

definition vote_topic :: "(rstr \<Rightarrow> rstr) \<Rightarrow> time \<Rightarrow> int \<Rightarrow> (int \<times> bool \<times> rstr \<times> rstr \<times> bool \<times> bool) option pg_eff" where
  "vote_topic lower now voteid = (\<lambda>db. (Inr (Option.bind (List.find (\<lambda>p. po_id p = voteid) (db_polls db)) (\<lambda>p.
     map_option (\<lambda>(t, g, s). (po_topic p, po_multiselect p, section_prefix lower (ps_id s) (ps_name s), pg_urlname g,
       pt_moderate t, topic_expired now s t)) (topic_join db (po_topic p)))), db))"

subsection \<open>The transaction\<close>

definition voted :: "pg \<Rightarrow> int \<Rightarrow> int \<Rightarrow> nat" where
  "voted db voteid user_id = length (filter (\<lambda>r. vu_vote r = voteid \<and> vu_userid r = user_id) (db_vote_users db))"

text \<open>\<open>INSERT .. ON CONFLICT DO NOTHING\<close>: whether a row was added.\<close>

definition insert_vote :: "int \<Rightarrow> int \<Rightarrow> int \<Rightarrow> bool pg_eff" where
  "insert_vote voteid user_id variant_id = (\<lambda>db.
     let r = \<lparr>vu_vote = voteid, vu_userid = user_id, vu_variant_id = variant_id\<rparr> in
     if r \<in> set (db_vote_users db) then (Inr False, db)
     else bind_eff (exec_insert db_vote_users db_vote_users_update (\<lambda>db r. vu_vote r \<in> po_id ` set (db_polls db) \<and>
         user_of db (vu_userid r) \<noteq> None \<and> vu_variant_id r \<in> pv_id ` set (db_polls_variants db)) r) (\<lambda>_. ret_eff True) db)"

fun store_votes :: "int \<Rightarrow> int \<Rightarrow> int list \<Rightarrow> unit pg_eff" where
  "store_votes voteid user_id [] = ret_eff ()"
| "store_votes voteid user_id (variant_id # selected) =
     bind_eff (insert_vote voteid user_id variant_id) (\<lambda>inserted.
     bind_eff (if inserted then exec_update_checked db_polls_variants db_polls_variants_update
         (\<lambda>v. pv_id v = variant_id \<and> pv_vote v = voteid) (pv_votes_update (\<lambda>n. n + 1)) (\<lambda>v. in_i32 (pv_votes v)) else ret_eff 0) (\<lambda>_.
     store_votes voteid user_id selected))"

definition record_votes :: "int \<Rightarrow> int \<Rightarrow> int list \<Rightarrow> unit pg_eff" where
  "record_votes voteid user_id selected =
     bind_eff (\<lambda>db. (Inr (length (filter (\<lambda>v. pv_vote v = voteid \<and> pv_id v \<in> set selected) (db_polls_variants db))), db)) (\<lambda>valid_count.
     if valid_count \<noteq> length selected then fail_eff (stBadVoteError ([1053, 1077, 1074, 1077, 1088, 1085, 1099, 1081, 32, 105, 100, 32, 1086, 1087, 1088, 1086, 1089, 1072] :: rstr) \<comment> \<open>Nevernyj id oprosa\<close>)
     else store_votes voteid user_id selected)"

definition vote_tx :: "int \<Rightarrow> int \<Rightarrow> int list \<Rightarrow> unit pg_eff" where
  "vote_tx voteid user_id selected = transaction (
     bind_eff (\<lambda>db. (Inr (voted db voteid user_id), db)) (\<lambda>already_voted.
     if already_voted = 0 then record_votes voteid user_id selected else ret_eff ()))"

subsection \<open>The handler\<close>

definition vote :: "(rstr \<Rightarrow> rstr) \<Rightarrow> time \<Rightarrow> StUserSummary option \<Rightarrow> app_error + params \<Rightarrow> rstr pg_eff" where
  "vote lower now user body =
     (case user of None \<Rightarrow> fail_eff Forbidden
      | Some user \<Rightarrow>
     bind_eff (of_result body) (\<lambda>pairs.
     bind_eff (of_result (vote_form pairs)) (\<lambda>form.
     bind_eff (vote_topic lower now (vf_voteid form)) (\<lambda>row. case row of
        None \<Rightarrow> fail_eff stPollNotFoundError
      | Some (topic_id, multiselect, prefix, group_urlname, committed, expired) \<Rightarrow>
     bind_eff (of_result (vValidateVoteRequest committed expired multiselect (vf_vote form))) (\<lambda>_.
     bind_eff (vote_tx (vf_voteid form) (us_id user) (remdups_adj (sort (vf_vote form)))) (\<lambda>_.
     ret_eff ([47] @ prefix @ [47] @ group_urlname @ [47] @ show_int topic_id)))))))"

subsection \<open>Polls stay in order\<close>

text \<open>Each vote names a variant of its poll, each variant counts its votes, and in a poll with one
  choice nobody has two.\<close>

definition variant_count :: "pg_vote list \<Rightarrow> int \<Rightarrow> int" where
  "variant_count rs i = int (length (filter (\<lambda>r. vu_variant_id r = i) rs))"

definition polls_ok :: "pg \<Rightarrow> bool" where
  "polls_ok db \<longleftrightarrow> distinct (map pv_id (db_polls_variants db)) \<and>
     (\<forall>v\<in>set (db_polls_variants db). pv_votes v = variant_count (db_vote_users db) (pv_id v)) \<and>
     (\<forall>r\<in>set (db_vote_users db). \<forall>v\<in>set (db_polls_variants db). pv_id v = vu_variant_id r \<longrightarrow> pv_vote v = vu_vote r) \<and>
     (\<forall>p\<in>set (db_polls db). \<not> po_multiselect p \<longrightarrow> (\<forall>usr. voted db (po_id p) usr \<le> 1))"

lemma store_votes_Inr:
  assumes "store_votes p usr sel db = (Inr (), db')" and "distinct sel"
    and "\<And>i. i \<in> set sel \<Longrightarrow> \<lparr>vu_vote = p, vu_userid = usr, vu_variant_id = i\<rparr> \<notin> set (db_vote_users db)"
  shows "db' = db\<lparr>db_vote_users := db_vote_users db @ map (\<lambda>i. \<lparr>vu_vote = p, vu_userid = usr, vu_variant_id = i\<rparr>) sel,
    db_polls_variants := map (\<lambda>v. if pv_vote v = p \<and> pv_id v \<in> set sel then v\<lparr>pv_votes := pv_votes v + 1\<rparr> else v) (db_polls_variants db)\<rparr>"
  using assms
proof (induction sel arbitrary: db)
  case (Cons i sel)
  let ?r = "\<lparr>vu_vote = p, vu_userid = usr, vu_variant_id = i\<rparr>"
  let ?dba = "db_vote_users_update (\<lambda>rs. rs @ [?r]) db"
  let ?db1 = "db_polls_variants_update (update_where (\<lambda>v. pv_id v = i \<and> pv_vote v = p) (pv_votes_update (\<lambda>n. n + 1))) ?dba"
  have new: "?r \<notin> set (db_vote_users db)" using Cons.prems(3) by simp
  have ins: "insert_vote p usr i db = (Inr x, w) \<Longrightarrow> x \<and> w = ?dba" for x w
    using new by (auto simp: insert_vote_def Let_def bind_eff_Inr_iff exec_insert_def split: if_splits)
  have upd: "exec_update_checked db_polls_variants db_polls_variants_update (\<lambda>v. pv_id v = i \<and> pv_vote v = p)
      (pv_votes_update (\<lambda>n. n + 1)) (\<lambda>v. in_i32 (pv_votes v)) ?dba = (Inr n, w) \<Longrightarrow> w = ?db1" for n w
    by (auto simp: exec_update_checked_def exec_update_def split: if_splits)
  from Cons.prems(1) have rest: "store_votes p usr sel ?db1 = (Inr (), db')"
    unfolding store_votes.simps bind_eff_Inr_iff by (auto dest!: ins upd)
  have "db' = ?db1\<lparr>db_vote_users := db_vote_users ?db1 @ map (\<lambda>i. \<lparr>vu_vote = p, vu_userid = usr, vu_variant_id = i\<rparr>) sel,
    db_polls_variants := map (\<lambda>v. if pv_vote v = p \<and> pv_id v \<in> set sel then v\<lparr>pv_votes := pv_votes v + 1\<rparr> else v) (db_polls_variants ?db1)\<rparr>"
  proof (rule Cons.IH [OF rest])
    show "distinct sel" using Cons.prems(2) by simp
    show "\<lparr>vu_vote = p, vu_userid = usr, vu_variant_id = j\<rparr> \<notin> set (db_vote_users ?db1)" if "j \<in> set sel" for j
      using Cons.prems(2) Cons.prems(3) [of j] that by auto
  qed
  then show ?case
    using Cons.prems(2) by (intro pg.equality) (auto simp: update_where_def)
qed simp

lemma count_selected:
  assumes "distinct (map pv_id vs)" and "distinct sel"
    and "length (filter (\<lambda>v. pv_vote v = p \<and> pv_id v \<in> set sel) vs) = length sel" and "i \<in> set sel"
  shows "\<exists>v\<in>set vs. pv_id v = i \<and> pv_vote v = p"
proof -
  let ?A = "filter (\<lambda>v. pv_vote v = p \<and> pv_id v \<in> set sel) vs"
  have "distinct (map pv_id ?A)" using assms(1) by (rule distinct_map_filter)
  then have "card (pv_id ` set ?A) = length sel" using assms(3) distinct_card [of "map pv_id ?A"] by simp
  moreover have "card (set sel) = length sel" using assms(2) by (rule distinct_card)
  moreover have "pv_id ` set ?A \<subseteq> set sel" by auto
  ultimately have "pv_id ` set ?A = set sel" by (metis List.finite_set card_subset_eq)
  with assms(4) have "i \<in> pv_id ` set ?A" by (simp only:)
  then show ?thesis by auto
qed

lemma variant_count_append: "variant_count (rs @ map (\<lambda>i. \<lparr>vu_vote = p, vu_userid = usr, vu_variant_id = i\<rparr>) sel) j =
    variant_count rs j + int (length (filter (\<lambda>i. i = j) sel))"
  by (simp add: variant_count_def filter_map comp_def)

lemma count_distinct: "distinct sel \<Longrightarrow> int (length (filter (\<lambda>i. i = j) sel)) = (if j \<in> set sel then 1 else 0)"
  by (induction sel) auto

lemma record_votes_ok:
  assumes "record_votes p usr sel db = (Inr (), db')" and "distinct sel" and "polls_ok db"
    and free: "voted db p usr = 0" and one: "\<forall>q\<in>set (db_polls db). po_id q = p \<longrightarrow> \<not> po_multiselect q \<longrightarrow> length sel \<le> 1"
  shows "polls_ok db' \<and> db_vote_users db' = db_vote_users db @ map (\<lambda>i. \<lparr>vu_vote = p, vu_userid = usr, vu_variant_id = i\<rparr>) sel"
proof -
  from assms(1) have store: "store_votes p usr sel db = (Inr (), db')"
    and valid: "length (filter (\<lambda>v. pv_vote v = p \<and> pv_id v \<in> set sel) (db_polls_variants db)) = length sel"
    by (auto simp: record_votes_def bind_eff_Inr_iff split: if_splits)
  have new: "\<lparr>vu_vote = p, vu_userid = usr, vu_variant_id = i\<rparr> \<notin> set (db_vote_users db)" for i
    using free by (auto simp: voted_def filter_empty_conv)
  note db' = store_votes_Inr [OF store assms(2) new]
  have keyed: "distinct (map pv_id (db_polls_variants db))" using assms(3) by (simp add: polls_ok_def)
  note sel = count_selected [OF keyed assms(2) valid]
  let ?g = "\<lambda>v. if pv_vote v = p \<and> pv_id v \<in> set sel then v\<lparr>pv_votes := pv_votes v + 1\<rparr> else v"
  have vs: "db_polls_variants db' = map ?g (db_polls_variants db)"
    and us: "db_vote_users db' = db_vote_users db @ map (\<lambda>i. \<lparr>vu_vote = p, vu_userid = usr, vu_variant_id = i\<rparr>) sel"
    and ps: "db_polls db' = db_polls db" unfolding db' by simp_all
  have same: "v = w" if "v \<in> set (db_polls_variants db)" "w \<in> set (db_polls_variants db)" "pv_id v = pv_id w" for v w
    using keyed that by (auto simp: distinct_map inj_on_def)
  have "polls_ok db'"
    unfolding polls_ok_def
  proof (intro conjI ballI impI allI)
    have "map pv_id (map ?g (db_polls_variants db)) = map pv_id (db_polls_variants db)" by simp
    then show "distinct (map pv_id (db_polls_variants db'))" unfolding vs using keyed by presburger
  next
    fix v' assume "v' \<in> set (db_polls_variants db')"
    then obtain v where v: "v \<in> set (db_polls_variants db)" "v' = ?g v" unfolding vs by auto
    have "pv_votes v = variant_count (db_vote_users db) (pv_id v)" using assms(3) v(1) by (simp add: polls_ok_def)
    moreover have "pv_vote v = p" if "pv_id v \<in> set sel" using sel [OF that] same v(1) by blast
    ultimately show "pv_votes v' = variant_count (db_vote_users db') (pv_id v')"
      by (auto simp: us v(2) variant_count_append count_distinct [OF assms(2)])
  next
    fix r v' assume r: "r \<in> set (db_vote_users db')" and v': "v' \<in> set (db_polls_variants db')" "pv_id v' = vu_variant_id r"
    obtain v where v: "v \<in> set (db_polls_variants db)" "v' = ?g v" using v' unfolding vs by auto
    then have eq: "pv_id v' = pv_id v" "pv_vote v' = pv_vote v" by simp_all
    from r consider "r \<in> set (db_vote_users db)" | i where "i \<in> set sel" "r = \<lparr>vu_vote = p, vu_userid = usr, vu_variant_id = i\<rparr>"
      unfolding us by auto
    then show "pv_vote v' = vu_vote r"
    proof cases
      case 1
      with assms(3) v(1) v'(2) eq show ?thesis by (auto simp: polls_ok_def)
    next
      case 2
      with sel [OF 2(1)] same v(1) v'(2) eq show ?thesis by auto
    qed
  next
    fix q w assume q: "q \<in> set (db_polls db')" "\<not> po_multiselect q"
    have old: "voted db (po_id q) w \<le> 1" using assms(3) q by (simp add: polls_ok_def ps)
    have "voted db' (po_id q) w = voted db (po_id q) w + (if po_id q = p \<and> w = usr then length sel else 0)"
      by (auto simp: voted_def us filter_map comp_def)
    moreover have "length sel \<le> 1" if "po_id q = p" using one q that by (simp add: ps)
    ultimately show "voted db' (po_id q) w \<le> 1" using old free by (auto split: if_splits)
  qed
  with us show ?thesis by blast
qed

definition ballot :: "int \<Rightarrow> int \<Rightarrow> int list \<Rightarrow> pg_vote list" where
  "ballot p usr sel = map (\<lambda>i. \<lparr>vu_vote = p, vu_userid = usr, vu_variant_id = i\<rparr>) sel"

lemma vote_tx_ok:
  assumes "vote_tx p usr sel db = (r, db')" and "distinct sel" and "polls_ok db"
    and "\<forall>q\<in>set (db_polls db). po_id q = p \<longrightarrow> \<not> po_multiselect q \<longrightarrow> length sel \<le> 1"
  shows "polls_ok db' \<and> (db' \<noteq> db \<longrightarrow> voted db p usr = 0 \<and> r = Inr () \<and> db_vote_users db' = db_vote_users db @ ballot p usr sel)"
proof (cases r)
  case (Inl e)
  with assms(1) have "db' = db" by (auto simp: vote_tx_def transaction_err)
  with assms(3) show ?thesis by simp
next
  case (Inr x)
  with assms(1) have run: "(if voted db p usr = 0 then record_votes p usr sel else ret_eff ()) db = (Inr (), db')"
    by (simp add: vote_tx_def transaction_Inr bind_eff_Inr_iff)
  show ?thesis
  proof (cases "voted db p usr = 0")
    case True
    with run record_votes_ok [OF _ assms(2,3) True assms(4)] Inr show ?thesis by (simp add: ballot_def)
  next
    case False
    with run assms(3) show ?thesis by simp
  qed
qed

text \<open>C6: Polls stay in order under voting: as long as every variant counts its votes, every vote names a
  variant of its poll and nobody has two votes in a poll with one choice, the handler keeps it so,
  whatever is submitted.  When it changes anything, somebody is logged in, the topic of the poll is
  approved and not expired, he had no vote in this poll, and exactly the variants he named are
  recorded for him, each once; with a single choice it is one.\<close>

theorem vote_keeps_polls:
  assumes "vote lower now user body db = (r, db')" and "polls_ok db" and "distinct (map po_id (db_polls db))"
  shows "polls_ok db' \<and> (db' \<noteq> db \<longrightarrow> (\<exists>usr pairs form q t g s sel. user = Some usr \<and> body = Inr pairs \<and> vote_form pairs = Inr form \<and>
     q \<in> set (db_polls db) \<and> po_id q = vf_voteid form \<and> topic_join db (po_topic q) = Some (t, g, s) \<and>
     pt_moderate t \<and> \<not> topic_expired now s t \<and> voted db (po_id q) (us_id usr) = 0 \<and>
     distinct sel \<and> set sel = set (vf_vote form) \<and> sel \<noteq> [] \<and> (\<not> po_multiselect q \<longrightarrow> length sel = 1) \<and>
     db_vote_users db' = db_vote_users db @ ballot (po_id q) (us_id usr) sel))"
proof (cases "db' = db")
  case True
  with assms(2) show ?thesis by simp
next
  case False
  from assms(1) False obtain usr pairs form row where top: "user = Some usr" "body = Inr pairs" "vote_form pairs = Inr form"
    and row: "vote_topic lower now (vf_voteid form) db = (Inr (Some row), db)"
    by (auto simp: vote_def bind_eff_def vote_topic_def split: option.splits sum.splits)
  obtain topic multi prefix name committed expired where parts: "row = (topic, multi, prefix, name, committed, expired)"
    by (metis prod.collapse)
  from row [unfolded parts] obtain q t g s where q: "List.find (\<lambda>p. po_id p = vf_voteid form) (db_polls db) = Some q" "multi = po_multiselect q"
    and join: "topic_join db (po_topic q) = Some (t, g, s)" "committed = pt_moderate t" "expired = topic_expired now s t"
    by (auto simp: vote_topic_def split: bind_splits)
  then have q': "q \<in> set (db_polls db)" "po_id q = vf_voteid form" by (auto simp: find_Some_iff)
  let ?sel = "remdups_adj (sort (vf_vote form))"
  from assms(1) False obtain x where valid: "vValidateVoteRequest committed expired multi (vf_vote form) = Inr x"
    and tx: "db' = snd (vote_tx (vf_voteid form) (us_id usr) ?sel db)"
    by (auto simp: vote_def bind_eff_def top row parts split: sum.splits prod.splits)
  from valid have checks: "committed" "\<not> expired" "vf_vote form \<noteq> []" "multi \<or> length (vf_vote form) = 1"
    by (auto simp: vValidateVoteRequest_def split: if_splits)
  have sel: "distinct ?sel" "set ?sel = set (vf_vote form)" by (simp_all add: distinct_remdups_sorted)
  with checks(3) have ne: "?sel \<noteq> []" by (metis set_empty)
  have one: "\<not> multi \<Longrightarrow> length ?sel = 1" using checks(4) by (cases "vf_vote form") auto
  have keyed: "q2 = q" if "q2 \<in> set (db_polls db)" "po_id q2 = vf_voteid form" for q2
    using assms(3) q' that by (auto simp: distinct_map inj_on_def)
  obtain r1 where run: "vote_tx (vf_voteid form) (us_id usr) ?sel db = (r1, db')" using tx by (metis prod.collapse)
  have "\<forall>q2\<in>set (db_polls db). po_id q2 = vf_voteid form \<longrightarrow> \<not> po_multiselect q2 \<longrightarrow> length ?sel \<le> 1"
    using keyed one q(2) by fastforce
  from vote_tx_ok [OF run sel(1) assms(2) this] False q' join checks sel ne one q(2) top show ?thesis
    by (intro conjI impI exI [of _ usr] exI [of _ pairs] exI [of _ form] exI [of _ q] exI [of _ t] exI [of _ g] exI [of _ s] exI [of _ ?sel])
      simp_all
qed

definition ex_poll_db :: "bool \<Rightarrow> pg" where
  "ex_poll_db multi = ex_db\<lparr>db_topics := [ex_topic\<lparr>pt_moderate := True\<rparr>], db_polls := [\<lparr>po_id = 3, po_topic = 5, po_multiselect = multi\<rparr>],
     db_polls_variants := [\<lparr>pv_id = 31, pv_vote = 3, pv_label = [], pv_votes = 0\<rparr>, \<lparr>pv_id = 32, pv_vote = 3, pv_label = [], pv_votes = 0\<rparr>]\<rparr>"

lemma ex_poll_ok: "polls_ok (ex_poll_db multi)" "distinct (map po_id (db_polls (ex_poll_db multi)))"
  by (simp_all add: polls_ok_def ex_poll_db_def ex_db_def variant_count_def voted_def)

lemmas ex_vote_defs = record_votes_def bind_eff_def insert_vote_def exec_insert_def exec_update_checked_def exec_update_def
  update_where_def user_of_def in_i32_def ex_poll_db_def ex_db_def ex_user_def

lemma ex_vote_form:
  "vote_form [((u ''voteid''), (u ''3'')), ((u ''vote''), (u ''32''))] = Inr \<lparr>vf_voteid = 3, vf_vote = [32]\<rparr>"
  by (simp add: vote_form_def form_get_def form_get_all_def parse_i32_def parse_signed_def in_i32_def is_ascii_digit_def map_filter_simps)

lemma ex_vote:
  "vote (\<lambda>s. s) 2000 (Some ex_moderator) (Inr [((u ''voteid''), (u ''3'')), ((u ''vote''), (u ''32''))]) (ex_poll_db False)
     = (Inr ((u ''/forum/general/5'')), snd (record_votes 3 8 [32] (ex_poll_db False)))"
  "record_votes 3 8 [32] (ex_poll_db False) = (Inr (), (ex_poll_db False)\<lparr>db_vote_users := [\<lparr>vu_vote = 3, vu_userid = 8, vu_variant_id = 32\<rparr>],
     db_polls_variants := [\<lparr>pv_id = 31, pv_vote = 3, pv_label = [], pv_votes = 0\<rparr>, \<lparr>pv_id = 32, pv_vote = 3, pv_label = [], pv_votes = 1\<rparr>]\<rparr>)"
proof -
  show rec: "record_votes 3 8 [32] (ex_poll_db False) = (Inr (), (ex_poll_db False)\<lparr>db_vote_users := [\<lparr>vu_vote = 3, vu_userid = 8, vu_variant_id = 32\<rparr>],
     db_polls_variants := [\<lparr>pv_id = 31, pv_vote = 3, pv_label = [], pv_votes = 0\<rparr>, \<lparr>pv_id = 32, pv_vote = 3, pv_label = [], pv_votes = 1\<rparr>]\<rparr>)"
    by (simp add: ex_vote_defs)
  have "vote_topic (\<lambda>s. s) 2000 3 (ex_poll_db False) = (Inr (Some (5, False, u ''forum'', u ''general'', True, False)), ex_poll_db False)"
    by (simp add: vote_topic_def topic_join_def of_defs section_prefix_def topic_expired_def ex_poll_db_def ex_db_def ex_topic_def)
  moreover have "voted (ex_poll_db False) 3 8 = 0" by (simp add: voted_def ex_poll_db_def ex_db_def)
  moreover have "us_id ex_moderator = 8" by (simp add: ex_moderator_def)
  moreover have "show_int 5 = [53]" by (simp add: show_int_def show_nat.simps)
  ultimately show "vote (\<lambda>s. s) 2000 (Some ex_moderator) (Inr [((u ''voteid''), (u ''3'')), ((u ''vote''), (u ''32''))]) (ex_poll_db False)
     = (Inr ((u ''/forum/general/5'')), snd (record_votes 3 8 [32] (ex_poll_db False)))"
    using ex_vote_form by (simp add: vote_def bind_eff_def vValidateVoteRequest_def vote_tx_def transaction_def rec)
qed

theorem vote_keeps_polls_witness:
  "polls_ok (snd (vote (\<lambda>s. s) 2000 (Some ex_moderator) (Inr [((u ''voteid''), (u ''3'')), ((u ''vote''), (u ''32''))]) (ex_poll_db False)))
   \<and> db_vote_users (snd (vote (\<lambda>s. s) 2000 (Some ex_moderator) (Inr [((u ''voteid''), (u ''3'')), ((u ''vote''), (u ''32''))]) (ex_poll_db False)))
     = ballot 3 8 [32]"
  using vote_keeps_polls [OF ex_vote(1) ex_poll_ok] unfolding ex_vote by (simp add: ballot_def)

text \<open>
  The check and the recording are separate statements, and nothing locks the user between
  them.  Two requests of one user that both find no vote record both choices.
\<close>

theorem vote_race:
  "\<exists>db db1 db2. polls_ok db \<and> (\<exists>q\<in>set (db_polls db). po_id q = 3 \<and> \<not> po_multiselect q) \<and> voted db 3 8 = 0 \<and>
     record_votes 3 8 [31] db = (Inr (), db1) \<and> record_votes 3 8 [32] db1 = (Inr (), db2) \<and> voted db2 3 8 = 2 \<and> \<not> polls_ok db2"
proof -
  let ?db1 = "(ex_poll_db False)\<lparr>db_vote_users := [\<lparr>vu_vote = 3, vu_userid = 8, vu_variant_id = 31\<rparr>],
     db_polls_variants := [\<lparr>pv_id = 31, pv_vote = 3, pv_label = [], pv_votes = 1\<rparr>, \<lparr>pv_id = 32, pv_vote = 3, pv_label = [], pv_votes = 0\<rparr>]\<rparr>"
  let ?db2 = "(ex_poll_db False)\<lparr>db_vote_users := [\<lparr>vu_vote = 3, vu_userid = 8, vu_variant_id = 31\<rparr>, \<lparr>vu_vote = 3, vu_userid = 8, vu_variant_id = 32\<rparr>],
     db_polls_variants := [\<lparr>pv_id = 31, pv_vote = 3, pv_label = [], pv_votes = 1\<rparr>, \<lparr>pv_id = 32, pv_vote = 3, pv_label = [], pv_votes = 1\<rparr>]\<rparr>"
  have run: "record_votes 3 8 [31] (ex_poll_db False) = (Inr (), ?db1)" "record_votes 3 8 [32] ?db1 = (Inr (), ?db2)"
    by (simp_all add: ex_vote_defs)
  have two: "voted ?db2 3 8 = 2" by (simp add: voted_def)
  have single: "\<lparr>po_id = 3, po_topic = 5, po_multiselect = False\<rparr> \<in> set (db_polls ?db2)" by (simp add: ex_poll_db_def)
  have "\<not> polls_ok ?db2"
  proof
    assume "polls_ok ?db2"
    with single have "voted ?db2 3 8 \<le> 1" by (fastforce simp: polls_ok_def)
    with two show False by simp
  qed
  moreover have "voted (ex_poll_db False) 3 8 = 0" "\<exists>q\<in>set (db_polls (ex_poll_db False)). po_id q = 3 \<and> \<not> po_multiselect q"
    by (simp_all add: voted_def ex_poll_db_def ex_db_def)
  ultimately show ?thesis using ex_poll_ok(1) run two by blast
qed

end
