(* ===== verification/Operations.thy ===== *)
theory Operations
  imports Topic_Moderation User_Moderation Warnings Address_Deletion Store_Invariants Reactions Polls
begin

section \<open>Every operation on the store, interleaved\<close>

text \<open>
  \<open>post_step db db'\<close> holds when one of the modelled repository operations on topics, comments,
  warnings and users, called with any arguments at any time, takes the store from \<open>db\<close> to \<open>db'\<close> -
  successfully or not; a \<open>store_step\<close> may also decide about an address.  A
  history of the store is a sequence of such steps: the operations of concurrent requests in
  the order of their commits, read as if each ran alone.  Three invariants hold along every history: keys
  stay unique and scores in range (\<open>pg_ok\<close>), each user's unread counter counts that
  user's unread events (\<open>unread_ok\<close>), and threads are trees (\<open>threads_ok\<close>); a decision about an address stands until the next one.
\<close>

inductive post_step :: "pg \<Rightarrow> pg \<Rightarrow> bool" where
  options: "options_vSet now opts db = (r1, db') \<Longrightarrow> post_step db db'"
| delete_topic: "deletion_repo_stDelete now a1 t1 c1 db = (r2, db') \<Longrightarrow> post_step db db'"
| undelete_topic: "deletion_repo_vUndelete now t1 db = (r3, db') \<Longrightarrow> post_step db db'"
| delete_comment: "comment_repo_stDelete now a2 t2 c2 db = (r4, db') \<Longrightarrow> post_step db db'"
| undelete_comment: "comment_repo_vUndelete now t2 db = (r5, db') \<Longrightarrow> post_step db db'"
| uncommit: "repo_vUncommit i db = (r6, db') \<Longrightarrow> post_step db db'"
| move: "repo_vMove now c3 db = (r7, db') \<Longrightarrow> post_step db db'"
| resolve: "repo_vResolve i b db = (r8, db') \<Longrightarrow> post_step db db'"
| warn: "warning_iCreate now m1 db = (r9, db') \<Longrightarrow> post_step db db'"
| clear: "warning_vClear now m2 db = (r10, db') \<Longrightarrow> post_step db db'"
| moderate: "user_stApply rfc now mut db = (r11, db') \<Longrightarrow> post_step db db'"
| add_comment: "insert_comment_tx inet now usr cast topic replyto msg nicks markup ip agent db = (r13, db') \<Longrightarrow> post_step db db'"
| edit_comment: "edit_comment_tx local now usr i row msg db = (r14, db') \<Longrightarrow> post_step db db'"
| react: "set_reaction_tx now usr topic comment b reaction db = (r15, db') \<Longrightarrow> post_step db db'"
| vote: "vote_tx poll usr sel db = (r16, db') \<Longrightarrow> post_step db db'"
| by_address: "pg_stDeleteByIp inet now m c4 db = (r12, db') \<Longrightarrow> post_step db db'"

inductive store_step :: "pg \<Rightarrow> pg \<Rightarrow> bool" where
  post: "post_step db db' \<Longrightarrow> store_step db db'"
| block: "pg_vBlockIp inet now m b db = (r, db') \<Longrightarrow> store_step db db'"
| ban: "routes_ban_ip inet add_months enc now user form db = (r, db') \<Longrightarrow> store_step db db'"

text \<open>An operation that fails leaves no trace.\<close>

definition atomic :: "'a pg_eff \<Rightarrow> bool" where
  "atomic m \<longleftrightarrow> (\<forall>db e db'. m db = (Inl e, db') \<longrightarrow> db' = db)"

lemma atomic_transaction: "atomic (transaction m)"
  by (auto simp: atomic_def transaction_err)

lemma atomic_then_read: "atomic (bind_eff (transaction m) (\<lambda>a db. (Inr (f a db), db)))"
  by (auto simp: atomic_def bind_eff_def transaction_err split: prod.splits sum.splits)

lemma ops_atomic:
  "atomic (options_vSet now opts)" "atomic (deletion_repo_stDelete now a1 t1 c1)" "atomic (deletion_repo_vUndelete now t1)"
  "atomic (comment_repo_stDelete now a2 t2 c2)" "atomic (comment_repo_vUndelete now t2)" "atomic (repo_vUncommit i)"
  "atomic (repo_vMove now c3)" "atomic (repo_vResolve i b)" "atomic (warning_iCreate now m1)"
  "atomic (warning_vClear now m2)" "atomic (insert_comment_tx inet now usr cast topic replyto msg nicks markup ip agent)"
  "atomic (edit_comment_tx local now usr n row msg)"
  "atomic (set_reaction_tx now usr topic comment b reaction)" "atomic (vote_tx poll usr sel)" "atomic (user_stApply rfc now mut)" "atomic (pg_stDeleteByIp inet now m c4)"
  unfolding options_vSet_def deletion_repo_stDelete_def deletion_repo_vUndelete_def comment_repo_vUndelete_def
    repo_vUncommit_def repo_vMove_def repo_vResolve_def warning_iCreate_def warning_vClear_def user_stApply_def
    comment_repo_stDelete_def pg_stDeleteByIp_def insert_comment_tx_def edit_comment_tx_def Let_def
    set_reaction_tx_def vote_tx_def
  by (rule atomic_transaction atomic_then_read)+

lemma atomic_keeps: "atomic m \<Longrightarrow> keeps I m \<Longrightarrow> m db = (r, db') \<Longrightarrow> I db \<Longrightarrow> I db'"
  by (cases r) (auto simp: atomic_def keeps_def)

subsection \<open>Every operation keeps a store invariant\<close>

context store_invariant
begin

lemma keeps_topic_ops:
  "keeps I (options_vSet now opts)" "keeps I (deletion_repo_stDelete now a1 t1 c1)"
  "keeps I (deletion_repo_vUndelete now t1)" "keeps I (repo_vUncommit i)"
  "keeps I (repo_vResolve i b)" "keeps I (repo_vMove now c3)"
  unfolding options_vSet_def deletion_repo_stDelete_def deletion_repo_vUndelete_def deletion_vDeleteTopicEvents_def
    vNotifyTopicDeleted_def Let_def repo_vUncommit_def repo_vResolve_def repo_vMove_def move_topic_row_def append_move_info_def
  by (intro inv_rules; simp add: set_options_row_def del_event_def)+

lemma keeps_comment_ops:
  "keeps I (comment_repo_stDelete now a t c)" "keeps I (comment_repo_vUndelete now t)"
proof -
  have one: "keeps I (bDeleteOne now i u1 iBy s req tid b)" for i u1 iBy s req tid b
    unfolding bDeleteOne_def iEffectiveBonus_def vNotifyDeleted_def
    by (intro inv_rules; simp add: del_event_def)
  have loop: "keeps I (delete_replies now a t low nodes)" for low nodes
  proof (induction nodes)
    case (Cons n nodes)
    then show ?case unfolding delete_replies.simps Let_def split_def by (intro keeps one)
  qed (simp only: delete_replies.simps keeps)
  show "keeps I (comment_repo_stDelete now a t c)"
    unfolding comment_repo_stDelete_def comment_delete_body_def delete_reply_tree_def finish_deletion_def
      subtract_comments_def vDeleteEvents_def
    by (intro inv_rules one loop; simp)
  show "keeps I (comment_repo_vUndelete now t)"
    unfolding comment_repo_vUndelete_def by (intro inv_rules; simp)
qed

lemma keeps_warning_ops: "keeps I (warning_iCreate now m)" "keeps I (warning_vClear now c)"
proof -
  have loop: "keeps I (notify_all m i rs)" for i rs
  proof (induction rs)
    case (Cons r rs)
    then show ?case unfolding notify_all.simps by (intro inv_rules) (simp add: warning_event_def)
  qed (simp only: notify_all.simps keeps)
  have upd: "keeps I (vUpdateTopicWarnings now i)" for i
    by (auto simp: keeps_def vUpdateTopicWarnings_def intro!: topics_inv)
  have ins: "keeps I (insert_warning now m)"
    using other_inv by (auto simp: keeps_def insert_warning_def Let_def split: if_splits)
  show "keeps I (warning_iCreate now m)" "keeps I (warning_vClear now c)"
    unfolding warning_iCreate_def warning_vClear_def by (intro inv_rules loop upd ins)+
qed

lemma keeps_mass:
  "keeps I (mass_delete_topics ids)" "keeps I (mass_delete_comments now ids)"
  "keeps I (mass_vDeleteTopicEvents ids)" "keeps I (vDeleteCommentEvents ids)"
proof -
  show "keeps I (mass_delete_topics ids)"
  proof (induction ids)
    case (Cons i ids)
    then show ?case unfolding mass_delete_topics.simps by (intro inv_rules; simp)
  qed (simp only: mass_delete_topics.simps keeps)
  have count: "keeps I (drop_comment_count now i)" for i
    unfolding drop_comment_count_def by (intro inv_rules; simp)
  show "keeps I (mass_delete_comments now ids)"
  proof (induction ids)
    case (Cons i ids)
    then show ?case unfolding mass_delete_comments.simps split_def by (intro inv_rules count; simp)
  qed (simp only: mass_delete_comments.simps keeps)
  show "keeps I (mass_vDeleteTopicEvents ids)" "keeps I (vDeleteCommentEvents ids)"
    unfolding mass_vDeleteTopicEvents_def vDeleteCommentEvents_def by (intro inv_rules)+
qed

lemma keeps_user_ops: "keeps I (user_stApply rfc now mut)"
proof -
  have log: "keeps I (vLog now t m a info)" for t m a info
    unfolding vLog_def by (rule keeps_other)
  have rec: "keeps I (record_deletions now m ids)" for m ids
  proof (induction ids)
    case (Cons i ids)
    then show ?case unfolding record_deletions.simps by (intro inv_rules)
  qed (simp only: record_deletions.simps keeps)
  have field: "keeps I (clear_field now t m get present clear d a info)"
    if "\<And>r. pu_id (clear r) = pu_id r" "\<And>r. pu_unread_events (clear r) = pu_unread_events r"
    for t m get present clear d a info
    unfolding clear_field_def update_user_score_def by (intro keeps keeps_scores log) (simp_all add: that)
  have score50: "keeps I (exec_update db_users db_users_update p
      (\<lambda>r. r\<lparr>pu_score := map_option (max 50) (pu_score r), pu_max_score := g r\<rparr>))" for p g
  proof (rule keeps_users)
    fix r :: pg_user
    assume "in_i32_opt (pu_score r)"
    then show "in_i32_opt (pu_score (r\<lparr>pu_score := map_option (max 50) (pu_score r), pu_max_score := g r\<rparr>))"
      by (cases "pu_score r") (auto simp: in_i32_def)
  qed simp_all
  have blk: "keeps I (vBlock now t m s)" for t m s
    unfolding vBlock_def update_user_def by (intro keeps keeps_users log keeps_other; simp)
  have mass: "keeps I (stMassDelete now t m)" for t m
    unfolding stMassDelete_def split_def by (intro keeps keeps_mass rec)
  show ?thesis
    unfolding user_stApply_def apply_body_def
    by (cases mut; simp only: EnUserModerationMutation.case update_user_def;
        (intro keeps blk mass keeps_other log field score50 keeps_users; simp))
qed

lemma keeps_address_ops: "keeps I (pg_stDeleteByIp inet now m c)"
proof -
  have rec: "keeps I (ip_record_deletions now m s ids)" for s ids
  proof (induction ids)
    case (Cons i ids)
    then show ?case unfolding ip_record_deletions.simps by (intro inv_rules)
  qed (simp only: ip_record_deletions.simps keeps)
  have events: "keeps I (\<lambda>db. if b then (Inr (), db) else insert_events (map f (g db)) db)"
    if "\<And>x. ue_unread (f x)" for b and f :: "'x \<Rightarrow> pg_event" and g
    using keeps_insert_events [of "map f (g _)"] that by (auto simp: keeps_def list_all_iff)
  have told_all: "keeps I (vNotifyDeletedTopics now ids m s)" "keeps I (vNotifyDeletedComments now ids m s)" for ids s
    unfolding vNotifyDeletedTopics_def vNotifyDeletedComments_def by (rule events, simp add: deletion_notice_def)+
  have cast: "keeps I (inet_or_fail inet s f)" if "\<And>ip. keeps I (f ip)" for s and f :: "rstr \<Rightarrow> 'x pg_eff"
    using that by (auto simp: keeps_def inet_or_fail_def split: option.splits)
  show ?thesis
    unfolding pg_stDeleteByIp_def ip_delete_body_def ip_topics_eq ip_comments_eq ip_events_eq split_def
    by (intro keeps cast keeps_mass rec told_all)
qed

lemma keeps_new_comment: "keeps I (insert_comment_tx inet now usr cast topic replyto msg nicks markup ip agent)"
proof -
  have told: "keeps I (notify_comment k topic i sel)" for k i sel
  proof -
    have "keeps I (insert_events (map (comment_event k topic i) (sel db)))" for db
      by (rule keeps_insert_events) (simp add: list_all_iff comment_event_def)
    then show ?thesis by (auto simp: keeps_def notify_comment_def bind_eff_Inr_iff)
  qed
  have row: "I db'" if db: "I db" and run: "insert_comment_row inet now usr topic replyto msg markup ip agent db = (Inr i, db')"
    and reply: "check_reply topic replyto db = (Inr x, db)" for i x db db'
  proof -
    from run obtain ua addr as n where i: "i = db_msg_seq db"
      and fits: "comment_fits db (new_comment now usr topic replyto i addr ua)"
      and db': "db' = db\<lparr>db_msg_seq := i + 1, db_msgbase := db_msgbase db @ [\<lparr>pm_id = i, pm_message = msg, pm_markup = markup\<rparr>],
        db_user_agents := as, db_agent_seq := n, db_comments := db_comments db @ [new_comment now usr topic replyto i addr ua],
        db_topics := update_where (\<lambda>r. pt_id r = topic)
          (\<lambda>r. r\<lparr>pt_stat1 := pt_stat1 r + 1, pt_stat3 := pt_stat3 r + 1, pt_lastmod := now\<rparr>) (db_topics db),
        db_groups := update_where (\<lambda>g. Some (pg_id g) = map_option pt_groupid (topic_of db topic)) (pg_stat3_update (\<lambda>n. n + 1)) (db_groups db)\<rparr>"
      by (rule comment_row_Inr)
    let ?c = "new_comment now usr topic replyto i addr ua"
    let ?db1 = "db_agent_seq_update (\<lambda>_. n) (db_user_agents_update (\<lambda>_. as) (db_msgbase_update
        (\<lambda>rs. rs @ [\<lparr>pm_id = i, pm_message = msg, pm_markup = markup\<rparr>]) (db_msg_seq_update (\<lambda>n. n + 1) db)))"
    have "well_answered db ?c"
      using reply by (auto simp: well_answered_def new_comment_def check_reply_Inr comment_of_def find_Some_iff)
        (metis nth_mem)
    moreover have "I ?db1" by (intro other_inv db)
    ultimately have "I (db_comments_update (\<lambda>rs. rs @ [?c]) ?db1)"
      using add_comment_inv [OF db, of ?c ?db1] fits i by (simp add: new_comment_def comment_fits_def)
    then have all: "I (db_groups_update (\<lambda>_. db_groups db') (db_topics_update (update_where (\<lambda>r. pt_id r = topic)
        (\<lambda>r. r\<lparr>pt_stat1 := pt_stat1 r + 1, pt_stat3 := pt_stat3 r + 1, pt_lastmod := now\<rparr>)) (db_comments_update (\<lambda>rs. rs @ [?c]) ?db1)))"
      (is "I ?all") by (intro other_inv topics_inv) simp_all
    have "db' = ?all" by (rule pg.equality) (simp_all add: db' i)
    with all show ?thesis by simp
  qed
  have start: "keeps I (bind_eff (check_reply topic replyto) (\<lambda>_. insert_comment_row inet now usr topic replyto msg markup ip agent))"
    unfolding keeps_def bind_eff_Inr_iff using row by (auto simp: check_reply_Inr)
  have assoc: "bind_eff (check_reply topic replyto) (\<lambda>_. bind_eff (insert_comment_row inet now usr topic replyto msg markup ip agent) f)
      = bind_eff (bind_eff (check_reply topic replyto) (\<lambda>_. insert_comment_row inet now usr topic replyto msg markup ip agent)) f"
    for f :: "int \<Rightarrow> (int \<times> int list) pg_eff"
    by (rule ext) (simp add: bind_eff_def split: prod.splits sum.splits)
  show ?thesis
    unfolding insert_comment_tx_def Let_def assoc by (intro inv_rules start told)
qed

lemma keeps_edit_comment: "keeps I (edit_comment_tx local now usr i row msg)"
proof -
  have "keeps I (next_val db_edit_seq db_edit_seq_update m)" for m
    using other_inv by (auto simp: keeps_def next_val_def)
  moreover have "keeps I (exec_insert db_edit_info db_edit_info_update ok r)" for ok r
    using other_inv by (auto simp: keeps_def exec_insert_def)
  moreover have "keeps I (\<lambda>db. exec_update db_comments db_comments_update p (f db) db)"
    if "\<And>db r. (pc_id (f db r), pc_topic (f db r), pc_replyto (f db r)) = (pc_id r, pc_topic r, pc_replyto r)" for p f
    using comments_inv [OF that] by (auto simp: keeps_def exec_update_def)
  ultimately show ?thesis
    unfolding edit_comment_tx_def Let_def by (intro inv_rules; simp)
qed

lemma keeps_vote: "keeps I (vote_tx poll usr sel)"
proof -
  have store: "keeps I (store_votes poll usr ids)" for ids
  proof (induction ids)
    case (Cons i ids)
    have "keeps I (insert_vote poll usr i)"
      using other_inv by (auto simp: keeps_def insert_vote_def Let_def bind_eff_Inr_iff exec_insert_def split: if_splits)
    moreover have "keeps I (exec_update_checked db_polls_variants db_polls_variants_update p f ok)" for p f ok
      using other_inv by (auto simp: keeps_def exec_update_checked_def exec_update_def split: if_splits)
    ultimately show ?case using Cons unfolding store_votes.simps by (intro keeps)
  qed (simp only: store_votes.simps keeps)
  then show ?thesis unfolding vote_tx_def record_votes_def by (intro inv_rules)
qed

lemma delete_recount_inv:
  assumes "I db" and "\<And>e. p e \<Longrightarrow> ue_userid e = t"
    and "exec_delete db_events_update p db = (Inr (), db1)" and "recalculate_unread [t] db1 = (Inr (), db')"
  shows "I db'"
proof -
  have db1: "db1 = db_events_update (filter (\<lambda>e. \<not> p e)) db" using assms(3) by (simp add: exec_delete_def)
  obtain db2 where del: "delete_events p db = (Inr (), db2)" using delete_events_total by blast
  have "set (map ue_userid (filter p (db_events db))) \<subseteq> {t}" using assms(2) by auto
  then have ids: "remdups (map ue_userid (filter p (db_events db))) = [] \<or> remdups (map ue_userid (filter p (db_events db))) = [t]"
    by (metis (no_types, lifting) distinct_remdups set_remdups distinct.simps(2) list.exhaust list.set_intros(1,2) singletonD subsetD)
  have again: "recalculate_unread [t] (snd (recalculate_unread [t] d)) = recalculate_unread [t] d" for d
    by (rule prod_eqI) (auto simp: recalculate_unread_def unread_count_def update_where_def comp_def intro!: pg.equality)
  have "recalculate_unread [t] db2 = recalculate_unread [t] db1"
    using ids
  proof
    assume "remdups (map ue_userid (filter p (db_events db))) = []"
    with del show ?thesis by (simp only: delete_events_def Let_def db1 if_False simp_thms prod.inject)
  next
    assume "remdups (map ue_userid (filter p (db_events db))) = [t]"
    with del have "recalculate_unread [t] db1 = (Inr (), db2)" unfolding db1 by (simp only: delete_events_def Let_def) simp
    with again [of db1] show ?thesis by simp
  qed
  with assms(4) show "I db'" using recalculate_inv delete_events_inv [OF assms(1) del] by metis
qed

lemma keeps_reaction: "keeps I (set_reaction_tx now usr topic comment b reaction)"
  unfolding keeps_def
proof (intro allI impI)
  fix db a db'
  assume db: "I db" and run: "set_reaction_tx now usr topic comment b reaction db = (Inr a, db')"
  obtain author n where a: "a = (author, n)" by (cases a)
  from set_reaction_steps [OF run [unfolded a]] obtain m db1 db2 db4 where
    upd: "update_reactions (if b then json_put usr reaction else json_drop usr) topic comment db = (Inr m, db1)"
    and log: "(if b then upsert_reaction now usr topic comment reaction
      else exec_delete db_reactions_log_update (log_key usr topic comment)) db1 = (Inr (), db2)"
    and ev: "(if b then (\<lambda>db. if wants_reactions db author usr then insert_reaction_event author usr topic comment db else (Inr (), db))
      else exec_delete db_events_update (\<lambda>e. ue_userid e = author \<and> event_key usr topic comment e \<and> ue_unread e))
        (bump_topic now topic db2) = (Inr (), db4)"
    and rec: "recalculate_unread [author] db4 = (Inr (), db')" by blast
  have "I db1"
    using upd db topics_inv comments_inv
    by (auto simp: update_reactions_def bind_eff_Inr_iff exec_update_def split: option.splits)
  then have "I db2"
    using log other_inv by (auto simp: upsert_reaction_def exec_insert_def exec_delete_def split: if_splits)
  then have bump: "I (bump_topic now topic db2)" unfolding bump_topic_def by (rule topics_inv [rotated]) simp
  show "I db'"
  proof (cases b)
    case True
    with ev bump have "I db4"
      using insert_event_inv [of "reaction_event author topic comment usr"]
      by (auto simp: insert_reaction_event_def reaction_event_def split: if_splits)
    with rec show ?thesis using recalculate_inv by blast
  next
    case False
    with ev have "exec_delete db_events_update (\<lambda>e. ue_userid e = author \<and> event_key usr topic comment e \<and> ue_unread e)
      (bump_topic now topic db2) = (Inr (), db4)" by simp
    from delete_recount_inv [OF bump _ this rec] show ?thesis by blast
  qed
qed

lemmas keeps_ops = keeps_vote keeps_reaction keeps_topic_ops keeps_new_comment keeps_edit_comment keeps_comment_ops keeps_warning_ops keeps_user_ops keeps_address_ops

lemma post_history:
  assumes "post_step\<^sup>*\<^sup>* db db'" and "I db"
  shows "I db'"
  using assms(1)
proof (induction rule: rtranclp_induct)
  case (step db1 db2)
  from step(2) show ?case
    by cases (erule atomic_keeps [where I = I and db = db1, rotated 2], rule step(3), rule ops_atomic, rule keeps_ops)+
qed (rule assms(2))

lemma store_history:
  assumes "store_step\<^sup>*\<^sup>* db db'" and "I db" and blocks: "\<And>f db. I db \<Longrightarrow> I (db_b_ips_update f db)"
  shows "I db'"
  using assms(1)
proof (induction rule: rtranclp_induct)
  case (step db1 db2)
  from step(2) show ?case
  proof cases
    case post
    then show ?thesis using post_history [of db1 db2] step(3) by blast
  next
    case block
    then show ?thesis
      using step(3) blocks by (auto simp: pg_vBlockIp_def inet_or_fail_def upsert_ip_block_def split: option.splits)
  next
    case ban
    then show ?thesis using step(3) blocks
      by (auto simp: routes_ban_ip_def bind_eff_def of_result_def inet_or_fail_def upsert_ip_block_def ret_eff_def fail_eff_def
          split: option.splits sum.splits)
  qed
qed (rule assms(2))

end

subsection \<open>The invariants of every history\<close>

text \<open>C1: Unread counters never drift: whatever sequence of deletions, restorations, moderations, option
  changes, warnings, user moderations, new and edited comments, reactions, votes, deletions by address and blocks of addresses runs - some of them failing - a store in which every
  user's counter equals the number of that user's unread events remains one.\<close>

theorem unread_history:
  assumes "store_step\<^sup>*\<^sup>* db db'" and "unread_ok db"
  shows "unread_ok db'"
  using unread.store_history [OF assms] by simp

text \<open>C37: Every history keeps the store well-formed: users, topics, comments and deletion records keep
  unique keys and every score stays an \<open>int4\<close> value.\<close>

theorem keys_history:
  assumes "store_step\<^sup>*\<^sup>* db db'" and "pg_ok db"
  shows "pg_ok db'"
  using well_formed.store_history [OF assms] by simp

definition ex_history_end :: pg where
  "ex_history_end = snd (warning_vClear 3000 \<lparr>wc_iWarningId = 1, wc_iActorId = 8, wc_iTopicId = 5, wc_optCommentId = None\<rparr>
     (snd (user_stApply (\<lambda>_. []) 2000 (MBlockAndDelete 7 8 (u ''spam'')) ex_user_db)))"

lemma ex_history: "store_step\<^sup>*\<^sup>* ex_user_db ex_history_end"
proof -
  let ?m = "snd (user_stApply (\<lambda>_. []) 2000 (MBlockAndDelete 7 8 (u ''spam'')) ex_user_db)"
  have "store_step ex_user_db ?m" by (rule store_step.post [OF post_step.moderate [OF surjective_pairing]])
  moreover have "store_step ?m ex_history_end"
    unfolding ex_history_end_def by (rule store_step.post [OF post_step.clear [OF surjective_pairing]])
  ultimately show ?thesis by (meson converse_rtranclp_into_rtranclp r_into_rtranclp)
qed

theorem unread_history_witness: "unread_ok ex_history_end"
  by (rule unread_history [OF ex_history])
    (simp add: unread_ok_def unread_count_def ex_user_db_def ex_comment_db_def ex_db_def ex_user_def)

theorem keys_history_witness: "pg_ok ex_history_end"
  by (rule keys_history [OF ex_history ex_user_ok])

subsection \<open>Threads stay trees\<close>

text \<open>C38: The walk over the answers to a comment ends in every store the program reaches: after any history of
  operations - new comments, edits, deletions and the rest - on a store whose threads are in order,
  every comment still answers an earlier comment of its own topic, no number of the sequence
  is taken, and the walk from any comment returns each live answer at any depth, nothing else,
  and the answers to an answer before it.\<close>

theorem thread_walks:
  assumes "store_step\<^sup>*\<^sup>* db db'" and "threads_ok db"
  shows "threads_ok db' \<and> (\<exists>out. vecReplyNodesPostorder (db_comments db') i = Some out
    \<and> (\<forall>x. x \<in> set out \<longleftrightarrow> (\<exists>d c. x = reply_node d c \<and> live_reply (db_comments db') i d c))
    \<and> (\<forall>xs d p ys c. out = xs @ reply_node d p # ys \<and> c \<in> set (db_comments db') \<and> pc_replyto c = Some (pc_id p) \<and> \<not> pc_deleted c
        \<longrightarrow> reply_node (d + 1) c \<in> set xs))"
proof -
  have ok: "threads_ok db'" by (rule threads.store_history [OF assms]) (simp add: threads_ok_def well_answered_def)
  then have "replies_later (db_comments db')" by (auto simp: threads_ok_def replies_later_def)
  then obtain out where out: "vecReplyNodesPostorder (db_comments db') i = Some out"
    using vecReplyNodesPostorder_total by blast
  with vecReplyNodesPostorder_iff [OF out] ok show ?thesis by blast
qed

theorem thread_walks_witness:
  "\<exists>db' out. post_step ex_talk_db db' \<and> length (db_comments db') = 2 \<and> threads_ok db' \<and>
     vecReplyNodesPostorder (db_comments db') 1 = Some out"
proof -
  obtain db' where run: "insert_comment_tx Some 2000 8 True 5 (Some 1) (u ''hi'') [] [] (u ''1.2.3.4'') None ex_talk_db
      = (Inr (100, [7, 9]), db')" and two: "length (db_comments db') = 2" using ex_talk_insert by blast
  have step: "post_step ex_talk_db db'" by (rule post_step.add_comment [OF run])
  have "threads_ok ex_talk_db"
    by (simp add: threads_ok_def well_answered_def ex_talk_db_def ex_db_def ex_comment_def)
  from thread_walks [OF r_into_rtranclp [of store_step, OF store_step.post [OF step]] this, of 1] step two show ?thesis
    by (elim conjE exE) (intro exI conjI; assumption)
qed

subsection \<open>A decision about an address stands\<close>

definition ban_over :: "time \<Rightarrow> StIpBanCommand \<Rightarrow> bool" where
  "ban_over now b = (case ib_optBanUntil b of None \<Rightarrow> False | Some d \<Rightarrow> d \<le> now)"

text \<open>C25: A ban is enforced until its deadline and no longer, whatever happens in between: after a
  moderator has blocked an address and any history of deletions, restorations, warnings and
  moderations, nobody starts a topic from it before the deadline - unless the block admits
  registered users and he is one with at least 50 points who is not blocked himself; from the
  deadline on the address plays no part.\<close>

theorem ban_stands:
  assumes "pg_vBlockIp inet now m b db = (Inr (), db1)" and "post_step\<^sup>*\<^sup>* db1 (w_db w)"
    and "inet sIp = inet (ib_sIp b)"
    and "optCheckGroup (pg_add_topic inet now') g a sIp w = (Inr (Some p), w')"
  shows "if ban_over now' b
    then bPermitted p \<longleftrightarrow> \<not> store_frozen now' (w_db w) a \<and> (\<exists>level. group_level (w_db w) g = Some level \<and> may_post_level a level)
    else bPermitted p \<longrightarrow> ib_bAllowPosting b \<and> \<not> aa_bAnonymous a \<and> \<not> aa_bBlocked a \<and> 50 \<le> aa_iScore a"
proof -
  from group_check_spec_lemma [OF assms(4)] obtain level ip where lvl: "group_level (w_db w) g = Some level"
    and ip: "inet sIp = Some ip"
    and perm: "bPermitted p \<longleftrightarrow> \<not> store_frozen now' (w_db w) a \<and> may_post_level a level \<and> address_open now' (w_db w) ip a"
    by auto
  have "db_b_ips (w_db w) = db_b_ips db1" using blocks.post_history [OF assms(2)] by simp
  with vBlockIp_of [OF assms(1)] ip assms(3) have "ip_block_of (w_db w) ip = Some (ip_block_row now m b ip)"
    by (simp add: ip_block_of_def)
  with perm lvl show ?thesis
    by (auto simp: address_open_def block_active_def ip_block_row_def ban_over_def split: option.splits)
qed

definition ex_ban :: StIpBanCommand where
  "ex_ban = \<lparr>ib_sIp = u ''1.2.3.4'', ib_sReason = u ''spam'', ib_optBanUntil = Some 5000, ib_bAllowPosting = False,
     ib_bCaptchaRequired = False\<rparr>"

theorem ban_stands_witness:
  "\<exists>p. fst (optCheckGroup (pg_add_topic Some 4999) 10 ex_post_actor (u ''1.2.3.4'')
     \<lparr>w_db = snd (pg_vBlockIp Some 2000 8 ex_ban ex_post_db), w_queue = ()\<rparr>) = Inr (Some p) \<and> \<not> bPermitted p"
proof -
  let ?db = "snd (pg_vBlockIp Some 2000 8 ex_ban ex_post_db)"
  have ban: "pg_vBlockIp Some 2000 8 ex_ban ex_post_db = (Inr (), ?db)"
    by (simp add: pg_vBlockIp_def inet_or_fail_def upsert_ip_block_def)
  have run: "optCheckGroup (pg_add_topic Some 4999) 10 ex_post_actor (u ''1.2.3.4'') \<lparr>w_db = ?db, w_queue = ()\<rparr>
      = (Inr (Some (Some ([1087, 1086, 1089, 1090, 1080, 1085, 1075, 32, 1089, 32, 1101, 1090, 1086, 1075, 1086, 32, 73, 80, 32, 1072, 1076, 1088, 1077, 1089, 1072, 32, 1079, 1072, 1073, 1083, 1086, 1082, 1080, 1088, 1086, 1074, 1072, 1085] :: rstr) \<comment> \<open>posting s etogo IP adresa zablokirovan\<close>)), \<lparr>w_db = ?db, w_queue = ()\<rparr>)"
    by (simp add: optCheckGroup_def pg_add_topic_def bind_eff_def on_db_def pg_optGroupTopicRestriction_def
        pg_bIsUserFrozen_def pg_stIpBlockInfo_def inet_or_fail_def fetch_one_def ip_block_of_def block_active_def
        ex_post_db_def ex_post_actor_def ex_actor_def posting_defs postscore_defs user_frozen_def pg_vBlockIp_def
        upsert_ip_block_def ip_block_row_def ex_ban_def)
  from ban_stands [OF ban _ _ run] have "\<not> bPermitted (Some ([1087, 1086, 1089, 1090, 1080, 1085, 1075, 32, 1089, 32, 1101, 1090, 1086, 1075, 1086, 32, 73, 80, 32, 1072, 1076, 1088, 1077, 1089, 1072, 32, 1079, 1072, 1073, 1083, 1086, 1082, 1080, 1088, 1086, 1074, 1072, 1085] :: rstr) \<comment> \<open>posting s etogo IP adresa zablokirovan\<close>)"
    by (simp add: ban_over_def ex_ban_def ex_post_actor_def ex_actor_def)
  with run show ?thesis by simp
qed

end
