(* ===== verification/Topic_Edit.thy ===== *)
theory Topic_Edit
  imports Topic_Options Title
begin

section \<open>Editing, committing and publishing a topic\<close>

text \<open>
  The permission checks of \<open>src/domain/topic/edit.rs\<close> and the service of
  \<open>src/application/topic/edit.rs\<close>.  The repository's transaction, the queue and the realtime
  notifier are interfaces.  Parameters: \<open>mentions\<close> is the extraction of mentioned nicks from a
  text in a markup, \<open>month_before\<close> chrono's calendar subtraction of a month.
\<close>

subsection \<open>The model (src/domain/topic/edit.rs)\<close>

definition I_ARTICLES_SECTION :: int where "I_ARTICLES_SECTION = 6"
definition I_NEWS_SECTION :: int where "I_NEWS_SECTION = 1"
definition I_EDIT_PERIOD_DAYS :: int where "I_EDIT_PERIOD_DAYS = 14"

record StTopicEditActor =
  ea_iUserId :: int
  ea_iScore :: int
  ea_bModerator :: bool
  ea_bAdministrator :: bool
  ea_bCorrector :: bool
  ea_bBlocked :: bool

record StTopicEditRestrictions =
  er_bFrozen :: bool
  er_stIpBlock :: StIpBlockInfo

record StTopicEditGroup =
  eg_iId :: int
  eg_sTitle :: rstr
  eg_iSectionId :: int

record StTopicEditEditor =
  ee_iId :: int
  ee_sNick :: rstr
  ee_iScore :: int
  ee_bBlocked :: bool

record StTopicEditPollVariant =
  pv_iId :: int
  pv_sLabel :: rstr

record StTopicEditPoll =
  ep_iId :: int
  ep_bMultiSelect :: bool
  ep_vecVariants :: "StTopicEditPollVariant list"

record StTopicEditSnapshot =
  es_iTopicId :: int
  es_iAuthorId :: int
  es_sAuthorNick :: rstr
  es_iAuthorScore :: int
  es_iAuthorMaxScore :: int
  es_bAuthorBlocked :: bool
  es_bAuthorAnonymous :: bool
  es_bAuthorFrozen :: bool
  es_sStoredTitle :: rstr
  es_sMessage :: rstr
  es_sMarkup :: rstr
  es_optUrl :: "rstr option"
  es_optLinkText :: "rstr option"
  es_iGroupId :: int
  es_sGroupTitle :: rstr
  es_sGroupUrlName :: rstr
  es_iSectionId :: int
  es_sSectionTitle :: rstr
  es_sSectionPrefix :: rstr
  es_bSectionPremoderated :: bool
  es_bSectionPollAllowed :: bool
  es_bSectionImagePost :: bool
  es_bSectionImageAllowed :: bool
  es_bLinksAllowed :: bool
  es_bDeleted :: bool
  es_bDraft :: bool
  es_bCommitted :: bool
  es_bSticky :: bool
  es_bExpired :: bool
  es_iPostScore :: int
  es_dtPostDate :: time
  es_optCommitDate :: "time option"
  es_dtLastMod :: time
  es_bMinor :: bool
  es_vecTags :: "rstr list"
  es_optPoll :: "StTopicEditPoll option"
  es_vecGroups :: "StTopicEditGroup list"
  es_optLastEditMillis :: "int option"
  es_vecEditors :: "StTopicEditEditor list"

definition bCommittable :: "StTopicEditSnapshot \<Rightarrow> bool" where
  "bCommittable t \<longleftrightarrow> \<not> es_bCommitted t \<and> es_bSectionPremoderated t"

definition bCanBeMini :: "StTopicEditSnapshot \<Rightarrow> bool" where
  "bCanBeMini t \<longleftrightarrow> es_iSectionId t = I_NEWS_SECTION"



text \<open>A permission is its reason; \<open>None\<close> permits.\<close>

type_synonym StTopicEditPermission = "rstr option"

definition edit_bPermitted :: "StTopicEditPermission \<Rightarrow> bool" where
  "edit_bPermitted p \<longleftrightarrow> p = None"


subsection \<open>The checks (src/domain/topic/edit.rs)\<close>

definition edit_optIpBlockReason :: "StTopicEditActor \<Rightarrow> StIpBlockInfo \<Rightarrow> rstr option" where
  "edit_optIpBlockReason a b =
     (if \<not> ip_bBlocked b then None
      else if ea_bBlocked a \<or> ea_iScore a < USER_ANONYMOUS_LEVEL_SCORE
      then Some (([1087, 1086, 1089, 1090, 1080, 1085, 1075, 32, 1089, 32, 1101, 1090, 1086, 1075, 1086, 32, 73, 80, 32, 1072, 1076, 1088, 1077, 1089, 1072, 32, 1086, 1075, 1088, 1072, 1085, 1080, 1095, 1077, 1085, 32, 1076, 1083, 1103, 32, 1087, 1086, 1083, 1100, 1079, 1086, 1074, 1072, 1090, 1077, 1083, 1077, 1081, 32, 1089, 32, 115, 99, 111, 114, 101, 32, 60, 32] :: rstr) \<comment> \<open>posting s etogo IP adresa ogranichen dlya polzovatelej s score (lt) \<close> @ show_int USER_ANONYMOUS_LEVEL_SCORE)
      else if \<not> ip_bAllowRegisteredPosting b then Some ([1087, 1086, 1089, 1090, 1080, 1085, 1075, 32, 1089, 32, 1101, 1090, 1086, 1075, 1086, 32, 73, 80, 32, 1072, 1076, 1088, 1077, 1089, 1072, 32, 1079, 1072, 1073, 1083, 1086, 1082, 1080, 1088, 1086, 1074, 1072, 1085] :: rstr) \<comment> \<open>posting s etogo IP adresa zablokirovan\<close>
      else None)"

definition optPrecheckReason :: "StTopicEditSnapshot \<Rightarrow> StTopicEditActor \<Rightarrow> StTopicEditRestrictions \<Rightarrow> rstr option" where
  "optPrecheckReason t a r =
     (if es_bDeleted t then Some ([1085, 1077, 1083, 1100, 1079, 1103, 32, 1087, 1088, 1072, 1074, 1080, 1090, 1100, 32, 1091, 1076, 1072, 1083, 1077, 1085, 1085, 1099, 1077, 32, 1090, 1086, 1087, 1080, 1082, 1080] :: rstr) \<comment> \<open>nelzya pravit udalennye topiki\<close>
      else if er_bFrozen r then Some ([1091, 1089, 1090, 1072, 1085, 1086, 1074, 1083, 1077, 1085, 32, 1088, 1077, 1078, 1080, 1084, 32, 1090, 1086, 1083, 1100, 1082, 1086, 32, 1076, 1083, 1103, 32, 1095, 1090, 1077, 1085, 1080, 1103] :: rstr) \<comment> \<open>ustanovlen rezhim tolko dlya chteniya\<close>
      else edit_optIpBlockReason a (er_stIpBlock r))"

definition optLegacyMarkupReason :: "rstr \<Rightarrow> bool \<Rightarrow> rstr option" where
  "optLegacyMarkupReason sMarkup bAdministrator =
     then_some (\<not> (sMarkup = (u ''BBCODE_TEX'') \<or> sMarkup = (u ''BBCODE_ULB'') \<or> sMarkup = (u ''MARKDOWN'')
         \<or> bAdministrator \<and> sMarkup = (u ''PLAIN'')))
       (([1079, 1072, 1087, 1088, 1077, 1097, 1077, 1085, 1086, 32, 1088, 1077, 1076, 1072, 1082, 1090, 1080, 1088, 1086, 1074, 1072, 1085, 1080, 1077, 32, 1090, 1077, 1082, 1089, 1090, 1086, 1074, 32, 1074, 32, 1092, 1086, 1088, 1084, 1072, 1090, 1077, 32] :: rstr) \<comment> \<open>zapreshcheno redaktirovanie tekstov v formate \<close> @ sMarkup)"

definition optAuthorEditReason :: "StTopicEditSnapshot \<Rightarrow> StTopicEditActor \<Rightarrow> time \<Rightarrow> rstr option" where
  "optAuthorEditReason t a dtNow =
     (if es_iAuthorId t \<noteq> ea_iUserId a then Some ([1085, 1077, 1083, 1100, 1079, 1103, 32, 1087, 1088, 1072, 1074, 1080, 1090, 1100, 32, 1095, 1091, 1078, 1080, 1077, 32, 1090, 1086, 1087, 1080, 1082, 1080] :: rstr) \<comment> \<open>nelzya pravit chuzhie topiki\<close>
      else if es_bDraft t then None
      else if es_bCommitted t \<and> es_bSectionPremoderated t \<and> es_iSectionId t \<noteq> I_ARTICLES_SECTION
      then Some ([1074, 32, 1101, 1090, 1086, 1084, 32, 1088, 1072, 1079, 1076, 1077, 1083, 1077, 32, 1085, 1077, 1083, 1100, 1079, 1103, 32, 1087, 1088, 1072, 1074, 1080, 1090, 1100, 32, 1087, 1086, 1076, 1090, 1074, 1077, 1088, 1078, 1076, 1077, 1085, 1085, 1099, 1077, 32, 1090, 1086, 1087, 1080, 1082, 1080] :: rstr) \<comment> \<open>v etom razdele nelzya pravit podtverzhdennye topiki\<close>
      else if \<not> es_bCommitted t \<and> (es_bSticky t \<or> es_bSectionPremoderated t) then None
      else
        let dtBase = (if es_bCommitted t \<and> es_iSectionId t = I_ARTICLES_SECTION
              then (case es_optCommitDate t of None \<Rightarrow> es_dtPostDate t | Some d \<Rightarrow> d)
              else es_dtPostDate t)
        in then_some (dtBase + days I_EDIT_PERIOD_DAYS < dtNow) ([1080, 1089, 1090, 1077, 1082, 32, 1089, 1088, 1086, 1082, 32, 1088, 1077, 1076, 1072, 1082, 1090, 1080, 1088, 1086, 1074, 1072, 1085, 1080, 1103, 32, 1090, 1086, 1087, 1080, 1082, 1072] :: rstr) \<comment> \<open>istek srok redaktirovaniya topika\<close>)"

definition stCheckCommit ::
    "StTopicEditSnapshot \<Rightarrow> StTopicEditActor \<Rightarrow> StTopicEditRestrictions \<Rightarrow> StTopicEditPermission" where
  "stCheckCommit t a r =
     or_else (then_some (\<not> ea_bModerator a \<and> \<not> ea_bCorrector a) ([1090, 1086, 1083, 1100, 1082, 1086, 32, 1076, 1083, 1103, 32, 1082, 1086, 1088, 1088, 1077, 1082, 1090, 1086, 1088, 1086, 1074, 32, 1080, 32, 1084, 1086, 1076, 1077, 1088, 1072, 1090, 1086, 1088, 1086, 1074] :: rstr) \<comment> \<open>tolko dlya korrektorov i moderatorov\<close>)
     (or_else (then_some (ea_bCorrector a \<and> es_iAuthorId t = ea_iUserId a) ([1085, 1077, 1083, 1100, 1079, 1103, 32, 1087, 1086, 1076, 1090, 1074, 1077, 1088, 1078, 1076, 1072, 1090, 1100, 32, 1089, 1086, 1073, 1089, 1090, 1074, 1077, 1085, 1085, 1099, 1077, 32, 1090, 1086, 1087, 1080, 1082, 1080] :: rstr) \<comment> \<open>nelzya podtverzhdat sobstvennye topiki\<close>)
       (optPrecheckReason t a r))"

definition stCheckContentEdit ::
    "StTopicEditSnapshot \<Rightarrow> StTopicEditActor \<Rightarrow> StTopicEditRestrictions \<Rightarrow> time \<Rightarrow> StTopicEditPermission" where
  "stCheckContentEdit t a r dtNow =
     (case optPrecheckReason t a r of Some s \<Rightarrow> Some s
      | None \<Rightarrow> (case optLegacyMarkupReason (es_sMarkup t) (ea_bAdministrator a) of Some s \<Rightarrow> Some s
        | None \<Rightarrow>
            if ea_bAdministrator a then None
            else if es_bExpired t \<and> \<not> es_bDraft t then Some ([1085, 1077, 1083, 1100, 1079, 1103, 32, 1087, 1088, 1072, 1074, 1080, 1090, 1100, 32, 1072, 1088, 1093, 1080, 1074, 1085, 1099, 1077, 32, 1090, 1086, 1087, 1080, 1082, 1080] :: rstr) \<comment> \<open>nelzya pravit arkhivnye topiki\<close>
            else if ea_bModerator a then None
            else if es_iPostScore t = POSTSCORE_NO_COMMENTS
            then Some ([1085, 1077, 1083, 1100, 1079, 1103, 32, 1087, 1088, 1072, 1074, 1080, 1090, 1100, 32, 1090, 1086, 1087, 1080, 1082, 1080, 32, 1089, 32, 1074, 1099, 1082, 1083, 1102, 1095, 1077, 1085, 1085, 1099, 1084, 1080, 32, 1082, 1086, 1084, 1084, 1077, 1085, 1090, 1072, 1088, 1080, 1103, 1084, 1080] :: rstr) \<comment> \<open>nelzya pravit topiki s vyklyuchennymi kommentariyami\<close>
            else if ea_bCorrector a \<and> es_bSectionPremoderated t then None
            else optAuthorEditReason t a dtNow))"

definition stCheckTagsEdit ::
    "StTopicEditSnapshot \<Rightarrow> StTopicEditActor \<Rightarrow> StTopicEditRestrictions \<Rightarrow> time \<Rightarrow> StTopicEditPermission" where
  "stCheckTagsEdit t a r dtNow =
     (case optPrecheckReason t a r of Some s \<Rightarrow> Some s
      | None \<Rightarrow> if ea_bAdministrator a \<or> ea_bModerator a \<or> ea_bCorrector a then None
               else optAuthorEditReason t a dtNow)"

subsection \<open>Commands and interfaces\<close>

record StTopicEditPollValue =
  pl_iVariantId :: int
  pl_sLabel :: rstr

record StTopicEditCommand =
  ec_iTopicId :: int
  ec_iEditorId :: int
  ec_optTitle :: "rstr option"
  ec_optMessage :: "rstr option"
  ec_optUrl :: "rstr option"
  ec_optLinkText :: "rstr option"
  ec_optTags :: "rstr list option"
  ec_bMinor :: bool
  ec_bCommit :: bool
  ec_bPublish :: bool
  ec_optChangeGroupId :: "int option"
  ec_iBonus :: int
  ec_vecEditorBonus :: "(int \<times> int) list"
  ec_optPoll :: "StTopicEditPollValue list option"
  ec_bMultiSelect :: bool
  ec_vecPreviewNames :: "rstr list"
  ec_sUploadRoot :: rstr
  ec_vecMentionedNicks :: "rstr list"
  ec_bSendTagEvents :: bool
  ec_bNewMessageDraft :: bool

record StTopicEditMutationResult =
  em_bModified :: bool
  em_vecNotifiedUserIds :: "int list"


record 'w TrTopicEditRepository =
  ter_optSnapshot :: "int \<Rightarrow> ('w, app_error, StTopicEditSnapshot option) eff"
  ter_stRestrictions :: "int \<Rightarrow> rstr \<Rightarrow> ('w, app_error, StTopicEditRestrictions) eff"
  ter_vecNewTags :: "rstr list \<Rightarrow> ('w, app_error, rstr list) eff"
  ter_stUpdateAndCommit :: "StTopicEditCommand \<Rightarrow> ('w, app_error, StTopicEditMutationResult) eff"

subsection \<open>The service (src/application/topic/edit.rs)\<close>


record StPreparedTopicEdit =
  pe_stSnapshot :: StTopicEditSnapshot
  pe_stContentPermission :: StTopicEditPermission
  pe_stTagsPermission :: StTopicEditPermission
  pe_stCommitPermission :: StTopicEditPermission


definition bMiniEditable :: "StPreparedTopicEdit \<Rightarrow> bool" where
  "bMiniEditable p \<longleftrightarrow> bCanBeMini (pe_stSnapshot p) \<and> edit_bPermitted (pe_stCommitPermission p)"


definition stPrepared ::
    "StTopicEditSnapshot \<Rightarrow> StTopicEditActor \<Rightarrow> StTopicEditRestrictions \<Rightarrow> time \<Rightarrow> StPreparedTopicEdit" where
  "stPrepared t a r dtNow =
     \<lparr>pe_stSnapshot = t, pe_stContentPermission = stCheckContentEdit t a r dtNow,
      pe_stTagsPermission = stCheckTagsEdit t a r dtNow, pe_stCommitPermission = stCheckCommit t a r\<rparr>"

text \<open>\<open>try_join!\<close> runs both reads; the model runs them in turn.\<close>

definition edit_stPrepare ::
    "'w TrTopicEditRepository \<Rightarrow> int \<Rightarrow> StTopicEditActor \<Rightarrow> rstr \<Rightarrow> time \<Rightarrow> ('w, app_error, StPreparedTopicEdit) eff" where
  "edit_stPrepare repo iTopicId stActor sRemoteIp dtNow =
     bind_eff (ter_optSnapshot repo iTopicId) (\<lambda>r.
     bind_eff (ter_stRestrictions repo (ea_iUserId stActor) sRemoteIp) (\<lambda>stRestrictions.
     bind_eff (of_result (ok_or NotFound r)) (\<lambda>stSnapshot.
     ret_eff (stPrepared stSnapshot stActor stRestrictions dtNow))))"


definition stPrepareCommitForm ::
    "'w TrTopicEditRepository \<Rightarrow> int \<Rightarrow> StTopicEditActor \<Rightarrow> rstr \<Rightarrow> time \<Rightarrow> ('w, app_error, StPreparedTopicEdit) eff" where
  "stPrepareCommitForm repo iTopicId stActor sRemoteIp dtNow =
     (if \<not> ea_bCorrector stActor \<and> \<not> ea_bModerator stActor then fail_eff Forbidden else
      bind_eff (edit_stPrepare repo iTopicId stActor sRemoteIp dtNow) (\<lambda>p.
      if es_bCommitted (pe_stSnapshot p) then fail_eff (BadRequest ([1058, 1086, 1087, 1080, 1082, 32, 1091, 1078, 1077, 32, 1087, 1086, 1076, 1090, 1074, 1077, 1088, 1078, 1076, 1077, 1085] :: rstr) \<comment> \<open>Topik uzhe podtverzhden\<close>)
      else if \<not> bCommittable (pe_stSnapshot p) then fail_eff (BadRequest ([1069, 1090, 1086, 1090, 32, 1090, 1086, 1087, 1080, 1082, 32, 1085, 1077, 1083, 1100, 1079, 1103, 32, 1087, 1086, 1076, 1090, 1074, 1077, 1088, 1076, 1080, 1090, 1100] :: rstr) \<comment> \<open>Etot topik nelzya podtverdit\<close>)
      else if \<not> edit_bPermitted (pe_stCommitPermission p) then fail_eff Forbidden
      else ret_eff p))"




subsection \<open>Submitting the form (src/application/topic/edit.rs)\<close>














subsection \<open>Who may edit\<close>

text \<open>The conditions of the checks, without their order.\<close>

definition not_restricted :: "StTopicEditSnapshot \<Rightarrow> StTopicEditActor \<Rightarrow> StTopicEditRestrictions \<Rightarrow> bool" where
  "not_restricted t a r \<longleftrightarrow> \<not> es_bDeleted t \<and> \<not> er_bFrozen r \<and>
     (ip_bBlocked (er_stIpBlock r) \<longrightarrow> \<not> ea_bBlocked a \<and> 50 \<le> ea_iScore a \<and> ip_bAllowRegisteredPosting (er_stIpBlock r))"

definition author_window :: "StTopicEditSnapshot \<Rightarrow> StTopicEditActor \<Rightarrow> time \<Rightarrow> bool" where
  "author_window t a now \<longleftrightarrow> es_iAuthorId t = ea_iUserId a \<and>
     (es_bDraft t
      \<or> \<not> es_bCommitted t \<and> (es_bSticky t \<or> es_bSectionPremoderated t)
      \<or> (es_bCommitted t \<and> es_bSectionPremoderated t \<longrightarrow> es_iSectionId t = 6) \<and>
        now \<le> days 14 + (if es_bCommitted t \<and> es_iSectionId t = 6
          then (case es_optCommitDate t of None \<Rightarrow> es_dtPostDate t | Some d \<Rightarrow> d) else es_dtPostDate t))"

lemma precheck_None: "optPrecheckReason t a r = None \<longleftrightarrow> not_restricted t a r"
  by (auto simp: optPrecheckReason_def edit_optIpBlockReason_def not_restricted_def USER_ANONYMOUS_LEVEL_SCORE_def)

lemma author_None: "optAuthorEditReason t a now = None \<longleftrightarrow> author_window t a now"
  by (auto simp: optAuthorEditReason_def author_window_def Let_def I_ARTICLES_SECTION_def I_EDIT_PERIOD_DAYS_def
      split: option.splits)

lemma tags_permitted: "edit_bPermitted (stCheckTagsEdit t a r now) \<longleftrightarrow> not_restricted t a r \<and>
    (ea_bAdministrator a \<or> ea_bModerator a \<or> ea_bCorrector a \<or> author_window t a now)"
  by (auto simp: edit_bPermitted_def stCheckTagsEdit_def author_None simp flip: precheck_None split: option.splits)

lemma content_permitted: "edit_bPermitted (stCheckContentEdit t a r now) \<longleftrightarrow> not_restricted t a r \<and>
    (es_sMarkup t \<in> {(u ''BBCODE_TEX''), (u ''BBCODE_ULB''), (u ''MARKDOWN'')} \<or> ea_bAdministrator a \<and> es_sMarkup t = (u ''PLAIN'')) \<and>
    (ea_bAdministrator a \<or> (es_bExpired t \<longrightarrow> es_bDraft t) \<and> (ea_bModerator a \<or> es_iPostScore t \<noteq> 10001 \<and>
       (ea_bCorrector a \<and> es_bSectionPremoderated t \<or> author_window t a now)))"
  by (auto simp: edit_bPermitted_def stCheckContentEdit_def author_None optLegacyMarkupReason_def then_some_def
      POSTSCORE_NO_COMMENTS_def simp flip: precheck_None split: option.splits)

lemma commit_permitted: "edit_bPermitted (stCheckCommit t a r) \<longleftrightarrow> not_restricted t a r \<and>
    (ea_bModerator a \<or> ea_bCorrector a) \<and> \<not> (ea_bCorrector a \<and> es_iAuthorId t = ea_iUserId a)"
  by (auto simp: edit_bPermitted_def stCheckCommit_def simp flip: precheck_None)

lemma author_window_fades: "author_window t a now' \<Longrightarrow> now \<le> now' \<Longrightarrow> author_window t a now"
  by (auto simp: author_window_def)

text \<open>C35: Who may edit a topic.  Nobody edits the text, the tags or commits a deleted topic, while frozen or
  from an address blocked for him; whoever may edit the text may edit the tags; both rights only fade with time;
  only moderators and correctors commit, and a corrector never an own topic; and an ordinary user edits text or tags of
  somebody else's topic never, of an own one only while it is a draft or pending, or within fourteen days.\<close>

theorem edit_rights:
  shows "(edit_bPermitted (stCheckContentEdit t a r now) \<or> edit_bPermitted (stCheckTagsEdit t a r now) \<or> edit_bPermitted (stCheckCommit t a r)
      \<longrightarrow> \<not> es_bDeleted t \<and> \<not> er_bFrozen r \<and>
        (ip_bBlocked (er_stIpBlock r) \<longrightarrow> \<not> ea_bBlocked a \<and> 50 \<le> ea_iScore a \<and> ip_bAllowRegisteredPosting (er_stIpBlock r)))
    \<and> (edit_bPermitted (stCheckContentEdit t a r now) \<longrightarrow> edit_bPermitted (stCheckTagsEdit t a r now))
    \<and> (\<forall>now1 \<le> now. (edit_bPermitted (stCheckContentEdit t a r now) \<longrightarrow> edit_bPermitted (stCheckContentEdit t a r now1)) \<and>
        (edit_bPermitted (stCheckTagsEdit t a r now) \<longrightarrow> edit_bPermitted (stCheckTagsEdit t a r now1)))
    \<and> (edit_bPermitted (stCheckCommit t a r) \<longrightarrow> (ea_bModerator a \<or> ea_bCorrector a) \<and> \<not> (ea_bCorrector a \<and> es_iAuthorId t = ea_iUserId a))
    \<and> (\<not> ea_bAdministrator a \<and> \<not> ea_bModerator a \<and> \<not> ea_bCorrector a \<and> edit_bPermitted (stCheckTagsEdit t a r now) \<longrightarrow>
         es_iAuthorId t = ea_iUserId a
         \<and> (es_bDraft t \<or> \<not> es_bCommitted t \<and> (es_bSticky t \<or> es_bSectionPremoderated t)
            \<or> (case es_optCommitDate t of None \<Rightarrow> now \<le> es_dtPostDate t + days 14
               | Some d \<Rightarrow> now \<le> max d (es_dtPostDate t) + days 14)))"
proof (intro conjI)
  show "\<forall>now1 \<le> now. (edit_bPermitted (stCheckContentEdit t a r now) \<longrightarrow> edit_bPermitted (stCheckContentEdit t a r now1)) \<and>
        (edit_bPermitted (stCheckTagsEdit t a r now) \<longrightarrow> edit_bPermitted (stCheckTagsEdit t a r now1))"
    using author_window_fades unfolding content_permitted tags_permitted by blast
  show "\<not> ea_bAdministrator a \<and> \<not> ea_bModerator a \<and> \<not> ea_bCorrector a \<and> edit_bPermitted (stCheckTagsEdit t a r now) \<longrightarrow>
         es_iAuthorId t = ea_iUserId a
         \<and> (es_bDraft t \<or> \<not> es_bCommitted t \<and> (es_bSticky t \<or> es_bSectionPremoderated t)
            \<or> (case es_optCommitDate t of None \<Rightarrow> now \<le> es_dtPostDate t + days 14
               | Some d \<Rightarrow> now \<le> max d (es_dtPostDate t) + days 14))"
    by (auto simp: tags_permitted author_window_def split: option.splits if_splits)
qed (auto simp: content_permitted tags_permitted commit_permitted not_restricted_def)

subsection \<open>What a submission may do\<close>






lemma append_Nil_iff: "xs @ ys = [] \<longleftrightarrow> xs = [] \<and> ys = []"
  by simp







subsection \<open>Examples\<close>

definition ex_snapshot :: StTopicEditSnapshot where
  "ex_snapshot = \<lparr>es_iTopicId = 5, es_iAuthorId = 7, es_sAuthorNick = [], es_iAuthorScore = 100, es_iAuthorMaxScore = 100,
     es_bAuthorBlocked = False, es_bAuthorAnonymous = False, es_bAuthorFrozen = False, es_sStoredTitle = u ''old'',
     es_sMessage = u ''text'', es_sMarkup = u ''MARKDOWN'', es_optUrl = None, es_optLinkText = None, es_iGroupId = 10,
     es_sGroupTitle = [], es_sGroupUrlName = u ''general'', es_iSectionId = 2, es_sSectionTitle = [],
     es_sSectionPrefix = u ''forum'', es_bSectionPremoderated = False, es_bSectionPollAllowed = False,
     es_bSectionImagePost = False, es_bSectionImageAllowed = False, es_bLinksAllowed = False, es_bDeleted = False,
     es_bDraft = False, es_bCommitted = False, es_bSticky = False, es_bExpired = False, es_iPostScore = 0,
     es_dtPostDate = 1000, es_optCommitDate = None, es_dtLastMod = 1000, es_bMinor = False, es_vecTags = [],
     es_optPoll = None, es_vecGroups = [], es_optLastEditMillis = None, es_vecEditors = []\<rparr>"

definition ex_edit_actor :: StTopicEditActor where
  "ex_edit_actor = \<lparr>ea_iUserId = 7, ea_iScore = 100, ea_bModerator = False, ea_bAdministrator = False,
     ea_bCorrector = False, ea_bBlocked = False\<rparr>"

definition ex_edit_free :: StTopicEditRestrictions where
  "ex_edit_free = \<lparr>er_bFrozen = False, er_stIpBlock = StIpBlockInfo_default\<rparr>"

lemma ex_edit_window: "edit_bPermitted (stCheckContentEdit ex_snapshot ex_edit_actor ex_edit_free 2000)"
  by (simp add: content_permitted not_restricted_def author_window_def ex_snapshot_def ex_edit_actor_def ex_edit_free_def
      StIpBlockInfo_default_def duration_defs)

theorem edit_rights_witness:
  "edit_bPermitted (stCheckTagsEdit ex_snapshot ex_edit_actor ex_edit_free 2000)
   \<and> \<not> edit_bPermitted (stCheckCommit ex_snapshot ex_edit_actor ex_edit_free)"
  using edit_rights [of ex_snapshot ex_edit_actor ex_edit_free 2000] ex_edit_window by (simp add: ex_edit_actor_def)







end
