(* ===== verification/Request_Filters.thy ===== *)
theory Request_Filters
  imports Binding Security
begin

section \<open>Filters in front of the handlers (src/csrf.rs, src/http_method_firewall.rs)\<close>

text \<open>
  The strict firewall, which refuses ambiguous request targets and unusual methods, and the
  CSRF filter: \<open>csrf_apply\<close> gives every request a token (that of its cookie, or a fresh one it
  then sets), \<open>validate_auto_post\<close> guards the POST handlers.  A handler is a function of the
  request; \<open>csrf_verdict\<close> says whether it ran.
\<close>

subsection \<open>The CSRF token\<close>

definition is_valid_token :: "(rstr \<Rightarrow> byte list option) \<Rightarrow> rstr \<Rightarrow> bool" where
  "is_valid_token b64_decode token =
     (let sToken = trim token in
      (case b64_decode sToken of None \<Rightarrow> False | Some vecToken \<Rightarrow> length vecToken = 16)
      \<or> (sToken \<noteq> [] \<and> utf8_len sToken \<le> 64 \<and> list_all is_ascii_alphanumeric sToken))"

datatype EnPostParameterBody = UrlEncoded | Multipart | NoParameters

definition enPostParameterBody :: "rstr option \<Rightarrow> EnPostParameterBody" where
  "enPostParameterBody optContentType =
     (case map_option (\<lambda>s. trim (hd (split_on 59 s))) optContentType of
        None \<Rightarrow> NoParameters
      | Some sMediaType \<Rightarrow>
          if eq_ignore_ascii_case sMediaType (u ''application/x-www-form-urlencoded'') then UrlEncoded
          else if eq_ignore_ascii_case sMediaType (u ''multipart/form-data'') then Multipart
          else NoParameters)"

text \<open>
  \<open>parse_multipart\<close> splits a body into fields (name and, when it can be read, text); \<open>None\<close> is a
  content type without a boundary.
\<close>

fun first_csrf :: "(rstr option \<times> rstr option) list \<Rightarrow> rstr option" where
  "first_csrf [] = None"
| "first_csrf ((name, val) # fs) =
     (if name = Some (u ''csrf'') then (case val of Some t \<Rightarrow> Some t | None \<Rightarrow> first_csrf fs) else first_csrf fs)"

definition optMultipartCsrf ::
    "(rstr \<Rightarrow> rstr \<Rightarrow> (rstr option \<times> rstr option) list option) \<Rightarrow> rstr \<Rightarrow> rstr \<Rightarrow> rstr option" where
  "optMultipartCsrf parse_multipart sContentType vecBody =
     Option.bind (parse_multipart sContentType vecBody) first_csrf"

definition optQueryCsrf :: "(rstr \<Rightarrow> params option) \<Rightarrow> rstr option \<Rightarrow> app_error + rstr option" where
  "optQueryCsrf parse optQuery =
     (case optQuery of None \<Rightarrow> Inr None
      | Some sQuery \<Rightarrow> and_then (parse_pairs_for_named_access parse sQuery) (\<lambda>q. Inr (form_get q (u ''csrf''))))"

definition bServletCsrfValid :: "params \<Rightarrow> rstr \<Rightarrow> bool" where
  "bServletCsrfValid vecParameters sExpected =
     (case form_get vecParameters (u ''csrf'') of None \<Rightarrow> False
      | Some sSubmitted \<Rightarrow> sSubmitted \<noteq> [] \<and> trim sSubmitted = trim sExpected)"

text \<open>A body is the list of its bytes; \<open>None\<close> is one that could not be read.\<close>

record StFilterRequest =
  fr_sMethod :: rstr
  fr_sPath :: rstr
  fr_optQuery :: "rstr option"
  fr_optContentType :: "rstr option"
  fr_optCsrfCookie :: "rstr option"
  fr_optBody :: "rstr option"

datatype 'r csrf_verdict = Handled 'r | Refused app_error | InvalidBody

definition body_limit :: "EnPostParameterBody \<Rightarrow> nat" where
  "body_limit b = (if b = Multipart then 30000000 else 1048576)"

definition body_csrf ::
    "(rstr \<Rightarrow> params option) \<Rightarrow> (rstr \<Rightarrow> rstr \<Rightarrow> (rstr option \<times> rstr option) list option) \<Rightarrow> rstr option \<Rightarrow> rstr \<Rightarrow> rstr option" where
  "body_csrf parse parse_multipart optContentType vecBytes =
     (case enPostParameterBody optContentType of
        Multipart \<Rightarrow> optMultipartCsrf parse_multipart (case optContentType of Some s \<Rightarrow> s | None \<Rightarrow> []) vecBytes
      | UrlEncoded \<Rightarrow> (case parse_pairs_for_named_access parse vecBytes of
            Inr vecForm \<Rightarrow> form_get vecForm (u ''csrf'') | Inl _ \<Rightarrow> None)
      | NoParameters \<Rightarrow> None)"

definition validate_auto_post ::
    "(rstr \<Rightarrow> params option) \<Rightarrow> (rstr \<Rightarrow> rstr \<Rightarrow> (rstr option \<times> rstr option) list option)
      \<Rightarrow> (StFilterRequest \<Rightarrow> 'r) \<Rightarrow> rstr option \<Rightarrow> StFilterRequest \<Rightarrow> 'r csrf_verdict" where
  "validate_auto_post parse parse_multipart next_handler optToken req =
     (if fr_sMethod req \<noteq> (u ''POST'') then Handled (next_handler req)
      else
     (let sExpected = (case optToken of Some t \<Rightarrow> t | None \<Rightarrow> []);
          enParameterBody = enPostParameterBody (fr_optContentType req) in
      case optQueryCsrf parse (fr_optQuery req) of
        Inl stError \<Rightarrow> Refused stError
      | Inr optQuerySubmitted \<Rightarrow>
     (case fr_optBody req of
        None \<Rightarrow> InvalidBody
      | Some vecBytes \<Rightarrow>
          if body_limit enParameterBody < length vecBytes then InvalidBody
          else
     (let optSubmitted = (if optQuerySubmitted \<noteq> None then optQuerySubmitted
            else body_csrf parse parse_multipart (fr_optContentType req) vecBytes) in
      if (case optSubmitted of None \<Rightarrow> False | Some sValue \<Rightarrow> trim sValue = trim sExpected)
      then Handled (next_handler req) else Refused Forbidden))))"

text \<open>The token of a request: that of a well-formed cookie, else the generated one.\<close>

definition existing_token :: "(rstr \<Rightarrow> byte list option) \<Rightarrow> rstr option \<Rightarrow> rstr option" where
  "existing_token b64_decode optCookie =
     (case map_option trim optCookie of None \<Rightarrow> None
      | Some v \<Rightarrow> if is_valid_token b64_decode v then Some v else None)"

definition csrf_apply ::
    "(rstr \<Rightarrow> byte list option) \<Rightarrow> rstr \<Rightarrow> ('r \<Rightarrow> nat) \<Rightarrow> (rstr \<Rightarrow> StFilterRequest \<Rightarrow> 'r) \<Rightarrow> bool \<Rightarrow> StFilterRequest
      \<Rightarrow> 'r \<times> (rstr \<times> bool) option" where
  "csrf_apply b64_decode generated status run is_secure req =
     (let bSecurityIgnored = bSpringSecurityIgnoredPath (fr_sPath req);
          existing = existing_token b64_decode (fr_optCsrfCookie req);
          token = (case existing of Some t \<Rightarrow> t | None \<Rightarrow> generated);
          response = run token req in
      (response,
       if existing = None \<and> \<not> (bSecurityIgnored \<and> 200 \<le> status response \<and> status response < 400)
       then Some (token, is_secure) else None))"

subsection \<open>The firewall\<close>

definition bAllowed :: "rstr \<Rightarrow> bool" where
  "bAllowed stMethod \<longleftrightarrow> stMethod \<in> {(u ''DELETE''), (u ''GET''), (u ''HEAD''), (u ''OPTIONS''), (u ''PATCH''), (u ''POST''), (u ''PUT'')}"

definition bNormalized :: "rstr \<Rightarrow> bool" where
  "bNormalized sPath \<longleftrightarrow> \<not> list_ex (\<lambda>s. s = (u ''.'') \<or> s = (u ''..'')) (split_on 47 sPath)"

definition bRejectedPath :: "(rstr \<Rightarrow> rstr option) \<Rightarrow> rstr \<Rightarrow> bool" where
  "bRejectedPath url_decode sEncodedPath =
     (if \<not> list_all (\<lambda>c. 32 \<le> c \<and> c \<le> 126) sEncodedPath then True
      else
     (let sLower = to_ascii_lowercase sEncodedPath in
      if 59 \<in> set sEncodedPath \<or> contains_str (u ''//'') sEncodedPath \<or> 92 \<in> set sEncodedPath
         \<or> list_ex (\<lambda>c. c \<in> set sEncodedPath) [0, 10, 13]
         \<or> list_ex (\<lambda>f. contains_str f sLower)
             [(u ''%3b''), (u ''%2f''), (u ''%5c''), (u ''%00''), (u ''%0a''), (u ''%0d''), (u ''%25''), (u ''%2e'')]
         \<or> \<not> bNormalized sEncodedPath
      then True
      else (case url_decode sEncodedPath of
          None \<Rightarrow> True
        | Some sDecoded \<Rightarrow>
            59 \<in> set sDecoded \<or> contains_str (u ''//'') sDecoded \<or> 92 \<in> set sDecoded \<or> 37 \<in> set sDecoded
            \<or> list_ex (\<lambda>c. c \<in> set sDecoded) [0, 10, 13, 8232, 8233]
            \<or> \<not> bNormalized sDecoded)))"

datatype 'r firewall_verdict = FwStatus nat | FwNext 'r

definition firewall_apply :: "(rstr \<Rightarrow> rstr option) \<Rightarrow> (StFilterRequest \<Rightarrow> 'r) \<Rightarrow> StFilterRequest \<Rightarrow> 'r firewall_verdict" where
  "firewall_apply url_decode next_handler stRequest =
     (if bRejectedPath url_decode (fr_sPath stRequest) then FwStatus 400
      else if fr_sMethod stRequest = (u ''TRACE'') then FwStatus 403
      else if \<not> bAllowed (fr_sMethod stRequest) then FwStatus 400
      else FwNext (next_handler stRequest))"

subsection \<open>Double submission\<close>

text \<open>What the servlet view of the body holds under the field name.\<close>

definition body_params ::
    "(rstr \<Rightarrow> params option) \<Rightarrow> (rstr \<Rightarrow> rstr \<Rightarrow> (rstr option \<times> rstr option) list option) \<Rightarrow> rstr option \<Rightarrow> rstr \<Rightarrow> params" where
  "body_params parse parse_multipart optContentType vecBytes =
     (case enPostParameterBody optContentType of
        Multipart \<Rightarrow> (case parse_multipart (case optContentType of Some s \<Rightarrow> s | None \<Rightarrow> []) vecBytes of
            Some fs \<Rightarrow> List.map_filter (\<lambda>(n, t). case (n, t) of (Some a, Some b) \<Rightarrow> Some (a, b) | _ \<Rightarrow> None) fs
          | None \<Rightarrow> [])
      | UrlEncoded \<Rightarrow> (case parse vecBytes of Some ps \<Rightarrow> ps | None \<Rightarrow> [])
      | NoParameters \<Rightarrow> [])"

lemma first_csrf_get:
  "first_csrf fs = form_get (List.map_filter (\<lambda>(n, t). case (n, t) of (Some a, Some b) \<Rightarrow> Some (a, b) | _ \<Rightarrow> None) fs) (u ''csrf'')"
proof (induction fs rule: first_csrf.induct)
  case (2 name val fs)
  then show ?case
    by (cases name; cases val) (auto simp: List.map_filter_simps form_fv.look_cons form_fv.look_nil simp del: u_simps)
qed (simp add: List.map_filter_simps form_fv.look_nil del: u_simps)

lemma body_csrf_get: "body_csrf parse mp ct b = form_get (body_params parse mp ct b) (u ''csrf'')"
  by (auto simp: body_csrf_def body_params_def optMultipartCsrf_def first_csrf_get parse_pairs_for_named_access_def
      ok_or_def form_fv.look_nil split: EnPostParameterBody.splits option.splits simp del: u_simps)

definition query_params :: "(rstr \<Rightarrow> params option) \<Rightarrow> rstr option \<Rightarrow> params" where
  "query_params parse optQuery = (case Option.bind optQuery parse of Some q \<Rightarrow> q | None \<Rightarrow> [])"

lemma optQueryCsrf_get: "optQueryCsrf parse q = Inr v \<Longrightarrow> v = form_get (query_params parse q) (u ''csrf'')"
  by (auto simp: optQueryCsrf_def query_params_def parse_pairs_for_named_access_def ok_or_def and_then_def form_fv.look_nil
      split: option.splits simp del: u_simps)

text \<open>A guarded POST handler runs only when the first csrf parameter of the request, query before
  body and in the body forms the servlet exposes, equals the token of the request up to surrounding
  whitespace: the value of its own well-formed cookie, or a token generated for this very request
  which no form can contain yet.\<close>

theorem csrf_double_submit:
  assumes "fst (csrf_apply b64 generated st (\<lambda>tok. validate_auto_post parse mp handler (Some tok)) sec req) = Handled r"
    and "fr_sMethod req = (u ''POST'')"
  shows "r = handler req \<and> (\<exists>body v. fr_optBody req = Some body
    \<and> form_get (query_params parse (fr_optQuery req) @ body_params parse mp (fr_optContentType req) body) (u ''csrf'') = Some v
    \<and> trim v = trim (case existing_token b64 (fr_optCsrfCookie req) of Some t \<Rightarrow> t | None \<Rightarrow> generated))"
proof -
  define tok where "tok = (case existing_token b64 (fr_optCsrfCookie req) of Some t \<Rightarrow> t | None \<Rightarrow> generated)"
  have run: "validate_auto_post parse mp handler (Some tok) req = Handled r"
    using assms(1) by (simp add: csrf_apply_def Let_def tok_def)
  then obtain v0 body where q: "optQueryCsrf parse (fr_optQuery req) = Inr v0" and body: "fr_optBody req = Some body"
    and fits: "\<not> body_limit (enPostParameterBody (fr_optContentType req)) < length body"
    using assms(2) by (auto simp: validate_auto_post_def Let_def split: sum.splits option.splits if_splits)
  define opt where "opt = (if v0 \<noteq> None then v0 else body_csrf parse mp (fr_optContentType req) body)"
  have "opt = form_get (query_params parse (fr_optQuery req) @ body_params parse mp (fr_optContentType req) body) (u ''csrf'')"
    unfolding form_fv.look_append opt_def optQueryCsrf_get [OF q] body_csrf_get by (auto simp: or_else_def split: option.splits)
  moreover have "\<exists>v. opt = Some v \<and> trim v = trim tok" and "r = handler req"
    using run assms(2) q body fits
    by (auto simp: validate_auto_post_def Let_def opt_def split: option.splits if_splits)
  ultimately show ?thesis using body unfolding tok_def by auto
qed

definition ex_post :: "rstr option \<Rightarrow> StFilterRequest" where
  "ex_post cookie = \<lparr>fr_sMethod = (u ''POST''), fr_sPath = (u ''/delete.jsp''), fr_optQuery = None,
     fr_optContentType = Some (u ''application/x-www-form-urlencoded''), fr_optCsrfCookie = cookie, fr_optBody = Some (u ''x'')\<rparr>"

theorem csrf_double_submit_witness:
  "trim (u ''abc'') = trim (case existing_token (\<lambda>_. None) (Some (u ''abc'')) of Some t \<Rightarrow> t | None \<Rightarrow> (u ''fresh''))"
proof -
  let ?parse = "\<lambda>_. Some [((u ''csrf''), (u ''abc''))]"
  have "fst (csrf_apply (\<lambda>_. None) (u ''fresh'') (\<lambda>_. 200)
      (\<lambda>tok. validate_auto_post ?parse (\<lambda>_ _. None) (\<lambda>_. ()) (Some tok)) True (ex_post (Some (u ''abc'')))) = Handled ()"
    by (simp add: csrf_apply_def Let_def existing_token_def is_valid_token_def trim_def trim_by_def is_whitespace_def
        is_ascii_alphanumeric_def utf8_width_def validate_auto_post_def ex_post_def optQueryCsrf_def body_csrf_def
        enPostParameterBody_def eq_ignore_ascii_case_def to_ascii_lowercase_def ascii_lower_def
        parse_pairs_for_named_access_def form_get_def body_limit_def)
  from csrf_double_submit [OF this] show ?thesis
    by (auto simp: ex_post_def query_params_def body_params_def form_get_def enPostParameterBody_def eq_ignore_ascii_case_def
        to_ascii_lowercase_def ascii_lower_def trim_def trim_by_def is_whitespace_def split: if_splits)
qed

subsection \<open>Tokens are safe in markup\<close>

definition base64_char :: "rchar \<Rightarrow> bool" where
  "base64_char c \<longleftrightarrow> is_ascii_alphanumeric c \<or> c \<in> {43, 47, 61}"

lemma existing_token_chars:
  assumes "\<forall>s bs. b64 s = Some bs \<longrightarrow> list_all base64_char s" and "b64 [] \<noteq> None \<longrightarrow> b64 [] = Some []"
    and "existing_token b64 cookie = Some t"
  shows "t \<noteq> [] \<and> list_all base64_char t"
proof -
  obtain v where v: "is_valid_token b64 t" and t: "t = trim v"
    using assms(3) by (auto simp: existing_token_def split: option.splits if_splits)
  have tt: "trim t = t"
    unfolding t trim_def by (simp add: trim_by_idem)
  from v tt consider bs where "b64 t = Some bs" "length bs = 16" | "t \<noteq> []" "list_all is_ascii_alphanumeric t"
    by (auto simp: is_valid_token_def Let_def split: option.splits)
  then show ?thesis
  proof cases
    case 1
    then show ?thesis using assms(1,2) by (cases t) auto
  next
    case 2
    then show ?thesis by (auto simp: list_all_iff base64_char_def)
  qed
qed

text \<open>Whatever cookie a client sends, the token that handlers write into their pages is not empty
  and consists of letters, digits, plus, slash and equals sign only: no character that could close
  an attribute or open a tag.\<close>

theorem csrf_token_inert:
  assumes "\<forall>s bs. b64 s = Some bs \<longrightarrow> list_all base64_char s" and "b64 [] \<noteq> None \<longrightarrow> b64 [] = Some []"
    and "generated \<noteq> [] \<and> list_all base64_char generated"
  shows "\<exists>tok. fst (csrf_apply b64 generated st run sec req) = run tok req \<and> tok \<noteq> [] \<and> set tok \<inter> {34, 38, 39, 60, 62} = {}"
proof -
  define tok where "tok = (case existing_token b64 (fr_optCsrfCookie req) of Some t \<Rightarrow> t | None \<Rightarrow> generated)"
  have "tok \<noteq> [] \<and> list_all base64_char tok"
    using assms(3) existing_token_chars [OF assms(1,2)] by (auto simp: tok_def split: option.splits)
  then have "tok \<noteq> [] \<and> set tok \<inter> {34, 38, 39, 60, 62} = {}"
    by (auto simp: list_all_iff base64_char_def is_ascii_alphanumeric_def is_ascii_digit_def)
  moreover have "fst (csrf_apply b64 generated st run sec req) = run tok req"
    by (simp add: csrf_apply_def Let_def tok_def)
  ultimately show ?thesis by blast
qed

theorem csrf_token_inert_witness:
  "60 \<notin> set (fst (csrf_apply (\<lambda>_. None) (u ''Zm9v'') (\<lambda>_. 200) (\<lambda>t _. t) True (ex_post (Some (u ''<b>'')))))"
  using csrf_token_inert [of "\<lambda>_. None" "(u ''Zm9v'')" "\<lambda>_. 200" "\<lambda>t _. t" True "ex_post (Some (u ''<b>''))"]
  by (auto simp: base64_char_def is_ascii_alphanumeric_def is_ascii_digit_def)

subsection \<open>An accepted path means one thing\<close>

lemma pct_decode_plain: "37 \<notin> set s \<Longrightarrow> pct_decode s = Some (utf8 s)"
  by (induction s) auto

lemma decode_fixpoint:
  assumes "codec_ok c" and "tc_url_decode c p = Some d" and "37 \<notin> set d"
  shows "tc_url_decode c d = Some d"
proof -
  have "is_str d" using assms(1,2) by (auto simp: codec_ok_def)
  then have "from_utf8 (utf8 d) = Some d" by (rule from_utf8_utf8)
  with pct_decode_plain [OF assms(3)] assms(1) show ?thesis by (simp add: codec_ok_def)
qed

text \<open>A request reaches the handlers only with an allowed method and a path that cannot be read
  in two ways: it is printable ASCII, decoding it once more changes nothing, and neither the path as
  sent nor the decoded path has a dot or dot-dot segment, a semicolon, a backslash, an empty inner
  segment or a NUL or line break.\<close>

theorem firewall_unambiguous:
  assumes "codec_ok c" and "firewall_apply (tc_url_decode c) handler req = FwNext r"
  shows "\<exists>d. tc_url_decode c (fr_sPath req) = Some d \<and> tc_url_decode c d = Some d
    \<and> (\<forall>p\<in>{fr_sPath req, d}. (u ''.'') \<notin> set (split_on 47 p) \<and> (u ''..'') \<notin> set (split_on 47 p) \<and> set p \<inter> {0, 10, 13, 59, 92} = {}
        \<and> \<not> contains_str (u ''//'') p)
    \<and> (\<forall>x\<in>set (fr_sPath req). 32 \<le> x \<and> x \<le> 126) \<and> fr_sMethod req \<noteq> (u ''TRACE'') \<and> r = handler req"
proof -
  let ?p = "fr_sPath req"
  have acc: "\<not> bRejectedPath (tc_url_decode c) ?p" and meth: "fr_sMethod req \<noteq> (u ''TRACE'')" "r = handler req"
    using assms(2) by (auto simp: firewall_apply_def simp del: u_simps split: if_splits)
  have ascii: "\<forall>x\<in>set ?p. 32 \<le> x \<and> x \<le> 126" and enc: "59 \<notin> set ?p" "92 \<notin> set ?p" "\<not> contains_str (u ''//'') ?p"
    "bNormalized ?p" "0 \<notin> set ?p" "10 \<notin> set ?p" "13 \<notin> set ?p"
    using acc by (auto simp: bRejectedPath_def Let_def list_all_iff simp del: u_simps split: if_splits)
  obtain d where d: "tc_url_decode c ?p = Some d" "59 \<notin> set d" "92 \<notin> set d" "37 \<notin> set d" "\<not> contains_str (u ''//'') d"
    "bNormalized d" "0 \<notin> set d" "10 \<notin> set d" "13 \<notin> set d"
    using acc by (auto simp: bRejectedPath_def Let_def simp del: u_simps split: if_splits option.splits)
  have seg: "(u ''.'') \<notin> set (split_on 47 p) \<and> (u ''..'') \<notin> set (split_on 47 p)" if "bNormalized p" for p
    using that by (auto simp: bNormalized_def list_ex_iff simp del: u_simps)
  show ?thesis
    using d enc ascii meth seg decode_fixpoint [OF assms(1) d(1,4)]
    by (intro exI [of _ d]) (auto simp del: u_simps)
qed

theorem firewall_unambiguous_witness:
  "tc_url_decode ex_codec (u ''/tag/c%2B'') = Some (u ''/tag/c+'') \<and> (u ''..'') \<notin> set (split_on 47 (u ''/tag/c+''))"
proof -
  let ?req = "\<lparr>fr_sMethod = (u ''GET''), fr_sPath = (u ''/tag/c%2B''), fr_optQuery = None, fr_optContentType = None,
     fr_optCsrfCookie = None, fr_optBody = None\<rparr>"
  have dec: "tc_url_decode ex_codec (u ''/tag/c%2B'') = Some (u ''/tag/c+'')"
  proof -
    have "pct_decode (u ''/tag/c%2B'') = Some (utf8 (u ''/tag/c+''))" by (simp add: hex_value_def utf8_char_def)
    moreover have "from_utf8 (utf8 (u ''/tag/c+'')) = Some (u ''/tag/c+'')" by (rule from_utf8_utf8) (simp add: is_scalar_def)
    ultimately show ?thesis by (simp add: ex_codec_def)
  qed
  then have "firewall_apply (tc_url_decode ex_codec) (\<lambda>_. ()) ?req = FwNext ()"
    by (simp add: firewall_apply_def bRejectedPath_def Let_def bNormalized_def to_ascii_lowercase_def ascii_lower_def bAllowed_def)
  from firewall_unambiguous [OF ex_codec_ok this] dec show ?thesis by auto
qed

end
