(* ===== verification/Topic_View.thy ===== *)
theory Topic_View
  imports Comment_Guards "HOL-Library.Multiset"
begin

section \<open>Who may see a topic (src/routes/topics.rs)\<close>

text \<open>
  The checks in front of a topic page, which the attachments and the reactions share: the topic's
  own visibility and that of its deleted comments.  Then the thread view, which cuts the replies to
  one comment out of the list of comments.  The two clocks, PostgreSQL's and the server's, are one
  argument.
\<close>

subsection \<open>The order of the checks\<close>

datatype EnTopicViewPreflight = JumpToComment | RedirectDeletedRequest | RedirectCanonicalPath | CheckPermissions

definition enTopicViewPreflight :: "bool \<Rightarrow> bool \<Rightarrow> bool \<Rightarrow> bool \<Rightarrow> bool \<Rightarrow> EnTopicViewPreflight" where
  "enTopicViewPreflight bCommentJump bShowDeleted bModerator bPostRequest bCanonicalPath =
     (if bCommentJump then JumpToComment
      else if bShowDeleted \<and> \<not> bModerator \<and> \<not> bPostRequest then RedirectDeletedRequest
      else if \<not> bCanonicalPath then RedirectCanonicalPath
      else CheckPermissions)"

subsection \<open>The policy\<close>

definition VIEW_DELETED_SCORE :: int where
  "VIEW_DELETED_SCORE = 200"

definition VIEW_AFTER_DELETE_DAYS :: int where
  "VIEW_AFTER_DELETE_DAYS = 14"

definition TOPIC_MAX_WARNINGS :: int where
  "TOPIC_MAX_WARNINGS = 2"

datatype EnTopicViewPolicyDecision = ViewAllow | ViewNotFound | ViewForbidden

record StTopicViewPolicyInput =
  tv_bModerator :: bool
  tv_bAuthorized :: bool
  tv_bViewByAuthor :: bool
  tv_bDeleted :: bool
  tv_bDraft :: bool
  tv_bExpired :: bool
  tv_iOpenWarnings :: int
  tv_bDeleteExpired :: bool
  tv_bViewerFrozen :: bool
  tv_iViewerScore :: int
  tv_bViewerSlowModeRestricted :: bool
  tv_bAuthorModerator :: bool

text \<open>An early return of the block on deleted topics; \<open>None\<close> goes on.\<close>

definition deleted_decision :: "StTopicViewPolicyInput \<Rightarrow> EnTopicViewPolicyDecision option" where
  "deleted_decision i =
     (if \<not> tv_bDeleted i then None
      else if tv_bExpired i \<or> \<not> tv_bAuthorized i then Some ViewNotFound
      else if tv_bViewByAuthor i then None
      else if tv_bDeleteExpired i then Some ViewNotFound
      else if tv_bViewerFrozen i then Some ViewForbidden
      else if tv_iViewerScore i < VIEW_DELETED_SCORE \<or> tv_bViewerSlowModeRestricted i \<or> tv_bAuthorModerator i then Some ViewNotFound
      else None)"

definition enTopicViewPolicy :: "StTopicViewPolicyInput \<Rightarrow> EnTopicViewPolicyDecision" where
  "enTopicViewPolicy i =
     (if tv_bModerator i then ViewAllow
      else case deleted_decision i of Some d \<Rightarrow> d
      | None \<Rightarrow>
         if tv_bDraft i \<and> (tv_bExpired i \<or> \<not> tv_bViewByAuthor i) then ViewNotFound
         else if \<not> tv_bAuthorized i \<and> TOPIC_MAX_WARNINGS < tv_iOpenWarnings i then ViewNotFound
         else ViewAllow)"

subsection \<open>The reads\<close>

definition b_user_slow_mode_restricted :: "time \<Rightarrow> StUserSummary \<Rightarrow> bool pg_eff" where
  "b_user_slow_mode_restricted now user = (\<lambda>db.
     let (r, w) = service_bSlowModeRestricted (pg_add_topic Some now)
       \<lparr>aa_optUserId = Some (us_id user), aa_bAnonymous = False, aa_bModerator = us_canmod user, aa_bCorrector = us_corrector user,
         aa_bBlocked = coalesce False (us_blocked user), aa_iScore = coalesce 0 (us_score user)\<rparr> \<lparr>w_db = db, w_queue = ()\<rparr>
     in (r, w_db w))"

definition viewer_frozen :: "time \<Rightarrow> int \<Rightarrow> bool pg_eff" where
  "viewer_frozen now i = (\<lambda>db. (Inr (case user_of db i of None \<Rightarrow> False | Some r \<Rightarrow> user_frozen now r), db))"

definition can_view_all_deleted_topics :: "time \<Rightarrow> StUserSummary option \<Rightarrow> bool pg_eff" where
  "can_view_all_deleted_topics now user =
     (case user of None \<Rightarrow> ret_eff False | Some user \<Rightarrow>
      if coalesce 0 (us_score user) < 50 then ret_eff False
      else bind_eff (viewer_frozen now (us_id user)) (\<lambda>frozen.
        if frozen then ret_eff False
        else bind_eff (b_user_slow_mode_restricted now user) (\<lambda>slow. ret_eff (\<not> slow))))"

definition score_loss_read :: "int \<Rightarrow> int pg_eff" where
  "score_loss_read i = (\<lambda>db. (if in_i32 (topic_score_loss db i) then Inr (topic_score_loss db i) else Inl db_failure, db))"

definition allow_view_all_deleted_comments :: "time \<Rightarrow> int \<Rightarrow> StUserSummary option \<Rightarrow> bool pg_eff" where
  "allow_view_all_deleted_comments now topic_id user =
     (if (case user of None \<Rightarrow> False | Some usr \<Rightarrow> us_canmod usr) then ret_eff True else
      bind_eff (\<lambda>db. (Inr (topic_join db topic_id), db)) (\<lambda>row. case row of None \<Rightarrow> ret_eff False
      | Some (t, g, s) \<Rightarrow>
      if topic_expired now s t \<or> pt_draft t \<or> coalesce (- 9999) (pt_postscore t) \<in> {10000, 10001, 10002} then ret_eff False
      else (case user of None \<Rightarrow> ret_eff False
      | Some usr \<Rightarrow>
      if coalesce 0 (us_score usr) < VIEW_DELETED_SCORE then ret_eff False
      else bind_eff (viewer_frozen now (us_id usr)) (\<lambda>frozen.
      if frozen then ret_eff False
      else bind_eff (score_loss_read topic_id) (\<lambda>score_loss.
      if score_loss < 150 then bind_eff (b_user_slow_mode_restricted now usr) (\<lambda>slow. ret_eff (\<not> slow)) else ret_eff False)))))"

text \<open>The row of the topic with its author; an inner join on \<open>users\<close>.\<close>

definition view_row :: "int \<Rightarrow> (pg_topic \<times> pg_section \<times> pg_user) option pg_eff" where
  "view_row topic_id = (\<lambda>db. (Inr (Option.bind (topic_join db topic_id) (\<lambda>(t, g, s).
     map_option (\<lambda>a. (t, s, a)) (user_of db (pt_userid t)))), db))"

definition deleted_viewer_checks :: "time \<Rightarrow> int \<Rightarrow> StUserSummary \<Rightarrow> (bool \<times> bool \<times> bool) pg_eff" where
  "deleted_viewer_checks now topic_id usr =
     bind_eff (\<lambda>db. (Inr (case Option.bind (del_info_of db topic_id) di_deldate of None \<Rightarrow> True
        | Some d \<Rightarrow> d < now - days VIEW_AFTER_DELETE_DAYS), db)) (\<lambda>bDeleteExpired.
     if bDeleteExpired then ret_eff (True, False, False)
     else bind_eff (viewer_frozen now (us_id usr)) (\<lambda>bViewerFrozen.
     bind_eff (if \<not> bViewerFrozen \<and> VIEW_DELETED_SCORE \<le> coalesce 0 (us_score usr)
        then b_user_slow_mode_restricted now usr else ret_eff False) (\<lambda>slow.
     ret_eff (False, bViewerFrozen, slow))))"

definition check_topic_viewable :: "time \<Rightarrow> int \<Rightarrow> StUserSummary option \<Rightarrow> unit pg_eff" where
  "check_topic_viewable now topic_id user =
     (if (case user of None \<Rightarrow> False | Some usr \<Rightarrow> us_canmod usr) then ret_eff () else
      bind_eff (view_row topic_id) (\<lambda>row. case row of None \<Rightarrow> fail_eff NotFound
      | Some (t, s, a) \<Rightarrow>
      let view_by_author = (case user of None \<Rightarrow> False | Some usr \<Rightarrow> us_id usr = pt_userid t);
          expired = topic_expired now s t;
          bNeedsDeletedViewerChecks = (pt_deleted t \<and> \<not> expired \<and> user \<noteq> None \<and> \<not> view_by_author)
      in bind_eff (case user of Some usr \<Rightarrow> if bNeedsDeletedViewerChecks then deleted_viewer_checks now topic_id usr
              else ret_eff (True, False, False)
            | None \<Rightarrow> ret_eff (True, False, False)) (\<lambda>(bDeleteExpired, bViewerFrozen, slow).
      (case enTopicViewPolicy \<lparr>tv_bModerator = False, tv_bAuthorized = (user \<noteq> None), tv_bViewByAuthor = view_by_author,
           tv_bDeleted = pt_deleted t, tv_bDraft = pt_draft t, tv_bExpired = expired, tv_iOpenWarnings = pt_open_warnings t,
           tv_bDeleteExpired = bDeleteExpired, tv_bViewerFrozen = bViewerFrozen,
           tv_iViewerScore = (case user of None \<Rightarrow> 0 | Some usr \<Rightarrow> coalesce 0 (us_score usr)),
           tv_bViewerSlowModeRestricted = slow, tv_bAuthorModerator = pu_canmod a\<rparr> of
         ViewAllow \<Rightarrow> ret_eff () | ViewNotFound \<Rightarrow> fail_eff NotFound | ViewForbidden \<Rightarrow> fail_eff Forbidden))))"

text \<open>Whether the page shows the button for the deleted comments, or shows them when asked to.\<close>

definition view_access :: "time \<Rightarrow> int \<Rightarrow> StUserSummary option \<Rightarrow> bool \<Rightarrow> bool pg_eff" where
  "view_access now topic_id user want_deleted =
     (if want_deleted then
        bind_eff (allow_view_all_deleted_comments now topic_id user) (\<lambda>bAllowed.
        if \<not> bAllowed then fail_eff Forbidden
        else bind_eff (check_topic_viewable now topic_id user) (\<lambda>_. ret_eff True))
      else bind_eff (check_topic_viewable now topic_id user) (\<lambda>_. allow_view_all_deleted_comments now topic_id user))"

subsection \<open>What can be seen\<close>

text \<open>The rules for a viewer who is no moderator, read off the store.\<close>

definition unrestricted :: "time \<Rightarrow> pg \<Rightarrow> StUserSummary \<Rightarrow> bool" where
  "unrestricted now db usr \<longleftrightarrow> (\<exists>r. user_of db (us_id usr) = Some r \<and> \<not> user_frozen now r \<and>
     (coalesce False (us_blocked usr) \<or> 35 \<le> coalesce 0 (us_score usr) \<and> \<not> user_frozen (now - days 3) r \<and>
       min \<bar>recent_score_sum now db (us_id usr)\<bar> I32_MAX < 30))"

definition may_see_deleted :: "time \<Rightarrow> pg \<Rightarrow> pg_topic \<Rightarrow> pg_user \<Rightarrow> StUserSummary \<Rightarrow> bool" where
  "may_see_deleted now db t a usr \<longleftrightarrow> us_id usr = pt_userid t \<or>
     (\<exists>d. Option.bind (del_info_of db (pt_id t)) di_deldate = Some d \<and> now - days 14 \<le> d) \<and>
     200 \<le> coalesce 0 (us_score usr) \<and> unrestricted now db usr \<and> \<not> pu_canmod a"

definition may_see_topic :: "time \<Rightarrow> pg \<Rightarrow> pg_topic \<Rightarrow> pg_section \<Rightarrow> pg_user \<Rightarrow> StUserSummary option \<Rightarrow> bool" where
  "may_see_topic now db t s a user \<longleftrightarrow>
     (pt_deleted t \<longrightarrow> \<not> topic_expired now s t \<and> (\<exists>usr. user = Some usr \<and> may_see_deleted now db t a usr)) \<and>
     (pt_draft t \<longrightarrow> \<not> topic_expired now s t \<and> (\<exists>usr. user = Some usr \<and> us_id usr = pt_userid t)) \<and>
     (user = None \<longrightarrow> pt_open_warnings t \<le> 2)"

lemma slow_mode_run:
  "b_user_slow_mode_restricted now usr db = (case user_of db (us_id usr) of None \<Rightarrow> (Inl (Sqlx RowNotFound), db)
     | Some r \<Rightarrow> (Inr (\<not> (coalesce False (us_blocked usr) \<or> user_frozen now r) \<and> (coalesce 0 (us_score usr) < 35 \<or>
          user_frozen (now - days 3) r \<or> 30 \<le> min \<bar>recent_score_sum now db (us_id usr)\<bar> I32_MAX)), db))"
  by (auto simp: b_user_slow_mode_restricted_def service_bSlowModeRestricted_def pg_add_topic_def pg_stSlowModeInfo_def
      fetch_one_def user_of_def on_db_def bind_eff_def ok_or_def bSlowModeRestricted_def split: option.splits)

lemma unrestricted_run:
  "\<not> user_frozen now r \<Longrightarrow> user_of db (us_id usr) = Some r \<Longrightarrow>
    b_user_slow_mode_restricted now usr db = (Inr (\<not> unrestricted now db usr), db)"
  by (auto simp: slow_mode_run unrestricted_def)

lemma view_checks_run:
  assumes "deleted_viewer_checks now i usr db = (Inr (past, frozen, slow), db')"
  shows "db' = db \<and> (\<not> past \<and> \<not> frozen \<and> 200 \<le> coalesce 0 (us_score usr) \<and> \<not> slow \<longleftrightarrow>
    (\<exists>d. Option.bind (del_info_of db i) di_deldate = Some d \<and> now - days 14 \<le> d) \<and>
    200 \<le> coalesce 0 (us_score usr) \<and> unrestricted now db usr)"
  using assms
  by (auto simp: deleted_viewer_checks_def bind_eff_def viewer_frozen_def slow_mode_run unrestricted_def
      VIEW_DELETED_SCORE_def VIEW_AFTER_DELETE_DAYS_def split: if_splits option.splits)

lemma check_topic_viewable_reads: "check_topic_viewable now i user db = (r, db') \<Longrightarrow> db' = db"
  by (auto simp: check_topic_viewable_def deleted_viewer_checks_def view_row_def viewer_frozen_def slow_mode_run Let_def
      bind_eff_def split: if_splits option.splits EnTopicViewPolicyDecision.splits prod.splits sum.splits)

lemma topic_join_id: "topic_join db i = Some (t, g, s) \<Longrightarrow> pt_id t = i"
  by (auto simp: topic_join_def topic_of_def find_Some_iff split: option.splits)

lemma policy_other:
  "enTopicViewPolicy i = ViewAllow \<longleftrightarrow> tv_bModerator i \<or>
     (tv_bDeleted i \<longrightarrow> \<not> tv_bExpired i \<and> tv_bAuthorized i \<and> (tv_bViewByAuthor i \<or>
        \<not> tv_bDeleteExpired i \<and> \<not> tv_bViewerFrozen i \<and> 200 \<le> tv_iViewerScore i \<and> \<not> tv_bViewerSlowModeRestricted i \<and> \<not> tv_bAuthorModerator i)) \<and>
     (tv_bDraft i \<longrightarrow> \<not> tv_bExpired i \<and> tv_bViewByAuthor i) \<and> (\<not> tv_bAuthorized i \<longrightarrow> tv_iOpenWarnings i \<le> 2)"
  by (auto simp: enTopicViewPolicy_def deleted_decision_def VIEW_DELETED_SCORE_def TOPIC_MAX_WARNINGS_def)

text \<open>C7: A topic page opens for a moderator, and for anybody else exactly when the rules on the store
  allow it: a deleted topic only while it has not expired, to its author or, for fourteen days, to a user with
  score 200 who is neither frozen nor restricted by the slow mode and if the author is no moderator; a draft
  only to its author before it expires; a topic with more than two open warnings only to users who are
  logged in.  The check writes nothing.\<close>

theorem topic_view_guarded:
  assumes "check_topic_viewable now i user db = (r, db')"
  shows "db' = db \<and> (r = Inr () \<longleftrightarrow> (\<exists>usr. user = Some usr \<and> us_canmod usr) \<or>
    (\<exists>t g s a. topic_join db i = Some (t, g, s) \<and> user_of db (pt_userid t) = Some a \<and> may_see_topic now db t s a user))"
proof (cases "(\<exists>usr. user = Some usr \<and> us_canmod usr) \<or> fst (view_row i db) = Inr None")
  case True
  from assms have "(\<exists>usr. user = Some usr \<and> us_canmod usr) \<Longrightarrow> r = Inr ()" by (auto simp: check_topic_viewable_def)
  moreover have "r \<noteq> Inr () \<and> \<not> (\<exists>t g s a. topic_join db i = Some (t, g, s) \<and> user_of db (pt_userid t) = Some a)"
    if "\<not> (\<exists>usr. user = Some usr \<and> us_canmod usr)"
  proof -
    from that True have "view_row i db = (Inr None, db)" by (auto simp: view_row_def)
    with assms that show ?thesis
      by (cases user) (auto simp: check_topic_viewable_def view_row_def)
  qed
  ultimately show ?thesis using check_topic_viewable_reads [OF assms] by blast
next
  case False
  then obtain t g s a where row: "topic_join db i = Some (t, g, s)" "user_of db (pt_userid t) = Some a"
    by (auto simp: view_row_def split: option.splits bind_splits)
  have id: "pt_id t = i" using row(1) by (rule topic_join_id)
  let ?needs = "pt_deleted t \<and> \<not> topic_expired now s t \<and> user \<noteq> None \<and> \<not> (case user of None \<Rightarrow> False | Some usr \<Rightarrow> us_id usr = pt_userid t)"
  let ?checks = "(case user of Some usr \<Rightarrow> if ?needs then deleted_viewer_checks now i usr else ret_eff (True, False, False)
      | None \<Rightarrow> ret_eff (True, False, False))"
  have read: "check_topic_viewable now i user db = bind_eff ?checks (\<lambda>(past, frozen, slow).
      (case enTopicViewPolicy \<lparr>tv_bModerator = False, tv_bAuthorized = (user \<noteq> None),
           tv_bViewByAuthor = (case user of None \<Rightarrow> False | Some usr \<Rightarrow> us_id usr = pt_userid t),
           tv_bDeleted = pt_deleted t, tv_bDraft = pt_draft t, tv_bExpired = topic_expired now s t, tv_iOpenWarnings = pt_open_warnings t,
           tv_bDeleteExpired = past, tv_bViewerFrozen = frozen,
           tv_iViewerScore = (case user of None \<Rightarrow> 0 | Some usr \<Rightarrow> coalesce 0 (us_score usr)),
           tv_bViewerSlowModeRestricted = slow, tv_bAuthorModerator = pu_canmod a\<rparr> of
         ViewAllow \<Rightarrow> ret_eff () | ViewNotFound \<Rightarrow> fail_eff NotFound | ViewForbidden \<Rightarrow> fail_eff Forbidden)) db"
    using False row by (auto simp: check_topic_viewable_def view_row_def bind_eff_def Let_def split: option.splits)
  obtain c db1 where c: "?checks db = (c, db1)" by fastforce
  have "r = Inr () \<longleftrightarrow> may_see_topic now db t s a user"
  proof (cases c)
    case (Inl e)
    with c obtain usr where needs: "user = Some usr" ?needs by (auto split: option.splits if_splits)
    with c Inl have "\<not> may_see_deleted now db t a usr"
      by (auto simp: deleted_viewer_checks_def bind_eff_def viewer_frozen_def slow_mode_run may_see_deleted_def unrestricted_def
          split: if_splits option.splits)
    with assms read c Inl needs show ?thesis by (auto simp: may_see_topic_def)
  next
    case (Inr x)
    obtain past frozen slow where x: "x = (past, frozen, slow)" by (metis prod.collapse)
    have "?needs \<longrightarrow> (\<exists>usr. user = Some usr \<and> (\<not> past \<and> \<not> frozen \<and> 200 \<le> coalesce 0 (us_score usr) \<and> \<not> slow \<and> \<not> pu_canmod a \<longleftrightarrow>
        may_see_deleted now db t a usr))"
    proof
      assume needs: ?needs
      then obtain usr where usr: "user = Some usr" by auto
      with needs c Inr x have "deleted_viewer_checks now i usr db = (Inr (past, frozen, slow), db1)" by simp
      from view_checks_run [OF this] usr needs id show "\<exists>usr. user = Some usr \<and> (\<not> past \<and> \<not> frozen \<and> 200 \<le> coalesce 0 (us_score usr) \<and>
          \<not> slow \<and> \<not> pu_canmod a \<longleftrightarrow> may_see_deleted now db t a usr)"
        by (auto simp: may_see_deleted_def)
    qed
    moreover have "r = Inr () \<longleftrightarrow> enTopicViewPolicy \<lparr>tv_bModerator = False, tv_bAuthorized = (user \<noteq> None),
           tv_bViewByAuthor = (case user of None \<Rightarrow> False | Some usr \<Rightarrow> us_id usr = pt_userid t),
           tv_bDeleted = pt_deleted t, tv_bDraft = pt_draft t, tv_bExpired = topic_expired now s t, tv_iOpenWarnings = pt_open_warnings t,
           tv_bDeleteExpired = past, tv_bViewerFrozen = frozen,
           tv_iViewerScore = (case user of None \<Rightarrow> 0 | Some usr \<Rightarrow> coalesce 0 (us_score usr)),
           tv_bViewerSlowModeRestricted = slow, tv_bAuthorModerator = pu_canmod a\<rparr> = ViewAllow"
      using assms read c Inr x by (auto split: EnTopicViewPolicyDecision.splits)
    ultimately show ?thesis
      by (cases user) (auto simp: policy_other may_see_topic_def may_see_deleted_def)
  qed
  with check_topic_viewable_reads [OF assms] False row show ?thesis by auto
qed

subsection \<open>The replies to a comment\<close>

text \<open>The list is a row of the comment view; the thread view uses its key and its link.  The hash set is a list
  without repetitions.\<close>

record CommentItem =
  ci_id :: int
  ci_replyto :: "int option"

definition reached :: "int list \<Rightarrow> 'a CommentItem_scheme \<Rightarrow> bool" where
  "reached ids c \<longleftrightarrow> (case ci_replyto c of None \<Rightarrow> False | Some parent \<Rightarrow> parent \<in> set ids)"

fun subtree_pass :: "'a CommentItem_scheme list \<Rightarrow> int list \<Rightarrow> int list" where
  "subtree_pass [] ids = ids"
| "subtree_pass (c # comments) ids = subtree_pass comments (if reached ids c then List.insert (ci_id c) ids else ids)"

lemma set_insert_list [simp]: "set (List.insert x xs) = insert x (set xs)" "length xs \<le> length (List.insert x xs)"
  by (auto simp: List.insert_def)

lemma subtree_pass_mono: "set ids \<subseteq> set (subtree_pass cs ids)" "length ids \<le> length (subtree_pass cs ids)"
proof -
  show "set ids \<subseteq> set (subtree_pass cs ids)" by (induction cs ids rule: subtree_pass.induct) (auto split: if_splits)
  show "length ids \<le> length (subtree_pass cs ids)"
  proof (induction cs arbitrary: ids)
    case (Cons c cs)
    have "length ids \<le> length (if reached ids c then List.insert (ci_id c) ids else ids)" by simp
    also have "\<dots> \<le> length (subtree_pass cs (if reached ids c then List.insert (ci_id c) ids else ids))" by (rule Cons)
    finally show ?case by simp
  qed simp
qed

lemma subtree_pass_new: "length (subtree_pass cs ids) \<noteq> length ids \<Longrightarrow> \<exists>c\<in>set cs. ci_id c \<notin> set ids \<and> ci_id c \<in> set (subtree_pass cs ids)"
proof (induction cs arbitrary: ids)
  case (Cons c cs)
  let ?ids = "if reached ids c then List.insert (ci_id c) ids else ids"
  show ?case
  proof (cases "ci_id c \<notin> set ids \<and> reached ids c")
    case True
    then have "ci_id c \<in> set ?ids" by simp
    then have "ci_id c \<in> set (subtree_pass (c # cs) ids)" using subtree_pass_mono(1) [of ?ids cs] by auto
    with True show ?thesis by (intro bexI [of _ c]) auto
  next
    case False
    then have same: "?ids = ids" by (auto simp: List.insert_def)
    with Cons.prems have "length (subtree_pass cs ids) \<noteq> length ids" by simp
    from Cons.IH [OF this] same show ?thesis by auto
  qed
qed simp

text \<open>The loop ends: each round but the last one adds a comment of the list.\<close>

function subtree_ids :: "'a CommentItem_scheme list \<Rightarrow> int list \<Rightarrow> int list" where
  "subtree_ids comments ids = (let ids' = subtree_pass comments ids in
     if length ids' = length ids then ids' else subtree_ids comments ids')"
  by pat_completeness auto
termination
proof (relation "measure (\<lambda>(cs, ids). card (ci_id ` set cs - set ids))")
  fix cs :: "'a CommentItem_scheme list" and ids ids' :: "int list"
  assume ids': "ids' = subtree_pass cs ids" and "length ids' \<noteq> length ids"
  then obtain c where "c \<in> set cs" "ci_id c \<notin> set ids" "ci_id c \<in> set ids'" using subtree_pass_new by blast
  with subtree_pass_mono(1) [of ids cs] ids' have "ci_id ` set cs - set ids' \<subset> ci_id ` set cs - set ids" by blast
  then show "((cs, ids'), (cs, ids)) \<in> measure (\<lambda>(cs, ids). card (ci_id ` set cs - set ids))"
    by (simp add: psubset_card_mono)
qed simp

declare subtree_ids.simps [simp del]

definition comment_subtree :: "'a CommentItem_scheme list \<Rightarrow> int \<Rightarrow> 'a CommentItem_scheme list" where
  "comment_subtree comments root =
     sort_key ci_id (filter (\<lambda>c. ci_id c \<in> set (subtree_ids comments [root])) comments)"

text \<open>The reference: what a chain of replies connects with the root.\<close>

inductive answers :: "'a CommentItem_scheme list \<Rightarrow> int \<Rightarrow> int \<Rightarrow> bool" for comments root where
  itself: "answers comments root root"
| reply: "c \<in> set comments \<Longrightarrow> ci_replyto c = Some p \<Longrightarrow> answers comments root p \<Longrightarrow> answers comments root (ci_id c)"

lemma pass_sound:
  "(\<And>i. i \<in> set ids \<Longrightarrow> answers cs root i) \<Longrightarrow> set ds \<subseteq> set cs \<Longrightarrow> i \<in> set (subtree_pass ds ids) \<Longrightarrow> answers cs root i"
proof (induction ds arbitrary: ids)
  case (Cons d ds)
  let ?ids = "if reached ids d then List.insert (ci_id d) ids else ids"
  have "answers cs root j" if "j \<in> set ?ids" for j
    using that Cons.prems(1,2) by (auto simp: reached_def split: if_splits option.splits intro: answers.reply)
  from Cons.IH [OF this] Cons.prems(2,3) show ?case by simp
qed simp

lemma pass_closed:
  "length (subtree_pass cs ids) = length ids \<Longrightarrow> subtree_pass cs ids = ids \<and> (\<forall>c\<in>set cs. reached ids c \<longrightarrow> ci_id c \<in> set ids)"
proof (induction cs arbitrary: ids)
  case (Cons c cs)
  let ?ids = "if reached ids c then List.insert (ci_id c) ids else ids"
  have "length ids \<le> length ?ids" by simp
  with Cons.prems subtree_pass_mono(2) [of ?ids cs] have len: "length ?ids = length ids" by simp
  then have same: "?ids = ids" by (auto simp: List.insert_def split: if_splits)
  moreover have "reached ids c \<longrightarrow> ci_id c \<in> set ids" using len by (auto simp: List.insert_def split: if_splits)
  ultimately show ?case using Cons.IH [of ids] Cons.prems by simp
qed simp

lemma subtree_ids_iff:
  assumes "\<And>i. i \<in> set ids \<Longrightarrow> answers cs root i" and "root \<in> set ids"
  shows "i \<in> set (subtree_ids cs ids) \<longleftrightarrow> answers cs root i"
  using assms
proof (induction cs ids rule: subtree_ids.induct)
  case (1 cs ids)
  let ?ids = "subtree_pass cs ids"
  have sound: "answers cs root j" if "j \<in> set ?ids" for j using pass_sound [OF 1(2) _ that] by simp
  have root: "root \<in> set ?ids" using 1(3) subtree_pass_mono(1) by blast
  show ?case
  proof (cases "length ?ids = length ids")
    case True
    from pass_closed [OF this] have same: "?ids = ids" and closed: "\<forall>c\<in>set cs. reached ids c \<longrightarrow> ci_id c \<in> set ids" by simp_all
    have "answers cs root j \<Longrightarrow> j \<in> set ids" for j
      by (induction rule: answers.induct) (use 1(3) closed in \<open>auto simp: reached_def\<close>)
    with 1(2) same show ?thesis by (subst subtree_ids.simps) auto
  next
    case False
    with 1(1) [OF refl False sound root] show ?thesis by (subst subtree_ids.simps) (simp add: Let_def)
  qed
qed

text \<open>C19: The thread view shows, for every list of comments whatever the order of its rows and the shape of
  its links - replies before their parents, links to missing rows, cycles - exactly the comments of the list that a chain of
  replies connects with the root, sorted by id and each as often as the list has it; the loop that collects them always ends.\<close>

theorem subtree_is_closure:
  "set (comment_subtree comments root) = {c \<in> set comments. answers comments root (ci_id c)} \<and>
   sorted (map ci_id (comment_subtree comments root)) \<and>
   mset (comment_subtree comments root) = filter_mset (\<lambda>c. answers comments root (ci_id c)) (mset comments)"
proof -
  have "ci_id c \<in> set (subtree_ids comments [root]) \<longleftrightarrow> answers comments root (ci_id c)" for c :: "'a CommentItem_scheme"
    by (rule subtree_ids_iff) (auto intro: answers.itself)
  then show ?thesis by (simp add: comment_subtree_def)
qed

subsection \<open>An example\<close>

text \<open>A topic deleted a day ago, seen by a user with score 250 and by a guest.\<close>

definition ex_seen_db :: pg where
  "ex_seen_db = ex_db\<lparr>db_topics := [ex_topic\<lparr>pt_deleted := True\<rparr>],
     db_del_info := [\<lparr>di_msgid = 5, di_delby = 8, di_reason = None, di_deldate = Some (days 1), di_bonus = None\<rparr>]\<rparr>"

definition ex_reader :: StUserSummary where
  "ex_reader = ex_moderator\<lparr>us_id := 8, us_canmod := False, us_score := Some 250\<rparr>"

lemma ex_seen: "check_topic_viewable (days 2) 5 (Some ex_reader) ex_seen_db = (Inr (), ex_seen_db)"
  by (simp add: check_topic_viewable_def view_row_def bind_eff_def deleted_viewer_checks_def viewer_frozen_def slow_mode_run
      ex_seen_db_def ex_reader_def ex_moderator_def ex_db_def ex_user_def ex_topic_def topic_join_def of_defs topic_expired_def
      user_frozen_def recent_score_sum_def duration_defs VIEW_DELETED_SCORE_def VIEW_AFTER_DELETE_DAYS_def I32_MAX_def
      enTopicViewPolicy_def deleted_decision_def TOPIC_MAX_WARNINGS_def)

theorem topic_view_guarded_witness:
  "\<exists>t g s a. topic_join ex_seen_db 5 = Some (t, g, s) \<and> user_of ex_seen_db (pt_userid t) = Some a \<and>
     may_see_topic (days 2) ex_seen_db t s a (Some ex_reader)"
proof -
  have "\<not> us_canmod ex_reader" by (simp add: ex_reader_def)
  with topic_view_guarded [OF ex_seen] show ?thesis by auto
qed

end
