(* ===== verification/Tags.thy ===== *)
theory Tags
  imports Comment_Guards
begin

section \<open>Tags (src/routes/tags.rs, vReplaceTags of src/infra/postgres/topic_repository.rs)\<close>

text \<open>
  The names of tags: which are well formed, how a comma separated list is read and who may
  create a new one.  Then the statements: setting the tags of a topic, renaming, deleting and
  merging tags.  Four tables take part: \<open>tags_values\<close> (a tag, its name and counter),
  \<open>tags_synonyms\<close> (other names), \<open>tags\<close> (which topic has which tag) and \<open>user_tags\<close> (favourite and
  ignored tags).  The Unicode classes of the regular expression, lower-casing in Rust and in SQL
  and the percent encoding are parameters.
\<close>

record tag_env =
  te_letter :: "rchar \<Rightarrow> bool"
  te_digit :: "rchar \<Rightarrow> bool"
  te_to_lower :: "rstr \<Rightarrow> rstr"
  te_char_lower :: "rchar \<Rightarrow> rstr"
  te_lower :: "rstr \<Rightarrow> rstr"
  te_encode :: "rstr \<Rightarrow> rstr"

subsection \<open>Names\<close>

text \<open>\<open>(?i)^[\p{L}\d-](?:[.\p{L}\d \+-]*[\p{L}\d\+-])?$\<close>\<close>

definition tag_first :: "tag_env \<Rightarrow> rchar \<Rightarrow> bool" where
  "tag_first env c \<longleftrightarrow> te_letter env c \<or> te_digit env c \<or> c = 45"

definition tag_inner :: "tag_env \<Rightarrow> rchar \<Rightarrow> bool" where
  "tag_inner env c \<longleftrightarrow> c = 46 \<or> te_letter env c \<or> te_digit env c \<or> c = 32 \<or> c = 43 \<or> c = 45"

definition tag_last :: "tag_env \<Rightarrow> rchar \<Rightarrow> bool" where
  "tag_last env c \<longleftrightarrow> te_letter env c \<or> te_digit env c \<or> c = 43 \<or> c = 45"

definition TAG_RE :: "tag_env \<Rightarrow> rstr \<Rightarrow> bool" where
  "TAG_RE env s = (case s of [] \<Rightarrow> False
     | c # t \<Rightarrow> tag_first env c \<and> (t = [] \<or> list_all (tag_inner env) (butlast t) \<and> tag_last env (last t)))"

definition is_good_tag :: "tag_env \<Rightarrow> rstr \<Rightarrow> bool" where
  "is_good_tag env tag \<longleftrightarrow> 1 \<le> utf16_len tag \<and> utf16_len tag \<le> 32 \<and> TAG_RE env tag"

definition MAX_TAGS_PER_TOPIC :: nat where
  "MAX_TAGS_PER_TOPIC = 5"

definition CREATE_TAG_SCORE :: int where
  "CREATE_TAG_SCORE = 200"

fun parse_parts :: "tag_env \<Rightarrow> rstr list \<Rightarrow> rstr list \<Rightarrow> rstr list" where
  "parse_parts env seen [] = []"
| "parse_parts env seen (p # parts) =
     (let tag = te_to_lower env (trim p) in
      if tag \<noteq> [] \<and> tag \<notin> set seen then tag # parse_parts env (tag # seen) parts else parse_parts env seen parts)"

definition parse_tags :: "tag_env \<Rightarrow> rstr \<Rightarrow> rstr list" where
  "parse_tags env raw = parse_parts env [] (split_on 44 (replace_str [124] [44] raw))"

definition parse_and_validate_tags :: "tag_env \<Rightarrow> rstr \<Rightarrow> rstr + rstr list" where
  "parse_and_validate_tags env raw =
     (let good = filter (is_good_tag env) (parse_tags env raw) in
      if length good > MAX_TAGS_PER_TOPIC then Inl (([1057, 1083, 1080, 1096, 1082, 1086, 1084, 32, 1084, 1085, 1086, 1075, 1086, 32, 1090, 1077, 1075, 1086, 1074, 32, 40, 1084, 1072, 1082, 1089, 1080, 1084, 1091, 1084, 32] :: rstr) \<comment> \<open>Slishkom mnogo tegov (maksimum \<close> @ show_nat MAX_TAGS_PER_TOPIC @ (u '')''))
      else if good = [] then Inl ([1059, 1089, 1090, 1072, 1085, 1086, 1074, 1080, 1090, 1077, 32, 1090, 1077, 1075, 1080] :: rstr) \<comment> \<open>Ustanovite tegi\<close>
      else Inr good)"

definition can_create_tag_by_role :: "bool \<Rightarrow> int \<Rightarrow> bool \<Rightarrow> bool" where
  "can_create_tag_by_role canmod score section_premoderated \<longleftrightarrow> section_premoderated \<or> canmod \<or> CREATE_TAG_SCORE \<le> score"

definition tag_in_use :: "tag_env \<Rightarrow> rstr \<Rightarrow> pg \<Rightarrow> bool" where
  "tag_in_use env tag db \<longleftrightarrow>
     (\<exists>v\<in>set (db_tags_values db). te_lower env (tv_value v) = te_lower env tag \<and> 0 < coalesce 0 (tv_counter v)) \<or>
     (\<exists>y\<in>set (db_tags_synonyms db). te_lower env (ty_value y) = te_lower env tag)"

definition check_can_create_new_tags :: "tag_env \<Rightarrow> rstr list \<Rightarrow> StUserSummary \<Rightarrow> bool \<Rightarrow> unit pg_eff" where
  "check_can_create_new_tags env tags user section_premoderated =
     (if can_create_tag_by_role (us_canmod user) (coalesce 0 (us_score user)) section_premoderated then ret_eff ()
      else bind_eff (\<lambda>db. (Inr (filter (\<lambda>tag. \<not> tag_in_use env tag db) tags), db)) (\<lambda>new_tags.
        if new_tags = [] then ret_eff ()
        else fail_eff (BadRequest (([1042, 1099, 32, 1085, 1077, 32, 1084, 1086, 1078, 1077, 1090, 1077, 32, 1089, 1086, 1079, 1076, 1072, 1074, 1072, 1090, 1100, 32, 1085, 1086, 1074, 1099, 1077, 32, 1090, 1077, 1075, 1080, 32, 40] :: rstr) \<comment> \<open>Vy ne mozhete sozdavat novye tegi (\<close> @ join_with (u '', '') new_tags @ (u '')'')))))"

subsection \<open>Rows\<close>

definition value_of :: "pg \<Rightarrow> int \<Rightarrow> pg_tag_value option" where
  "value_of db i = List.find (\<lambda>v. tv_id v = i) (db_tags_values db)"

text \<open>\<open>INSERT INTO tags_values\<close>: a fresh key, a name not yet in use.\<close>

definition new_tag_value :: "rstr \<Rightarrow> int pg_eff" where
  "new_tag_value name =
     bind_eff (next_val db_tag_seq db_tag_seq_update (2 ^ 31 - 1)) (\<lambda>i.
     bind_eff (exec_insert db_tags_values db_tags_values_update
        (\<lambda>db r. tv_id r \<notin> tv_id ` set (db_tags_values db) \<and> tv_value r \<notin> tv_value ` set (db_tags_values db))
        \<lparr>tv_id = i, tv_counter = Some 0, tv_value = name\<rparr>) (\<lambda>_. ret_eff i))"

text \<open>The same with \<open>ON CONFLICT(value) DO UPDATE SET value=EXCLUDED.value RETURNING id\<close>.\<close>

definition upsert_tag_value :: "rstr \<Rightarrow> int pg_eff" where
  "upsert_tag_value name = (\<lambda>db. case List.find (\<lambda>v. tv_value v = name) (db_tags_values db) of
      None \<Rightarrow> new_tag_value name db
    | Some v \<Rightarrow> bind_eff (next_val db_tag_seq db_tag_seq_update (2 ^ 31 - 1)) (\<lambda>_. ret_eff (tv_id v)) db)"

text \<open>\<open>INSERT .. ON CONFLICT DO NOTHING\<close> of the rows one after the other.\<close>

definition insert_missing :: "'r list \<Rightarrow> 'r list \<Rightarrow> 'r list" where
  "insert_missing rs new = fold (\<lambda>r rs. if r \<in> set rs then rs else rs @ [r]) new rs"

definition insert_tags :: "pg_tag list \<Rightarrow> unit pg_eff" where
  "insert_tags new = (\<lambda>db.
     if list_all (\<lambda>r. r \<in> set (db_tags db) \<or> topic_of db (tg_msgid r) \<noteq> None \<and> value_of db (tg_tagid r) \<noteq> None) new
     then (Inr (), db_tags_update (\<lambda>rs. insert_missing rs new) db) else (Inl db_failure, db))"

definition insert_user_tags :: "pg_user_tag list \<Rightarrow> unit pg_eff" where
  "insert_user_tags new = (\<lambda>db.
     if list_all (\<lambda>r. r \<in> set (db_user_tags db) \<or> user_of db (ut_user_id r) \<noteq> None \<and> value_of db (ut_tag_id r) \<noteq> None) new
     then (Inr (), db_user_tags_update (\<lambda>rs. insert_missing rs new) db) else (Inl db_failure, db))"

text \<open>\<open>DELETE FROM tags_values WHERE id=$1\<close>, which three foreign keys guard.\<close>

definition delete_tag_value :: "int \<Rightarrow> unit pg_eff" where
  "delete_tag_value i = (\<lambda>db.
     if (\<exists>r\<in>set (db_tags db). tg_tagid r = i) \<or> (\<exists>y\<in>set (db_tags_synonyms db). ty_tagid y = i) \<or>
        (\<exists>r\<in>set (db_user_tags db). ut_tag_id r = i)
     then (if value_of db i = None then (Inr (), db) else (Inl db_failure, db))
     else exec_delete db_tags_values_update (\<lambda>v. tv_id v = i) db)"

subsection \<open>The tags of a topic\<close>

definition find_tag :: "tag_env \<Rightarrow> rstr \<Rightarrow> pg \<Rightarrow> int option" where
  "find_tag env tag db =
     (case List.find (\<lambda>y. te_lower env (ty_value y) = te_lower env tag) (db_tags_synonyms db) of
        Some y \<Rightarrow> Some (ty_tagid y)
      | None \<Rightarrow> map_option tv_id (List.find (\<lambda>v. te_lower env (tv_value v) = te_lower env tag) (db_tags_values db)))"

fun desired_tags :: "tag_env \<Rightarrow> int list \<Rightarrow> rstr list \<Rightarrow> int list pg_eff" where
  "desired_tags env ids [] = ret_eff ids"
| "desired_tags env ids (tag # tags) =
     bind_eff (\<lambda>db. (Inr (find_tag env tag db), db)) (\<lambda>existing.
     bind_eff (case existing of Some i \<Rightarrow> ret_eff i | None \<Rightarrow> upsert_tag_value tag) (\<lambda>i.
     desired_tags env (if i \<in> set ids then ids else ids @ [i]) tags))"

definition count_tag :: "pg \<Rightarrow> int \<Rightarrow> nat" where
  "count_tag db i = length (filter (\<lambda>r. tg_tagid r = i) (db_tags db))"

text \<open>\<open>UPDATE tags_values tv SET counter=(SELECT count( * )::int ..) WHERE tv.id=ANY($1)\<close>\<close>

definition recount_tags :: "int list \<Rightarrow> nat pg_eff" where
  "recount_tags ids = (\<lambda>db. exec_update_checked db_tags_values db_tags_values_update (\<lambda>v. tv_id v \<in> set ids)
     (\<lambda>v. v\<lparr>tv_counter := Some (int (count_tag db (tv_id v)))\<rparr>) (\<lambda>v. in_i32_opt (tv_counter v)) db)"

definition vReplaceTags :: "tag_env \<Rightarrow> int \<Rightarrow> rstr option \<Rightarrow> unit pg_eff" where
  "vReplaceTags env iMsgId optTags =
     bind_eff (case optTags of
         Some tags \<Rightarrow> (case parse_and_validate_tags env tags of Inl e \<Rightarrow> fail_eff (BadRequest e) | Inr names \<Rightarrow> ret_eff names)
       | None \<Rightarrow> ret_eff []) (\<lambda>tag_names.
     bind_eff (desired_tags env [] tag_names) (\<lambda>desired_ids.
     bind_eff (\<lambda>db. (Inr (map tg_tagid (filter (\<lambda>r. tg_msgid r = iMsgId) (db_tags db))), db)) (\<lambda>old_ids.
     bind_eff (exec_delete db_tags_update (\<lambda>r. tg_msgid r = iMsgId)) (\<lambda>_.
     bind_eff (insert_tags (map (\<lambda>i. \<lparr>tg_msgid = iMsgId, tg_tagid = i\<rparr>) desired_ids)) (\<lambda>_.
     let affected_ids = insert_missing old_ids desired_ids in
     if affected_ids \<noteq> [] then bind_eff (recount_tags affected_ids) (\<lambda>_. ret_eff ()) else ret_eff ())))))"

subsection \<open>Renaming\<close>

datatype tag_outcome = TagForm "rstr list" | TagFound rstr

definition first_letter_of :: "tag_env \<Rightarrow> rstr \<Rightarrow> rstr" where
  "first_letter_of env tag = (case tag of [] \<Rightarrow> [] | c # _ \<Rightarrow> te_char_lower env c)"

definition tags_location :: "tag_env \<Rightarrow> rstr \<Rightarrow> rstr" where
  "tags_location env tag = (u ''/tags/'') @ te_encode env (first_letter_of env tag)"

definition get_tag_id :: "tag_env \<Rightarrow> rstr \<Rightarrow> int option pg_eff" where
  "get_tag_id env name = (\<lambda>db. (Inr (map_option tv_id
     (List.find (\<lambda>v. te_lower env (tv_value v) = te_lower env name) (db_tags_values db))), db))"

definition vecChangeTagErrors :: "tag_env \<Rightarrow> bool \<Rightarrow> bool \<Rightarrow> rstr \<Rightarrow> rstr list" where
  "vecChangeTagErrors env bOldTagExists bNewTagExists sTagName =
     (if \<not> bOldTagExists then [([1058, 1077, 1075, 1072, 32, 1089, 32, 1090, 1072, 1082, 1080, 1084, 32, 1080, 1084, 1077, 1085, 1077, 1084, 32, 1085, 1077, 32, 1089, 1091, 1097, 1077, 1089, 1090, 1074, 1091, 1077, 1090, 33] :: rstr) \<comment> \<open>Tega s takim imenem ne sushchestvuet!\<close>] else []) @
     (if \<not> is_good_tag env sTagName then [([1053, 1077, 1082, 1086, 1088, 1088, 1077, 1082, 1090, 1085, 1099, 1081, 32, 1090, 1077, 1075, 58, 32, 39] :: rstr) \<comment> \<open>Nekorrektnyj teg: (apostrophe)\<close> @ sTagName @ ([39] :: rstr) \<comment> \<open>(apostrophe)\<close>]
      else if bNewTagExists then [([1058, 1077, 1075, 32, 1089, 32, 1090, 1072, 1082, 1080, 1084, 32, 1080, 1084, 1077, 1085, 1077, 1084, 32, 1091, 1078, 1077, 32, 1089, 1091, 1097, 1077, 1089, 1090, 1074, 1091, 1077, 1090, 33] :: rstr) \<comment> \<open>Teg s takim imenem uzhe sushchestvuet!\<close>] else [])"

text \<open>A transaction of a handler which also sends messages: a failure undoes the store only.\<close>

definition world_transaction :: "('q world, app_error, 'a) eff \<Rightarrow> ('q world, app_error, 'a) eff" where
  "world_transaction m = (\<lambda>w. case m w of (Inl e, w') \<Rightarrow> (Inl e, w'\<lparr>w_db := w_db w\<rparr>) | (Inr a, w') \<Rightarrow> (Inr a, w'))"

fun vReindexTopicIds :: "'q world TrTopicReindexQueue \<Rightarrow> int list \<Rightarrow> ('q world, app_error, unit) eff" where
  "vReindexTopicIds queue [] = ret_eff ()"
| "vReindexTopicIds queue (i # ids) = bind_eff (trq_vUpdateMessage queue i True) (\<lambda>_. vReindexTopicIds queue ids)"

definition topics_with_tag :: "int \<Rightarrow> int list pg_eff" where
  "topics_with_tag i = (\<lambda>db. (Inr (map tg_msgid (filter (\<lambda>r. tg_tagid r = i) (db_tags db))), db))"

definition reindex_topics_with_tag :: "'q world TrTopicReindexQueue \<Rightarrow> int \<Rightarrow> ('q world, app_error, unit) eff" where
  "reindex_topics_with_tag queue tag_id = bind_eff (on_db (topics_with_tag tag_id)) (vReindexTopicIds queue)"

text \<open>\<open>UPDATE tags_values SET value=$2 WHERE id=$1\<close>, names are unique.\<close>

definition rename_tag_value :: "int \<Rightarrow> rstr \<Rightarrow> nat pg_eff" where
  "rename_tag_value i name = (\<lambda>db.
     if value_of db i \<noteq> None \<and> (\<exists>v\<in>set (db_tags_values db). tv_id v \<noteq> i \<and> tv_value v = name) then (Inl db_failure, db)
     else exec_update db_tags_values db_tags_values_update (\<lambda>v. tv_id v = i) (\<lambda>v. v\<lparr>tv_value := name\<rparr>) db)"

definition change_tx :: "'q world TrTopicReindexQueue \<Rightarrow> int \<Rightarrow> rstr \<Rightarrow> ('q world, app_error, unit) eff" where
  "change_tx queue old_tag_id tag_name = world_transaction (
     bind_eff (on_db (exec_delete db_tags_synonyms_update (\<lambda>y. ty_value y = tag_name))) (\<lambda>_.
     bind_eff (on_db (rename_tag_value old_tag_id tag_name)) (\<lambda>_.
     bind_eff (on_db (topics_with_tag old_tag_id)) (vReindexTopicIds queue))))"

definition change_tag :: "tag_env \<Rightarrow> 'q world TrTopicReindexQueue \<Rightarrow> StUserSummary option \<Rightarrow> rstr \<Rightarrow> rstr \<Rightarrow>
    ('q world, app_error, tag_outcome) eff" where
  "change_tag env queue user old_tag_name tag_name =
     (case user of None \<Rightarrow> fail_eff Forbidden | Some moderator \<Rightarrow> if \<not> us_canmod moderator then fail_eff Forbidden else
     bind_eff (on_db (get_tag_id env old_tag_name)) (\<lambda>optOldTagId.
     let bGoodTag = is_good_tag env tag_name in
     bind_eff (if bGoodTag then bind_eff (on_db (get_tag_id env tag_name)) (\<lambda>x. ret_eff (x \<noteq> None)) else ret_eff False) (\<lambda>bNewTagExists.
     let vecErrors = vecChangeTagErrors env (optOldTagId \<noteq> None) bNewTagExists tag_name in
     if vecErrors \<noteq> [] then ret_eff (TagForm vecErrors)
     else bind_eff (change_tx queue (the optOldTagId) tag_name) (\<lambda>_. ret_eff (TagFound (tags_location env tag_name))))))"

subsection \<open>Deleting and merging\<close>

definition vecDeleteTagErrors :: "tag_env \<Rightarrow> bool \<Rightarrow> rstr \<Rightarrow> rstr option \<Rightarrow> bool \<Rightarrow> rstr list" where
  "vecDeleteTagErrors env bOldTagExists sOldTagName optTagName bCreateSynonym =
     (let bPerformDelete = (case optTagName of None \<Rightarrow> True | Some s \<Rightarrow> s = []) in
     (if \<not> bOldTagExists then [([1058, 1077, 1075, 1072, 32, 1089, 32, 1090, 1072, 1082, 1080, 1084, 32, 1080, 1084, 1077, 1085, 1077, 1084, 32, 1085, 1077, 32, 1089, 1091, 1097, 1077, 1089, 1090, 1074, 1091, 1077, 1090, 33] :: rstr) \<comment> \<open>Tega s takim imenem ne sushchestvuet!\<close>] else []) @
     (case optTagName of None \<Rightarrow> []
      | Some sTagName \<Rightarrow> if sTagName \<noteq> [] \<and> \<not> is_good_tag env sTagName then [([1053, 1077, 1082, 1086, 1088, 1088, 1077, 1082, 1090, 1085, 1099, 1081, 32, 1090, 1077, 1075, 58, 32, 39] :: rstr) \<comment> \<open>Nekorrektnyj teg: (apostrophe)\<close> @ sTagName @ ([39] :: rstr) \<comment> \<open>(apostrophe)\<close>] else []) @
     (if optTagName = Some sOldTagName then [([1047, 1072, 1084, 1077, 1085, 1103, 1077, 1084, 1099, 1081, 32, 1090, 1077, 1075, 32, 1085, 1077, 32, 1076, 1086, 1083, 1078, 1077, 1085, 32, 1073, 1099, 1090, 1100, 32, 1088, 1072, 1074, 1077, 1085, 32, 1091, 1076, 1072, 1083, 1103, 1077, 1084, 1086, 1084, 1091, 33] :: rstr) \<comment> \<open>Zamenyaemyj teg ne dolzhen byt raven udalyaemomu!\<close>] else []) @
     (if bCreateSynonym \<and> bPerformDelete then [([1053, 1077, 32, 1091, 1082, 1072, 1079, 1072, 1085, 32, 1090, 1077, 1075, 32, 1076, 1083, 1103, 32, 1089, 1086, 1079, 1076, 1072, 1085, 1080, 1103, 32, 1089, 1080, 1085, 1086, 1085, 1080, 1084, 1072, 33] :: rstr) \<comment> \<open>Ne ukazan teg dlya sozdaniya sinonima!\<close>] else []))"

definition delete_tx :: "int \<Rightarrow> unit pg_eff" where
  "delete_tx old_tag_id = transaction (
     bind_eff (exec_delete db_user_tags_update (\<lambda>r. ut_tag_id r = old_tag_id)) (\<lambda>_.
     bind_eff (exec_delete db_tags_update (\<lambda>r. tg_tagid r = old_tag_id)) (\<lambda>_.
     bind_eff (exec_delete db_tags_synonyms_update (\<lambda>y. ty_tagid y = old_tag_id)) (\<lambda>_.
     delete_tag_value old_tag_id))))"

definition merge_target :: "rstr \<Rightarrow> int pg_eff" where
  "merge_target tag_name = (\<lambda>db.
     case List.find (\<lambda>v. tv_value v = tag_name) (db_tags_values db) of Some v \<Rightarrow> (Inr (tv_id v), db)
     | None \<Rightarrow> (case List.find (\<lambda>y. ty_value y = tag_name) (db_tags_synonyms db) of Some y \<Rightarrow> (Inr (ty_tagid y), db)
       | None \<Rightarrow> new_tag_value tag_name db))"

definition replaced_count :: "int \<Rightarrow> int \<Rightarrow> nat pg_eff" where
  "replaced_count old_tag_id new_tag_id = (\<lambda>db. (Inr (length (filter (\<lambda>r. tg_tagid r = old_tag_id \<and>
      \<not> (\<exists>t\<in>set (db_tags db). tg_msgid t = tg_msgid r \<and> tg_tagid t = new_tag_id)) (db_tags db))), db))"

text \<open>\<open>INSERT INTO tags_synonyms .. ON CONFLICT(value) DO UPDATE SET tagid=EXCLUDED.tagid\<close>\<close>

definition put_synonym :: "rstr \<Rightarrow> int \<Rightarrow> unit pg_eff" where
  "put_synonym name i = (\<lambda>db.
     if value_of db i = None then (Inl db_failure, db)
     else (Inr (), db_tags_synonyms_update (\<lambda>ys. if name \<in> ty_value ` set ys
       then update_where (\<lambda>y. ty_value y = name) (\<lambda>y. y\<lparr>ty_tagid := i\<rparr>) ys
       else ys @ [\<lparr>ty_value = name, ty_tagid = i\<rparr>]) db))"

definition merge_rows :: "rstr \<Rightarrow> bool \<Rightarrow> int \<Rightarrow> int \<Rightarrow> unit pg_eff" where
  "merge_rows old_tag_name create_synonym old_tag_id new_tag_id =
     bind_eff (replaced_count old_tag_id new_tag_id) (\<lambda>iReplacedTagCount.
     bind_eff (\<lambda>db. insert_tags (map (\<lambda>r. r\<lparr>tg_tagid := new_tag_id\<rparr>) (filter (\<lambda>r. tg_tagid r = old_tag_id) (db_tags db))) db) (\<lambda>_.
     bind_eff (exec_delete db_tags_update (\<lambda>r. tg_tagid r = old_tag_id)) (\<lambda>_.
     bind_eff (\<lambda>db. insert_user_tags (map (\<lambda>r. r\<lparr>ut_tag_id := new_tag_id\<rparr>) (filter (\<lambda>r. ut_tag_id r = old_tag_id) (db_user_tags db))) db) (\<lambda>_.
     bind_eff (exec_delete db_user_tags_update (\<lambda>r. ut_tag_id r = old_tag_id)) (\<lambda>_.
     bind_eff (exec_update_checked db_tags_values db_tags_values_update (\<lambda>v. tv_id v = new_tag_id)
        (\<lambda>v. v\<lparr>tv_counter := map_option (\<lambda>n. n + int iReplacedTagCount) (tv_counter v)\<rparr>) (\<lambda>v. in_i32_opt (tv_counter v))) (\<lambda>_.
     bind_eff (exec_update db_tags_synonyms db_tags_synonyms_update (\<lambda>y. ty_tagid y = old_tag_id) (\<lambda>y. y\<lparr>ty_tagid := new_tag_id\<rparr>)) (\<lambda>_.
     bind_eff (if create_synonym then put_synonym old_tag_name new_tag_id else ret_eff ()) (\<lambda>_.
     delete_tag_value old_tag_id))))))))"

definition merge_tx :: "rstr \<Rightarrow> bool \<Rightarrow> int \<Rightarrow> rstr \<Rightarrow> int pg_eff" where
  "merge_tx old_tag_name create_synonym old_tag_id tag_name = transaction (
     bind_eff (merge_target tag_name) (\<lambda>new_tag_id.
     bind_eff (merge_rows old_tag_name create_synonym old_tag_id new_tag_id) (\<lambda>_. ret_eff new_tag_id)))"

record TagDeleteForm =
  td_old_tag_name :: rstr
  td_tag_name :: "rstr option"
  td_create_synonym :: "rstr option"

definition delete_tag :: "tag_env \<Rightarrow> 'q world TrTopicReindexQueue \<Rightarrow> StUserSummary option \<Rightarrow> TagDeleteForm \<Rightarrow>
    ('q world, app_error, tag_outcome) eff" where
  "delete_tag env queue user form =
     (case user of None \<Rightarrow> fail_eff Forbidden | Some moderator \<Rightarrow> if \<not> us_canmod moderator then fail_eff Forbidden else
     let old_tag_name = td_old_tag_name form in
     bind_eff (on_db (fetch_optional db_tags_synonyms (\<lambda>y. ty_value y = old_tag_name))) (\<lambda>synonym_target.
     if synonym_target \<noteq> None then
       bind_eff (on_db (exec_delete db_tags_synonyms_update (\<lambda>y. ty_value y = old_tag_name))) (\<lambda>_.
       ret_eff (TagFound (tags_location env old_tag_name)))
     else bind_eff (on_db (get_tag_id env old_tag_name)) (\<lambda>optOldTagId.
     let tag_name = (case td_tag_name form of Some s \<Rightarrow> if s = [] then None else Some s | None \<Rightarrow> None);
         create_synonym = (td_create_synonym form \<noteq> None);
         vecErrors = vecDeleteTagErrors env (optOldTagId \<noteq> None) old_tag_name (td_tag_name form) create_synonym;
         old_tag_id = the optOldTagId
     in if vecErrors \<noteq> [] then ret_eff (TagForm vecErrors)
     else (case tag_name of
        None \<Rightarrow>
          bind_eff (on_db (topics_with_tag old_tag_id)) (\<lambda>affected_topics.
          bind_eff (on_db (delete_tx old_tag_id)) (\<lambda>_.
          bind_eff (vReindexTopicIds queue affected_topics) (\<lambda>_.
          ret_eff (TagFound (tags_location env old_tag_name)))))
      | Some tag_name \<Rightarrow>
          bind_eff (on_db (merge_tx old_tag_name create_synonym old_tag_id tag_name)) (\<lambda>new_tag_id.
          bind_eff (reindex_topics_with_tag queue new_tag_id) (\<lambda>_.
          ret_eff (TagFound (tags_location env tag_name))))))))"

subsection \<open>Reading a list of names\<close>

text \<open>The classes of the expression have no white space and none of the separators; lower-casing twice changes
  nothing more.\<close>

definition tag_classes_ok :: "tag_env \<Rightarrow> bool" where
  "tag_classes_ok env \<longleftrightarrow>
     (\<forall>c. te_letter env c \<or> te_digit env c \<longrightarrow> \<not> is_whitespace c \<and> c \<noteq> 44 \<and> c \<noteq> 124) \<and>
     (\<forall>s. te_to_lower env (te_to_lower env s) = te_to_lower env s)"

lemma good_tag_chars:
  assumes "tag_classes_ok env" and "is_good_tag env s"
  shows "s \<noteq> []" "c \<in> set s \<Longrightarrow> c \<noteq> 44 \<and> c \<noteq> 124" "trim s = s"
proof -
  from assms(2) obtain a t where s: "s = a # t" and a: "tag_first env a"
    and t: "t = [] \<or> list_all (tag_inner env) (butlast t) \<and> tag_last env (last t)"
    by (auto simp: is_good_tag_def TAG_RE_def split: list.splits)
  show "s \<noteq> []" by (simp add: s)
  have first: "\<not> is_whitespace a \<and> a \<noteq> 44 \<and> a \<noteq> 124"
    using a assms(1) by (auto simp: tag_first_def tag_classes_ok_def is_whitespace_def)
  have inner: "c \<noteq> 44 \<and> c \<noteq> 124" if "tag_inner env c" for c
    using that assms(1) by (auto simp: tag_inner_def tag_classes_ok_def)
  have final: "\<not> is_whitespace (last t) \<and> last t \<noteq> 44 \<and> last t \<noteq> 124" if "t \<noteq> []"
    using t that assms(1) by (auto simp: tag_last_def tag_classes_ok_def is_whitespace_def)
  have rest: "c \<noteq> 44 \<and> c \<noteq> 124" if "c \<in> set t" for c
  proof -
    from that have "t \<noteq> []" by auto
    then have "set t = set (butlast t) \<union> {last t}"
      by (metis append_butlast_last_id set_append list.simps(15) empty_set)
    with that have "c \<in> set (butlast t) \<or> c = last t" by auto
    moreover from t \<open>t \<noteq> []\<close> have "c \<in> set (butlast t) \<Longrightarrow> tag_inner env c" by (simp add: list_all_iff)
    ultimately show ?thesis using inner [of c] final [OF \<open>t \<noteq> []\<close>] by (cases "c = last t") simp_all
  qed
  show "c \<in> set s \<Longrightarrow> c \<noteq> 44 \<and> c \<noteq> 124" using first rest by (auto simp: s)
  show "trim s = s" unfolding trim_def
    by (rule trim_by_id) (use first final in \<open>auto simp: s\<close>)
qed

lemma parse_parts_out: "x \<in> set (parse_parts env seen ps) \<Longrightarrow> x \<notin> set seen \<and> x \<noteq> [] \<and> (\<exists>p. x = te_to_lower env p)"
  by (induction env seen ps rule: parse_parts.induct) (auto simp: Let_def split: if_splits)

lemma parse_parts_distinct: "distinct (parse_parts env seen ps)"
  by (induction env seen ps rule: parse_parts.induct) (auto simp: Let_def dest: parse_parts_out)

lemma parse_parts_same:
  "(\<And>x. x \<in> set ps \<Longrightarrow> x \<noteq> [] \<and> trim x = x \<and> te_to_lower env x = x) \<Longrightarrow> distinct ps \<Longrightarrow> set ps \<inter> set seen = {} \<Longrightarrow>
    parse_parts env seen ps = ps"
  by (induction ps arbitrary: seen) (auto simp: Let_def)

lemma tags_valid_iff:
  "parse_and_validate_tags env raw = Inr names \<longleftrightarrow> names = filter (is_good_tag env) (parse_tags env raw) \<and> names \<noteq> [] \<and> length names \<le> 5"
  by (auto simp: parse_and_validate_tags_def Let_def MAX_TAGS_PER_TOPIC_def)

lemma replace_nothing: "c \<notin> set s \<Longrightarrow> replace_str [c] r s = s"
  by (induction s) auto

lemma set_join_with: "c \<in> set (join_with d ps) \<Longrightarrow> c \<in> set d \<or> (\<exists>p\<in>set ps. c \<in> set p)"
  by (induction d ps rule: join_with.induct) auto

lemma parse_tags_join:
  assumes "tag_classes_ok env" and "\<And>x. x \<in> set names \<Longrightarrow> is_good_tag env x \<and> te_to_lower env x = x" and "distinct names" and "names \<noteq> []"
  shows "parse_tags env (join_with [44] names) = names"
proof -
  note chars = good_tag_chars [OF assms(1)]
  have no_bar: "124 \<notin> set (join_with [44] names)"
  proof
    assume "124 \<in> set (join_with [44] names)"
    then obtain x where "x \<in> set names" "124 \<in> set x" by (auto dest: set_join_with)
    then show False using assms(2) chars(2) [of x 124] by simp
  qed
  have no_comma: "\<forall>x\<in>set names. 44 \<notin> set x" using assms(2) chars(2) by metis
  have "replace_str [124] [44] (join_with [44] names) = join_with [44] names" by (rule replace_nothing) (rule no_bar)
  moreover have "split_on 44 (join_with [44] names) = names"
    by (rule split_on_join [OF assms(4) no_comma])
  moreover have "parse_parts env [] names = names"
    using assms(2) chars(1,3) by (intro parse_parts_same assms(3)) auto
  ultimately show ?thesis unfolding parse_tags_def by simp
qed

text \<open>The list of tags the server reads from a form is valid - one to five different well-formed names - and
  writing it back with commas, as the edit form does, and reading it again gives the same list.  This
  assumes of Unicode that letters and digits are no separators and that lower-casing is idempotent.\<close>

theorem tags_roundtrip:
  assumes "tag_classes_ok env" and "parse_and_validate_tags env raw = Inr names"
  shows "distinct names \<and> 1 \<le> length names \<and> length names \<le> 5 \<and> (\<forall>x\<in>set names. is_good_tag env x) \<and>
    parse_and_validate_tags env (join_with [44] names) = Inr names"
proof -
  from assms(2) have names: "names = filter (is_good_tag env) (parse_tags env raw)" "names \<noteq> []" "length names \<le> 5"
    unfolding tags_valid_iff by blast+
  have "distinct names" unfolding names(1) parse_tags_def by (simp add: parse_parts_distinct)
  have good: "is_good_tag env x \<and> te_to_lower env x = x" if "x \<in> set names" for x
  proof -
    from that have "is_good_tag env x" "x \<in> set (parse_tags env raw)" unfolding names(1) by auto
    moreover from this(2) obtain p where "x = te_to_lower env p" unfolding parse_tags_def using parse_parts_out by blast
    ultimately show ?thesis using assms(1) by (simp add: tag_classes_ok_def)
  qed
  from parse_tags_join [OF assms(1) good \<open>distinct names\<close> names(2)] have "parse_tags env (join_with [44] names) = names" by simp
  then have "names = filter (is_good_tag env) (parse_tags env (join_with [44] names))" using good by simp
  then have "parse_and_validate_tags env (join_with [44] names) = Inr names" unfolding tags_valid_iff using names(2,3) by blast
  moreover have "1 \<le> length names" using names(2) by (simp add: Suc_le_eq)
  ultimately show ?thesis using names(3) \<open>distinct names\<close> good by blast
qed

definition ex_tag_env :: tag_env where
  "ex_tag_env = \<lparr>te_letter = (\<lambda>c. 97 \<le> c \<and> c \<le> 122 \<or> 65 \<le> c \<and> c \<le> 90), te_digit = is_ascii_digit, te_to_lower = to_ascii_lowercase,
     te_char_lower = (\<lambda>c. [ascii_lower c]), te_lower = to_ascii_lowercase, te_encode = (\<lambda>s. s)\<rparr>"

lemma ex_tag_classes: "tag_classes_ok ex_tag_env"
  by (auto simp: tag_classes_ok_def ex_tag_env_def is_ascii_digit_def is_whitespace_def to_ascii_lowercase_def ascii_lower_def)

lemmas ex_tag_simps = ex_tag_env_def TAG_RE_def tag_first_def tag_inner_def tag_last_def is_good_tag_def is_ascii_digit_def
  to_ascii_lowercase_def ascii_lower_def trim_def trim_by_def is_whitespace_def

lemma ex_tags_read: "parse_and_validate_tags ex_tag_env (u ''Rust, c++|rust,?'') = Inr [(u ''rust''), (u ''c++'')]"
  by (simp add: tags_valid_iff parse_tags_def ex_tag_simps)

theorem tags_roundtrip_witness:
  "parse_and_validate_tags ex_tag_env (join_with [44] [(u ''rust''), (u ''c++'')]) = Inr [(u ''rust''), (u ''c++'')]"
  using tags_roundtrip [OF ex_tag_classes ex_tags_read] by (elim conjE) assumption

end
