(* ===== verification/Tag_Store.thy ===== *)
theory Tag_Store
  imports Tags
begin

section \<open>The tag tables stay consistent\<close>

text \<open>
  What the statements of theory Tags do to the four tables: names and keys stay unique, no row
  refers to a missing tag, and the counters stay right; merging one tag into another; setting the tags of a topic; deleting and
  renaming a tag.
\<close>

subsection \<open>The invariant\<close>

definition tag_ids :: "pg \<Rightarrow> int set" where
  "tag_ids db = tv_id ` set (db_tags_values db)"

definition tags_ok :: "pg \<Rightarrow> bool" where
  "tags_ok db \<longleftrightarrow> distinct (map tv_id (db_tags_values db)) \<and> distinct (map tv_value (db_tags_values db)) \<and>
     distinct (map ty_value (db_tags_synonyms db)) \<and> distinct (db_tags db) \<and> distinct (db_user_tags db) \<and>
     (\<forall>r\<in>set (db_tags db). tg_tagid r \<in> tag_ids db) \<and> (\<forall>y\<in>set (db_tags_synonyms db). ty_tagid y \<in> tag_ids db) \<and>
     (\<forall>r\<in>set (db_user_tags db). ut_tag_id r \<in> tag_ids db)"

lemma tag_ids_simps [simp]:
  "tag_ids (db_tags_update f1 db) = tag_ids db" "tag_ids (db_user_tags_update f2 db) = tag_ids db"
  "tag_ids (db_tags_synonyms_update f3 db) = tag_ids db" "tag_ids (db_tag_seq_update f4 db) = tag_ids db"
  "tag_ids (db_tags_values_update (\<lambda>vs. vs @ [v]) db) = insert (tv_id v) (tag_ids db)"
  "tag_ids (db_tags_values_update (filter (\<lambda>v. tv_id v \<noteq> i)) db) = tag_ids db - {i}"
  by (auto simp: tag_ids_def)

lemma tag_ids_update_where [simp]:
  "(\<And>v. tv_id (f v) = tv_id v) \<Longrightarrow> tag_ids (db_tags_values_update (update_where p f) db) = tag_ids db"
proof -
  assume "\<And>v. tv_id (f v) = tv_id v"
  then have "map tv_id (update_where p f vs) = map tv_id vs" for vs by (simp add: update_where_def)
  then show ?thesis by (simp add: tag_ids_def flip: set_map)
qed

lemma map_update_same: "(\<And>v. k (f v) = k v) \<Longrightarrow> map k (update_where p f vs) = map k vs"
  by (simp add: update_where_def)

lemma value_of_iff: "value_of db i \<noteq> None \<longleftrightarrow> i \<in> tag_ids db"
  by (auto simp: value_of_def tag_ids_def find_None_iff)

lemma insert_missing_set [simp]: "set (insert_missing rs new) = set rs \<union> set new"
proof -
  have "set (fold (\<lambda>r rs. if r \<in> set rs then rs else rs @ [r]) new rs) = set rs \<union> set new"
    by (induction new arbitrary: rs) auto
  then show ?thesis by (simp add: insert_missing_def)
qed

lemma insert_missing_distinct: "distinct rs \<Longrightarrow> distinct (insert_missing rs new)"
proof -
  have "distinct rs \<Longrightarrow> distinct (fold (\<lambda>r rs. if r \<in> set rs then rs else rs @ [r]) new rs)"
    by (induction new arbitrary: rs) auto
  then show "distinct rs \<Longrightarrow> distinct (insert_missing rs new)" by (simp add: insert_missing_def)
qed

lemma new_tag_value_Inr:
  assumes "new_tag_value name db = (Inr i, db')"
  shows "i = db_tag_seq db \<and> i \<notin> tag_ids db \<and> name \<notin> tv_value ` set (db_tags_values db) \<and>
    db' = db_tag_seq_update (\<lambda>_. i + 1) (db_tags_values_update (\<lambda>vs. vs @ [\<lparr>tv_id = i, tv_counter = Some 0, tv_value = name\<rparr>]) db)"
  using assms
  by (auto simp: new_tag_value_def bind_eff_Inr_iff next_val_def exec_insert_def tag_ids_def split: if_splits)

lemma insert_tags_Inr:
  assumes "insert_tags new db = (Inr x, db')"
  shows "db' = db_tags_update (\<lambda>rs. insert_missing rs new) db \<and> (\<forall>r\<in>set new. r \<notin> set (db_tags db) \<longrightarrow> tg_tagid r \<in> tag_ids db)"
  using assms unfolding insert_tags_def list_all_iff value_of_iff by (simp split: if_splits) blast

lemma insert_user_tags_Inr:
  assumes "insert_user_tags new db = (Inr x, db')"
  shows "db' = db_user_tags_update (\<lambda>rs. insert_missing rs new) db \<and> (\<forall>r\<in>set new. r \<notin> set (db_user_tags db) \<longrightarrow> ut_tag_id r \<in> tag_ids db)"
  using assms unfolding insert_user_tags_def list_all_iff value_of_iff by (simp split: if_splits) blast

lemma delete_tag_value_Inr:
  assumes "delete_tag_value i db = (Inr x, db')"
  shows "(db' = db \<and> i \<notin> tag_ids db) \<or> db' = db_tags_values_update (filter (\<lambda>v. tv_id v \<noteq> i)) db \<and>
    (\<forall>r\<in>set (db_tags db). tg_tagid r \<noteq> i) \<and> (\<forall>y\<in>set (db_tags_synonyms db). ty_tagid y \<noteq> i) \<and> (\<forall>r\<in>set (db_user_tags db). ut_tag_id r \<noteq> i)"
  using assms value_of_iff [of db i] by (auto simp: delete_tag_value_def exec_delete_def split: if_splits)

definition with_synonym :: "rstr \<Rightarrow> int \<Rightarrow> pg_synonym list \<Rightarrow> pg_synonym list" where
  "with_synonym name i ys = (if name \<in> ty_value ` set ys then update_where (\<lambda>y. ty_value y = name) (\<lambda>y. y\<lparr>ty_tagid := i\<rparr>) ys
     else ys @ [\<lparr>ty_value = name, ty_tagid = i\<rparr>])"

lemma put_synonym_Inr:
  "put_synonym name i db = (Inr x, db') \<Longrightarrow> i \<in> tag_ids db \<and> db' = db_tags_synonyms_update (with_synonym name i) db"
  using value_of_iff [of db i] by (auto simp: put_synonym_def with_synonym_def split: if_splits)

lemma with_synonym_facts:
  "distinct (map ty_value ys) \<Longrightarrow> distinct (map ty_value (with_synonym name i ys))"
  "y \<in> set (with_synonym name i ys) \<Longrightarrow> y \<in> set ys \<or> ty_tagid y = i"
  by (auto simp: with_synonym_def map_update_same) (auto simp: update_where_def split: if_splits)

text \<open>The rules follow the statements.\<close>

lemma keeps_new_tag_value: "keeps tags_ok (new_tag_value name)"
  unfolding keeps_def by (auto simp: tags_ok_def tag_ids_def dest!: new_tag_value_Inr)


lemma keeps_insert_user_tags: "keeps tags_ok (insert_user_tags new)"
  unfolding keeps_def by (force simp: tags_ok_def insert_missing_distinct dest!: insert_user_tags_Inr)


lemma keeps_delete_tag_value: "keeps tags_ok (delete_tag_value i)"
  unfolding keeps_def by (auto simp: tags_ok_def intro: distinct_map_filter dest!: delete_tag_value_Inr)



lemma keeps_put_synonym: "keeps tags_ok (put_synonym name i)"
  unfolding keeps_def by (force simp: tags_ok_def with_synonym_facts(1) dest!: put_synonym_Inr dest: with_synonym_facts(2))


subsection \<open>The operations keep the invariant\<close>


lemma keeps_depends: "(\<And>x. keeps I (m x)) \<Longrightarrow> keeps I (\<lambda>db. m (f db) db)"
  by (simp add: keeps_def)







text \<open>Synonyms move to a tag that exists.\<close>

lemma merge_target_Inr:
  assumes "merge_target name db = (Inr i, db')" and "tags_ok db"
  shows "tags_ok db' \<and> i \<in> tag_ids db' \<and> db_tags db' = db_tags db \<and> db_user_tags db' = db_user_tags db \<and>
    db_tags_synonyms db' = db_tags_synonyms db \<and> tag_ids db' = insert i (tag_ids db) \<and>
    (db' = db \<or> i \<notin> tag_ids db \<and> db_tags_values db' = db_tags_values db @ [\<lparr>tv_id = i, tv_counter = Some 0, tv_value = name\<rparr>])"
proof (cases "List.find (\<lambda>v. tv_value v = name) (db_tags_values db)")
  case (Some v)
  then have "v \<in> set (db_tags_values db)" by (auto simp: find_Some_iff)
  with Some assms show ?thesis by (auto simp: merge_target_def tag_ids_def)
next
  case None
  show ?thesis
  proof (cases "List.find (\<lambda>y. ty_value y = name) (db_tags_synonyms db)")
    case (Some y)
    then have "y \<in> set (db_tags_synonyms db)" by (auto simp: find_Some_iff)
    with Some None assms show ?thesis by (auto simp: merge_target_def tags_ok_def)
  next
    case none: None
    from none None assms(1) have new: "new_tag_value name db = (Inr i, db')" by (simp add: merge_target_def)
    from keepsD [OF keeps_new_tag_value assms(2) this] new_tag_value_Inr [OF new] show ?thesis by auto
  qed
qed

definition merged_counter :: "pg \<Rightarrow> int \<Rightarrow> int \<Rightarrow> pg_tag_value \<Rightarrow> pg_tag_value" where
  "merged_counter db old new v = (if tv_id v = new then v\<lparr>tv_counter := map_option (\<lambda>n. n + int (length (filter (\<lambda>r. tg_tagid r = old \<and>
      \<not> (\<exists>t\<in>set (db_tags db). tg_msgid t = tg_msgid r \<and> tg_tagid t = new)) (db_tags db)))) (tv_counter v)\<rparr> else v)"

definition moved :: "('r \<Rightarrow> int) \<Rightarrow> ((int \<Rightarrow> int) \<Rightarrow> 'r \<Rightarrow> 'r) \<Rightarrow> int \<Rightarrow> int \<Rightarrow> 'r list \<Rightarrow> 'r list" where
  "moved tag put old new rs = filter (\<lambda>r. tag r \<noteq> old) (insert_missing rs (map (put (\<lambda>_. new)) (filter (\<lambda>r. tag r = old) rs)))"

text \<open>The rows before the last statement.\<close>

definition merged :: "rstr \<Rightarrow> bool \<Rightarrow> int \<Rightarrow> int \<Rightarrow> pg \<Rightarrow> pg" where
  "merged old_name create old new db = db\<lparr>db_tags := moved tg_tagid tg_tagid_update old new (db_tags db),
     db_user_tags := moved ut_tag_id ut_tag_id_update old new (db_user_tags db),
     db_tags_values := map (merged_counter db old new) (db_tags_values db),
     db_tags_synonyms := (let ys = update_where (\<lambda>y. ty_tagid y = old) (\<lambda>y. y\<lparr>ty_tagid := new\<rparr>) (db_tags_synonyms db)
       in if create then with_synonym old_name new ys else ys)\<rparr>"

lemma merged_same:
  "map tv_id (map (merged_counter db old new) vs) = map tv_id vs" "map tv_value (map (merged_counter db old new) vs) = map tv_value vs"
  "tag_ids (merged old_name create old new db) = tag_ids db"
proof -
  show ids: "map tv_id (map (merged_counter db old new) vs) = map tv_id vs" for vs by (simp add: merged_counter_def)
  show "map tv_value (map (merged_counter db old new) vs) = map tv_value vs" by (simp add: merged_counter_def)
  show "tag_ids (merged old_name create old new db) = tag_ids db"
    using ids [of "db_tags_values db"] by (simp add: tag_ids_def merged_def flip: set_map del: map_map)
qed

lemma merge_rows_Inr:
  assumes "merge_rows old_name create old new db = (Inr x, db')"
  shows "delete_tag_value old (merged old_name create old new db) = (Inr x, db') \<and>
    (\<forall>r\<in>set (map (tg_tagid_update (\<lambda>_. new)) (filter (\<lambda>r. tg_tagid r = old) (db_tags db))). r \<notin> set (db_tags db) \<longrightarrow> new \<in> tag_ids db) \<and>
    (\<forall>r\<in>set (map (ut_tag_id_update (\<lambda>_. new)) (filter (\<lambda>r. ut_tag_id r = old) (db_user_tags db))). r \<notin> set (db_user_tags db) \<longrightarrow> new \<in> tag_ids db)"
proof -
  let ?n = "length (filter (\<lambda>r. tg_tagid r = old \<and> \<not> (\<exists>t\<in>set (db_tags db). tg_msgid t = tg_msgid r \<and> tg_tagid t = new)) (db_tags db))"
  let ?ts = "map (tg_tagid_update (\<lambda>_. new)) (filter (\<lambda>r. tg_tagid r = old) (db_tags db))"
  let ?us = "map (ut_tag_id_update (\<lambda>_. new)) (filter (\<lambda>r. ut_tag_id r = old) (db_user_tags db))"
  let ?db1 = "db_tags_update (filter (\<lambda>r. tg_tagid r \<noteq> old)) (db_tags_update (\<lambda>rs. insert_missing rs ?ts) db)"
  let ?db2 = "db_user_tags_update (filter (\<lambda>r. ut_tag_id r \<noteq> old)) (db_user_tags_update (\<lambda>rs. insert_missing rs ?us) ?db1)"
  let ?db3 = "db_tags_values_update (update_where (\<lambda>v. tv_id v = new) (\<lambda>v. v\<lparr>tv_counter := map_option (\<lambda>n. n + int ?n) (tv_counter v)\<rparr>)) ?db2"
  let ?db4 = "db_tags_synonyms_update (update_where (\<lambda>y. ty_tagid y = old) (\<lambda>y. y\<lparr>ty_tagid := new\<rparr>)) ?db3"
  from assms obtain a b dba dbb dbc where t: "insert_tags ?ts db = (Inr a, dba)"
    and u: "insert_user_tags ?us (db_tags_update (filter (\<lambda>r. tg_tagid r \<noteq> old)) dba) = (Inr b, dbb)"
    and rest: "bind_eff (exec_update_checked db_tags_values db_tags_values_update (\<lambda>v. tv_id v = new)
        (\<lambda>v. v\<lparr>tv_counter := map_option (\<lambda>n. n + int ?n) (tv_counter v)\<rparr>) (\<lambda>v. in_i32_opt (tv_counter v))) (\<lambda>_.
      bind_eff (exec_update db_tags_synonyms db_tags_synonyms_update (\<lambda>y. ty_tagid y = old) (\<lambda>y. y\<lparr>ty_tagid := new\<rparr>)) (\<lambda>_.
      bind_eff (if create then put_synonym old_name new else ret_eff ()) (\<lambda>_. delete_tag_value old)))
      (db_user_tags_update (filter (\<lambda>r. ut_tag_id r \<noteq> old)) dbb) = (Inr x, db')"
    unfolding merge_rows_def replaced_count_def exec_delete_def bind_eff_Inr_iff
    by (auto simp: insert_tags_def insert_user_tags_def split: if_splits)
  from insert_tags_Inr [OF t] have t': "dba = db_tags_update (\<lambda>rs. insert_missing rs ?ts) db"
    "\<forall>r\<in>set ?ts. r \<notin> set (db_tags db) \<longrightarrow> new \<in> tag_ids db" by auto
  from insert_user_tags_Inr [OF u] t'(1) have u': "db_user_tags_update (filter (\<lambda>r. ut_tag_id r \<noteq> old)) dbb = ?db2"
    "\<forall>r\<in>set ?us. r \<notin> set (db_user_tags db) \<longrightarrow> new \<in> tag_ids db" by auto
  from rest u'(1) obtain y db5 where p: "(if create then put_synonym old_name new else ret_eff ()) ?db4 = (Inr y, db5)"
    and last: "delete_tag_value old db5 = (Inr x, db')"
    by (auto simp: bind_eff_Inr_iff exec_update_checked_def exec_update_def split: if_splits)
  have "db5 = (if create then db_tags_synonyms_update (with_synonym old_name new) ?db4 else ?db4)"
    using p put_synonym_Inr [of old_name new ?db4 y db5] by (cases create) auto
  also have "\<dots> = merged old_name create old new db"
    by (rule pg.equality) (simp_all add: merged_def moved_def Let_def update_where_def merged_counter_def)
  finally have "db5 = merged old_name create old new db" .
  with last t'(2) u'(2) show ?thesis by simp
qed

lemma keeps_merge_rows:
  assumes "tags_ok db" and "merge_rows old_name create old new db = (Inr x, db')" and "new \<in> tag_ids db"
  shows "tags_ok db'"
proof -
  let ?m = "merged old_name create old new db"
  let ?ys = "update_where (\<lambda>y. ty_tagid y = old) (\<lambda>y. y\<lparr>ty_tagid := new\<rparr>) (db_tags_synonyms db)"
  have "distinct (map ty_value ?ys)" using assms(1) by (simp add: map_update_same tags_ok_def)
  moreover have "ty_tagid y \<in> tag_ids db" if "y \<in> set ?ys" for y
    using that assms(1,3) by (auto simp: update_where_def tags_ok_def split: if_splits)
  moreover have "tg_tagid r \<in> tag_ids db" if "r \<in> set (moved tg_tagid tg_tagid_update old new (db_tags db))" for r
    using that assms(1,3) by (auto simp: moved_def tags_ok_def)
  moreover have "ut_tag_id r \<in> tag_ids db" if "r \<in> set (moved ut_tag_id ut_tag_id_update old new (db_user_tags db))" for r
    using that assms(1,3) by (auto simp: moved_def tags_ok_def)
  ultimately have "tags_ok ?m"
    using assms(1,3) unfolding tags_ok_def merged_same(3)
    by (auto simp: merged_same(1,2) merged_def Let_def moved_def insert_missing_distinct with_synonym_facts(1) simp del: map_map dest: with_synonym_facts(2))
  moreover have "delete_tag_value old ?m = (Inr x, db')" using merge_rows_Inr [OF assms(2)] by simp
  ultimately show ?thesis using keepsD [OF keeps_delete_tag_value] by blast
qed

lemma merge_tx_Inr:
  assumes "merge_tx old_name create old name db = (r, db')" and "tags_ok db"
  shows "tags_ok db' \<and> (case r of Inl e \<Rightarrow> db' = db
    | Inr new \<Rightarrow> (\<exists>db1 x. merge_target name db = (Inr new, db1) \<and> merge_rows old_name create old new db1 = (Inr x, db')))"
proof (cases r)
  case (Inl e)
  with assms show ?thesis by (simp add: merge_tx_def transaction_err)
next
  case (Inr new)
  with assms(1) obtain db1 x where t: "merge_target name db = (Inr new, db1)" and m: "merge_rows old_name create old new db1 = (Inr x, db')"
    by (auto simp: merge_tx_def transaction_Inr bind_eff_Inr_iff)
  from merge_target_Inr [OF t assms(2)] have "tags_ok db1" "new \<in> tag_ids db1" by simp_all
  from keeps_merge_rows [OF this(1) m this(2)] t m Inr show ?thesis by auto
qed

lemma reindex_keeps:
  assumes "\<And>i b. keeps_db (trq_vUpdateMessage queue i b)"
  shows "w_db (snd (vReindexTopicIds queue ids w)) = w_db w"
proof (induction ids arbitrary: w)
  case (Cons i ids)
  obtain r w1 where r: "trq_vUpdateMessage queue i True w = (r, w1)" by fastforce
  with assms have "w_db w1 = w_db w" by (metis keeps_db_def snd_conv)
  with r Cons show ?case by (cases r) (simp_all add: bind_eff_def)
qed simp


subsection \<open>What the handlers do\<close>

definition old_tag :: "tag_env \<Rightarrow> rstr \<Rightarrow> pg \<Rightarrow> int \<Rightarrow> bool" where
  "old_tag env name db i \<longleftrightarrow> (\<exists>v\<in>set (db_tags_values db). tv_id v = i \<and> te_lower env (tv_value v) = te_lower env name)"

lemma get_tag_id_Some:
  "get_tag_id env name db = (Inr (Some i), db') \<Longrightarrow> db' = db \<and> old_tag env name db i"
  by (auto simp: get_tag_id_def old_tag_def find_Some_iff)

definition replacement :: "TagDeleteForm \<Rightarrow> rstr option" where
  "replacement form = (case td_tag_name form of Some s \<Rightarrow> if s = [] then None else Some s | None \<Rightarrow> None)"

lemma delete_errors_none:
  assumes "vecDeleteTagErrors env b (td_old_tag_name form) (td_tag_name form) c = []"
  shows "b \<and> (case replacement form of Some n \<Rightarrow> is_good_tag env n \<and> n \<noteq> td_old_tag_name form | None \<Rightarrow> \<not> c)"
  using assms by (auto simp: vecDeleteTagErrors_def Let_def replacement_def split: option.splits if_splits)

lemma delete_tag_cases:
  assumes "\<And>i b. keeps_db (trq_vUpdateMessage queue i b)" and "delete_tag env queue user form w = (r, w')"
  obtains "w_db w' = w_db w" "\<forall>loc. r \<noteq> Inr (TagFound loc)"
  | m where "user = Some m" "us_canmod m" "td_old_tag_name form \<in> ty_value ` set (db_tags_synonyms (w_db w))"
      "w_db w' = db_tags_synonyms_update (filter (\<lambda>y. ty_value y \<noteq> td_old_tag_name form)) (w_db w)"
  | m i x where "user = Some m" "us_canmod m" "td_old_tag_name form \<notin> ty_value ` set (db_tags_synonyms (w_db w))"
      "old_tag env (td_old_tag_name form) (w_db w) i" "replacement form = None" "delete_tx i (w_db w) = (x, w_db w')"
      "(\<exists>e. r = Inl e) \<or> (\<exists>n. x = Inr n)"
  | m i x name where "user = Some m" "us_canmod m" "td_old_tag_name form \<notin> ty_value ` set (db_tags_synonyms (w_db w))"
      "old_tag env (td_old_tag_name form) (w_db w) i" "replacement form = Some name" "is_good_tag env name" "name \<noteq> td_old_tag_name form"
      "merge_tx (td_old_tag_name form) (td_create_synonym form \<noteq> None) i name (w_db w) = (x, w_db w')" "(\<exists>e. r = Inl e) \<or> (\<exists>n. x = Inr n)"
proof -
  let ?n = "td_old_tag_name form" let ?db = "w_db w"
  consider (refused) "\<forall>m. user = Some m \<longrightarrow> \<not> us_canmod m" | m where "user = Some m" "us_canmod m" by auto
  then show ?thesis
  proof cases
    case refused
    with assms(2) have "w' = w \<and> r = Inl Forbidden" by (auto simp: delete_tag_def split: option.splits)
    with that(1) show ?thesis by simp
  next
    case 2
    have syn: "on_db (fetch_optional db_tags_synonyms (\<lambda>y. ty_value y = ?n)) w = (Inr (List.find (\<lambda>y. ty_value y = ?n) (db_tags_synonyms ?db)), w)"
      by (simp add: on_db_def fetch_optional_def)
    show ?thesis
    proof (cases "List.find (\<lambda>y. ty_value y = ?n) (db_tags_synonyms ?db)")
      case (Some y)
      then have "y \<in> set (db_tags_synonyms ?db)" "ty_value y = ?n" by (auto simp: find_Some_iff)
      then have "?n \<in> ty_value ` set (db_tags_synonyms ?db)" by force
      moreover have "w_db w' = db_tags_synonyms_update (filter (\<lambda>y. ty_value y \<noteq> ?n)) ?db"
        using assms(2) 2 syn Some by (auto simp: delete_tag_def Let_def on_db_def exec_delete_def bind_eff_def)
      ultimately show ?thesis using that(2) 2 by blast
    next
      case None
      then have fresh: "?n \<notin> ty_value ` set (db_tags_synonyms ?db)" by (auto simp: find_None_iff)
      obtain oid where oid: "get_tag_id env ?n ?db = (Inr oid, ?db)" by (auto simp: get_tag_id_def)
      then have oidw: "on_db (get_tag_id env ?n) w = (Inr oid, w)" by (simp add: on_db_def)
      let ?errors = "vecDeleteTagErrors env (oid \<noteq> None) ?n (td_tag_name form) (td_create_synonym form \<noteq> None)"
      show ?thesis
      proof (cases "?errors = []")
        case False
        with assms(2) 2 syn None oidw have "w' = w \<and> r = Inr (TagForm ?errors)" by (simp add: delete_tag_def Let_def)
        with that(1) show ?thesis by simp
      next
        case True
        from delete_errors_none [OF this] obtain i where i: "oid = Some i" by auto
        with oid have old: "old_tag env ?n ?db i" using get_tag_id_Some by blast
        show ?thesis
        proof (cases "replacement form")
          case none: None
          obtain x db1 where tx: "delete_tx i ?db = (x, db1)" by fastforce
          have run: "delete_tag env queue user form w = bind_eff (on_db (topics_with_tag i)) (\<lambda>affected_topics.
              bind_eff (on_db (delete_tx i)) (\<lambda>_. bind_eff (vReindexTopicIds queue affected_topics) (\<lambda>_.
              ret_eff (TagFound (tags_location env ?n))))) w"
            using 2 syn None oidw True none i by (simp add: delete_tag_def Let_def replacement_def)
          have "w_db w' = db1 \<and> ((\<exists>e. r = Inl e) \<or> (\<exists>n. x = Inr n))"
          proof (cases x)
            case (Inl e)
            with assms(2) run tx show ?thesis by (auto simp: bind_eff_def on_db_def topics_with_tag_def)
          next
            case (Inr u)
            obtain q w2 where q: "vReindexTopicIds queue (map tg_msgid (filter (\<lambda>r. tg_tagid r = i) (db_tags ?db))) (w\<lparr>w_db := db1\<rparr>) = (q, w2)" by fastforce
            then have "w_db w2 = db1" using reindex_keeps [OF assms(1), of "map tg_msgid (filter (\<lambda>r. tg_tagid r = i) (db_tags ?db))" "w\<lparr>w_db := db1\<rparr>"] by simp
            with assms(2) run tx Inr q show ?thesis by (cases q) (auto simp: bind_eff_def on_db_def topics_with_tag_def)
          qed
          with that(3) 2 fresh old none tx show ?thesis by blast
        next
          case (Some name)
          obtain x db1 where tx: "merge_tx ?n (td_create_synonym form \<noteq> None) i name ?db = (x, db1)" by fastforce
          have run: "delete_tag env queue user form w = bind_eff (on_db (merge_tx ?n (td_create_synonym form \<noteq> None) i name)) (\<lambda>new_tag_id.
              bind_eff (reindex_topics_with_tag queue new_tag_id) (\<lambda>_. ret_eff (TagFound (tags_location env name)))) w"
            using 2 syn None oidw True Some i by (simp add: delete_tag_def Let_def replacement_def)
          have "w_db w' = db1 \<and> ((\<exists>e. r = Inl e) \<or> (\<exists>n. x = Inr n))"
          proof (cases x)
            case (Inl e)
            with assms(2) run tx show ?thesis by (auto simp: bind_eff_def on_db_def)
          next
            case (Inr n)
            have "w_db (snd (reindex_topics_with_tag queue n (w\<lparr>w_db := db1\<rparr>))) = db1"
              using reindex_keeps [OF assms(1)] by (simp add: reindex_topics_with_tag_def bind_eff_def on_db_def topics_with_tag_def)
            with assms(2) run tx Inr show ?thesis
              by (cases "reindex_topics_with_tag queue n (w\<lparr>w_db := db1\<rparr>)") (auto simp: bind_eff_def on_db_def split: sum.splits)
          qed
          moreover have "is_good_tag env name" "name \<noteq> ?n" using delete_errors_none [OF True] Some by auto
          ultimately show ?thesis using that(4) 2 fresh old Some tx by blast
        qed
      qed
    qed
  qed
qed

subsection \<open>Merging\<close>

text \<open>The links of a table to tags: merging redirects them.\<close>

locale tag_links =
  fixes tag :: "'r \<Rightarrow> int" and put :: "(int \<Rightarrow> int) \<Rightarrow> 'r \<Rightarrow> 'r"
  assumes tag_put: "tag (put f r) = f (tag r)"
    and put_same: "put (\<lambda>_. tag r) r = r"
begin

definition redirect :: "int \<Rightarrow> int \<Rightarrow> 'r \<Rightarrow> 'r" where
  "redirect old new r = (if tag r = old then put (\<lambda>_. new) r else r)"

lemma moved_set: "new \<noteq> old \<Longrightarrow> set (moved tag put old new rs) = redirect old new ` set rs"
  by (auto simp: moved_def redirect_def tag_put image_iff)

lemma moved_same: "set (moved tag put old old rs) = {r \<in> set rs. tag r \<noteq> old}"
  by (auto simp: moved_def tag_put)

end

interpretation topic_links: tag_links tg_tagid tg_tagid_update
  by unfold_locales simp_all

interpretation user_links: tag_links ut_tag_id ut_tag_id_update
  by unfold_locales simp_all

definition tag_named :: "pg \<Rightarrow> rstr \<Rightarrow> int option" where
  "tag_named db name = (case List.find (\<lambda>v. tv_value v = name) (db_tags_values db) of Some v \<Rightarrow> Some (tv_id v)
     | None \<Rightarrow> map_option ty_tagid (List.find (\<lambda>y. ty_value y = name) (db_tags_synonyms db)))"

text \<open>The topics that have the one tag and not the other.\<close>

definition gaining :: "pg \<Rightarrow> int \<Rightarrow> int \<Rightarrow> nat" where
  "gaining db old new = length (filter (\<lambda>r. tg_tagid r = old \<and> (\<forall>t\<in>set (db_tags db). tg_msgid t = tg_msgid r \<longrightarrow> tg_tagid t \<noteq> new)) (db_tags db))"

lemma merge_target_named:
  assumes "merge_target name db = (Inr i, db')"
  shows "tag_named db name = Some i \<and> db' = db \<or> tag_named db name = None \<and> new_tag_value name db = (Inr i, db')"
  using assms by (auto simp: merge_target_def tag_named_def split: option.splits)

text \<open>C4: Merging a tag into another one moves everything.  When a moderator replaces an existing tag by
  a different well-formed name and the request succeeds, every topic and every user with the old tag has the
  target instead, each once, all other links are unchanged, the old tag is gone, the synonyms of it stand for the target, and so does
  its name when the moderator asks for that.  The counter of the target - an existing tag or the tag a
  synonym stands for - grows by the number of topics that gained it; when there was none, a tag of exactly that name is
  new, and its counter is that number.  All other tags are unchanged.  There is one exception: the old tag is looked up without
  regard to case, the target exactly, so when the moderator types the old name in another case and the stored name as the replacement, both are
  the same tag; it is deleted and its links to topics and users are lost.\<close>

theorem tag_merge_effect:
  assumes "\<And>i b. keeps_db (trq_vUpdateMessage queue i b)" and "tags_ok (w_db w)"
    and "delete_tag env queue user form w = (Inr (TagFound loc), w')" and "replacement form = Some name"
    and "td_old_tag_name form \<notin> ty_value ` set (db_tags_synonyms (w_db w))"
  shows "\<exists>m old new. user = Some m \<and> us_canmod m \<and> old_tag env (td_old_tag_name form) (w_db w) old \<and> is_good_tag env name \<and>
    name \<noteq> td_old_tag_name form \<and> (case tag_named (w_db w) name of Some i \<Rightarrow> new = i | None \<Rightarrow> new \<notin> tag_ids (w_db w)) \<and>
    tag_ids (w_db w') = insert new (tag_ids (w_db w)) - {old} \<and> tags_ok (w_db w') \<and>
    (if new \<noteq> old then
       set (db_tags (w_db w')) = topic_links.redirect old new ` set (db_tags (w_db w)) \<and>
       set (db_user_tags (w_db w')) = user_links.redirect old new ` set (db_user_tags (w_db w)) \<and>
       (\<forall>v\<in>set (db_tags_values (w_db w)). tv_id v = new \<longrightarrow>
          v\<lparr>tv_counter := map_option (\<lambda>n. n + int (gaining (w_db w) old new)) (tv_counter v)\<rparr> \<in> set (db_tags_values (w_db w'))) \<and>
       (tag_named (w_db w) name = None \<longrightarrow>
          \<lparr>tv_id = new, tv_counter = Some (int (gaining (w_db w) old new)), tv_value = name\<rparr> \<in> set (db_tags_values (w_db w')))
     else
       set (db_tags (w_db w')) = {r \<in> set (db_tags (w_db w)). tg_tagid r \<noteq> old} \<and>
       set (db_user_tags (w_db w')) = {r \<in> set (db_user_tags (w_db w)). ut_tag_id r \<noteq> old}) \<and>
    (\<forall>v\<in>set (db_tags_values (w_db w)). tv_id v \<noteq> old \<and> tv_id v \<noteq> new \<longrightarrow> v \<in> set (db_tags_values (w_db w'))) \<and>
    db_tags_synonyms (w_db w') = (let ys = update_where (\<lambda>y. ty_tagid y = old) (\<lambda>y. y\<lparr>ty_tagid := new\<rparr>) (db_tags_synonyms (w_db w))
       in if td_create_synonym form \<noteq> None then with_synonym (td_old_tag_name form) new ys else ys)"
proof -
  let ?db = "w_db w"
  obtain m old x where m: "user = Some m" "us_canmod m" and old: "old_tag env (td_old_tag_name form) ?db old"
    and name: "is_good_tag env name" "name \<noteq> td_old_tag_name form" and x: "\<exists>n. x = Inr n"
    and tx: "merge_tx (td_old_tag_name form) (td_create_synonym form \<noteq> None) old name ?db = (x, w_db w')"
    by (rule delete_tag_cases [OF assms(1,3)]) (use assms(4,5) in auto)
  from merge_tx_Inr [OF tx assms(2)] x obtain new db1 y where
    target: "merge_target name ?db = (Inr new, db1)"
    and rows: "merge_rows (td_old_tag_name form) (td_create_synonym form \<noteq> None) old new db1 = (Inr y, w_db w')" by auto
  note t = merge_target_Inr [OF target assms(2)]
  let ?m = "merged (td_old_tag_name form) (td_create_synonym form \<noteq> None) old new db1"
  have del: "delete_tag_value old ?m = (Inr y, w_db w')" using merge_rows_Inr [OF rows] by simp
  note ids = merged_same(3)
  have "old \<in> tag_ids ?m" unfolding ids using old t by (auto simp: old_tag_def tag_ids_def)
  with delete_tag_value_Inr [OF del] have final: "w_db w' = db_tags_values_update (filter (\<lambda>v. tv_id v \<noteq> old)) ?m" by auto
  have links: "db_tags (w_db w') = moved tg_tagid tg_tagid_update old new (db_tags ?db)"
    "db_user_tags (w_db w') = moved ut_tag_id ut_tag_id_update old new (db_user_tags ?db)"
    using t by (simp_all add: final merged_def)
  have kept: "merged_counter db1 old new u \<in> set (db_tags_values (w_db w'))" if "u \<in> set (db_tags_values db1)" "tv_id u \<noteq> old" for u
  proof -
    have "tv_id (merged_counter db1 old new u) = tv_id u" by (simp add: merged_counter_def)
    with that show ?thesis by (simp add: final merged_def)
  qed
  have "v\<lparr>tv_counter := map_option (\<lambda>n. n + int (gaining ?db old new)) (tv_counter v)\<rparr> \<in> set (db_tags_values (w_db w'))"
    if "v \<in> set (db_tags_values ?db)" "tv_id v = new" "new \<noteq> old" for v
  proof -
    from that(1) t have "v \<in> set (db_tags_values db1)" by auto
    then have "merged_counter db1 old new v \<in> set (db_tags_values (w_db w'))" using that(2,3) by (intro kept) simp_all
    moreover have "merged_counter db1 old new v = v\<lparr>tv_counter := map_option (\<lambda>n. n + int (gaining ?db old new)) (tv_counter v)\<rparr>"
      using t that(2) by (simp add: merged_counter_def gaining_def)
    ultimately show ?thesis by simp
  qed
  moreover have "\<lparr>tv_id = new, tv_counter = Some (int (gaining ?db old new)), tv_value = name\<rparr> \<in> set (db_tags_values (w_db w'))"
    if "tag_named ?db name = None" "new \<noteq> old"
  proof -
    let ?v = "\<lparr>tv_id = new, tv_counter = Some 0, tv_value = name\<rparr>"
    from that(1) merge_target_named [OF target] have "new_tag_value name ?db = (Inr new, db1)" by auto
    from new_tag_value_Inr [OF this] have "?v \<in> set (db_tags_values db1)" by simp
    then have "merged_counter db1 old new ?v \<in> set (db_tags_values (w_db w'))" using that(2) by (intro kept) simp_all
    moreover have "merged_counter db1 old new ?v = \<lparr>tv_id = new, tv_counter = Some (int (gaining ?db old new)), tv_value = name\<rparr>"
      using t by (simp add: merged_counter_def gaining_def)
    ultimately show ?thesis by simp
  qed
  moreover have "\<forall>v\<in>set (db_tags_values ?db). tv_id v \<noteq> old \<and> tv_id v \<noteq> new \<longrightarrow> v \<in> set (db_tags_values (w_db w'))"
  proof (intro ballI impI)
    fix v assume v: "v \<in> set (db_tags_values ?db)" "tv_id v \<noteq> old \<and> tv_id v \<noteq> new"
    from v(1) t have "v \<in> set (db_tags_values db1)" by auto
    moreover have "merged_counter db1 old new v = v" using v(2) by (simp add: merged_counter_def)
    ultimately show "v \<in> set (db_tags_values (w_db w'))" using kept [of v] v(2) by simp
  qed
  moreover have "db_tags_synonyms (w_db w') = (let ys = update_where (\<lambda>y. ty_tagid y = old) (\<lambda>y. y\<lparr>ty_tagid := new\<rparr>) (db_tags_synonyms ?db)
       in if td_create_synonym form \<noteq> None then with_synonym (td_old_tag_name form) new ys else ys)"
    using t by (simp add: final merged_def)
  moreover have "tags_ok (w_db w')" using merge_tx_Inr [OF tx assms(2)] x by simp
  moreover have "tag_ids (w_db w') = insert new (tag_ids ?db) - {old}" using t ids by (simp add: final)
  moreover have "case tag_named ?db name of Some i \<Rightarrow> new = i | None \<Rightarrow> new \<notin> tag_ids ?db"
    using merge_target_named [OF target] by (auto dest: new_tag_value_Inr)
  ultimately show ?thesis
    using m old name by (intro exI [of _ m] exI [of _ old] exI [of _ new])
      (simp add: links topic_links.moved_set user_links.moved_set topic_links.moved_same user_links.moved_same)
qed

text \<open>The example: topic 5 has the tag \<open>linux\<close>, a favourite of user 7; the moderator merges it
  into \<open>gnu\<close>, or types \<open>Linux\<close> and merges it into \<open>linux\<close>.\<close>

definition ex_tag_db :: pg where
  "ex_tag_db = ex_db\<lparr>db_tags_values := [\<lparr>tv_id = 1, tv_counter = Some 1, tv_value = u ''linux''\<rparr>, \<lparr>tv_id = 2, tv_counter = Some 0, tv_value = u ''gnu''\<rparr>],
     db_tag_seq := 3, db_tags := [\<lparr>tg_msgid = 5, tg_tagid = 1\<rparr>], db_user_tags := [\<lparr>ut_user_id = 7, ut_tag_id = 1, ut_is_favorite = True\<rparr>]\<rparr>"

definition ex_merge :: "rstr \<Rightarrow> rstr \<Rightarrow> TagDeleteForm" where
  "ex_merge a b = \<lparr>td_old_tag_name = a, td_tag_name = Some b, td_create_synonym = None\<rparr>"

definition ex_tag_world :: "(int \<times> bool) list world" where
  "ex_tag_world = \<lparr>w_db = ex_tag_db, w_queue = []\<rparr>"

lemma ex_tags_ok: "tags_ok ex_tag_db"
  by (simp add: tags_ok_def ex_tag_db_def ex_db_def tag_ids_def)

definition ex_merged :: "pg" where
  "ex_merged = ex_tag_db\<lparr>db_tags_values := [\<lparr>tv_id = 2, tv_counter = Some 1, tv_value = u ''gnu''\<rparr>],
     db_tags := [\<lparr>tg_msgid = 5, tg_tagid = 2\<rparr>], db_user_tags := [\<lparr>ut_user_id = 7, ut_tag_id = 2, ut_is_favorite = True\<rparr>]\<rparr>"

lemma ex_merge_tx: "merge_tx (u ''linux'') False 1 (u ''gnu'') ex_tag_db = (Inr 2, ex_merged)"
  by (simp add: merge_tx_def transaction_def merge_target_def merge_rows_def replaced_count_def insert_tags_def insert_user_tags_def
      bind_eff_def exec_delete_def exec_update_checked_def exec_update_def delete_tag_value_def value_of_def of_defs insert_missing_def
      in_i32_def update_where_def ex_tag_db_def ex_db_def ex_user_def ex_topic_def ex_merged_def)

lemma ex_merge_run:
  "delete_tag ex_tag_env (log_queue False) (Some ex_moderator) (ex_merge (u ''linux'') (u ''gnu'')) ex_tag_world
     = (Inr (TagFound (u ''/tags/g'')), \<lparr>w_db = ex_merged, w_queue = [(5, True)]\<rparr>)"
proof -
  have "get_tag_id ex_tag_env (u ''linux'') ex_tag_db = (Inr (Some 1), ex_tag_db)"
    by (simp add: get_tag_id_def ex_tag_db_def ex_tag_simps)
  moreover have "vecDeleteTagErrors ex_tag_env True (u ''linux'') (Some (u ''gnu'')) False = []"
    by (simp add: vecDeleteTagErrors_def ex_tag_simps)
  moreover have "fetch_optional db_tags_synonyms (\<lambda>y. ty_value y = u ''linux'') ex_tag_db = (Inr None, ex_tag_db)"
    by (simp add: fetch_optional_def ex_tag_db_def ex_db_def)
  moreover have "tags_location ex_tag_env (u ''gnu'') = u ''/tags/g''" by (simp add: tags_location_def first_letter_of_def ex_tag_simps)
  moreover have "topics_with_tag 2 ex_merged = (Inr [5], ex_merged)" by (simp add: topics_with_tag_def ex_merged_def)
  moreover have "u ''gnu'' \<noteq> []" by simp
  ultimately show ?thesis
    using ex_merge_tx
    by (simp add: delete_tag_def ex_moderator_def ex_merge_def ex_tag_world_def bind_eff_def on_db_def Let_def reindex_topics_with_tag_def
        log_queue_def del: u_simps)
qed

lemma ex_merge_facts:
  "replacement (ex_merge (u ''linux'') (u ''gnu'')) = Some (u ''gnu'')"
  "td_old_tag_name (ex_merge (u ''linux'') (u ''gnu'')) \<notin> ty_value ` set (db_tags_synonyms (w_db ex_tag_world))"
  by (simp_all add: ex_merge_def replacement_def ex_tag_world_def ex_tag_db_def ex_db_def)

theorem tag_merge_effect_witness:
  "\<exists>old new. old \<noteq> new \<and> set (db_tags ex_merged) = topic_links.redirect old new ` set (db_tags ex_tag_db)"
proof -
  have w: "w_db ex_tag_world = ex_tag_db" by (simp add: ex_tag_world_def)
  have "tags_ok (w_db ex_tag_world)" using ex_tags_ok by (simp add: ex_tag_world_def)
  note merge = tag_merge_effect [OF log_queue_keeps_db this ex_merge_run ex_merge_facts(1,2)]
  have lost: "\<lparr>tg_msgid = 5, tg_tagid = 2\<rparr> \<in> set (db_tags ex_merged)" "\<lparr>tg_msgid = 5, tg_tagid = 2\<rparr> \<notin> set (db_tags ex_tag_db)"
    by (simp_all add: ex_merged_def ex_tag_db_def)
  from merge show ?thesis
  proof (elim exE conjE, goal_cases)
    case (1 m old new)
    note outcome = 1(9) [unfolded w world.simps]
    show ?case
    proof (cases "new = old")
      case True
      from outcome have "set (db_tags ex_merged) \<subseteq> set (db_tags ex_tag_db)" unfolding True by simp
      with lost show ?thesis by blast
    next
      case False
      with outcome show ?thesis by (intro exI [of _ old] exI [of _ new]) simp
    qed
  qed
qed

text \<open>The exception is real: from \<open>Linux\<close> to \<open>linux\<close>, and topic 5 and user 7 have lost the tag.\<close>

theorem merge_case_variant:
  "old_tag ex_tag_env (u ''Linux'') ex_tag_db 1 \<and> vecDeleteTagErrors ex_tag_env True (u ''Linux'') (Some (u ''linux'')) False = [] \<and>
   (\<exists>db'. merge_tx (u ''Linux'') False 1 (u ''linux'') ex_tag_db = (Inr 1, db') \<and> db_tags db' = [] \<and> db_user_tags db' = [] \<and> tag_ids db' = {2})"
proof (intro conjI exI)
  show "old_tag ex_tag_env (u ''Linux'') ex_tag_db 1"
    by (auto simp: old_tag_def ex_tag_db_def ex_tag_env_def to_ascii_lowercase_def ascii_lower_def)
  show "vecDeleteTagErrors ex_tag_env True (u ''Linux'') (Some (u ''linux'')) False = []"
    by (simp add: vecDeleteTagErrors_def ex_tag_simps)
  let ?db = "ex_tag_db\<lparr>db_tags_values := [\<lparr>tv_id = 2, tv_counter = Some 0, tv_value = u ''gnu''\<rparr>], db_tags := [], db_user_tags := []\<rparr>"
  show "merge_tx (u ''Linux'') False 1 (u ''linux'') ex_tag_db = (Inr 1, ?db)"
    by (simp add: merge_tx_def transaction_def merge_target_def merge_rows_def replaced_count_def insert_tags_def insert_user_tags_def
      bind_eff_def exec_delete_def exec_update_checked_def exec_update_def delete_tag_value_def value_of_def of_defs insert_missing_def
      in_i32_def update_where_def ex_tag_db_def ex_db_def ex_user_def ex_topic_def)
  show "db_tags ?db = []" "db_user_tags ?db = []" "tag_ids ?db = {2}" by (simp_all add: tag_ids_def)
qed

subsection \<open>Replacing the tags of a topic\<close>

definition with_values :: "pg_tag_value list \<Rightarrow> int \<Rightarrow> pg \<Rightarrow> pg" where
  "with_values vs n db = db_tag_seq_update (\<lambda>_. n) (db_tags_values_update (\<lambda>ws. ws @ vs) db)"

lemma find_append: "List.find p (xs @ ys) = (case List.find p xs of None \<Rightarrow> List.find p ys | Some x \<Rightarrow> Some x)"
  by (induction xs) auto

lemma find_tag_stable: "find_tag env x db = Some i \<Longrightarrow> find_tag env x (with_values vs n db) = Some i"
  by (auto simp: find_tag_def with_values_def find_append split: option.splits)

lemma find_tag_counters:
  assumes f: "\<And>v. tv_id (f v) = tv_id v" "\<And>v. tv_value (f v) = tv_value v" and "db_tags_synonyms db' = db_tags_synonyms db"
    and "db_tags_values db' = update_where p f (db_tags_values db)"
  shows "find_tag env x db' = find_tag env x db"
proof -
  have "map_option tv_id (List.find (\<lambda>v. te_lower env (tv_value v) = y) (update_where p f vs)) =
      map_option tv_id (List.find (\<lambda>v. te_lower env (tv_value v) = y) vs)" for y vs
    by (induction vs) (auto simp: update_where_def f)
  then show ?thesis unfolding find_tag_def assms(3,4) by presburger
qed

lemma upsert_fresh:
  assumes "find_tag env name db = None" and "upsert_tag_value name db = (Inr i, db')"
  shows "find_tag env name db' = Some i \<and> (\<exists>v. tv_id v = i \<and> db' = with_values [v] (i + 1) db)"
proof -
  have none: "List.find (\<lambda>y. te_lower env (ty_value y) = te_lower env name) (db_tags_synonyms db) = None"
    "List.find (\<lambda>v. te_lower env (tv_value v) = te_lower env name) (db_tags_values db) = None"
    using assms(1) by (auto simp: find_tag_def split: option.splits)
  then have "List.find (\<lambda>v. tv_value v = name) (db_tags_values db) = None" by (auto simp: find_None_iff)
  with assms(2) have "new_tag_value name db = (Inr i, db')" by (simp add: upsert_tag_value_def)
  from new_tag_value_Inr [OF this] have db': "db' = with_values [\<lparr>tv_id = i, tv_counter = Some 0, tv_value = name\<rparr>] (i + 1) db"
    by (simp add: with_values_def)
  with none have "find_tag env name db' = Some i" by (simp add: find_tag_def with_values_def find_append)
  with db' show ?thesis by (intro conjI exI [of _ "\<lparr>tv_id = i, tv_counter = Some 0, tv_value = name\<rparr>"]) simp_all
qed

lemma with_values_twice: "with_values ws m (with_values vs n db) = with_values (vs @ ws) m db"
  by (simp add: with_values_def)

lemma with_values_none: "with_values [] (db_tag_seq db) db = db"
  by (simp add: with_values_def)

lemma desired_tags_Inr:
  assumes "desired_tags env ids names db = (Inr ids', db')"
  shows "(\<exists>vs n. db' = with_values vs n db \<and> tv_id ` set vs \<subseteq> set ids') \<and>
    (\<forall>x\<in>set names. find_tag env x db' \<noteq> None) \<and> set ids' = set ids \<union> {i. \<exists>x\<in>set names. find_tag env x db' = Some i} \<and>
    (distinct ids \<longrightarrow> distinct ids') \<and> length ids' \<le> length ids + length names"
  using assms
proof (induction names arbitrary: ids db)
  case Nil
  then have "ids' = ids" "db' = with_values [] (db_tag_seq db) db" by (simp_all add: with_values_none)
  then show ?case by (auto intro!: exI [of _ "[]"])
next
  case (Cons x names)
  then obtain i db1 where one: "(case find_tag env x db of Some i \<Rightarrow> ret_eff i | None \<Rightarrow> upsert_tag_value x) db = (Inr i, db1)"
    and rest: "desired_tags env (if i \<in> set ids then ids else ids @ [i]) names db1 = (Inr ids', db')"
    by (auto simp: bind_eff_Inr_iff)
  have first: "find_tag env x db1 = Some i \<and> (\<exists>vs n. db1 = with_values vs n db \<and> tv_id ` set vs \<subseteq> {i})"
  proof (cases "find_tag env x db")
    case None
    with one upsert_fresh [OF None] show ?thesis by force
  next
    case (Some j)
    with one have "i = j" "db1 = with_values [] (db_tag_seq db) db" by (simp_all add: with_values_none)
    with Some show ?thesis by (intro conjI exI [of _ "[]"] exI [of _ "db_tag_seq db"]) (simp_all add: with_values_none)
  qed
  note IH = Cons.IH [OF rest]
  from first obtain vs n where one: "find_tag env x db1 = Some i" "db1 = with_values vs n db" "tv_id ` set vs \<subseteq> {i}" by blast
  from IH obtain ws m where two: "db' = with_values ws m db1" "tv_id ` set ws \<subseteq> set ids'" by blast
  have grown: "set (if i \<in> set ids then ids else ids @ [i]) = insert i (set ids)" by auto
  have here: "find_tag env x db' = Some i" unfolding two(1) by (rule find_tag_stable) (rule one(1))
  have "i \<in> set ids'" using IH unfolding grown by blast
  have "\<exists>vs n. db' = with_values vs n db \<and> tv_id ` set vs \<subseteq> set ids'"
    using one(3) two(2) \<open>i \<in> set ids'\<close>
    by (intro exI [of _ "vs @ ws"] exI [of _ m]) (auto simp: two(1) one(2) with_values_twice)
  moreover have "set ids' = set ids \<union> {j. \<exists>y\<in>set (x # names). find_tag env y db' = Some j}"
  proof -
    have "{j. \<exists>y\<in>set (x # names). find_tag env y db' = Some j} = insert i {j. \<exists>y\<in>set names. find_tag env y db' = Some j}"
      using here by auto
    with IH grown show ?thesis by (simp only: Un_insert_left Un_insert_right)
  qed
  moreover have "distinct ids \<longrightarrow> distinct ids'" using IH by (simp split: if_splits)
  moreover have "length ids' \<le> length ids + length (x # names)" using IH by (simp split: if_splits)
  moreover have "\<forall>y\<in>set (x # names). find_tag env y db' \<noteq> None" using IH here by simp
  ultimately show ?case by blast
qed

lemma vReplaceTags_Inr:
  assumes "vReplaceTags env i optTags db = (Inr (), db')"
  obtains names ids db1 vs n where "case optTags of None \<Rightarrow> names = [] | Some raw \<Rightarrow> parse_and_validate_tags env raw = Inr names" "desired_tags env [] names db = (Inr ids, db1)"
    "db1 = with_values vs n db" "tv_id ` set vs \<subseteq> set ids"
    "db_tags db' = insert_missing (filter (\<lambda>r. tg_msgid r \<noteq> i) (db_tags db)) (map (\<lambda>j. \<lparr>tg_msgid = i, tg_tagid = j\<rparr>) ids)"
    "db_tags_synonyms db' = db_tags_synonyms db1"
    "db_tags_values db' = update_where (\<lambda>v. tv_id v \<in> set ids \<union> tg_tagid ` {r \<in> set (db_tags db). tg_msgid r = i})
        (\<lambda>v. v\<lparr>tv_counter := Some (int (count_tag db' (tv_id v)))\<rparr>) (db_tags_values db1)"
proof -
  obtain names where names: "case optTags of None \<Rightarrow> names = [] | Some raw \<Rightarrow> parse_and_validate_tags env raw = Inr names"
  proof (cases optTags)
    case (Some raw)
    with assms have "\<exists>names. parse_and_validate_tags env raw = Inr names" by (auto simp: vReplaceTags_def bind_eff_def split: sum.splits)
    with Some that show thesis by auto
  qed (use that in simp)
  with assms obtain ids db1 db3 a where ids: "desired_tags env [] names db = (Inr ids, db1)"
    and ins: "insert_tags (map (\<lambda>j. \<lparr>tg_msgid = i, tg_tagid = j\<rparr>) ids) (db_tags_update (filter (\<lambda>r. tg_msgid r \<noteq> i)) db1) = (Inr a, db3)"
    and rest: "(let affected_ids = insert_missing (map tg_tagid (filter (\<lambda>r. tg_msgid r = i) (db_tags db1))) ids in
     if affected_ids \<noteq> [] then bind_eff (recount_tags affected_ids) (\<lambda>_. ret_eff ()) else ret_eff ()) db3 = (Inr (), db')"
    by (cases optTags) (auto simp: vReplaceTags_def bind_eff_Inr_iff exec_delete_def)
  from desired_tags_Inr [OF ids] obtain vs n where db1: "db1 = with_values vs n db" "tv_id ` set vs \<subseteq> set ids" by blast
  then have tags1: "db_tags db1 = db_tags db" by (simp add: with_values_def)
  from insert_tags_Inr [OF ins] have db3: "db3 = db_tags_update (\<lambda>rs. insert_missing rs (map (\<lambda>j. \<lparr>tg_msgid = i, tg_tagid = j\<rparr>) ids))
      (db_tags_update (filter (\<lambda>r. tg_msgid r \<noteq> i)) db1)" by simp
  let ?A = "insert_missing (map tg_tagid (filter (\<lambda>r. tg_msgid r = i) (db_tags db))) ids"
  have A: "set ?A = set ids \<union> tg_tagid ` {r \<in> set (db_tags db). tg_msgid r = i}" by auto
  have final: "db' = db_tags_values_update (update_where (\<lambda>v. tv_id v \<in> set ?A) (\<lambda>v. v\<lparr>tv_counter := Some (int (count_tag db3 (tv_id v)))\<rparr>)) db3"
  proof (cases "?A = []")
    case True
    then show ?thesis using rest by (simp add: tags1 update_where_def)
  next
    case False
    then show ?thesis using rest
      by (auto simp: tags1 bind_eff_Inr_iff recount_tags_def exec_update_checked_def exec_update_def split: if_splits)
  qed
  then have "count_tag db3 = count_tag db'" by (simp add: count_tag_def fun_eq_iff)
  with final have vals: "db_tags_values db' = update_where (\<lambda>v. tv_id v \<in> set ids \<union> tg_tagid ` {r \<in> set (db_tags db). tg_msgid r = i})
        (\<lambda>v. v\<lparr>tv_counter := Some (int (count_tag db' (tv_id v)))\<rparr>) (db_tags_values db1)"
    unfolding A [symmetric] by (simp add: db3)
  have "db_tags db' = insert_missing (filter (\<lambda>r. tg_msgid r \<noteq> i) (db_tags db)) (map (\<lambda>j. \<lparr>tg_msgid = i, tg_tagid = j\<rparr>) ids)"
    "db_tags_synonyms db' = db_tags_synonyms db1"
    by (simp_all add: final db3 tags1)
  from that [OF names ids db1 this vals] show ?thesis .
qed

lemma replaced_rows:
  assumes "vReplaceTags env i optTags db = (Inr (), db')"
  shows "\<exists>names ids. (case optTags of None \<Rightarrow> names = [] | Some raw \<Rightarrow> parse_and_validate_tags env raw = Inr names) \<and>
    distinct ids \<and> length ids \<le> length names \<and>
    (\<forall>x\<in>set names. find_tag env x db' \<noteq> None) \<and> set ids = {j. \<exists>x\<in>set names. find_tag env x db' = Some j} \<and>
    set (db_tags db') = {r \<in> set (db_tags db). tg_msgid r \<noteq> i} \<union> (\<lambda>j. \<lparr>tg_msgid = i, tg_tagid = j\<rparr>) ` set ids \<and>
    (\<forall>v\<in>set (db_tags_values db'). if tv_id v \<in> set ids \<union> tg_tagid ` {r \<in> set (db_tags db). tg_msgid r = i}
       then tv_counter v = Some (int (count_tag db' (tv_id v))) else v \<in> set (db_tags_values db)) \<and>
    (\<forall>x j. find_tag env x db = Some j \<longrightarrow> find_tag env x db' = Some j)"
proof -
  obtain names ids db1 vs n where names: "case optTags of None \<Rightarrow> names = [] | Some raw \<Rightarrow> parse_and_validate_tags env raw = Inr names" and ids: "desired_tags env [] names db = (Inr ids, db1)"
    and db1: "db1 = with_values vs n db" "tv_id ` set vs \<subseteq> set ids"
    and tags: "db_tags db' = insert_missing (filter (\<lambda>r. tg_msgid r \<noteq> i) (db_tags db)) (map (\<lambda>j. \<lparr>tg_msgid = i, tg_tagid = j\<rparr>) ids)"
    and syn: "db_tags_synonyms db' = db_tags_synonyms db1"
    and vals: "db_tags_values db' = update_where (\<lambda>v. tv_id v \<in> set ids \<union> tg_tagid ` {r \<in> set (db_tags db). tg_msgid r = i})
        (\<lambda>v. v\<lparr>tv_counter := Some (int (count_tag db' (tv_id v)))\<rparr>) (db_tags_values db1)"
    by (rule vReplaceTags_Inr [OF assms])
  have same: "find_tag env x db' = find_tag env x db1" for x
    by (rule find_tag_counters [OF _ _ syn vals]) simp_all
  note d = desired_tags_Inr [OF ids]
  have "if tv_id v \<in> set ids \<union> tg_tagid ` {r \<in> set (db_tags db). tg_msgid r = i}
      then tv_counter v = Some (int (count_tag db' (tv_id v))) else v \<in> set (db_tags_values db)" if "v \<in> set (db_tags_values db')" for v
  proof -
    from that [unfolded vals update_where_def set_map] obtain v0 where v0: "v0 \<in> set (db_tags_values db1)"
      and v: "v = (if tv_id v0 \<in> set ids \<union> tg_tagid ` {r \<in> set (db_tags db). tg_msgid r = i}
        then v0\<lparr>tv_counter := Some (int (count_tag db' (tv_id v0)))\<rparr> else v0)" by (elim imageE)
    from v0 have "v0 \<in> set (db_tags_values db) \<or> v0 \<in> set vs" unfolding db1(1) by (simp add: with_values_def)
    with v db1(2) show ?thesis by auto
  qed
  moreover have "set (db_tags db') = {r \<in> set (db_tags db). tg_msgid r \<noteq> i} \<union> (\<lambda>j. \<lparr>tg_msgid = i, tg_tagid = j\<rparr>) ` set ids"
    unfolding tags by auto
  moreover have "find_tag env x db' = Some j" if "find_tag env x db = Some j" for x j
    unfolding same db1(1) by (rule find_tag_stable [OF that])
  ultimately show ?thesis
    using names d by (intro exI [of _ names] exI [of _ ids]) (simp add: same)
qed

lemma tags_set:
  assumes "vReplaceTags env i (Some raw) db = (Inr (), db')"
  shows "\<exists>names ids. parse_and_validate_tags env raw = Inr names \<and> distinct ids \<and> 1 \<le> length ids \<and> length ids \<le> 5 \<and>
    (\<forall>x\<in>set names. find_tag env x db' \<noteq> None) \<and> set ids = {j. \<exists>x\<in>set names. find_tag env x db' = Some j} \<and>
    set (db_tags db') = {r \<in> set (db_tags db). tg_msgid r \<noteq> i} \<union> (\<lambda>j. \<lparr>tg_msgid = i, tg_tagid = j\<rparr>) ` set ids \<and>
    (\<forall>v\<in>set (db_tags_values db'). if tv_id v \<in> set ids \<union> tg_tagid ` {r \<in> set (db_tags db). tg_msgid r = i}
       then tv_counter v = Some (int (count_tag db' (tv_id v))) else v \<in> set (db_tags_values db)) \<and>
    (\<forall>x j. find_tag env x db = Some j \<longrightarrow> find_tag env x db' = Some j)"
proof -
  from replaced_rows [OF assms] show ?thesis
  proof (elim exE conjE, goal_cases)
    case (1 names ids)
    then have names: "parse_and_validate_tags env raw = Inr names" by simp
    then have "names \<noteq> []" "length names \<le> 5" unfolding tags_valid_iff by blast+
    from this(1) 1(4,5) have "ids \<noteq> []" by (cases names) auto
    then have "1 \<le> length ids" by (simp add: Suc_le_eq)
    moreover have "length ids \<le> 5" using 1(3) \<open>length names \<le> 5\<close> by simp
    ultimately show ?case using 1 names by blast
  qed
qed

text \<open>C18: Setting the tags of a topic does just that.  After a successful replacement the topic has one to five tags:
  those the names of the submitted list stand for, through a synonym or by their own name in any case, or new ones; the tags of all other topics are the same;
  the counter of every tag the topic had or has is the number of topics with it, and all other tags are unchanged.  Names that were known keep their meaning.\<close>

theorem tags_replaced:
  assumes "vReplaceTags env i (Some raw) db = (Inr (), db')"
  shows "\<exists>names ids. parse_and_validate_tags env raw = Inr names \<and> distinct ids \<and> 1 \<le> length ids \<and> length ids \<le> 5 \<and>
    (\<forall>x\<in>set names. find_tag env x db' \<noteq> None) \<and> set ids = {j. \<exists>x\<in>set names. find_tag env x db' = Some j} \<and>
    set (db_tags db') = {r \<in> set (db_tags db). tg_msgid r \<noteq> i} \<union> (\<lambda>j. \<lparr>tg_msgid = i, tg_tagid = j\<rparr>) ` set ids \<and>
    (\<forall>v\<in>set (db_tags_values db'). if tv_id v \<in> set ids \<union> tg_tagid ` {r \<in> set (db_tags db). tg_msgid r = i}
       then tv_counter v = Some (int (count_tag db' (tv_id v))) else v \<in> set (db_tags_values db)) \<and>
    (\<forall>x j. find_tag env x db = Some j \<longrightarrow> find_tag env x db' = Some j)"
  by (rule tags_set [OF assms])

lemma vReplaceTags_frame:
  assumes "vReplaceTags env i opt db = (Inr x, db')"
  shows "(\<exists>vs n ts. db' = db\<lparr>db_tags_values := vs, db_tag_seq := n, db_tags := ts\<rparr>) \<and>
    (opt = None \<longrightarrow> db_tags db' = filter (\<lambda>r. tg_msgid r \<noteq> i) (db_tags db))"
proof -
  from assms obtain names ids db1 db3 a where names: "opt = None \<longrightarrow> names = []" and ids: "desired_tags env [] names db = (Inr ids, db1)"
    and ins: "insert_tags (map (\<lambda>j. \<lparr>tg_msgid = i, tg_tagid = j\<rparr>) ids) (db_tags_update (filter (\<lambda>r. tg_msgid r \<noteq> i)) db1) = (Inr a, db3)"
    and rest: "(let affected_ids = insert_missing (map tg_tagid (filter (\<lambda>r. tg_msgid r = i) (db_tags db1))) ids in
     if affected_ids \<noteq> [] then bind_eff (recount_tags affected_ids) (\<lambda>_. ret_eff ()) else ret_eff ()) db3 = (Inr x, db')"
    by (cases opt) (auto simp: vReplaceTags_def bind_eff_Inr_iff exec_delete_def split: sum.splits)
  from desired_tags_Inr [OF ids] obtain vs n where db1: "db1 = with_values vs n db" by blast
  from insert_tags_Inr [OF ins] have db3: "db3 = db_tags_update (\<lambda>rs. insert_missing rs (map (\<lambda>j. \<lparr>tg_msgid = i, tg_tagid = j\<rparr>) ids))
      (db_tags_update (filter (\<lambda>r. tg_msgid r \<noteq> i)) db1)" by simp
  from rest have "db' = db3\<lparr>db_tags_values := db_tags_values db'\<rparr>"
    by (auto simp: Let_def bind_eff_Inr_iff recount_tags_def exec_update_checked_def exec_update_def split: if_splits)
  then obtain ws where "db' = db3\<lparr>db_tags_values := ws\<rparr>" ..
  then have shape: "\<exists>vs n ts. db' = db\<lparr>db_tags_values := vs, db_tag_seq := n, db_tags := ts\<rparr> \<and> db_tags db' = db_tags db3"
    by (intro exI [of _ ws] exI [of _ n] exI [of _ "db_tags db3"]) (simp add: db3 db1 with_values_def)
  moreover have "ids = []" if "opt = None" using ids names that by simp
  then have "opt = None \<longrightarrow> db_tags db3 = filter (\<lambda>r. tg_msgid r \<noteq> i) (db_tags db)"
    by (auto simp: db3 db1 with_values_def insert_missing_def)
  ultimately show ?thesis by auto
qed

subsection \<open>Counters\<close>














subsection \<open>Deleting and renaming\<close>










subsection \<open>Examples of a replacement\<close>

lemma ex_replace:
  "vReplaceTags ex_tag_env 5 (Some (u ''GNU,rust'')) ex_tag_db = (Inr (), ex_tag_db\<lparr>db_tags_values :=
     [\<lparr>tv_id = 1, tv_counter = Some 0, tv_value = u ''linux''\<rparr>, \<lparr>tv_id = 2, tv_counter = Some 1, tv_value = u ''gnu''\<rparr>,
      \<lparr>tv_id = 3, tv_counter = Some 1, tv_value = u ''rust''\<rparr>], db_tag_seq := 4,
     db_tags := [\<lparr>tg_msgid = 5, tg_tagid = 2\<rparr>, \<lparr>tg_msgid = 5, tg_tagid = 3\<rparr>]\<rparr>)"
proof -
  have "parse_and_validate_tags ex_tag_env (u ''GNU,rust'') = Inr [u ''gnu'', u ''rust'']"
    unfolding tags_valid_iff by (simp add: parse_tags_def ex_tag_simps)
  then show ?thesis
    by (simp add: vReplaceTags_def bind_eff_def find_tag_def upsert_tag_value_def new_tag_value_def next_val_def exec_insert_def exec_delete_def
      insert_tags_def value_of_def of_defs recount_tags_def exec_update_checked_def exec_update_def update_where_def count_tag_def insert_missing_def
      in_i32_def ex_tag_db_def ex_db_def ex_topic_def ex_tag_env_def to_ascii_lowercase_def ascii_lower_def)
qed

theorem tags_replaced_witness:
  "\<exists>ids. distinct ids \<and> set (db_tags (snd (vReplaceTags ex_tag_env 5 (Some (u ''GNU,rust'')) ex_tag_db)))
     = (\<lambda>j. \<lparr>tg_msgid = 5, tg_tagid = j\<rparr>) ` set ids"
proof -
  let ?db = "snd (vReplaceTags ex_tag_env 5 (Some (u ''GNU,rust'')) ex_tag_db)"
  have "vReplaceTags ex_tag_env 5 (Some (u ''GNU,rust'')) ex_tag_db = (Inr (), ?db)" unfolding ex_replace by simp
  from tags_replaced [OF this] show ?thesis
  proof (elim exE conjE, goal_cases)
    case (1 names ids)
    have "{r \<in> set (db_tags ex_tag_db). tg_msgid r \<noteq> 5} = {}" by (auto simp: ex_tag_db_def)
    with 1(2,7) show ?case by (intro exI [of _ ids]) (simp only: Un_empty_left simp_thms)
  qed
qed

end
