(* ===== verification/Spec2Isabelle.thy ===== *)
theory Spec2Isabelle
  imports Title Topic_Posting Binding Operations Realtime Topic_Edit Request_Filters Login Profile Comment_Guards Topic_View Tag_Store
begin

text \<open>
  The program is the Rust server of a discussion forum.  Requests pass a chain of filters
  (\<open>src/http_method_firewall.rs\<close>, \<open>src/csrf.rs\<close>, the session layer of \<open>src/auth.rs\<close>), reach a
  handler under \<open>src/routes/\<close>, which binds parameters and calls a service of
  \<open>src/application/\<close>.  A service applies the rules of \<open>src/domain/\<close> and calls a repository of
  \<open>src/infra/postgres/\<close>, each of whose operations is one database transaction; afterwards it
  may queue search messages and notify browsers through the realtime hub.  The library models
  the rules, the services and the transactions, the filters, the sessions and the hub.

  \<^bold>\<open>Foundations.\<close>
  \<open>Prelude\<close>: strings as lists of scalar values, fixed-width integers, results and effects (the
  \<open>?\<close> operator is \<open>bind_eff\<close>), instants.  \<open>Bytes\<close>: UTF-8 and hexadecimal digests.  \<open>Errors\<close>: the
  error type of \<open>src/error.rs\<close> and its rendering.  \<open>Store\<close>: the PostgreSQL tables the modelled
  statements touch, with keys, the row triggers and the statement semantics (\<open>exec_update\<close>,
  \<open>transaction\<close>); a table is a list of records, one field for each column the code names.  The
  locale \<open>keyed_table\<close> is what the repositories rely on of a table with a primary key; it is
  interpreted on every such table.  The rules \<open>keeps\<close> carry an invariant through the composition
  of statements.

  \<^bold>\<open>Requests.\<close>
  \<open>Binding\<close>: first-value lookup (locale \<open>first_value\<close>, interpreted on the three lookups of the
  code), the merge of query and form (\<open>src/form.rs\<close>), the binders of the deletion, moderation and
  comment forms.  \<open>Request_Filters\<close>: the firewall and the CSRF filter; a POST handler runs only
  with the token of its own request, and an accepted path has one reading.  \<open>Security\<close>: password
  truncation and verification, the remember-me cookie, the client address, registration and
  reset tokens (\<open>src/security.rs\<close>); round trips, binding of a cookie to password and session
  generation, no spoofing past an untrusted hop.  \<open>Login\<close>: the failed-login cache, the author of a
  post (\<open>src/application/auth/mod.rs\<close>), the session lookup and the password check (\<open>src/auth.rs\<close>), login and
  logout (\<open>src/routes/auth.rs\<close>).  The state is the users table and the cache; the cache refines the
  log of failures, a login opens a session, ending all sessions revokes every cookie.

  \<^bold>\<open>Topics and comments.\<close>
  \<open>Title\<close>: escaping and typography of titles (\<open>src/domain/title.rs\<close>).  \<open>Topic_Posting\<close>: the
  restriction chain, the daily limit and the flood caches (locale \<open>flood_gate\<close>, interpreted on both
  caches).  \<open>Topic_Edit\<close>: rights and the editing service of \<open>src/domain/topic/edit.rs\<close> and
  \<open>src/application/topic/edit.rs\<close>.  \<open>Topic_Options\<close>, \<open>Topic_Deletion\<close>, \<open>Comment_Deletion\<close>,
  \<open>Topic_Moderation\<close>: policy, service and repository each, with the exact effect of a successful
  call on the store, the guards before it and what an error leaves behind.  \<open>Warnings\<close>: warnings
  and the counter of open ones.  \<open>User_Moderation\<close>: the eleven mutations of
  \<open>src/infra/postgres/user_moderation_repository.rs\<close> and the mass deletion of a blocked user.
  \<open>Posting_Store\<close>: the statements behind the posting policy, so that who may start a topic is
  decided by the store.  \<open>Address_Deletion\<close>: bans of addresses and the mass deletion of what was
  posted from one, with the handlers of \<open>src/routes/admin.rs\<close>.

  \<^bold>\<open>Comments and settings.\<close>
  \<open>Profile\<close>: the settings text of \<open>src/profile.rs\<close>, its form and the handler that saves it
  (\<open>src/routes/users.rs\<close>).  From \<open>src/routes/comments.rs\<close>: \<open>Comment_Posting\<close>, the checks on
  text, author, address and topic; \<open>Comment_Writing\<close>, the transactions that add and edit a
  comment with the handlers around them; \<open>Comment_Effects\<close>, what a new comment and its
  notifications do to the store; \<open>Comment_Guards\<close>, that a request which left the store changed
  had passed every check.  The proofs of \<open>Comment_Guards\<close> walk a handler by elimination rules:
  a check that only reads (\<open>reads\<close>) ends the request or leaves the store alone (\<open>pass_..\<close>).
  From \<open>src/routes/api.rs\<close>: \<open>Reactions\<close>, the reactions to a topic or comment with their log and the
  notification of the author; \<open>Polls\<close>, the votes of a poll, and that two requests of one user
  whose statements interleave break the rule of one choice.
  From \<open>src/routes/topics.rs\<close>: \<open>Topic_View\<close>, who may open a topic and see its deleted comments,
  and the thread below one comment.

  \<^bold>\<open>Tags.\<close>
  \<open>Tags\<close>: names, lists of names, who may create one, and the statements that set the tags of a
  topic (\<open>vReplaceTags\<close> of \<open>src/infra/postgres/topic_repository.rs\<close>) and rename, merge or delete a
  tag (\<open>src/routes/tags.rs\<close>).  \<open>Tag_Store\<close>: the consistency of the four tag tables (\<open>tags_ok\<close>) and of the
  counters of the tags (\<open>tags_counted\<close>) under all of them, and exactly what deleting, renaming, merging and replacing do.  Merging and replacing treat the tags of topics and
  of users alike: the locale \<open>tag_links\<close> states it for a table of links and is interpreted on both.
  Merging a tag into a variant of its own name that differs in case only loses it; the property on
  merging states the case apart and \<open>merge_case_variant\<close> runs it.

  \<^bold>\<open>Composition.\<close>
  \<open>Store_Invariants\<close>: the locale \<open>store_invariant\<close> states what an invariant of the store owes to
  each kind of statement; it is interpreted for the unread counters, the keys, the threads and the address
  bans.  \<open>Operations\<close> composes the transactions of all repositories into the step relations
  \<open>post_step\<close> and \<open>store_step\<close> and proves, once for every such invariant, that each history keeps
  it.

  \<^bold>\<open>Realtime.\<close>
  \<open>Realtime\<close>: the subscription table and indexes of \<open>src/application/realtime/mod.rs\<close>, delivery, the
  catch-up query and the subscription message; \<open>rt_step\<close> interleaves them.  A closed session gets no
  further sender; what was sent before may still be delivered (\<open>mail\<close> counts a mailbox together with what is in flight to it).

  \<^bold>\<open>What the groups of lemmas show.\<close>
  \<open>.._effect\<close>: the store after success, row by row, or the unchanged store after an error;
  \<open>.._guard(ed)\<close>: which conditions hold whenever something was written; \<open>.._history\<close> and
  \<open>.._invariant\<close>: what every sequence of operations keeps; \<open>.._roundtrip\<close>, \<open>.._contract\<close>,
  \<open>.._refine_..\<close>: agreement with an inverse, a policy or a simpler reference.

  \<^bold>\<open>Bounds and fuel.\<close>
  The walk over the replies of a comment takes at most one round for each comment of the store
  plus one; \<open>gap_offset\<close> searches at most \<open>48 * 60\<close> minute steps.  All other recursion is
  structural or has a measure.  \<open>i32\<close> and \<open>i64\<close> arithmetic that can leave its range is written
  with \<open>wrap_i32\<close>, \<open>wrap_i64\<close> or a range check of the database.

  \<^bold>\<open>Parameters.\<close>
  Libraries and services are arguments: digests, ciphers, Base64, percent- and form-decoding, the
  entity decoder, Unicode lower-casing, address parsing, the calendar of a time zone, the CAPTCHA
  service, the search queue, HTML templates.  Where a property needs a promise of theirs it is a
  named hypothesis (\<open>codec_ok\<close>, \<open>sealing_ok\<close>, \<open>no_collision\<close>), and a witness gives an instance.

  \<^bold>\<open>Not modelled.\<close>
  Rendering (templates, markup on top of a Markdown library, Atom and RSS), read-only listings and
  their SQL, images (decoding is done by libraries), the search index documents and queries sent to
  OpenSearch, start-up, schedulers and configuration, SMTP.  Losing the database connection and
  concurrent transactions are outside the model, a transaction is one step; \<open>Polls\<close> alone looks at
  two of them.  Creating a topic (the handler and transaction of \<open>src/routes/topics.rs\<close>), registration and password reset,
  the editing transaction, accounts, the search
  queue and pagination are left for later.
\<close>

end
